(* ===== verification/Fuse_Prelude.thy ===== *)
theory Fuse_Prelude
  imports Main "HOL-Library.Word" "HOL-Library.Monad_Syntax"
begin

text \<open>
  Shared vocabulary of the development.

  \<^item> Machine integers of the sources: \<open>u8\<close>, \<open>u16\<close>, \<open>u32\<close>, \<open>u64\<close> are words (unsigned
    arithmetic wraps); \<open>int\<close> values that hold an errno or a small signed quantity are \<open>int\<close>;
    \<open>size_t\<close> values are \<open>nat\<close>.
  \<^item> A kernel operation that may \<open>panic()\<close> or dereference freed memory returns an
    \<^typ>\<open>'a option\<close>, where \<^term>\<open>None\<close> stands for the crash; errno results are values.
  \<^item> Flag words are tested with \<open>flag_set w m\<close>, the C expression \<open>(w & m) != 0\<close>.
  \<^item> \<open>le_enc\<close> and \<open>le_dec\<close> lay a word out in memory, lowest byte first (the machines the
    kernel extension is built for), and read it back.
  \<^item> Two locales for transition systems: \<open>invariant_system\<close> lifts an invariant of single
    steps to runs, \<open>crash_free_system\<close> does so for the absence of crashes.
\<close>

unbundle bit_operations_syntax

type_synonym u8 = "8 word"
type_synonym u16 = "16 word"
type_synonym u32 = "32 word"
type_synonym u64 = "64 word"

named_theorems flag_simps \<open>tests of flag words after a flag is set or cleared\<close>
named_theorems codec_simps \<open>sizes and round trips of the wire encodings\<close>

section \<open>Errno values of the platform\<close>

text \<open>The numbers of \<open>sys/errno.h\<close> the sources return, with their platform values.\<close>

abbreviation (input) EPERM :: int where "EPERM \<equiv> 1"
abbreviation (input) ENOENT :: int where "ENOENT \<equiv> 2"
abbreviation (input) EINTR :: int where "EINTR \<equiv> 4"
abbreviation (input) EIO :: int where "EIO \<equiv> 5"
abbreviation (input) ENXIO :: int where "ENXIO \<equiv> 6"
abbreviation (input) ENOMEM :: int where "ENOMEM \<equiv> 12"
abbreviation (input) EACCES :: int where "EACCES \<equiv> 13"
abbreviation (input) EFAULT :: int where "EFAULT \<equiv> 14"
abbreviation (input) EBUSY :: int where "EBUSY \<equiv> 16"
abbreviation (input) ENODEV :: int where "ENODEV \<equiv> 19"
abbreviation (input) EINVAL :: int where "EINVAL \<equiv> 22"
abbreviation (input) EROFS :: int where "EROFS \<equiv> 30"
abbreviation (input) EAGAIN :: int where "EAGAIN \<equiv> 35"
abbreviation (input) EALREADY :: int where "EALREADY \<equiv> 37"
abbreviation (input) EPROTONOSUPPORT :: int where "EPROTONOSUPPORT \<equiv> 43"
abbreviation (input) ENOTSUP :: int where "ENOTSUP \<equiv> 45"
abbreviation (input) ENOTCONN :: int where "ENOTCONN \<equiv> 57"
abbreviation (input) ENAMETOOLONG :: int where "ENAMETOOLONG \<equiv> 63"
abbreviation (input) ESTALE :: int where "ESTALE \<equiv> 70"
abbreviation (input) ENOSYS :: int where "ENOSYS \<equiv> 78"

section \<open>Flag words\<close>

definition flag_set :: "'a::len word \<Rightarrow> 'a word \<Rightarrow> bool" where
  "flag_set w m \<longleftrightarrow> w AND m \<noteq> 0"

lemma flag_set_0 [simp, flag_simps]: "\<not> flag_set 0 m"
  by (simp add: flag_set_def)

lemma flag_set_or: "flag_set (w OR v) m \<longleftrightarrow> flag_set w m \<or> flag_set v m"
  by (simp add: flag_set_def bit.conj_disj_distrib2 or_eq_0_iff)

lemma flag_set_or_self [flag_simps]: "m \<noteq> 0 \<Longrightarrow> flag_set (w OR m) m"
  by (simp add: flag_set_or) (simp add: flag_set_def)

lemma flag_set_or_other [flag_simps]:
  "v AND m = 0 \<Longrightarrow> flag_set (w OR v) m \<longleftrightarrow> flag_set w m"
  by (simp add: flag_set_or) (simp add: flag_set_def)

lemma flag_set_clear_self [flag_simps]: "\<not> flag_set (w AND NOT m) m"
  by (simp add: flag_set_def and.assoc)

lemma flag_set_clear_other [flag_simps]:
  assumes "v AND m = 0"
  shows "flag_set (w AND NOT v) m \<longleftrightarrow> flag_set w m"
proof -
  have "NOT v AND m = m"
  proof (rule bit_word_eqI)
    fix n assume "n < LENGTH('a)"
    moreover have "\<not> (bit v n \<and> bit m n)"
      using assms by (metis bit_and_iff bit_0_eq bot_apply bot_bool_def)
    ultimately show "bit (NOT v AND m) n = bit m n"
      by (auto simp add: bit_and_iff bit_not_iff)
  qed
  then show ?thesis by (simp add: flag_set_def and.assoc)
qed

section \<open>Words in memory\<close>

fun le_enc :: "nat \<Rightarrow> 'a::len word \<Rightarrow> u8 list" where
  "le_enc 0 w = []"
| "le_enc (Suc n) w = ucast w # le_enc n (drop_bit 8 w)"

fun le_dec :: "u8 list \<Rightarrow> 'a::len word" where
  "le_dec [] = 0"
| "le_dec (b # bs) = ucast b OR push_bit 8 (le_dec bs)"

lemma length_le_enc [simp, codec_simps]: "length (le_enc n w) = n"
  by (induction n arbitrary: w) auto

lemma le_dec_le_enc: "le_dec (le_enc n w) = take_bit (8 * n) w"
proof (induction n arbitrary: w)
  case 0
  then show ?case by simp
next
  case (Suc n)
  show ?case
  proof (rule bit_word_eqI)
    fix k assume "k < LENGTH('a)"
    then show "bit (le_dec (le_enc (Suc n) w) :: 'a word) k = bit (take_bit (8 * Suc n) w) k"
      by (auto simp add: Suc bit_simps)
  qed
qed

lemma le_dec_enc32 [simp, codec_simps]: "le_dec (le_enc 4 (w :: u32)) = w"
  by (simp add: le_dec_le_enc take_bit_word_eq_self)

lemma le_dec_enc64 [simp, codec_simps]: "le_dec (le_enc 8 (w :: u64)) = w"
  by (simp add: le_dec_le_enc take_bit_word_eq_self)

lemma unat_of_nat32: "n < 2 ^ 32 \<Longrightarrow> unat (of_nat n :: u32) = n"
  by (simp add: unsigned_of_nat take_bit_nat_eq_self)

text \<open>Overwriting a field at an offset of a buffer, and reading one.\<close>

definition put_bytes :: "nat \<Rightarrow> u8 list \<Rightarrow> u8 list \<Rightarrow> u8 list" where
  "put_bytes off bs buf = take off buf @ bs @ drop (off + length bs) buf"

definition get_bytes :: "nat \<Rightarrow> nat \<Rightarrow> u8 list \<Rightarrow> u8 list" where
  "get_bytes off n buf = take n (drop off buf)"

lemma length_put_bytes [simp]:
  "off + length bs \<le> length buf \<Longrightarrow> length (put_bytes off bs buf) = length buf"
  by (simp add: put_bytes_def)

lemma get_put_same:
  "off + length bs \<le> length buf \<Longrightarrow> n = length bs \<Longrightarrow> get_bytes off n (put_bytes off bs buf) = bs"
  by (simp add: get_bytes_def put_bytes_def)

lemma get_put_before:
  assumes "o1 + n \<le> o2" and "o2 + length bs \<le> length buf"
  shows "get_bytes o1 n (put_bytes o2 bs buf) = get_bytes o1 n buf"
  using assms by (simp add: get_bytes_def put_bytes_def min_def take_drop)

lemma get_put_after:
  assumes "o2 + length bs \<le> o1" and "o2 + length bs \<le> length buf"
  shows "get_bytes o1 n (put_bytes o2 bs buf) = get_bytes o1 n buf"
proof -
  have "drop o1 (take o2 buf @ bs @ drop (o2 + length bs) buf) = drop o1 buf"
    using assms by (simp add: drop_append)
  then show ?thesis by (simp add: get_bytes_def put_bytes_def)
qed

lemmas get_put = get_put_same get_put_before get_put_after

section \<open>Lists as tail queues\<close>

lemma remove1_append_fresh: "x \<notin> set xs \<Longrightarrow> remove1 x (xs @ ys) = xs @ remove1 x ys"
  by (simp add: remove1_append)

lemma set_remove1_distinct [simp]: "distinct xs \<Longrightarrow> set (remove1 x xs) = set xs - {x}"
  by (rule set_remove1_eq)

section \<open>Transition systems\<close>

text \<open>
  A deterministic machine whose steps may crash (\<^term>\<open>None\<close>), driven by events of its
  environment; \<open>ok s e\<close> says which events the environment may produce in state \<open>s\<close>.
\<close>

fun run_events :: "('s \<Rightarrow> 'e \<Rightarrow> 's option) \<Rightarrow> 's \<Rightarrow> 'e list \<Rightarrow> 's option" where
  "run_events step s [] = Some s"
| "run_events step s (e # es) =
     (case step s e of None \<Rightarrow> None | Some t \<Rightarrow> run_events step t es)"

fun events_ok :: "('s \<Rightarrow> 'e \<Rightarrow> bool) \<Rightarrow> ('s \<Rightarrow> 'e \<Rightarrow> 's option) \<Rightarrow> 's \<Rightarrow> 'e list \<Rightarrow> bool" where
  "events_ok ok step s [] = True"
| "events_ok ok step s (e # es) =
     (ok s e \<and> (case step s e of None \<Rightarrow> True | Some t \<Rightarrow> events_ok ok step t es))"

locale invariant_system =
  fixes step :: "'s \<Rightarrow> 'e \<Rightarrow> 's option"
    and ok :: "'s \<Rightarrow> 'e \<Rightarrow> bool"
    and inv :: "'s \<Rightarrow> bool"
  assumes step_inv: "inv s \<Longrightarrow> ok s e \<Longrightarrow> step s e = Some t \<Longrightarrow> inv t"
begin

lemma run_inv:
  "inv s \<Longrightarrow> events_ok ok step s es \<Longrightarrow> run_events step s es = Some t \<Longrightarrow> inv t"
proof (induction es arbitrary: s)
  case Nil
  then show ?case by simp
next
  case (Cons e es)
  then show ?case by (auto split: option.splits dest: step_inv)
qed

end

locale crash_free_system = invariant_system +
  assumes step_defined: "inv s \<Longrightarrow> ok s e \<Longrightarrow> \<exists>t. step s e = Some t"
begin

lemma run_defined:
  "inv s \<Longrightarrow> events_ok ok step s es \<Longrightarrow> \<exists>t. run_events step s es = Some t \<and> inv t"
proof (induction es arbitrary: s)
  case Nil
  then show ?case by simp
next
  case (Cons e es)
  then obtain t where t: "step s e = Some t" using step_defined by force
  with Cons.prems have "inv t" and "events_ok ok step t es"
    by (auto dest: step_inv)
  from Cons.IH [OF this] t show ?case by simp
qed

end

end
