(* ===== verification/Fuse_Kernel.thy ===== *)
theory Fuse_Kernel
  imports Fuse_Prelude
begin

text \<open>
  The kernel-user protocol of \<open>core/10.5/fusefs/fuse_kernel.h\<close>: opcodes, the sizes of the
  message bodies (with \<open>__FreeBSD__ = 10\<close>, as the project file builds it), and the two message
  headers with their layout in memory. The session flags and the not-implemented bits are those of
  \<open>fuse_ipc.h\<close>.
\<close>

section \<open>Opcodes\<close>

datatype fuse_opcode =
    FUSE_LOOKUP | FUSE_FORGET | FUSE_GETATTR | FUSE_SETATTR | FUSE_READLINK | FUSE_SYMLINK
  | FUSE_MKNOD | FUSE_MKDIR | FUSE_UNLINK | FUSE_RMDIR | FUSE_RENAME | FUSE_LINK | FUSE_OPEN
  | FUSE_READ | FUSE_WRITE | FUSE_STATFS | FUSE_RELEASE | FUSE_FSYNC | FUSE_SETXATTR
  | FUSE_GETXATTR | FUSE_LISTXATTR | FUSE_REMOVEXATTR | FUSE_FLUSH | FUSE_INIT | FUSE_OPENDIR
  | FUSE_READDIR | FUSE_RELEASEDIR | FUSE_FSYNCDIR | FUSE_GETLK | FUSE_SETLK | FUSE_SETLKW
  | FUSE_ACCESS | FUSE_CREATE | FUSE_INTERRUPT | FUSE_BMAP | FUSE_DESTROY | FUSE_SETVOLNAME
  | FUSE_GETXTIMES | FUSE_EXCHANGE

fun opcode_num :: "fuse_opcode \<Rightarrow> nat" where
  "opcode_num FUSE_LOOKUP = 1"
| "opcode_num FUSE_FORGET = 2"
| "opcode_num FUSE_GETATTR = 3"
| "opcode_num FUSE_SETATTR = 4"
| "opcode_num FUSE_READLINK = 5"
| "opcode_num FUSE_SYMLINK = 6"
| "opcode_num FUSE_MKNOD = 8"
| "opcode_num FUSE_MKDIR = 9"
| "opcode_num FUSE_UNLINK = 10"
| "opcode_num FUSE_RMDIR = 11"
| "opcode_num FUSE_RENAME = 12"
| "opcode_num FUSE_LINK = 13"
| "opcode_num FUSE_OPEN = 14"
| "opcode_num FUSE_READ = 15"
| "opcode_num FUSE_WRITE = 16"
| "opcode_num FUSE_STATFS = 17"
| "opcode_num FUSE_RELEASE = 18"
| "opcode_num FUSE_FSYNC = 20"
| "opcode_num FUSE_SETXATTR = 21"
| "opcode_num FUSE_GETXATTR = 22"
| "opcode_num FUSE_LISTXATTR = 23"
| "opcode_num FUSE_REMOVEXATTR = 24"
| "opcode_num FUSE_FLUSH = 25"
| "opcode_num FUSE_INIT = 26"
| "opcode_num FUSE_OPENDIR = 27"
| "opcode_num FUSE_READDIR = 28"
| "opcode_num FUSE_RELEASEDIR = 29"
| "opcode_num FUSE_FSYNCDIR = 30"
| "opcode_num FUSE_GETLK = 31"
| "opcode_num FUSE_SETLK = 32"
| "opcode_num FUSE_SETLKW = 33"
| "opcode_num FUSE_ACCESS = 34"
| "opcode_num FUSE_CREATE = 35"
| "opcode_num FUSE_INTERRUPT = 36"
| "opcode_num FUSE_BMAP = 37"
| "opcode_num FUSE_DESTROY = 38"
| "opcode_num FUSE_SETVOLNAME = 61"
| "opcode_num FUSE_GETXTIMES = 62"
| "opcode_num FUSE_EXCHANGE = 63"

definition all_opcodes :: "fuse_opcode list" where
  "all_opcodes =
    [FUSE_LOOKUP, FUSE_FORGET, FUSE_GETATTR, FUSE_SETATTR, FUSE_READLINK, FUSE_SYMLINK,
     FUSE_MKNOD, FUSE_MKDIR, FUSE_UNLINK, FUSE_RMDIR, FUSE_RENAME, FUSE_LINK, FUSE_OPEN,
     FUSE_READ, FUSE_WRITE, FUSE_STATFS, FUSE_RELEASE, FUSE_FSYNC, FUSE_SETXATTR,
     FUSE_GETXATTR, FUSE_LISTXATTR, FUSE_REMOVEXATTR, FUSE_FLUSH, FUSE_INIT, FUSE_OPENDIR,
     FUSE_READDIR, FUSE_RELEASEDIR, FUSE_FSYNCDIR, FUSE_GETLK, FUSE_SETLK, FUSE_SETLKW,
     FUSE_ACCESS, FUSE_CREATE, FUSE_INTERRUPT, FUSE_BMAP, FUSE_DESTROY, FUSE_SETVOLNAME,
     FUSE_GETXTIMES, FUSE_EXCHANGE]"

text \<open>The opcode a header carries, when its number is one of the enumeration.\<close>

definition opcode_of :: "u32 \<Rightarrow> fuse_opcode option" where
  "opcode_of w = find (\<lambda>op. opcode_num op = unat w) all_opcodes"

definition opcode_word :: "fuse_opcode \<Rightarrow> u32" where
  "opcode_word op = of_nat (opcode_num op)"

lemma unat_opcode_word: "unat (opcode_word op) = opcode_num op"
  by (cases op) (simp_all add: opcode_word_def)

lemma opcode_of_word [simp, codec_simps]: "opcode_of (opcode_word op) = Some op"
  by (cases op) (simp_all add: opcode_of_def unat_opcode_word all_opcodes_def)

lemma set_all_opcodes: "op \<in> set all_opcodes"
  by (cases op) (simp_all add: all_opcodes_def)

lemma opcode_of_SomeD: "opcode_of w = Some op \<Longrightarrow> opcode_word op = w"
  by (auto simp: opcode_of_def find_Some_iff opcode_word_def)

section \<open>Sizes of the message bodies\<close>

definition sizeof_entry_out :: nat where "sizeof_entry_out = 4 * 8 + 2 * 4 + 96"
definition sizeof_attr_out :: nat where "sizeof_attr_out = 8 + 2 * 4 + 96"
definition sizeof_getxtimes_out :: nat where "sizeof_getxtimes_out = 2 * 8 + 2 * 4"
definition sizeof_open_out :: nat where "sizeof_open_out = 8 + 2 * 4"
definition sizeof_write_out :: nat where "sizeof_write_out = 2 * 4"
definition sizeof_statfs_out :: nat where "sizeof_statfs_out = 5 * 8 + 4 * 4 + 6 * 4"
definition sizeof_init_out :: nat where "sizeof_init_out = 6 * 4"
definition sizeof_in_header :: nat where "sizeof_in_header = 2 * 4 + 2 * 8 + 4 * 4"
definition sizeof_out_header :: nat where "sizeof_out_header = 2 * 4 + 8"
definition FUSE_COMPAT_STATFS_SIZE :: nat where "FUSE_COMPAT_STATFS_SIZE = 48"

lemmas sizeof_simps =
  sizeof_entry_out_def sizeof_attr_out_def sizeof_getxtimes_out_def sizeof_open_out_def
  sizeof_write_out_def sizeof_statfs_out_def sizeof_init_out_def sizeof_in_header_def
  sizeof_out_header_def FUSE_COMPAT_STATFS_SIZE_def

section \<open>The header of a request\<close>

record fuse_in_header =
  ih_len :: u32
  ih_opcode :: u32
  ih_unique :: u64
  ih_nodeid :: u64
  ih_uid :: u32
  ih_gid :: u32
  ih_pid :: u32

text \<open>
  Storing the fields of a header into the first 40 bytes of a message buffer. The last four bytes
  of the header (\<open>padding\<close>) are not written and keep what the buffer held.
\<close>

definition put_in_header :: "fuse_in_header \<Rightarrow> u8 list \<Rightarrow> u8 list" where
  "put_in_header h buf =
     put_bytes 0 (le_enc 4 (ih_len h) @ le_enc 4 (ih_opcode h) @ le_enc 8 (ih_unique h)
       @ le_enc 8 (ih_nodeid h) @ le_enc 4 (ih_uid h) @ le_enc 4 (ih_gid h)
       @ le_enc 4 (ih_pid h)) buf"

definition get_in_header :: "u8 list \<Rightarrow> fuse_in_header" where
  "get_in_header buf =
     \<lparr>ih_len = le_dec (get_bytes 0 4 buf), ih_opcode = le_dec (get_bytes 4 4 buf),
      ih_unique = le_dec (get_bytes 8 8 buf), ih_nodeid = le_dec (get_bytes 16 8 buf),
      ih_uid = le_dec (get_bytes 24 4 buf), ih_gid = le_dec (get_bytes 28 4 buf),
      ih_pid = le_dec (get_bytes 32 4 buf)\<rparr>"

lemma get_put_in_header [codec_simps]: "get_in_header (put_in_header h buf) = h"
  by (simp add: get_in_header_def put_in_header_def put_bytes_def get_bytes_def drop_append
      take_append)

lemma length_put_in_header [codec_simps]:
  "sizeof_in_header \<le> length buf \<Longrightarrow> length (put_in_header h buf) = length buf"
  by (simp add: put_in_header_def sizeof_in_header_def)

lemma get_in_header_take [codec_simps]:
  "sizeof_in_header \<le> n \<Longrightarrow> get_in_header (take n buf) = get_in_header buf"
  by (simp add: get_in_header_def get_bytes_def sizeof_in_header_def take_drop min_def)

lemma put_in_header_tail [codec_simps]: "drop 40 (put_in_header h buf) = drop 40 buf"
  by (simp add: put_in_header_def put_bytes_def drop_append)

section \<open>The header of a reply\<close>

record fuse_out_header =
  oh_len :: u32
  oh_error :: u32
  oh_unique :: u64

definition put_out_header :: "fuse_out_header \<Rightarrow> u8 list" where
  "put_out_header h = le_enc 4 (oh_len h) @ le_enc 4 (oh_error h) @ le_enc 8 (oh_unique h)"

definition get_out_header :: "u8 list \<Rightarrow> fuse_out_header" where
  "get_out_header buf =
     \<lparr>oh_len = le_dec (get_bytes 0 4 buf), oh_error = le_dec (get_bytes 4 4 buf),
      oh_unique = le_dec (get_bytes 8 8 buf)\<rparr>"

lemma get_put_out_header [codec_simps]: "get_out_header (put_out_header h @ bs) = h"
  by (simp add: get_out_header_def put_out_header_def get_bytes_def drop_append take_append)

lemma length_put_out_header [simp, codec_simps]: "length (put_out_header h) = sizeof_out_header"
  by (simp add: put_out_header_def sizeof_out_header_def)

text \<open>\<open>bzero(&ftick->tk_aw_ohead, ...)\<close>.\<close>

definition zero_out_header :: fuse_out_header where
  "zero_out_header = \<lparr>oh_len = 0, oh_error = 0, oh_unique = 0\<rparr>"

section \<open>Session flags\<close>

abbreviation (input) FSESS_DEAD :: u32 where "FSESS_DEAD \<equiv> 0x00000001"
abbreviation (input) FSESS_OPENED :: u32 where "FSESS_OPENED \<equiv> 0x00000002"
abbreviation (input) FSESS_INITED :: u32 where "FSESS_INITED \<equiv> 0x00000004"
abbreviation (input) FSESS_ALLOW_OTHER :: u32 where "FSESS_ALLOW_OTHER \<equiv> 0x00000010"
abbreviation (input) FSESS_ALLOW_ROOT :: u32 where "FSESS_ALLOW_ROOT \<equiv> 0x00000020"
abbreviation (input) FSESS_AUTO_XATTR :: u32 where "FSESS_AUTO_XATTR \<equiv> 0x00000040"
abbreviation (input) FSESS_DEFAULT_PERMISSIONS :: u32 where
  "FSESS_DEFAULT_PERMISSIONS \<equiv> 0x00000080"
abbreviation (input) FSESS_DEFER_PERMISSIONS :: u32 where "FSESS_DEFER_PERMISSIONS \<equiv> 0x00000100"
abbreviation (input) FSESS_DIRECT_IO :: u32 where "FSESS_DIRECT_IO \<equiv> 0x00000200"
abbreviation (input) FSESS_EXTENDED_SECURITY :: u32 where "FSESS_EXTENDED_SECURITY \<equiv> 0x00000400"
abbreviation (input) FSESS_JAIL_SYMLINKS :: u32 where "FSESS_JAIL_SYMLINKS \<equiv> 0x00000800"
abbreviation (input) FSESS_KILL_ON_UNMOUNT :: u32 where "FSESS_KILL_ON_UNMOUNT \<equiv> 0x00001000"
abbreviation (input) FSESS_LOCALVOL :: u32 where "FSESS_LOCALVOL \<equiv> 0x00002000"
abbreviation (input) FSESS_NEGATIVE_VNCACHE :: u32 where "FSESS_NEGATIVE_VNCACHE \<equiv> 0x00004000"
abbreviation (input) FSESS_NO_ALERTS :: u32 where "FSESS_NO_ALERTS \<equiv> 0x00008000"
abbreviation (input) FSESS_NO_APPLEDOUBLE :: u32 where "FSESS_NO_APPLEDOUBLE \<equiv> 0x00010000"
abbreviation (input) FSESS_NO_APPLEXATTR :: u32 where "FSESS_NO_APPLEXATTR \<equiv> 0x00020000"
abbreviation (input) FSESS_NO_ATTRCACHE :: u32 where "FSESS_NO_ATTRCACHE \<equiv> 0x00040000"
abbreviation (input) FSESS_NO_READAHEAD :: u32 where "FSESS_NO_READAHEAD \<equiv> 0x00080000"
abbreviation (input) FSESS_NO_SYNCONCLOSE :: u32 where "FSESS_NO_SYNCONCLOSE \<equiv> 0x00100000"
abbreviation (input) FSESS_NO_SYNCWRITES :: u32 where "FSESS_NO_SYNCWRITES \<equiv> 0x00200000"
abbreviation (input) FSESS_NO_UBC :: u32 where "FSESS_NO_UBC \<equiv> 0x00400000"
abbreviation (input) FSESS_NO_VNCACHE :: u32 where "FSESS_NO_VNCACHE \<equiv> 0x00800000"
abbreviation (input) FSESS_CASE_INSENSITIVE :: u32 where "FSESS_CASE_INSENSITIVE \<equiv> 0x01000000"
abbreviation (input) FSESS_VOL_RENAME :: u32 where "FSESS_VOL_RENAME \<equiv> 0x02000000"
abbreviation (input) FSESS_XTIMES :: u32 where "FSESS_XTIMES \<equiv> 0x04000000"
abbreviation (input) FSESS_AUTO_CACHE :: u32 where "FSESS_AUTO_CACHE \<equiv> 0x08000000"
abbreviation (input) FSESS_NATIVE_XATTR :: u32 where "FSESS_NATIVE_XATTR \<equiv> 0x10000000"
abbreviation (input) FSESS_SPARSE :: u32 where "FSESS_SPARSE \<equiv> 0x20000000"

text \<open>The not-implemented bit of an opcode, \<open>1ULL << FUSE_MSG\<close>.\<close>

definition FSESS_NOIMPLBIT :: "fuse_opcode \<Rightarrow> u64" where
  "FSESS_NOIMPLBIT op = push_bit (opcode_num op) 1"

lemma opcode_num_less: "opcode_num op < 64"
  by (cases op) simp_all

lemma bit_NOIMPLBIT: "bit (FSESS_NOIMPLBIT op) n \<longleftrightarrow> n = opcode_num op"
  using opcode_num_less [of op]
  by (auto simp: FSESS_NOIMPLBIT_def bit_exp_iff)

lemma flag_set_NOIMPLBIT: "flag_set w (FSESS_NOIMPLBIT op) \<longleftrightarrow> bit w (opcode_num op)"
proof -
  have "bit (w AND FSESS_NOIMPLBIT op) n \<longleftrightarrow> bit w n \<and> n = opcode_num op" for n
    by (auto simp add: bit_and_iff bit_NOIMPLBIT)
  then show ?thesis
    unfolding flag_set_def by (metis bit_0_eq bot_apply bot_bool_def bit_word_eqI)
qed

end
