(* ===== verification/Fuse_Ipc.thy ===== *)
theory Fuse_Ipc
  imports Fuse_Kernel
begin

text \<open>
  The user-kernel message layer of \<open>core/10.5/fusefs/fuse_ipc.c\<close> and \<open>fuse_ipc.h\<close>: I/O vectors,
  tickets, the session structure \<open>fuse_data\<close> with its queues, and the dispatcher that sends a
  request and waits for its answer.

  Tickets live in a store, \<open>fd_tickets\<close>, from kernel addresses to ticket records; the queues hold
  addresses, as the \<open>STAILQ\<close> and \<open>TAILQ\<close> links do. Dereferencing an address that is not in the
  store, and every \<open>panic()\<close>, is \<^term>\<open>None\<close>. A function that sleeps is split at its \<open>msleep\<close>:
  \<open>..._begin\<close> runs up to the sleep and \<open>..._wake\<close> runs on from it, given the value \<open>msleep\<close>
  returned, so that other threads' steps can come between the two. The mutexes of the sources make
  each of these segments atomic and are not represented. \<open>fd_log\<close> records the wakeups a segment
  issues, in their order.
\<close>

section \<open>The environment\<close>

text \<open>
  What the kernel and the sysctl interface give: the identity of the running process, the contents
  of fresh memory, which allocations succeed, and the tunables of \<open>fuse_sysctl.c\<close> (all of them unsigned there but the credit).
\<close>

record ucred =
  cr_uid :: u32
  cr_ruid :: u32
  cr_gid :: u32
  cr_rgid :: u32
  cr_svgid :: u32

record vfs_context =
  ctx_pid :: u32
  ctx_ucred :: ucred

record kenv =
  ke_current :: vfs_context
  ke_junk :: "nat \<Rightarrow> u8"
  ke_malloc_ok :: "nat \<Rightarrow> bool"
  fuse_iov_permanent_bufsize :: nat
  fuse_iov_credit :: int
  fuse_max_freetickets :: nat
  fuse_max_tickets :: nat

text \<open>
  \<open>FUSE_OSMalloc\<close> with memory counting on (\<open>FUSE_COUNT_MEMORY\<close>, as \<open>fuse.h\<close> defines it): it
  panics when \<open>OSMalloc\<close> returns null. A size that does not fit the \<open>uint32_t\<close> it is cast to
  would give a buffer shorter than asked for; that is a crash here.
\<close>

definition FUSE_OSMalloc :: "kenv \<Rightarrow> nat \<Rightarrow> u8 list option" where
  "FUSE_OSMalloc E sz =
     (if sz < 2 ^ 32 \<and> ke_malloc_ok E sz then Some (map (ke_junk E) [0..<sz]) else None)"

definition FUSE_OSRealloc_nocopy :: "kenv \<Rightarrow> nat \<Rightarrow> u8 list option" where
  "FUSE_OSRealloc_nocopy E newsize = do { data \<leftarrow> FUSE_OSMalloc E newsize; Some data }"

text \<open>The inner option is the pointer the function returns, null being \<^term>\<open>None\<close>.\<close>

definition FUSE_OSRealloc_nocopy_canfail :: "kenv \<Rightarrow> nat \<Rightarrow> u8 list option option" where
  "FUSE_OSRealloc_nocopy_canfail E newsize =
     do { data \<leftarrow> FUSE_OSMalloc E newsize; Some (Some data) }"

section \<open>I/O vectors\<close>

record fuse_iov =
  iov_base :: "u8 list"
  iov_len :: nat
  iov_allocated_size :: nat
  iov_credit :: int

definition FU_AT_LEAST :: "nat \<Rightarrow> nat" where
  "FU_AT_LEAST siz = max siz 160"

definition fiov_init :: "kenv \<Rightarrow> nat \<Rightarrow> fuse_iov option" where
  "fiov_init E sz =
     (let msize = FU_AT_LEAST sz in
      do {
        base \<leftarrow> FUSE_OSMalloc E msize;
        Some \<lparr>iov_base = replicate (length base) 0, iov_len = 0,
              iov_allocated_size = msize, iov_credit = fuse_iov_credit E\<rparr>
      })"

text \<open>
  The condition of \<open>fiov_adjust\<close>: grow when too small, or give memory back when the vector is
  much larger than needed and its credit has run out. The credit is decremented as a side effect
  whenever the second test is reached. \<open>fuse_iov_permanent_bufsize >= 0\<close> is always true, the
  tunable being unsigned.
\<close>

definition fiov_wants_shrink :: "kenv \<Rightarrow> fuse_iov \<Rightarrow> nat \<Rightarrow> bool" where
  "fiov_wants_shrink E fiov sz \<longleftrightarrow>
     \<not> iov_allocated_size fiov < sz \<and>
     iov_allocated_size fiov - sz > fuse_iov_permanent_bufsize E"

definition fiov_credit_after :: "kenv \<Rightarrow> fuse_iov \<Rightarrow> nat \<Rightarrow> int" where
  "fiov_credit_after E fiov sz =
     (if fiov_wants_shrink E fiov sz then iov_credit fiov - 1 else iov_credit fiov)"

definition fiov_reallocs :: "kenv \<Rightarrow> fuse_iov \<Rightarrow> nat \<Rightarrow> bool" where
  "fiov_reallocs E fiov sz \<longleftrightarrow>
     iov_allocated_size fiov < sz \<or>
     (fiov_wants_shrink E fiov sz \<and> fiov_credit_after E fiov sz < 0)"

definition fiov_adjust :: "kenv \<Rightarrow> fuse_iov \<Rightarrow> nat \<Rightarrow> fuse_iov option" where
  "fiov_adjust E fiov sz =
     (if fiov_reallocs E fiov sz
      then do {
        base \<leftarrow> FUSE_OSRealloc_nocopy E (FU_AT_LEAST sz);
        Some \<lparr>iov_base = base, iov_len = sz, iov_allocated_size = FU_AT_LEAST sz,
              iov_credit = fuse_iov_credit E\<rparr>
      }
      else Some (fiov\<lparr>iov_credit := fiov_credit_after E fiov sz, iov_len := sz\<rparr>))"

definition fiov_adjust_canfail :: "kenv \<Rightarrow> fuse_iov \<Rightarrow> nat \<Rightarrow> (int \<times> fuse_iov) option" where
  "fiov_adjust_canfail E fiov sz =
     (if fiov_reallocs E fiov sz
      then do {
        tmpbase \<leftarrow> FUSE_OSRealloc_nocopy_canfail E (FU_AT_LEAST sz);
        case tmpbase of
          None \<Rightarrow> Some (ENOMEM, fiov\<lparr>iov_credit := fiov_credit_after E fiov sz\<rparr>)
        | Some base \<Rightarrow>
            Some (0, \<lparr>iov_base = base, iov_len = sz, iov_allocated_size = FU_AT_LEAST sz,
                      iov_credit = fuse_iov_credit E\<rparr>)
      }
      else Some (0, fiov\<lparr>iov_credit := fiov_credit_after E fiov sz, iov_len := sz\<rparr>))"

definition fiov_refresh :: "kenv \<Rightarrow> fuse_iov \<Rightarrow> fuse_iov option" where
  "fiov_refresh E fiov =
     fiov_adjust E (fiov\<lparr>iov_base := put_bytes 0 (replicate (iov_len fiov) 0) (iov_base fiov)\<rparr>) 0"

text \<open>The bytes a vector stands for.\<close>

definition fiov_bytes :: "fuse_iov \<Rightarrow> u8 list" where
  "fiov_bytes fiov = take (iov_len fiov) (iov_base fiov)"

section \<open>Tickets\<close>

type_synonym tkp = nat

datatype ms_type = FT_M_FIOV | FT_M_BUF
datatype aw_type = FT_A_FIOV | FT_A_BUF

text \<open>The functions the code installs as \<open>tk_aw_handler\<close>.\<close>

datatype fuse_handler = Standard_handler | Fsync_callback | Forget_callback

record fuse_ticket =
  tk_unique :: u64
  tk_flag :: u32
  tk_age :: u32
  tk_ms_fiov :: fuse_iov
  tk_ms_bufdata :: "u8 list option"
  tk_ms_bufsize :: nat
  tk_ms_type :: ms_type
  tk_aw_fiov :: fuse_iov
  tk_aw_bufdata :: "u8 list option"
  tk_aw_bufsize :: nat
  tk_aw_type :: aw_type
  tk_aw_ohead :: fuse_out_header
  tk_aw_errno :: int
  tk_aw_handler :: "fuse_handler option"

abbreviation (input) FT_ANSW :: u32 where "FT_ANSW \<equiv> 0x01"
abbreviation (input) FT_INVAL :: u32 where "FT_INVAL \<equiv> 0x02"
abbreviation (input) FT_DIRTY :: u32 where "FT_DIRTY \<equiv> 0x04"
abbreviation (input) FT_KILLL :: u32 where "FT_KILLL \<equiv> 0x08"

definition fticket_answered :: "fuse_ticket \<Rightarrow> bool" where
  "fticket_answered t = flag_set (tk_flag t) FT_ANSW"

definition fticket_set_answered :: "fuse_ticket \<Rightarrow> fuse_ticket" where
  "fticket_set_answered t = t\<lparr>tk_flag := tk_flag t OR FT_ANSW\<rparr>"

definition fticket_set_killl :: "fuse_ticket \<Rightarrow> fuse_ticket" where
  "fticket_set_killl t = t\<lparr>tk_flag := tk_flag t OR FT_KILLL\<rparr>"

definition fticket_invalidate :: "fuse_ticket \<Rightarrow> fuse_ticket" where
  "fticket_invalidate t = t\<lparr>tk_flag := tk_flag t OR FT_INVAL\<rparr>"

definition fticket_opcode :: "fuse_ticket \<Rightarrow> u32" where
  "fticket_opcode t = ih_opcode (get_in_header (iov_base (tk_ms_fiov t)))"

text \<open>The error a reply header carries, as the signed value \<open>tk_aw_ohead.error\<close>.\<close>

definition ohead_error :: "fuse_out_header \<Rightarrow> int" where
  "ohead_error h = sint (oh_error h)"

section \<open>The session\<close>

datatype mount_state = FM_NOTMOUNTED | FM_MOUNTED

text \<open>The wait channels \<open>wakeup\<close> is called on, and the dead-volume event.\<close>

datatype kevent = Wakeup_one_data | Wakeup_ticketer | Wakeup_ticket tkp | Signal_VQ_DEAD

record fuse_data =
  fd_tickets :: "tkp \<rightharpoonup> fuse_ticket"
  fd_log :: "kevent list"
  fd_mount_state :: mount_state
  fd_rootvp :: "nat option"
  fd_daemoncred :: ucred
  fd_daemonpid :: int
  fd_dataflags :: u32
  fd_mountaltflags :: u64
  fd_noimplflags :: u64
  fd_ms_head :: "tkp list"
  fd_aw_head :: "tkp list"
  fd_freetickets_head :: "tkp list"
  fd_alltickets_head :: "tkp list"
  fd_freeticket_counter :: u32
  fd_deadticket_counter :: u32
  fd_ticketer :: u64
  fd_libabi_major :: u32
  fd_libabi_minor :: u32
  fd_max_write :: u32
  fd_max_read :: u32
  fd_blocksize :: u32
  fd_iosize :: u32
  fd_userkernel_bufsize :: u32
  fd_fssubtype :: u32
  fd_volname :: string
  fd_timeout_status :: u32
  fd_daemon_timeout :: nat
  fd_daemon_timeout_p :: bool
  fd_init_timeout :: nat

abbreviation (input) FUSE_DAEMON_TIMEOUT_NONE :: u32 where "FUSE_DAEMON_TIMEOUT_NONE \<equiv> 0"
abbreviation (input) FUSE_DAEMON_TIMEOUT_PROCESSING :: u32 where
  "FUSE_DAEMON_TIMEOUT_PROCESSING \<equiv> 1"
abbreviation (input) FUSE_DAEMON_TIMEOUT_DEAD :: u32 where "FUSE_DAEMON_TIMEOUT_DEAD \<equiv> 2"

definition fuse_libabi_geq :: "fuse_data \<Rightarrow> u32 \<Rightarrow> u32 \<Rightarrow> bool" where
  "fuse_libabi_geq d abi_maj abi_min \<longleftrightarrow>
     fd_libabi_major d > abi_maj \<or> (fd_libabi_major d = abi_maj \<and> fd_libabi_minor d \<ge> abi_min)"

text \<open>A session as \<open>fdata_alloc\<close> leaves it: zeroed memory, empty queues, the opener's identity.\<close>

definition fdata_alloc :: "ucred \<Rightarrow> int \<Rightarrow> fuse_data" where
  "fdata_alloc cred pid =
     \<lparr>fd_tickets = Map.empty, fd_log = [], fd_mount_state = FM_NOTMOUNTED, fd_rootvp = None,
      fd_daemoncred = cred, fd_daemonpid = pid, fd_dataflags = 0, fd_mountaltflags = 0,
      fd_noimplflags = 0, fd_ms_head = [], fd_aw_head = [], fd_freetickets_head = [],
      fd_alltickets_head = [], fd_freeticket_counter = 0, fd_deadticket_counter = 0,
      fd_ticketer = 0, fd_libabi_major = 0, fd_libabi_minor = 0, fd_max_write = 0,
      fd_max_read = 0, fd_blocksize = 0, fd_iosize = 0, fd_userkernel_bufsize = 0,
      fd_fssubtype = 0, fd_volname = [], fd_timeout_status = FUSE_DAEMON_TIMEOUT_NONE,
      fd_daemon_timeout = 0, fd_daemon_timeout_p = False, fd_init_timeout = 0\<rparr>"

definition fdata_dead_get :: "fuse_data \<Rightarrow> bool" where
  "fdata_dead_get d = flag_set (fd_dataflags d) FSESS_DEAD"

definition fdata_set_dead :: "fuse_data \<Rightarrow> fuse_data" where
  "fdata_set_dead d =
     (if fdata_dead_get d then d
      else d\<lparr>fd_dataflags := fd_dataflags d OR FSESS_DEAD,
             fd_log := fd_log d @ [Wakeup_one_data, Wakeup_ticketer, Signal_VQ_DEAD]\<rparr>)"

definition tk_upd :: "tkp \<Rightarrow> (fuse_ticket \<Rightarrow> fuse_ticket) \<Rightarrow> fuse_data \<Rightarrow> fuse_data option" where
  "tk_upd p f d =
     (case fd_tickets d p of
        None \<Rightarrow> None
      | Some t \<Rightarrow> Some (d\<lparr>fd_tickets := (fd_tickets d)(p \<mapsto> f t)\<rparr>))"

subsection \<open>Queues\<close>

definition fuse_ms_push :: "tkp \<Rightarrow> fuse_data \<Rightarrow> fuse_data" where
  "fuse_ms_push p d = d\<lparr>fd_ms_head := fd_ms_head d @ [p]\<rparr>"

definition fuse_ms_push_head :: "tkp \<Rightarrow> fuse_data \<Rightarrow> fuse_data" where
  "fuse_ms_push_head p d = d\<lparr>fd_ms_head := p # fd_ms_head d\<rparr>"

definition fuse_ms_pop :: "fuse_data \<Rightarrow> tkp option \<times> fuse_data" where
  "fuse_ms_pop d =
     (case fd_ms_head d of [] \<Rightarrow> (None, d) | p # ps \<Rightarrow> (Some p, d\<lparr>fd_ms_head := ps\<rparr>))"

definition fuse_aw_push :: "tkp \<Rightarrow> fuse_data \<Rightarrow> fuse_data" where
  "fuse_aw_push p d = d\<lparr>fd_aw_head := fd_aw_head d @ [p]\<rparr>"

definition fuse_aw_remove :: "tkp \<Rightarrow> fuse_data \<Rightarrow> fuse_data" where
  "fuse_aw_remove p d = d\<lparr>fd_aw_head := remove1 p (fd_aw_head d)\<rparr>"

definition fuse_aw_pop :: "fuse_data \<Rightarrow> tkp option \<times> fuse_data" where
  "fuse_aw_pop d =
     (case fd_aw_head d of [] \<Rightarrow> (None, d) | p # ps \<Rightarrow> (Some p, fuse_aw_remove p d))"

definition fuse_push_freeticks :: "tkp \<Rightarrow> fuse_data \<Rightarrow> fuse_data" where
  "fuse_push_freeticks p d =
     d\<lparr>fd_freetickets_head := fd_freetickets_head d @ [p],
       fd_freeticket_counter := fd_freeticket_counter d + 1\<rparr>"

text \<open>The panic is for a counter that is not zero when the list has become empty.\<close>

definition fuse_pop_freeticks :: "fuse_data \<Rightarrow> (tkp option \<times> fuse_data) option" where
  "fuse_pop_freeticks d =
     (let (r, d1) = (case fd_freetickets_head d of
                       [] \<Rightarrow> (None, d)
                     | p # ps \<Rightarrow> (Some p, d\<lparr>fd_freetickets_head := ps,
                                   fd_freeticket_counter := fd_freeticket_counter d - 1\<rparr>))
      in if fd_freetickets_head d1 = [] \<and> fd_freeticket_counter d1 \<noteq> 0 then None
         else Some (r, d1))"

definition fuse_push_allticks :: "tkp \<Rightarrow> fuse_data \<Rightarrow> fuse_data" where
  "fuse_push_allticks p d = d\<lparr>fd_alltickets_head := fd_alltickets_head d @ [p]\<rparr>"

definition fuse_remove_allticks :: "tkp \<Rightarrow> fuse_data \<Rightarrow> fuse_data" where
  "fuse_remove_allticks p d =
     d\<lparr>fd_deadticket_counter := fd_deadticket_counter d + 1,
       fd_alltickets_head := remove1 p (fd_alltickets_head d)\<rparr>"

definition fuse_pop_allticks :: "fuse_data \<Rightarrow> tkp option \<times> fuse_data" where
  "fuse_pop_allticks d =
     (case fd_alltickets_head d of [] \<Rightarrow> (None, d) | p # ps \<Rightarrow> (Some p, fuse_remove_allticks p d))"

subsection \<open>Data coming from user space\<close>

text \<open>
  A \<open>uio\<close> of a write: the bytes user space still has to give (their number is \<open>uio_resid\<close>) and
  the results of the \<open>uiomove\<close> calls to come, a missing one being 0. When \<open>uiomove\<close> returns 0 it
  has moved the next bytes of the buffer, in order.
\<close>

record uio_w =
  uio_data :: "u8 list"
  uio_errs :: "int list"

definition uio_err :: "int list \<Rightarrow> int" where
  "uio_err es = (case es of [] \<Rightarrow> 0 | e # _ \<Rightarrow> e)"

definition uiomove_in :: "nat \<Rightarrow> uio_w \<Rightarrow> int \<times> u8 list \<times> uio_w" where
  "uiomove_in n u =
     (let e = uio_err (uio_errs u) in
      if e \<noteq> 0 then (e, [], u\<lparr>uio_errs := tl (uio_errs u)\<rparr>)
      else (0, take n (uio_data u),
            u\<lparr>uio_data := drop n (uio_data u), uio_errs := tl (uio_errs u)\<rparr>))"

section \<open>Life of a ticket\<close>

text \<open>\<open>p\<close> is the address \<open>OSMalloc\<close> gives the new ticket.\<close>

definition fticket_alloc :: "kenv \<Rightarrow> tkp \<Rightarrow> fuse_data \<Rightarrow> fuse_data option" where
  "fticket_alloc E p d =
     do {
       ms \<leftarrow> fiov_init E sizeof_in_header;
       aw \<leftarrow> fiov_init E 0;
       Some (d\<lparr>fd_ticketer := fd_ticketer d + 1,
               fd_tickets := (fd_tickets d)(p \<mapsto>
                 \<lparr>tk_unique = fd_ticketer d, tk_flag = 0, tk_age = 0,
                  tk_ms_fiov = ms, tk_ms_bufdata = None, tk_ms_bufsize = 0,
                  tk_ms_type = FT_M_FIOV,
                  tk_aw_fiov = aw, tk_aw_bufdata = None, tk_aw_bufsize = 0,
                  tk_aw_type = FT_A_FIOV,
                  tk_aw_ohead = zero_out_header, tk_aw_errno = 0, tk_aw_handler = None\<rparr>)\<rparr>)
     }"

definition fticket_refresh :: "kenv \<Rightarrow> fuse_ticket \<Rightarrow> fuse_ticket option" where
  "fticket_refresh E t =
     do {
       ms \<leftarrow> fiov_refresh E (tk_ms_fiov t);
       aw \<leftarrow> fiov_refresh E (tk_aw_fiov t);
       Some (t\<lparr>tk_ms_fiov := ms, tk_ms_bufdata := None, tk_ms_bufsize := 0,
               tk_ms_type := FT_M_FIOV, tk_aw_ohead := zero_out_header,
               tk_aw_fiov := aw, tk_aw_errno := 0, tk_aw_bufdata := None, tk_aw_bufsize := 0,
               tk_aw_type := FT_A_FIOV, tk_flag := 0, tk_age := tk_age t + 1\<rparr>)
     }"

definition fticket_destroy :: "tkp \<Rightarrow> fuse_data \<Rightarrow> fuse_data option" where
  "fticket_destroy p d =
     (case fd_tickets d p of
        None \<Rightarrow> None
      | Some t \<Rightarrow> Some (d\<lparr>fd_tickets := (fd_tickets d)(p := None)\<rparr>))"

text \<open>
  \<open>fuse_ticket_fetch\<close>: a free ticket when the counter says there is one, else a new one at
  address \<open>p\<close>. Before the handshake with the daemon is over, every fetch but the first sleeps on
  \<open>ticketer\<close>; the second component of the result says so.
\<close>

definition fuse_ticket_fetch_begin ::
  "kenv \<Rightarrow> tkp \<Rightarrow> fuse_data \<Rightarrow> (tkp \<times> bool \<times> fuse_data) option" where
  "fuse_ticket_fetch_begin E p d =
     do {
       (q, d1) \<leftarrow>
         (if fd_freeticket_counter d = 0
          then do { d1 \<leftarrow> fticket_alloc E p d; Some (p, fuse_push_allticks p d1) }
          else do {
            (r, d1) \<leftarrow> fuse_pop_freeticks d;
            case r of None \<Rightarrow> None | Some q \<Rightarrow> Some (q, d1)
          });
       if \<not> flag_set (fd_dataflags d1) FSESS_INITED \<and> fd_ticketer d1 > 1
       then Some (q, True, d1)
       else if fuse_max_tickets E \<noteq> 0 \<and>
               unat (fd_ticketer d1 - ucast (fd_deadticket_counter d1)) > fuse_max_tickets E
       then Some (q, False, fdata_set_dead d1)
       else Some (q, False, d1)
     }"

definition fuse_ticket_fetch_wake :: "int \<Rightarrow> fuse_data \<Rightarrow> fuse_data" where
  "fuse_ticket_fetch_wake err d = (if err \<noteq> 0 then fdata_set_dead d else d)"

text \<open>The whole function, with \<open>werr\<close> the result of its sleep if it sleeps.\<close>

definition fuse_ticket_fetch ::
  "kenv \<Rightarrow> tkp \<Rightarrow> int \<Rightarrow> fuse_data \<Rightarrow> (tkp \<times> fuse_data) option" where
  "fuse_ticket_fetch E p werr d =
     do {
       (q, sleeps, d1) \<leftarrow> fuse_ticket_fetch_begin E p d;
       Some (q, if sleeps then fuse_ticket_fetch_wake werr d1 else d1)
     }"

text \<open>\<open>fuse_max_freetickets >= 0\<close> is always true, the tunable being unsigned.\<close>

definition fuse_ticket_drop :: "kenv \<Rightarrow> tkp \<Rightarrow> fuse_data \<Rightarrow> fuse_data option" where
  "fuse_ticket_drop E p d =
     do {
       t \<leftarrow> fd_tickets d p;
       if fuse_max_freetickets E \<le> unat (fd_freeticket_counter d) \<or> flag_set (tk_flag t) FT_KILLL
       then fticket_destroy p (fuse_remove_allticks p d)
       else do {
         t' \<leftarrow> fticket_refresh E t;
         Some (fuse_push_freeticks p (d\<lparr>fd_tickets := (fd_tickets d)(p \<mapsto> t')\<rparr>))
       }
     }"

definition fuse_ticket_kill :: "tkp \<Rightarrow> fuse_data \<Rightarrow> fuse_data option" where
  "fuse_ticket_kill p d = fticket_destroy p (fuse_remove_allticks p d)"

definition fuse_ticket_drop_invalid :: "kenv \<Rightarrow> tkp \<Rightarrow> fuse_data \<Rightarrow> fuse_data option" where
  "fuse_ticket_drop_invalid E p d =
     do {
       t \<leftarrow> fd_tickets d p;
       if flag_set (tk_flag t) FT_INVAL then fuse_ticket_drop E p d else Some d
     }"

text \<open>
  \<open>fdata_destroy\<close> pops every ticket off the list of all tickets and destroys it; the session
  itself is freed afterwards.
\<close>

fun destroy_tickets :: "tkp list \<Rightarrow> fuse_data \<Rightarrow> fuse_data option" where
  "destroy_tickets [] d = Some d"
| "destroy_tickets (p # ps) d =
     do { d1 \<leftarrow> fticket_destroy p (fuse_remove_allticks p d); destroy_tickets ps d1 }"

definition fdata_destroy :: "fuse_data \<Rightarrow> fuse_data option" where
  "fdata_destroy d =
     destroy_tickets (fd_alltickets_head d)
       (d\<lparr>fd_timeout_status := FUSE_DAEMON_TIMEOUT_NONE\<rparr>)"

section \<open>Sending\<close>

definition fuse_insert_callback ::
  "tkp \<Rightarrow> fuse_handler option \<Rightarrow> fuse_data \<Rightarrow> fuse_data option" where
  "fuse_insert_callback p handler d =
     do {
       t \<leftarrow> fd_tickets d p;
       if fdata_dead_get d then Some d
       else do {
         d1 \<leftarrow> tk_upd p (\<lambda>t. t\<lparr>tk_aw_handler := handler\<rparr>) d;
         Some (fuse_aw_push p d1)
       }
     }"

definition fuse_insert_message :: "tkp \<Rightarrow> fuse_data \<Rightarrow> fuse_data option" where
  "fuse_insert_message p d =
     do {
       t \<leftarrow> fd_tickets d p;
       if flag_set (tk_flag t) FT_DIRTY then None
       else do {
         d1 \<leftarrow> tk_upd p (\<lambda>t. t\<lparr>tk_flag := tk_flag t OR FT_DIRTY\<rparr>) d;
         if fdata_dead_get d1 then Some d1
         else Some ((fuse_ms_push p d1)\<lparr>fd_log := fd_log d1 @ [Wakeup_one_data]\<rparr>)
       }
     }"

definition fuse_insert_message_head :: "tkp \<Rightarrow> fuse_data \<Rightarrow> fuse_data option" where
  "fuse_insert_message_head p d =
     do {
       t \<leftarrow> fd_tickets d p;
       if flag_set (tk_flag t) FT_DIRTY then None
       else do {
         d1 \<leftarrow> tk_upd p (\<lambda>t. t\<lparr>tk_flag := tk_flag t OR FT_DIRTY\<rparr>) d;
         if fdata_dead_get d1 then Some d1
         else Some ((fuse_ms_push_head p d1)\<lparr>fd_log := fd_log d1 @ [Wakeup_one_data]\<rparr>)
       }
     }"

text \<open>
  The header of a request. Without a caller's context the identity is that of the running process.
\<close>

definition fuse_setup_ihead ::
  "kenv \<Rightarrow> fuse_ticket \<Rightarrow> u64 \<Rightarrow> fuse_opcode \<Rightarrow> nat \<Rightarrow> vfs_context option \<Rightarrow> fuse_in_header" where
  "fuse_setup_ihead E t nid op blen context =
     (let ctx = (case context of Some c \<Rightarrow> c | None \<Rightarrow> ke_current E) in
      \<lparr>ih_len = of_nat (sizeof_in_header + blen), ih_opcode = opcode_word op,
       ih_unique = tk_unique t, ih_nodeid = nid, ih_uid = cr_uid (ctx_ucred ctx),
       ih_gid = cr_gid (ctx_ucred ctx), ih_pid = ctx_pid ctx\<rparr>)"

definition fdisp_fill ::
  "kenv \<Rightarrow> fuse_opcode \<Rightarrow> u64 \<Rightarrow> nat \<Rightarrow> vfs_context option \<Rightarrow> fuse_iov \<Rightarrow> fuse_ticket \<Rightarrow> fuse_ticket" where
  "fdisp_fill E op nid iosize context fiov t =
     t\<lparr>tk_ms_fiov :=
        fiov\<lparr>iov_base := put_in_header (fuse_setup_ihead E t nid op iosize context) (iov_base fiov)\<rparr>\<rparr>"

text \<open>
  \<open>fdisp_make\<close>: \<open>tick\<close> is the dispatcher's ticket, if it has one already (it is refreshed and used
  again). The result is the ticket that holds the request.
\<close>

definition fdisp_ticket ::
  "kenv \<Rightarrow> tkp option \<Rightarrow> tkp \<Rightarrow> int \<Rightarrow> fuse_data \<Rightarrow> (tkp \<times> fuse_data) option" where
  "fdisp_ticket E tick p werr d =
     (case tick of
        Some q \<Rightarrow> do {
          t \<leftarrow> fd_tickets d q;
          t' \<leftarrow> fticket_refresh E t;
          Some (q, d\<lparr>fd_tickets := (fd_tickets d)(q \<mapsto> t')\<rparr>)
        }
      | None \<Rightarrow> fuse_ticket_fetch E p werr d)"

definition fdisp_make ::
  "kenv \<Rightarrow> tkp option \<Rightarrow> tkp \<Rightarrow> int \<Rightarrow> fuse_opcode \<Rightarrow> u64 \<Rightarrow> nat \<Rightarrow> vfs_context option \<Rightarrow>
     fuse_data \<Rightarrow> (tkp \<times> fuse_data) option" where
  "fdisp_make E tick p werr op nid iosize context d =
     do {
       (q, d1) \<leftarrow> fdisp_ticket E tick p werr d;
       t \<leftarrow> fd_tickets d1 q;
       fiov \<leftarrow> fiov_adjust E (tk_ms_fiov t) (sizeof_in_header + iosize);
       d2 \<leftarrow> tk_upd q (fdisp_fill E op nid iosize context fiov) d1;
       Some (q, d2)
     }"

definition fdisp_make_canfail ::
  "kenv \<Rightarrow> tkp option \<Rightarrow> tkp \<Rightarrow> int \<Rightarrow> fuse_opcode \<Rightarrow> u64 \<Rightarrow> nat \<Rightarrow> vfs_context option \<Rightarrow>
     fuse_data \<Rightarrow> (int \<times> tkp \<times> fuse_data) option" where
  "fdisp_make_canfail E tick p werr op nid iosize context d =
     do {
       (q, d1) \<leftarrow> fdisp_ticket E tick p werr d;
       t \<leftarrow> fd_tickets d1 q;
       (failed, fiov) \<leftarrow> fiov_adjust_canfail E (tk_ms_fiov t) (sizeof_in_header + iosize);
       if failed \<noteq> 0
       then do {
         d2 \<leftarrow> tk_upd q (\<lambda>t. t\<lparr>tk_ms_fiov := fiov\<rparr>) d1;
         d3 \<leftarrow> fuse_ticket_kill q d2;
         Some (failed, q, d3)
       }
       else do {
         d2 \<leftarrow> tk_upd q (fdisp_fill E op nid iosize context fiov) d1;
         Some (0, q, d2)
       }
     }"

text \<open>The caller writes the body of its request through \<open>fdi.indata\<close>, after the header.\<close>

definition fdisp_put_indata :: "tkp \<Rightarrow> u8 list \<Rightarrow> fuse_data \<Rightarrow> fuse_data option" where
  "fdisp_put_indata p bs d =
     do {
       t \<leftarrow> fd_tickets d p;
       if sizeof_in_header + length bs \<le> length (iov_base (tk_ms_fiov t))
       then tk_upd p (\<lambda>t. t\<lparr>tk_ms_fiov := (tk_ms_fiov t)
              \<lparr>iov_base := put_bytes sizeof_in_header bs (iov_base (tk_ms_fiov t))\<rparr>\<rparr>) d
       else None
     }"

section \<open>Receiving\<close>

abbreviation (input) PAGE_SIZE :: nat where "PAGE_SIZE \<equiv> 4096"

text \<open>\<open>size\<close> of the \<open>fuse_read_in\<close> that follows the header of a read request.\<close>

definition read_in_size :: "fuse_ticket \<Rightarrow> nat" where
  "read_in_size t = unat (le_dec (get_bytes (40 + 16) 4 (iov_base (tk_ms_fiov t))) :: u32)"

text \<open>
  The body lengths \<open>fuse_body_audit\<close> accepts for an opcode; \<^term>\<open>None\<close> is its panic for the
  requests that have no answer to audit.
\<close>

fun body_length_ok :: "bool \<Rightarrow> nat \<Rightarrow> fuse_opcode \<Rightarrow> nat \<Rightarrow> bool option" where
  "body_length_ok abi rsize FUSE_LOOKUP blen = Some (blen = sizeof_entry_out)"
| "body_length_ok abi rsize FUSE_FORGET blen = None"
| "body_length_ok abi rsize FUSE_GETATTR blen = Some (blen = sizeof_attr_out)"
| "body_length_ok abi rsize FUSE_SETATTR blen = Some (blen = sizeof_attr_out)"
| "body_length_ok abi rsize FUSE_GETXTIMES blen = Some (blen = sizeof_getxtimes_out)"
| "body_length_ok abi rsize FUSE_READLINK blen = Some (PAGE_SIZE \<ge> blen)"
| "body_length_ok abi rsize FUSE_SYMLINK blen = Some (blen = sizeof_entry_out)"
| "body_length_ok abi rsize FUSE_MKNOD blen = Some (blen = sizeof_entry_out)"
| "body_length_ok abi rsize FUSE_MKDIR blen = Some (blen = sizeof_entry_out)"
| "body_length_ok abi rsize FUSE_UNLINK blen = Some (blen = 0)"
| "body_length_ok abi rsize FUSE_RMDIR blen = Some (blen = 0)"
| "body_length_ok abi rsize FUSE_RENAME blen = Some (blen = 0)"
| "body_length_ok abi rsize FUSE_LINK blen = Some (blen = sizeof_entry_out)"
| "body_length_ok abi rsize FUSE_OPEN blen = Some (blen = sizeof_open_out)"
| "body_length_ok abi rsize FUSE_READ blen = Some (rsize \<ge> blen)"
| "body_length_ok abi rsize FUSE_WRITE blen = Some (blen = sizeof_write_out)"
| "body_length_ok abi rsize FUSE_STATFS blen =
     Some (if abi then blen = sizeof_statfs_out else blen = FUSE_COMPAT_STATFS_SIZE)"
| "body_length_ok abi rsize FUSE_RELEASE blen = Some (blen = 0)"
| "body_length_ok abi rsize FUSE_FSYNC blen = Some (blen = 0)"
| "body_length_ok abi rsize FUSE_SETXATTR blen = Some True"
| "body_length_ok abi rsize FUSE_GETXATTR blen = Some True"
| "body_length_ok abi rsize FUSE_LISTXATTR blen = Some True"
| "body_length_ok abi rsize FUSE_REMOVEXATTR blen = Some True"
| "body_length_ok abi rsize FUSE_FLUSH blen = Some (blen = 0)"
| "body_length_ok abi rsize FUSE_INIT blen = Some (blen = sizeof_init_out \<or> blen = 8)"
| "body_length_ok abi rsize FUSE_OPENDIR blen = Some (blen = sizeof_open_out)"
| "body_length_ok abi rsize FUSE_READDIR blen = Some (rsize \<ge> blen)"
| "body_length_ok abi rsize FUSE_RELEASEDIR blen = Some (blen = 0)"
| "body_length_ok abi rsize FUSE_FSYNCDIR blen = Some (blen = 0)"
| "body_length_ok abi rsize FUSE_GETLK blen = None"
| "body_length_ok abi rsize FUSE_SETLK blen = None"
| "body_length_ok abi rsize FUSE_SETLKW blen = None"
| "body_length_ok abi rsize FUSE_ACCESS blen = Some (blen = 0)"
| "body_length_ok abi rsize FUSE_CREATE blen = Some (blen = sizeof_entry_out + sizeof_open_out)"
| "body_length_ok abi rsize FUSE_INTERRUPT blen = Some True"
| "body_length_ok abi rsize FUSE_BMAP blen = Some True"
| "body_length_ok abi rsize FUSE_DESTROY blen = Some (blen = 0)"
| "body_length_ok abi rsize FUSE_EXCHANGE blen = Some (blen = 0)"
| "body_length_ok abi rsize FUSE_SETVOLNAME blen = Some (blen = 0)"

definition fuse_body_audit :: "fuse_data \<Rightarrow> fuse_ticket \<Rightarrow> nat \<Rightarrow> int option" where
  "fuse_body_audit d t blen =
     (if fdata_dead_get d then Some ENOTCONN
      else case opcode_of (fticket_opcode t) of
             None \<Rightarrow> None
           | Some op \<Rightarrow>
               do {
                 good \<leftarrow> body_length_ok (fuse_libabi_geq d 7 4) (read_in_size t) op blen;
                 Some (if good then 0 else EINVAL)
               })"

text \<open>
  \<open>fticket_aw_pull_uio\<close>: the body of a reply goes into the ticket's own vector, or into the buffer
  of the requester. Moving more bytes than that buffer has, or into a null one, is a crash.
\<close>

definition fticket_aw_pull_uio ::
  "kenv \<Rightarrow> fuse_ticket \<Rightarrow> uio_w \<Rightarrow> (int \<times> fuse_ticket) option" where
  "fticket_aw_pull_uio E t u =
     (let len = length (uio_data u) in
      if len = 0 then Some (0, t)
      else case tk_aw_type t of
        FT_A_FIOV \<Rightarrow>
          do {
            (err, fiov) \<leftarrow> fiov_adjust_canfail E (tk_aw_fiov t) len;
            if err \<noteq> 0 then Some (err, fticket_set_killl (t\<lparr>tk_aw_fiov := fiov\<rparr>))
            else
              (case uiomove_in len u of
                 (e, bs, u') \<Rightarrow>
                   Some (e, t\<lparr>tk_aw_fiov := fiov\<lparr>iov_base := put_bytes 0 bs (iov_base fiov)\<rparr>\<rparr>))
          }
      | FT_A_BUF \<Rightarrow>
          (case uiomove_in len u of
             (e, bs, u') \<Rightarrow>
               if e \<noteq> 0 then Some (e, t\<lparr>tk_aw_bufsize := len\<rparr>)
               else do {
                 buf \<leftarrow> tk_aw_bufdata t;
                 if length bs \<le> length buf
                 then Some (0, t\<lparr>tk_aw_bufsize := len, tk_aw_bufdata := Some (put_bytes 0 bs buf)\<rparr>)
                 else None
               }))"

definition fticket_pull ::
  "kenv \<Rightarrow> fuse_data \<Rightarrow> fuse_ticket \<Rightarrow> uio_w \<Rightarrow> (int \<times> fuse_ticket) option" where
  "fticket_pull E d t u =
     (if ohead_error (tk_aw_ohead t) \<noteq> 0 then Some (0, t)
      else do {
        err \<leftarrow> fuse_body_audit d t (length (uio_data u));
        if err = 0 then fticket_aw_pull_uio E t u else Some (err, t)
      })"

definition fuse_standard_handler ::
  "kenv \<Rightarrow> tkp \<Rightarrow> uio_w \<Rightarrow> fuse_data \<Rightarrow> (int \<times> fuse_data) option" where
  "fuse_standard_handler E p u d =
     do {
       t \<leftarrow> fd_tickets d p;
       (err, t1) \<leftarrow> fticket_pull E d t u;
       if fticket_answered t1
       then do {
         d1 \<leftarrow> fuse_ticket_drop E p (d\<lparr>fd_tickets := (fd_tickets d)(p \<mapsto> t1)\<rparr>);
         Some (err, d1)
       }
       else
         Some (err, d\<lparr>fd_tickets := (fd_tickets d)
                        (p \<mapsto> (fticket_set_answered t1)\<lparr>tk_aw_errno := err\<rparr>),
                      fd_log := fd_log d @ [Wakeup_ticket p]\<rparr>)
     }"

text \<open>\<open>fuse_clear_implemented\<close> and the handlers of \<open>fuse_internal.c\<close>.\<close>

definition fuse_implemented :: "fuse_data \<Rightarrow> u64 \<Rightarrow> bool" where
  "fuse_implemented d which = (\<not> flag_set (fd_noimplflags d) which)"

definition fuse_clear_implemented :: "u64 \<Rightarrow> fuse_data \<Rightarrow> fuse_data" where
  "fuse_clear_implemented which d = d\<lparr>fd_noimplflags := fd_noimplflags d OR which\<rparr>"

definition fuse_internal_fsync_callback ::
  "kenv \<Rightarrow> tkp \<Rightarrow> fuse_data \<Rightarrow> (int \<times> fuse_data) option" where
  "fuse_internal_fsync_callback E p d =
     do {
       t \<leftarrow> fd_tickets d p;
       let d1 = (if ohead_error (tk_aw_ohead t) = ENOSYS
                 then if opcode_of (fticket_opcode t) = Some FUSE_FSYNC
                      then fuse_clear_implemented (FSESS_NOIMPLBIT FUSE_FSYNC) d
                      else if opcode_of (fticket_opcode t) = Some FUSE_FSYNCDIR
                      then fuse_clear_implemented (FSESS_NOIMPLBIT FUSE_FSYNCDIR) d
                      else d
                 else d);
       d2 \<leftarrow> fuse_ticket_drop E p d1;
       Some (0, d2)
     }"

text \<open>
  A request without an answer: \<open>fuse_internal_forget_send\<close> and \<open>fuse_internal_interrupt_send\<close>.
  Both call \<open>fdisp_init\<close> first, which clears the dispatcher's ticket, so that the request travels
  on a ticket fetched for it.
\<close>

definition fuse_internal_forget_send ::
  "kenv \<Rightarrow> tkp \<Rightarrow> int \<Rightarrow> vfs_context option \<Rightarrow> u64 \<Rightarrow> u64 \<Rightarrow> fuse_data \<Rightarrow> (tkp \<times> fuse_data) option" where
  "fuse_internal_forget_send E p werr context nodeid nlookup d =
     do {
       (q, d1) \<leftarrow> fdisp_make E None p werr FUSE_FORGET nodeid 8 context d;
       d2 \<leftarrow> fdisp_put_indata q (le_enc 8 nlookup) d1;
       d3 \<leftarrow> tk_upd q fticket_invalidate d2;
       d4 \<leftarrow> fuse_insert_message q d3;
       Some (q, d4)
     }"

definition fuse_internal_forget_callback ::
  "kenv \<Rightarrow> tkp \<Rightarrow> int \<Rightarrow> tkp \<Rightarrow> fuse_data \<Rightarrow> (int \<times> fuse_data) option" where
  "fuse_internal_forget_callback E p werr q d =
     do {
       t \<leftarrow> fd_tickets d q;
       (q', d1) \<leftarrow> fuse_internal_forget_send E p werr None
                     (ih_nodeid (get_in_header (iov_base (tk_ms_fiov t)))) 1 d;
       Some (0, d1)
     }"

definition fuse_internal_interrupt_send ::
  "kenv \<Rightarrow> tkp \<Rightarrow> int \<Rightarrow> tkp \<Rightarrow> fuse_data \<Rightarrow> (tkp \<times> fuse_data) option" where
  "fuse_internal_interrupt_send E p werr q d =
     do {
       t \<leftarrow> fd_tickets d q;
       (r, d1) \<leftarrow> fdisp_make E None p werr FUSE_INTERRUPT 0 8 None d;
       d2 \<leftarrow> fdisp_put_indata r (le_enc 8 (tk_unique t)) d1;
       d3 \<leftarrow> tk_upd r fticket_invalidate d2;
       d4 \<leftarrow> fuse_insert_message r d3;
       Some (r, d4)
     }"

text \<open>What \<open>ftick->tk_aw_handler(ftick, uio)\<close> does.\<close>

definition call_handler ::
  "kenv \<Rightarrow> tkp \<Rightarrow> int \<Rightarrow> fuse_handler \<Rightarrow> tkp \<Rightarrow> uio_w \<Rightarrow> fuse_data \<Rightarrow> (int \<times> fuse_data) option" where
  "call_handler E p werr h q u d =
     (case h of
        Standard_handler \<Rightarrow> fuse_standard_handler E q u d
      | Fsync_callback \<Rightarrow> fuse_internal_fsync_callback E q d
      | Forget_callback \<Rightarrow> fuse_internal_forget_callback E p werr q d)"

section \<open>Waiting for the answer\<close>

text \<open>What a segment of \<open>fticket_wait_answer\<close> ends with.\<close>

datatype wait_result = Wait_returns int | Wait_sleeps

definition fticket_wait_answer_begin ::
  "tkp \<Rightarrow> fuse_data \<Rightarrow> (wait_result \<times> fuse_data) option" where
  "fticket_wait_answer_begin p d =
     do {
       t \<leftarrow> fd_tickets d p;
       if fticket_answered t then Some (Wait_returns 0, d)
       else if fdata_dead_get d
       then do { d1 \<leftarrow> tk_upd p fticket_set_answered d; Some (Wait_returns ENOTCONN, d1) }
       else Some (Wait_sleeps, d)
     }"

text \<open>The code at \<open>alreadydead\<close>.\<close>

definition wait_already_dead :: "tkp \<Rightarrow> fuse_data \<Rightarrow> (wait_result \<times> fuse_data) option" where
  "wait_already_dead p d =
     do {
       d1 \<leftarrow> tk_upd p fticket_set_answered (if fdata_dead_get d then d else fdata_set_dead d);
       Some (Wait_returns ENOTCONN, d1)
     }"

text \<open>
  The answer of the alert panel: \<^term>\<open>None\<close> when it could not be shown, which is always the case
  in the configured build (\<open>M_MACFUSE_ENABLE_KUNC\<close> is 0).
\<close>

datatype kunc_response = KUNC_Default | KUNC_Alternate | KUNC_Other | KUNC_Cancel | KUNC_Unknown

definition wait_after_alert ::
  "kunc_response option \<Rightarrow> tkp \<Rightarrow> fuse_data \<Rightarrow> (wait_result \<times> fuse_data) option" where
  "wait_after_alert alert p d =
     (case (case alert of None \<Rightarrow> KUNC_Other | Some r \<Rightarrow> r) of
        KUNC_Other \<Rightarrow> wait_already_dead p (d\<lparr>fd_timeout_status := FUSE_DAEMON_TIMEOUT_DEAD\<rparr>)
      | KUNC_Default \<Rightarrow> Some (Wait_sleeps, d\<lparr>fd_timeout_status := FUSE_DAEMON_TIMEOUT_NONE\<rparr>)
      | KUNC_Alternate \<Rightarrow>
          Some (Wait_sleeps, d\<lparr>fd_timeout_status := FUSE_DAEMON_TIMEOUT_NONE,
                               fd_daemon_timeout_p := False\<rparr>)
      | KUNC_Cancel \<Rightarrow> Some (Wait_sleeps, d\<lparr>fd_timeout_status := FUSE_DAEMON_TIMEOUT_NONE\<rparr>)
      | KUNC_Unknown \<Rightarrow> wait_already_dead p (d\<lparr>fd_timeout_status := FUSE_DAEMON_TIMEOUT_DEAD\<rparr>))"

definition wait_timed_out ::
  "kunc_response option \<Rightarrow> tkp \<Rightarrow> fuse_data \<Rightarrow> (wait_result \<times> fuse_data) option" where
  "wait_timed_out alert p d =
     (if flag_set (fd_dataflags d) FSESS_NO_ALERTS
      then wait_already_dead p (d\<lparr>fd_timeout_status := FUSE_DAEMON_TIMEOUT_DEAD\<rparr>)
      else if fd_timeout_status d = FUSE_DAEMON_TIMEOUT_NONE
      then wait_after_alert alert p (d\<lparr>fd_timeout_status := FUSE_DAEMON_TIMEOUT_PROCESSING\<rparr>)
      else if fd_timeout_status d = FUSE_DAEMON_TIMEOUT_PROCESSING then Some (Wait_sleeps, d)
      else if fd_timeout_status d = FUSE_DAEMON_TIMEOUT_DEAD then wait_already_dead p d
      else Some (Wait_sleeps, d))"

text \<open>
  After \<open>msleep\<close> returned \<open>err\<close>: the timeout, the interruption (which sends \<open>FUSE_INTERRUPT\<close> on a
  ticket at \<open>p'\<close>), and the check for a wakeup without an answer.
\<close>

definition fticket_wait_answer_wake ::
  "kenv \<Rightarrow> tkp \<Rightarrow> int \<Rightarrow> kunc_response option \<Rightarrow> int \<Rightarrow> tkp \<Rightarrow> fuse_data \<Rightarrow>
     (wait_result \<times> fuse_data) option" where
  "fticket_wait_answer_wake E p' werr alert err p d =
     (if err = EAGAIN then wait_timed_out alert p d
      else do {
        d1 \<leftarrow> (if err = EINTR
               then do { (q, d1) \<leftarrow> fuse_internal_interrupt_send E p' werr p d; Some d1 }
               else Some d);
        t \<leftarrow> fd_tickets d1 p;
        if err = 0 \<and> \<not> fticket_answered t then Some (Wait_returns ENXIO, d1)
        else Some (Wait_returns err, d1)
      })"

text \<open>
  What \<open>fdisp_wait_answ\<close> gives its caller: the errno, the status the daemon sent, and on success
  the body of the answer, which stays in the ticket until the caller drops it.
\<close>

record fdisp_result =
  fr_err :: int
  fr_answ_stat :: int
  fr_answ :: "u8 list"

definition fdisp_wait_answ_finish ::
  "kenv \<Rightarrow> tkp \<Rightarrow> int \<Rightarrow> fuse_data \<Rightarrow> (fdisp_result \<times> fuse_data) option" where
  "fdisp_wait_answ_finish E p err d =
     do {
       t \<leftarrow> fd_tickets d p;
       if err \<noteq> 0
       then if fticket_answered t
            then do {
              d1 \<leftarrow> fuse_ticket_drop E p d;
              Some (\<lparr>fr_err = err, fr_answ_stat = 0, fr_answ = []\<rparr>, d1)
            }
            else do {
              d1 \<leftarrow> tk_upd p (\<lambda>t. if p \<in> set (fd_aw_head d)
                                   then (fticket_set_answered t)\<lparr>tk_aw_handler := None\<rparr>
                                   else fticket_set_answered t) d;
              Some (\<lparr>fr_err = err, fr_answ_stat = 0, fr_answ = []\<rparr>, d1)
            }
       else if tk_aw_errno t \<noteq> 0
       then do {
         d1 \<leftarrow> fuse_ticket_drop E p d;
         Some (\<lparr>fr_err = EIO, fr_answ_stat = 0, fr_answ = []\<rparr>, d1)
       }
       else if ohead_error (tk_aw_ohead t) \<noteq> 0
       then do {
         d1 \<leftarrow> fuse_ticket_drop E p d;
         Some (\<lparr>fr_err = ohead_error (tk_aw_ohead t), fr_answ_stat = ohead_error (tk_aw_ohead t),
               fr_answ = []\<rparr>, d1)
       }
       else Some (\<lparr>fr_err = 0, fr_answ_stat = 0, fr_answ = fiov_bytes (tk_aw_fiov t)\<rparr>, d)
     }"

datatype answ_result = Answ_returns fdisp_result | Answ_sleeps

definition fdisp_wait_answ_continue ::
  "kenv \<Rightarrow> tkp \<Rightarrow> wait_result \<times> fuse_data \<Rightarrow> (answ_result \<times> fuse_data) option" where
  "fdisp_wait_answ_continue E p w =
     (case w of
        (Wait_sleeps, d) \<Rightarrow> Some (Answ_sleeps, d)
      | (Wait_returns err, d) \<Rightarrow>
          do { (r, d1) \<leftarrow> fdisp_wait_answ_finish E p err d; Some (Answ_returns r, d1) })"

definition fdisp_wait_answ_begin ::
  "kenv \<Rightarrow> tkp \<Rightarrow> fuse_data \<Rightarrow> (answ_result \<times> fuse_data) option" where
  "fdisp_wait_answ_begin E p d =
     do {
       d1 \<leftarrow> fuse_insert_callback p (Some Standard_handler) d;
       d2 \<leftarrow> fuse_insert_message p d1;
       w \<leftarrow> fticket_wait_answer_begin p d2;
       fdisp_wait_answ_continue E p w
     }"

definition fdisp_wait_answ_wake ::
  "kenv \<Rightarrow> tkp \<Rightarrow> int \<Rightarrow> kunc_response option \<Rightarrow> int \<Rightarrow> tkp \<Rightarrow> fuse_data \<Rightarrow>
     (answ_result \<times> fuse_data) option" where
  "fdisp_wait_answ_wake E p' werr alert err p d =
     do {
       w \<leftarrow> fticket_wait_answer_wake E p' werr alert err p d;
       fdisp_wait_answ_continue E p w
     }"

end
