(* ===== verification/Fuse_Device.thy ===== *)
theory Fuse_Device
  imports Fuse_Ipc
begin

text \<open>
  The device \<open>/dev/fuseN\<close> of \<open>core/10.5/fusefs/fuse_device.c\<close>, through which the daemon reads
  requests and writes replies, and the table of devices with its open, close and kill operations.
  The operations on one session work on its \<open>fuse_data\<close>; the others on the table
  (\<open>fuse_device_table\<close>), whose entries own their session through \<open>data\<close>.
\<close>

section \<open>Reading requests\<close>

text \<open>
  A \<open>uio\<close> of a read: the room user space has left (\<open>uio_resid\<close>), the bytes moved to it so far, and
  the results of the \<open>uiomove\<close> calls to come, a missing one being 0.
\<close>

record uio_r =
  uior_resid :: nat
  uior_moved :: "u8 list"
  uior_errs :: "int list"

definition uiomove_out :: "u8 list \<Rightarrow> uio_r \<Rightarrow> int \<times> uio_r" where
  "uiomove_out bs u =
     (let e = uio_err (uior_errs u) in
      if e \<noteq> 0 then (e, u\<lparr>uior_errs := tl (uior_errs u)\<rparr>)
      else (0, u\<lparr>uior_resid := uior_resid u - length (take (uior_resid u) bs),
                 uior_moved := uior_moved u @ take (uior_resid u) bs,
                 uior_errs := tl (uior_errs u)\<rparr>))"

text \<open>
  The pieces of a message: its vector, and for \<open>FT_M_BUF\<close> the first \<open>tk_ms_bufsize\<close> bytes of the
  requester's buffer (the loop over \<open>buf\<close> stops at a null pointer).
\<close>

definition message_pieces :: "fuse_ticket \<Rightarrow> u8 list list" where
  "message_pieces t =
     (case tk_ms_type t of
        FT_M_FIOV \<Rightarrow> [fiov_bytes (tk_ms_fiov t)]
      | FT_M_BUF \<Rightarrow>
          (case tk_ms_bufdata t of
             None \<Rightarrow> [fiov_bytes (tk_ms_fiov t)]
           | Some b \<Rightarrow> [fiov_bytes (tk_ms_fiov t), take (tk_ms_bufsize t) b]))"

text \<open>
  The loop that moves the pieces out. A piece that does not fit ends it with \<open>ENODEV\<close> and marks the
  session dead by setting the flag alone.
\<close>

fun move_pieces :: "u8 list list \<Rightarrow> uio_r \<Rightarrow> fuse_data \<Rightarrow> int \<times> uio_r \<times> fuse_data" where
  "move_pieces [] u d = (0, u, d)"
| "move_pieces (b # bs) u d =
     (if uior_resid u < length b
      then (ENODEV, u, d\<lparr>fd_dataflags := fd_dataflags d OR FSESS_DEAD\<rparr>)
      else case uiomove_out b u of
        (e, u1) \<Rightarrow> if e \<noteq> 0 then (e, u1, d) else move_pieces bs u1 d)"

datatype read_result = Read_returns int uio_r | Read_sleeps

definition fuse_device_read_message ::
  "kenv \<Rightarrow> tkp \<Rightarrow> uio_r \<Rightarrow> fuse_data \<Rightarrow> (read_result \<times> fuse_data) option" where
  "fuse_device_read_message E p u d =
     (if fdata_dead_get d
      then do { d1 \<leftarrow> fuse_ticket_drop_invalid E p d; Some (Read_returns ENODEV u, d1) }
      else do {
        t \<leftarrow> fd_tickets d p;
        let (err, u1, d1) = move_pieces (message_pieces t) u d;
        let err1 = (if fticket_answered t then EINTR else err);
        d2 \<leftarrow> fuse_ticket_drop_invalid E p d1;
        Some (Read_returns err1 u1, d2)
      })"

definition fuse_device_read_begin ::
  "kenv \<Rightarrow> bool \<Rightarrow> uio_r \<Rightarrow> fuse_data \<Rightarrow> (read_result \<times> fuse_data) option" where
  "fuse_device_read_begin E nonblock u d =
     (if fdata_dead_get d then Some (Read_returns ENODEV u, d)
      else case fuse_ms_pop d of
        (Some p, d1) \<Rightarrow> fuse_device_read_message E p u d1
      | (None, d1) \<Rightarrow>
          if nonblock then Some (Read_returns EAGAIN u, d1) else Some (Read_sleeps, d1))"

text \<open>After the sleep, an empty queue sends the code back to \<open>again\<close>.\<close>

definition fuse_device_read_wake ::
  "kenv \<Rightarrow> bool \<Rightarrow> int \<Rightarrow> uio_r \<Rightarrow> fuse_data \<Rightarrow> (read_result \<times> fuse_data) option" where
  "fuse_device_read_wake E nonblock err u d =
     (if err \<noteq> 0 then Some (Read_returns (if fdata_dead_get d then ENODEV else err) u, d)
      else case fuse_ms_pop d of
        (Some p, d1) \<Rightarrow> fuse_device_read_message E p u d1
      | (None, d1) \<Rightarrow> fuse_device_read_begin E nonblock u d1)"

section \<open>Writing replies\<close>

text \<open>The first ticket of the answer queue with the reply's unique number.\<close>

fun find_answer :: "(tkp \<rightharpoonup> fuse_ticket) \<Rightarrow> u64 \<Rightarrow> tkp list \<Rightarrow> tkp option option" where
  "find_answer tks un [] = Some None"
| "find_answer tks un (p # ps) =
     do { t \<leftarrow> tks p; if tk_unique t = un then Some (Some p) else find_answer tks un ps }"

definition fuse_device_write ::
  "kenv \<Rightarrow> tkp \<Rightarrow> int \<Rightarrow> uio_w \<Rightarrow> fuse_data \<Rightarrow> (int \<times> fuse_data) option" where
  "fuse_device_write E p werr u d =
     (if length (uio_data u) < sizeof_out_header then Some (EINVAL, d)
      else case uiomove_in sizeof_out_header u of
        (err, hbytes, u1) \<Rightarrow>
          if err \<noteq> 0 then Some (err, d)
          else
            let oh = get_out_header hbytes in
            if length (uio_data u1) + sizeof_out_header \<noteq> unat (oh_len oh)
            then Some (EINVAL, d)
            else if uio_data u1 \<noteq> [] \<and> oh_error oh \<noteq> 0 then Some (EINVAL, d)
            else
              let oh1 = oh\<lparr>oh_error := - oh_error oh\<rparr> in
              do {
                found \<leftarrow> find_answer (fd_tickets d) (oh_unique oh) (fd_aw_head d);
                case found of
                  None \<Rightarrow> Some (0, d)
                | Some q \<Rightarrow>
                    do {
                      let d1 = fuse_aw_remove q d;
                      t \<leftarrow> fd_tickets d1 q;
                      case tk_aw_handler t of
                        Some h \<Rightarrow>
                          do {
                            d2 \<leftarrow> tk_upd q (\<lambda>t. t\<lparr>tk_aw_ohead := oh1\<rparr>) d1;
                            call_handler E p werr h q u1 d2
                          }
                      | None \<Rightarrow>
                          do { d2 \<leftarrow> fuse_ticket_drop E q d1; Some (0, d2) }
                    }
              })"

text \<open>
  Every ticket still waiting for an answer is given \<open>ENOTCONN\<close> and its requester woken: the loop
  \<open>fuse_device_close\<close> and \<open>fuse_device_kill\<close> share, over the tickets of the answer queue.
\<close>

fun answer_pending :: "tkp list \<Rightarrow> fuse_data \<Rightarrow> fuse_data option" where
  "answer_pending [] d = Some d"
| "answer_pending (p # ps) d =
     do {
       d1 \<leftarrow> tk_upd p (\<lambda>t. (fticket_set_answered t)\<lparr>tk_aw_errno := ENOTCONN\<rparr>) (fuse_aw_remove p d);
       answer_pending ps (d1\<lparr>fd_log := fd_log d1 @ [Wakeup_ticket p]\<rparr>)
     }"

section \<open>The table of devices\<close>

abbreviation (input) MACFUSE_NDEVICES :: nat where "MACFUSE_NDEVICES \<equiv> 24"

record fuse_device =
  dv_usecount :: int
  dv_pid :: int
  dv_random :: u32
  dv_cdev :: bool
  dv_data :: "fuse_data option"

text \<open>
  The interface flag, the major number of the device switch entry (-1 when there is none), and the
  devices by unit.
\<close>

record fuse_devices =
  dvs_available :: bool
  dvs_major :: int
  dvs_table :: "nat \<Rightarrow> fuse_device"

definition fuse_device_get :: "int \<Rightarrow> nat option" where
  "fuse_device_get unit =
     (if unit < 0 \<or> unit \<ge> int MACFUSE_NDEVICES then None else Some (nat unit))"

definition fuse_device_close_final :: "fuse_device \<Rightarrow> fuse_device option" where
  "fuse_device_close_final fdev =
     do {
       data \<leftarrow> dv_data fdev;
       data1 \<leftarrow> fdata_destroy data;
       Some (fdev\<lparr>dv_data := None, dv_pid := -1, dv_random := 0\<rparr>)
     }"

definition set_device :: "nat \<Rightarrow> fuse_device \<Rightarrow> fuse_devices \<Rightarrow> fuse_devices" where
  "set_device u fdev s = s\<lparr>dvs_table := (dvs_table s)(u := fdev)\<rparr>"

text \<open>
  \<open>fuse_device_open\<close> by a process with the given credentials and pid; \<open>rnd\<close> is what \<open>random()\<close>
  returns. A unit out of range makes the code unlock a mutex it has not locked: a crash.
\<close>

definition fuse_device_open ::
  "int \<Rightarrow> ucred \<Rightarrow> int \<Rightarrow> u32 \<Rightarrow> fuse_devices \<Rightarrow> (int \<times> fuse_devices) option" where
  "fuse_device_open unit cred pid rnd s =
     (if \<not> dvs_available s then Some (ENOENT, s)
      else if unit \<ge> int MACFUSE_NDEVICES \<or> unit < 0 then None
      else
        let u = nat unit; fdev = dvs_table s u in
        if dv_usecount fdev \<noteq> 0 then Some (EBUSY, s)
        else
          let fdev1 = fdev\<lparr>dv_usecount := dv_usecount fdev + 1\<rparr>;
              fdata = fdata_alloc cred pid in
          case dv_data fdev1 of
            Some data \<Rightarrow>
              do {
                fdata1 \<leftarrow> fdata_destroy fdata;
                Some (EBUSY, set_device u (fdev1\<lparr>dv_usecount := dv_usecount fdev1 - 1\<rparr>) s)
              }
          | None \<Rightarrow>
              Some (0, set_device u
                (fdev1\<lparr>dv_data := Some (fdata\<lparr>fd_dataflags := fd_dataflags fdata OR FSESS_OPENED\<rparr>),
                       dv_pid := pid, dv_random := rnd\<rparr>) s))"

text \<open>\<open>fuse_device_close\<close>; the kernel calls it with the unit of an open device.\<close>

definition fuse_device_close :: "int \<Rightarrow> fuse_devices \<Rightarrow> (int \<times> fuse_devices) option" where
  "fuse_device_close unit s =
     (if unit \<ge> int MACFUSE_NDEVICES then Some (ENOENT, s)
      else if unit < 0 then None
      else
        let u = nat unit; fdev = dvs_table s u in
        do {
          data \<leftarrow> dv_data fdev;
          let data1 = fdata_set_dead data;
          let data2 = data1\<lparr>fd_dataflags := fd_dataflags data1 AND NOT FSESS_OPENED\<rparr>;
          fdev1 \<leftarrow>
            (if fd_mount_state data2 = FM_MOUNTED
             then do {
               data3 \<leftarrow> answer_pending (fd_aw_head data2) data2;
               Some (fdev\<lparr>dv_data := Some data3\<rparr>)
             }
             else do {
               data3 \<leftarrow> fdata_destroy data2;
               Some (fdev\<lparr>dv_data := None, dv_pid := -1, dv_random := 0\<rparr>)
             });
          Some (0, set_device u (fdev1\<lparr>dv_usecount := dv_usecount fdev1 - 1\<rparr>) s)
        })"

text \<open>
  \<open>fuse_match_cred\<close> of \<open>fuse_internal.h\<close>: 0 when the requester is the user the daemon runs as.
  \<open>cr_gid\<close> is the first group of the credential.
\<close>

definition fuse_match_cred :: "ucred \<Rightarrow> ucred \<Rightarrow> int" where
  "fuse_match_cred daemoncred requestcred =
     (if cr_uid daemoncred = cr_uid requestcred \<and> cr_uid daemoncred = cr_ruid requestcred \<and>
         cr_gid daemoncred = cr_gid requestcred \<and> cr_gid daemoncred = cr_rgid requestcred \<and>
         cr_gid daemoncred = cr_svgid requestcred
      then 0 else EPERM)"

definition fuse_device_kill ::
  "int \<Rightarrow> ucred option \<Rightarrow> fuse_devices \<Rightarrow> (int \<times> fuse_devices) option" where
  "fuse_device_kill unit p s =
     (if unit < 0 \<or> unit \<ge> int MACFUSE_NDEVICES then Some (EINVAL, s)
      else
        let u = nat unit; fdev = dvs_table s u in
        case dv_data fdev of
          None \<Rightarrow> Some (ENOENT, s)
        | Some data \<Rightarrow>
            (case p of
               None \<Rightarrow> Some (EPERM, s)
             | Some cred \<Rightarrow>
                 if cr_uid cred = 0 \<or> fuse_match_cred (fd_daemoncred data) cred = 0
                 then do {
                   data1 \<leftarrow> answer_pending (fd_aw_head data) (fdata_set_dead data);
                   Some (0, set_device u (fdev\<lparr>dv_data := Some data1\<rparr>) s)
                 }
                 else Some (EPERM, s)))"

text \<open>
  The vnodes of a mount are printed only to root and the daemon's user; \<open>busy\<close> is the result of
  \<open>vfs_busy\<close>. The result says whether they are.
\<close>

definition fuse_device_print_vnodes ::
  "int \<Rightarrow> ucred option \<Rightarrow> bool \<Rightarrow> fuse_devices \<Rightarrow> int \<times> bool" where
  "fuse_device_print_vnodes unit p busy s =
     (if unit < 0 \<or> unit \<ge> int MACFUSE_NDEVICES then (EINVAL, False)
      else case dv_data (dvs_table s (nat unit)) of
        None \<Rightarrow> (ENOENT, False)
      | Some data \<Rightarrow>
          if busy then (EBUSY, False)
          else case p of
            None \<Rightarrow> (EPERM, False)
          | Some cred \<Rightarrow>
              if cr_uid cred = 0 \<or> fuse_match_cred (fd_daemoncred data) cred = 0
              then (0, True) else (EPERM, False))"

section \<open>Control requests\<close>

datatype ioctl_cmd =
    FUSEDEVIOCSETIMPLEMENTEDBITS u64 | FUSEDEVIOCGETHANDSHAKECOMPLETE
  | FUSEDEVIOCSETDAEMONDEAD | FUSEDEVIOCGETRANDOM | Other_ioctl

definition fuse_set_implemented_custom :: "fuse_data option \<Rightarrow> u64 \<Rightarrow> int \<times> fuse_data option" where
  "fuse_set_implemented_custom data flags =
     (case data of
        None \<Rightarrow> (EINVAL, None)
      | Some d \<Rightarrow> (0, Some (d\<lparr>fd_noimplflags := flags\<rparr>)))"

text \<open>
  \<open>fuse_device_ioctl\<close>: the errno, the word written to the caller's buffer if one is, and the table.
  The request that alters a vnode is not here; it works on the node hash.
\<close>

definition fuse_device_ioctl ::
  "int \<Rightarrow> ioctl_cmd \<Rightarrow> fuse_devices \<Rightarrow> int \<times> u32 option \<times> fuse_devices" where
  "fuse_device_ioctl unit cmd s =
     (let u = nat unit; fdev = dvs_table s u in
      case dv_data fdev of
        None \<Rightarrow> (ENXIO, None, s)
      | Some data \<Rightarrow>
          (case cmd of
             FUSEDEVIOCSETIMPLEMENTEDBITS bits \<Rightarrow>
               (case fuse_set_implemented_custom (Some data) bits of
                  (ret, data1) \<Rightarrow> (ret, None, set_device u (fdev\<lparr>dv_data := data1\<rparr>) s))
           | FUSEDEVIOCGETHANDSHAKECOMPLETE \<Rightarrow>
               if fd_mount_state data = FM_NOTMOUNTED then (ENXIO, None, s)
               else (0, Some (fd_dataflags data AND FSESS_INITED), s)
           | FUSEDEVIOCSETDAEMONDEAD \<Rightarrow>
               (0, None, set_device u (fdev\<lparr>dv_data := Some ((fdata_set_dead data)
                  \<lparr>fd_timeout_status := FUSE_DAEMON_TIMEOUT_DEAD\<rparr>)\<rparr>) s)
           | FUSEDEVIOCGETRANDOM \<Rightarrow> (0, Some (dv_random fdev), s)
           | Other_ioctl \<Rightarrow> (EINVAL, None, s)))"

section \<open>Starting and stopping the interface\<close>

abbreviation (input) KERN_FAILURE :: int where "KERN_FAILURE \<equiv> 5"

definition fresh_device :: fuse_device where
  "fresh_device = \<lparr>dv_usecount = 0, dv_pid = -1, dv_random = 0, dv_cdev = True, dv_data = None\<rparr>"

definition zero_device :: fuse_device where
  "zero_device = \<lparr>dv_usecount = 0, dv_pid = 0, dv_random = 0, dv_cdev = False, dv_data = None\<rparr>"

text \<open>
  \<open>fuse_devices_start\<close>: \<open>major\<close> is what \<open>cdevsw_add\<close> returns (-1 for failure) and \<open>node i\<close> whether
  \<open>devfs_make_node\<close> gives device \<open>i\<close>. On failure the devices made so far are taken away again; their
  other fields keep what the loop stored.
\<close>

fun start_devices :: "nat \<Rightarrow> nat \<Rightarrow> (nat \<Rightarrow> bool) \<Rightarrow> (nat \<Rightarrow> fuse_device) \<Rightarrow>
    nat option \<times> (nat \<Rightarrow> fuse_device)" where
  "start_devices i 0 node tbl = (None, tbl)"
| "start_devices i (Suc n) node tbl =
     (if \<not> node i then (Some i, tbl)
      else start_devices (Suc i) n node (tbl(i := fresh_device)))"

definition fuse_devices_start ::
  "int \<Rightarrow> (nat \<Rightarrow> bool) \<Rightarrow> fuse_devices \<Rightarrow> int \<times> fuse_devices" where
  "fuse_devices_start major node s =
     (let tbl0 = (\<lambda>u. zero_device) in
      if major = -1 then (KERN_FAILURE, s\<lparr>dvs_major := -1, dvs_table := tbl0\<rparr>)
      else case start_devices 0 MACFUSE_NDEVICES node tbl0 of
        (None, tbl) \<Rightarrow> (0, \<lparr>dvs_available = True, dvs_major = major, dvs_table = tbl\<rparr>)
      | (Some i, tbl) \<Rightarrow>
          (KERN_FAILURE, s\<lparr>dvs_major := -1,
                 dvs_table := (\<lambda>u. if u < i then (tbl u)\<lparr>dv_cdev := False\<rparr> else tbl u)\<rparr>))"

text \<open>
  \<open>fuse_devices_stop\<close> refuses while a device is open or still has the session of a lingering mount.
\<close>

definition fuse_devices_stop :: "fuse_devices \<Rightarrow> int \<times> fuse_devices" where
  "fuse_devices_stop s =
     (let s1 = s\<lparr>dvs_available := False\<rparr> in
      if dvs_major s1 = -1 then (0, s1)
      else if list_ex (\<lambda>u. dv_usecount (dvs_table s1 u) \<noteq> 0 \<or> dv_data (dvs_table s1 u) \<noteq> None)
             [0..<MACFUSE_NDEVICES]
      then (KERN_FAILURE, s1\<lparr>dvs_available := True\<rparr>)
      else (0, s1\<lparr>dvs_major := -1,
                  dvs_table := (\<lambda>u. if u < MACFUSE_NDEVICES
                     then (dvs_table s1 u)\<lparr>dv_cdev := False, dv_pid := -1, dv_random := 0\<rparr>
                     else dvs_table s1 u)\<rparr>))"

end
