(* ===== verification/Fuse_Session.thy ===== *)
theory Fuse_Session
  imports Fuse_Device
begin

text \<open>
  The session as a system: requesting threads, the daemon and the environment make it step, one
  segment at a time (\<open>ipc_step\<close>). The phase of a ticket a requester holds is recorded beside the
  session. The invariant \<open>ipc_inv\<close> says where every ticket is: what is on the free list, on the
  message queue, on the answer queue and in the hands of a requester. It is kept by every step, and
  no step crashes, as long as the daemon answers a request only after reading it and no request
  times out while its answer is awaited (\<open>ipc_ok\<close>).
\<close>

section \<open>I/O vectors keep their size\<close>

definition mem_ok :: "kenv \<Rightarrow> bool" where
  "mem_ok E \<longleftrightarrow> (\<forall>n. ke_malloc_ok E n)"

definition iov_ok :: "fuse_iov \<Rightarrow> bool" where
  "iov_ok v \<longleftrightarrow> length (iov_base v) = iov_allocated_size v \<and> 160 \<le> iov_allocated_size v \<and>
     iov_allocated_size v < 2 ^ 32 \<and> iov_len v \<le> iov_allocated_size v"

lemma FUSE_OSMalloc_ok:
  "mem_ok E \<Longrightarrow> n < 2 ^ 32 \<Longrightarrow> FUSE_OSMalloc E n = Some (map (ke_junk E) [0..<n])"
  by (simp add: FUSE_OSMalloc_def mem_ok_def)

lemma fiov_init_ok:
  assumes "mem_ok E" and "n < 2 ^ 32"
  shows "\<exists>v. fiov_init E n = Some v \<and> iov_ok v \<and> iov_len v = 0 \<and>
             iov_base v = replicate (FU_AT_LEAST n) 0"
  using assms by (simp add: fiov_init_def FU_AT_LEAST_def FUSE_OSMalloc_ok iov_ok_def Let_def
      map_replicate_const)

lemma fiov_adjust_ok:
  assumes "mem_ok E" and "iov_ok v" and "n < 2 ^ 32"
  shows "\<exists>w. fiov_adjust E v n = Some w \<and> iov_ok w \<and> iov_len w = n"
proof (cases "fiov_reallocs E v n")
  case True
  with assms show ?thesis
    by (simp add: fiov_adjust_def FUSE_OSRealloc_nocopy_def FUSE_OSMalloc_ok FU_AT_LEAST_def
        iov_ok_def)
next
  case False
  then have "n \<le> iov_allocated_size v" by (auto simp: fiov_reallocs_def)
  with False assms show ?thesis by (simp add: fiov_adjust_def iov_ok_def)
qed

lemma fiov_adjust_canfail_ok:
  assumes "mem_ok E" and "iov_ok v" and "n < 2 ^ 32"
  shows "\<exists>w. fiov_adjust_canfail E v n = Some (0, w) \<and> iov_ok w \<and> iov_len w = n"
proof (cases "fiov_reallocs E v n")
  case True
  with assms show ?thesis
    by (simp add: fiov_adjust_canfail_def FUSE_OSRealloc_nocopy_canfail_def FUSE_OSMalloc_ok
        FU_AT_LEAST_def iov_ok_def)
next
  case False
  then have "n \<le> iov_allocated_size v" by (auto simp: fiov_reallocs_def)
  with False assms show ?thesis by (simp add: fiov_adjust_canfail_def iov_ok_def)
qed

lemma fiov_refresh_ok:
  assumes "mem_ok E" and "iov_ok v"
  shows "\<exists>w. fiov_refresh E v = Some w \<and> iov_ok w \<and> iov_len w = 0"
proof -
  let ?z = "v\<lparr>iov_base := put_bytes 0 (replicate (iov_len v) 0) (iov_base v)\<rparr>"
  from assms(2) have "iov_ok ?z" by (simp add: iov_ok_def)
  from fiov_adjust_ok [OF assms(1) this, of 0] show ?thesis by (simp add: fiov_refresh_def)
qed

text \<open>The ``canfail'' variants cannot fail: \<open>FUSE_OSMalloc\<close> panics before they see a null pointer.\<close>

lemma fiov_adjust_canfail_never_fails:
  "fiov_adjust_canfail E v n = Some (err, w) \<Longrightarrow> err = 0"
  by (auto simp: fiov_adjust_canfail_def FUSE_OSRealloc_nocopy_canfail_def bind_eq_Some_conv
      split: if_splits)

section \<open>Requesters and events\<close>

text \<open>
  The phase of a ticket in a requester's hands: the request is being put together, the requester
  sleeps in \<open>fdisp_wait_answ\<close>, or it has its answer and will drop the ticket.
\<close>

datatype phase = Building | Waiting | Answered

record ipc_state =
  ip_d :: fuse_data
  ip_thr :: "tkp \<rightharpoonup> phase"

datatype ipc_event =
    Ev_make tkp int fuse_opcode u64 nat "vfs_context option"
  | Ev_remake tkp fuse_opcode u64 nat "vfs_context option"
  | Ev_indata tkp "u8 list"
  | Ev_answer_buf tkp "u8 list"
  | Ev_message_buf tkp "u8 list" nat
  | Ev_send tkp
  | Ev_send_async tkp "fuse_handler option"
  | Ev_wake tkp int "kunc_response option" int tkp
  | Ev_drop tkp
  | Ev_forget tkp int "vfs_context option" u64 u64
  | Ev_read bool uio_r
  | Ev_read_wake bool int uio_r
  | Ev_write tkp int uio_w
  | Ev_set_dead

text \<open>The phase of the requester of \<open>p\<close> after a segment of \<open>fdisp_wait_answ\<close>.\<close>

definition after_answ ::
  "tkp \<Rightarrow> (tkp \<rightharpoonup> phase) \<Rightarrow> answ_result \<times> fuse_data \<Rightarrow> ipc_state" where
  "after_answ p thr r =
     (case r of
        (Answ_sleeps, d) \<Rightarrow> \<lparr>ip_d = d, ip_thr = thr(p \<mapsto> Waiting)\<rparr>
      | (Answ_returns res, d) \<Rightarrow>
          \<lparr>ip_d = d, ip_thr = (if fr_err res = 0 then thr(p \<mapsto> Answered) else thr(p := None))\<rparr>)"

fun ipc_step :: "kenv \<Rightarrow> ipc_state \<Rightarrow> ipc_event \<Rightarrow> ipc_state option" where
  "ipc_step E s (Ev_make p werr op nid iosize ctx) =
     do {
       (q, d) \<leftarrow> fdisp_make E None p werr op nid iosize ctx (ip_d s);
       Some \<lparr>ip_d = d, ip_thr = (ip_thr s)(q \<mapsto> Building)\<rparr>
     }"
| "ipc_step E s (Ev_remake q op nid iosize ctx) =
     do {
       (q', d) \<leftarrow> fdisp_make E (Some q) 0 0 op nid iosize ctx (ip_d s);
       Some \<lparr>ip_d = d, ip_thr = (ip_thr s)(q' \<mapsto> Building)\<rparr>
     }"
| "ipc_step E s (Ev_indata p bs) =
     do { d \<leftarrow> fdisp_put_indata p bs (ip_d s); Some (s\<lparr>ip_d := d\<rparr>) }"
| "ipc_step E s (Ev_answer_buf p b) =
     do {
       d \<leftarrow> tk_upd p (\<lambda>t. t\<lparr>tk_aw_type := FT_A_BUF, tk_aw_bufdata := Some b\<rparr>) (ip_d s);
       Some (s\<lparr>ip_d := d\<rparr>)
     }"
| "ipc_step E s (Ev_message_buf p b n) =
     do {
       d \<leftarrow> tk_upd p (\<lambda>t. t\<lparr>tk_ms_type := FT_M_BUF, tk_ms_bufdata := Some b, tk_ms_bufsize := n\<rparr>)
              (ip_d s);
       Some (s\<lparr>ip_d := d\<rparr>)
     }"
| "ipc_step E s (Ev_send p) =
     do { r \<leftarrow> fdisp_wait_answ_begin E p (ip_d s); Some (after_answ p (ip_thr s) r) }"
| "ipc_step E s (Ev_send_async p h) =
     do {
       d1 \<leftarrow> fuse_insert_callback p h (ip_d s);
       d2 \<leftarrow> fuse_insert_message p d1;
       Some \<lparr>ip_d = d2, ip_thr = (ip_thr s)(p := None)\<rparr>
     }"
| "ipc_step E s (Ev_wake p' werr alert err p) =
     do { r \<leftarrow> fdisp_wait_answ_wake E p' werr alert err p (ip_d s); Some (after_answ p (ip_thr s) r) }"
| "ipc_step E s (Ev_drop p) =
     do { d \<leftarrow> fuse_ticket_drop E p (ip_d s); Some \<lparr>ip_d = d, ip_thr = (ip_thr s)(p := None)\<rparr> }"
| "ipc_step E s (Ev_forget p werr ctx nid nl) =
     do { (q, d) \<leftarrow> fuse_internal_forget_send E p werr ctx nid nl (ip_d s); Some (s\<lparr>ip_d := d\<rparr>) }"
| "ipc_step E s (Ev_read nonblock u) =
     do { (r, d) \<leftarrow> fuse_device_read_begin E nonblock u (ip_d s); Some (s\<lparr>ip_d := d\<rparr>) }"
| "ipc_step E s (Ev_read_wake nonblock err u) =
     do { (r, d) \<leftarrow> fuse_device_read_wake E nonblock err u (ip_d s); Some (s\<lparr>ip_d := d\<rparr>) }"
| "ipc_step E s (Ev_write p werr u) =
     do { (r, d) \<leftarrow> fuse_device_write E p werr u (ip_d s); Some (s\<lparr>ip_d := d\<rparr>) }"
| "ipc_step E s Ev_set_dead = Some (s\<lparr>ip_d := fdata_set_dead (ip_d s)\<rparr>)"

text \<open>A session just opened by a daemon.\<close>

definition ipc_init :: "ucred \<Rightarrow> int \<Rightarrow> ipc_state" where
  "ipc_init cred pid = \<lparr>ip_d = fdata_alloc cred pid, ip_thr = Map.empty\<rparr>"

section \<open>What the environment does\<close>

definition has_answer :: "fuse_opcode \<Rightarrow> bool" where
  "has_answer op \<longleftrightarrow> op \<notin> {FUSE_FORGET, FUSE_GETLK, FUSE_SETLK, FUSE_SETLKW}"

text \<open>The answer to a ticket's request can be audited, and a buffer given for it is large enough.\<close>

definition answerable :: "fuse_ticket \<Rightarrow> bool" where
  "answerable t \<longleftrightarrow>
     (case opcode_of (fticket_opcode t) of
        None \<Rightarrow> False
      | Some op \<Rightarrow> has_answer op \<and>
          (tk_aw_type t = FT_A_BUF \<longrightarrow>
             op \<in> {FUSE_READ, FUSE_READDIR} \<and>
             (case tk_aw_bufdata t of None \<Rightarrow> False | Some b \<Rightarrow> read_in_size t \<le> length b)))"

text \<open>\<open>OSMalloc\<close> gives an address that is not in use; fewer than \<open>2 ^ 32\<close> tickets are created.\<close>

definition alloc_ok :: "tkp \<Rightarrow> fuse_data \<Rightarrow> bool" where
  "alloc_ok p d \<longleftrightarrow> fd_tickets d p = None \<and> unat (fd_ticketer d) + 1 < 2 ^ 32"

text \<open>The daemon answers no request that is still on the message queue.\<close>

definition reply_unique :: "uio_w \<Rightarrow> u64" where
  "reply_unique u = oh_unique (get_out_header (take sizeof_out_header (uio_data u)))"

definition answers_read_request :: "uio_w \<Rightarrow> fuse_data \<Rightarrow> bool" where
  "answers_read_request u d \<longleftrightarrow>
     list_all (\<lambda>p. case fd_tickets d p of None \<Rightarrow> True | Some t \<Rightarrow> tk_unique t \<noteq> reply_unique u)
       (fd_ms_head d)"

text \<open>The timeout of a request whose answer is still awaited ends its session.\<close>

definition dies_waiting :: "kunc_response option \<Rightarrow> tkp \<Rightarrow> fuse_data \<Rightarrow> bool" where
  "dies_waiting alert p d \<longleftrightarrow>
     p \<in> set (fd_aw_head d) \<and>
     (case wait_timed_out alert p d of Some (Wait_returns e, d') \<Rightarrow> True | _ \<Rightarrow> False)"

fun ipc_ok :: "ipc_state \<Rightarrow> ipc_event \<Rightarrow> bool" where
  "ipc_ok s (Ev_make p werr op nid iosize ctx) =
     (alloc_ok p (ip_d s) \<and> sizeof_in_header + iosize < 2 ^ 32)"
| "ipc_ok s (Ev_remake q op nid iosize ctx) =
     (ip_thr s q = Some Answered \<and> sizeof_in_header + iosize < 2 ^ 32)"
| "ipc_ok s (Ev_indata p bs) =
     (ip_thr s p = Some Building \<and>
      (case fd_tickets (ip_d s) p of None \<Rightarrow> False
       | Some t \<Rightarrow> sizeof_in_header + length bs \<le> iov_len (tk_ms_fiov t)))"
| "ipc_ok s (Ev_answer_buf p b) = (ip_thr s p = Some Building)"
| "ipc_ok s (Ev_message_buf p b n) = (ip_thr s p = Some Building)"
| "ipc_ok s (Ev_send p) =
     (ip_thr s p = Some Building \<and>
      (case fd_tickets (ip_d s) p of None \<Rightarrow> False | Some t \<Rightarrow> answerable t))"
| "ipc_ok s (Ev_send_async p h) = (ip_thr s p = Some Building \<and> h \<noteq> Some Standard_handler)"
| "ipc_ok s (Ev_wake p' werr alert err p) =
     (ip_thr s p = Some Waiting \<and> alloc_ok p' (ip_d s) \<and>
      (err = EAGAIN \<longrightarrow> \<not> dies_waiting alert p (ip_d s)))"
| "ipc_ok s (Ev_drop p) = (ip_thr s p = Some Answered)"
| "ipc_ok s (Ev_forget p werr ctx nid nl) = alloc_ok p (ip_d s)"
| "ipc_ok s (Ev_read nonblock u) = True"
| "ipc_ok s (Ev_read_wake nonblock err u) = True"
| "ipc_ok s (Ev_write p werr u) =
     (alloc_ok p (ip_d s) \<and> length (uio_data u) < 2 ^ 32 \<and> answers_read_request u (ip_d s))"
| "ipc_ok s Ev_set_dead = True"

section \<open>The invariant\<close>

text \<open>
  One ticket: its vectors are sound, its number was given out, and its place (free list, message
  queue, answer queue) fits its flags, its handler and the phase of its requester.
\<close>

definition ticket_ok ::
  "u64 \<Rightarrow> bool \<Rightarrow> bool \<Rightarrow> bool \<Rightarrow> phase option \<Rightarrow> fuse_ticket \<Rightarrow> bool" where
  "ticket_ok tkr free ms aw ph t \<longleftrightarrow>
     iov_ok (tk_ms_fiov t) \<and> iov_ok (tk_aw_fiov t) \<and> tk_unique t < tkr \<and>
     \<not> flag_set (tk_flag t) FT_KILLL \<and>
     (free \<longrightarrow> tk_flag t = 0 \<and> \<not> ms \<and> \<not> aw \<and> ph = None \<and>
        tk_ms_type t = FT_M_FIOV \<and> tk_aw_type t = FT_A_FIOV) \<and>
     (ph = Some Building \<longrightarrow> tk_flag t = 0 \<and> \<not> ms \<and> \<not> aw \<and> sizeof_in_header \<le> iov_len (tk_ms_fiov t)) \<and>
     (ph = Some Waiting \<longrightarrow>
        (if fticket_answered t then \<not> ms \<and> \<not> aw else aw \<and> tk_aw_handler t = Some Standard_handler)) \<and>
     (ph = Some Answered \<longrightarrow> \<not> ms \<and> \<not> aw) \<and>
     (aw \<longrightarrow> (tk_aw_handler t = Some Standard_handler \<longleftrightarrow> ph = Some Waiting)) \<and>
     (aw \<and> tk_aw_handler t = Some Standard_handler \<longrightarrow> answerable t) \<and>
     (flag_set (tk_flag t) FT_INVAL \<longrightarrow> \<not> aw \<and> ph = None)"

definition all_tickets_ok ::
  "u64 \<Rightarrow> tkp set \<Rightarrow> tkp set \<Rightarrow> tkp set \<Rightarrow> (tkp \<rightharpoonup> phase) \<Rightarrow> (tkp \<rightharpoonup> fuse_ticket) \<Rightarrow> bool" where
  "all_tickets_ok tkr fr ms aw thr tks \<longleftrightarrow>
     (\<forall>p t. tks p = Some t \<longrightarrow> ticket_ok tkr (p \<in> fr) (p \<in> ms) (p \<in> aw) (thr p) t)"

definition uniques_differ :: "(tkp \<rightharpoonup> fuse_ticket) \<Rightarrow> bool" where
  "uniques_differ tks \<longleftrightarrow>
     (\<forall>p q t u. tks p = Some t \<longrightarrow> tks q = Some u \<longrightarrow> tk_unique t = tk_unique u \<longrightarrow> p = q)"

definition tickets_inv ::
  "(tkp \<rightharpoonup> fuse_ticket) \<Rightarrow> tkp list \<Rightarrow> tkp list \<Rightarrow> tkp list \<Rightarrow> tkp list \<Rightarrow> u32 \<Rightarrow> u32 \<Rightarrow> u64 \<Rightarrow>
     (tkp \<rightharpoonup> phase) \<Rightarrow> bool" where
  "tickets_inv tks ms aw fr al fc dc tkr thr \<longleftrightarrow>
     distinct ms \<and> distinct aw \<and> distinct fr \<and> distinct al \<and>
     set al = dom tks \<and> set ms \<subseteq> dom tks \<and> set aw \<subseteq> dom tks \<and> set fr \<subseteq> dom tks \<and>
     dom thr \<subseteq> dom tks \<and>
     length fr = unat fc \<and> length al + unat dc = unat tkr \<and> unat tkr < 2 ^ 32 \<and>
     all_tickets_ok tkr (set fr) (set ms) (set aw) thr tks \<and> uniques_differ tks"

lemma all_tickets_okD:
  "all_tickets_ok tkr fr ms aw thr tks \<Longrightarrow> tks p = Some t \<Longrightarrow>
     ticket_ok tkr (p \<in> fr) (p \<in> ms) (p \<in> aw) (thr p) t"
  by (simp add: all_tickets_ok_def)

lemma all_tickets_ok_upd:
  assumes "all_tickets_ok tkr fr ms aw thr tks"
    and "ticket_ok tkr (p \<in> fr') (p \<in> ms') (p \<in> aw') (thr' p) t'"
    and "\<And>q. q \<noteq> p \<Longrightarrow> (q \<in> fr' \<longleftrightarrow> q \<in> fr) \<and> (q \<in> ms' \<longleftrightarrow> q \<in> ms) \<and> (q \<in> aw' \<longleftrightarrow> q \<in> aw) \<and> thr' q = thr q"
  shows "all_tickets_ok tkr fr' ms' aw' thr' (tks(p \<mapsto> t'))"
  unfolding all_tickets_ok_def
proof (intro allI impI)
  fix q t assume q: "(tks(p \<mapsto> t')) q = Some t"
  show "ticket_ok tkr (q \<in> fr') (q \<in> ms') (q \<in> aw') (thr' q) t"
  proof (cases "q = p")
    case True
    with q assms(2) show ?thesis by simp
  next
    case False
    with q all_tickets_okD [OF assms(1), of q t] assms(3) [OF False] show ?thesis by simp
  qed
qed

lemma all_tickets_ok_less:
  assumes "all_tickets_ok tkr fr ms aw thr tks" and "\<And>x. x < tkr \<Longrightarrow> x < tkr'"
  shows "all_tickets_ok tkr' fr ms aw thr tks"
  unfolding all_tickets_ok_def
proof (intro allI impI)
  fix q t assume "tks q = Some t"
  from all_tickets_okD [OF assms(1) this] assms(2)
  show "ticket_ok tkr' (q \<in> fr) (q \<in> ms) (q \<in> aw) (thr q) t"
    unfolding ticket_ok_def by blast
qed

lemma all_tickets_ok_del:
  assumes "all_tickets_ok tkr fr ms aw thr tks"
  shows "all_tickets_ok tkr fr ms aw (thr(p := None)) (tks(p := None))"
  unfolding all_tickets_ok_def
proof (intro allI impI)
  fix q t assume "(tks(p := None)) q = Some t"
  then have "q \<noteq> p" "tks q = Some t" by (auto split: if_splits)
  with all_tickets_okD [OF assms, of q t]
  show "ticket_ok tkr (q \<in> fr) (q \<in> ms) (q \<in> aw) ((thr(p := None)) q) t" by simp
qed

lemma uniques_differD:
  "uniques_differ tks \<Longrightarrow> tks p = Some t \<Longrightarrow> tks q = Some u \<Longrightarrow> tk_unique t = tk_unique u \<Longrightarrow> p = q"
  unfolding uniques_differ_def by blast

lemma uniques_differ_upd:
  assumes "uniques_differ tks" and "tks p = Some t" and "tk_unique t' = tk_unique t"
  shows "uniques_differ (tks(p \<mapsto> t'))"
  unfolding uniques_differ_def
proof (intro allI impI)
  fix q r v u
  assume a: "(tks(p \<mapsto> t')) q = Some v" "(tks(p \<mapsto> t')) r = Some u" "tk_unique v = tk_unique u"
  have old: "\<exists>v'. tks q = Some v' \<and> tk_unique v' = tk_unique v" if "(tks(p \<mapsto> t')) q = Some v" for q v
    using that assms(2,3) by (cases "q = p") auto
  from old [OF a(1)] old [OF a(2)] a(3) uniques_differD [OF assms(1), of q _ r _]
  show "q = r" by metis
qed

lemma uniques_differ_new:
  assumes "uniques_differ tks" and "tks p = None"
    and "\<And>q u. tks q = Some u \<Longrightarrow> tk_unique u \<noteq> tk_unique t"
  shows "uniques_differ (tks(p \<mapsto> t))"
  unfolding uniques_differ_def
proof (intro allI impI)
  fix q r v u
  assume a: "(tks(p \<mapsto> t)) q = Some v" "(tks(p \<mapsto> t)) r = Some u" "tk_unique v = tk_unique u"
  show "q = r"
  proof (cases "q = p"; cases "r = p")
    assume "q = p" "r \<noteq> p"
    with a assms(3) [of r u] show ?thesis by simp
  next
    assume "q \<noteq> p" "r = p"
    with a assms(3) [of q v] show ?thesis by simp
  next
    assume "q \<noteq> p" "r \<noteq> p"
    with a uniques_differD [OF assms(1), of q v r u] show ?thesis by simp
  qed simp
qed

lemma uniques_differ_del: "uniques_differ tks \<Longrightarrow> uniques_differ (tks(p := None))"
  by (auto simp: uniques_differ_def)

definition session_inv :: "fuse_data \<Rightarrow> (tkp \<rightharpoonup> phase) \<Rightarrow> bool" where
  "session_inv d thr \<longleftrightarrow>
     tickets_inv (fd_tickets d) (fd_ms_head d) (fd_aw_head d) (fd_freetickets_head d)
       (fd_alltickets_head d) (fd_freeticket_counter d) (fd_deadticket_counter d) (fd_ticketer d) thr"

definition ipc_inv :: "ipc_state \<Rightarrow> bool" where
  "ipc_inv s = session_inv (ip_d s) (ip_thr s)"

lemma ipc_inv_init: "ipc_inv (ipc_init cred pid)"
  by (simp add: ipc_inv_def ipc_init_def fdata_alloc_def session_inv_def tickets_inv_def
      all_tickets_ok_def uniques_differ_def)

subsection \<open>The invariant under the elementary changes\<close>

lemma tickets_invD:
  assumes "tickets_inv tks ms aw fr al fc dc tkr thr"
  shows "all_tickets_ok tkr (set fr) (set ms) (set aw) thr tks" and "uniques_differ tks"
    and "set al = dom tks" and "distinct al" and "distinct fr" and "set fr \<subseteq> dom tks"
    and "length fr = unat fc" and "length al + unat dc = unat tkr" and "unat tkr < 2 ^ 32"
    and "distinct ms" and "distinct aw" and "set ms \<subseteq> dom tks" and "set aw \<subseteq> dom tks"
    and "dom thr \<subseteq> dom tks"
  using assms by (simp_all add: tickets_inv_def)

lemma tickets_inv_ticket:
  "tickets_inv tks ms aw fr al fc dc tkr thr \<Longrightarrow> tks p = Some t \<Longrightarrow>
     ticket_ok tkr (p \<in> set fr) (p \<in> set ms) (p \<in> set aw) (thr p) t"
  by (rule all_tickets_okD [OF tickets_invD(1)])

lemma tickets_inv_upd:
  assumes inv: "tickets_inv tks ms aw fr al fc dc tkr thr" and t: "tks p = Some t"
    and un: "tk_unique t' = tk_unique t"
    and ms: "distinct ms'" "set ms' - {p} = set ms - {p}"
    and aw: "distinct aw'" "set aw' - {p} = set aw - {p}"
    and ok: "ticket_ok tkr (p \<in> set fr) (p \<in> set ms') (p \<in> set aw') (thr' p) t'"
    and thr: "\<And>q. q \<noteq> p \<Longrightarrow> thr' q = thr q"
  shows "tickets_inv (tks(p \<mapsto> t')) ms' aw' fr al fc dc tkr thr'"
proof -
  note I = tickets_invD [OF inv]
  have mem: "q \<noteq> p \<Longrightarrow> (q \<in> set fr \<longleftrightarrow> q \<in> set fr) \<and> (q \<in> set ms' \<longleftrightarrow> q \<in> set ms) \<and>
      (q \<in> set aw' \<longleftrightarrow> q \<in> set aw) \<and> thr' q = thr q" for q
    using ms(2) aw(2) thr by blast
  have all: "all_tickets_ok tkr (set fr) (set ms') (set aw') thr' (tks(p \<mapsto> t'))"
    using I(1) ok mem by (rule all_tickets_ok_upd)
  have un': "uniques_differ (tks(p \<mapsto> t'))"
    by (rule uniques_differ_upd [OF I(2) t un])
  have dom: "dom (tks(p \<mapsto> t')) = dom tks" using t by auto
  have sub: "set ms' \<subseteq> dom tks" "set aw' \<subseteq> dom tks"
    using ms(2) aw(2) I(12,13) t by blast+
  have "dom thr' \<subseteq> dom tks"
  proof
    fix q assume "q \<in> dom thr'"
    then show "q \<in> dom tks" using thr [of q] I(14) t by (cases "q = p") (auto simp: dom_def)
  qed
  then show ?thesis
    using all un' ms(1) aw(1) sub I unfolding tickets_inv_def dom by simp
qed

lemma tickets_inv_new:
  assumes inv: "tickets_inv tks ms aw fr al fc dc tkr thr" and none: "tks p = None"
    and un: "tk_unique t = tkr" and lim: "unat tkr + 1 < 2 ^ 32"
    and ok: "ticket_ok (tkr + 1) False False False None t"
  shows "tickets_inv (tks(p \<mapsto> t)) ms aw fr (al @ [p]) fc dc (tkr + 1) thr"
proof -
  note I = tickets_invD [OF inv]
  have tkr1: "unat (tkr + 1) = unat tkr + 1"
    using lim by (simp add: unat_word_ariths)
  then have less: "x < tkr \<Longrightarrow> x < tkr + 1" for x
    by (simp add: word_less_nat_alt)
  have fresh: "p \<notin> set ms" "p \<notin> set aw" "p \<notin> set fr" "p \<notin> set al" "thr p = None"
    using I(3,6,12-14) none by (auto simp: dom_def)
  have old: "tk_unique u \<noteq> tk_unique t" if "tks q = Some u" for q u
    using tickets_inv_ticket [OF inv that] un by (auto simp: ticket_ok_def)
  have "all_tickets_ok (tkr + 1) (set fr) (set ms) (set aw) thr tks"
    using I(1) less by (rule all_tickets_ok_less)
  then have all: "all_tickets_ok (tkr + 1) (set fr) (set ms) (set aw) thr (tks(p \<mapsto> t))"
    by (rule all_tickets_ok_upd) (simp_all add: ok fresh)
  have un': "uniques_differ (tks(p \<mapsto> t))"
    using I(2) none old by (rule uniques_differ_new)
  have dom: "dom (tks(p \<mapsto> t)) = insert p (dom tks)" by simp
  have len: "length (al @ [p]) + unat dc = unat tkr + 1" using I(8) by simp
  have subs: "set fr \<subseteq> insert p (dom tks)" "set ms \<subseteq> insert p (dom tks)"
     "set aw \<subseteq> insert p (dom tks)" "dom thr \<subseteq> insert p (dom tks)" "set (al @ [p]) = insert p (dom tks)"
    using I(3,6,12-14) by auto
  show ?thesis
    unfolding tickets_inv_def dom tkr1
    using all un' lim subs len fresh(4) I(4,5,7,10,11) by simp
qed

lemma tickets_inv_pop_free:
  assumes inv: "tickets_inv tks ms aw (q # qs) al fc dc tkr thr"
  shows "tickets_inv tks ms aw qs al (fc - 1) dc tkr thr"
    and "\<exists>t. tks q = Some t \<and> ticket_ok tkr False False False None t \<and> tk_flag t = 0 \<and>
             tk_ms_type t = FT_M_FIOV \<and> tk_aw_type t = FT_A_FIOV \<and>
             q \<notin> set ms \<and> q \<notin> set aw \<and> q \<notin> set qs \<and> thr q = None"
    and "fc \<noteq> 0" and "qs = [] \<longrightarrow> fc - 1 = 0"
proof -
  note I = tickets_invD [OF inv]
  have len: "Suc (length qs) = unat fc" using I(7) by simp
  then show fc: "fc \<noteq> 0" by auto
  then have fc1: "unat (fc - 1) = length qs"
    using len by (metis diff_Suc_1 unat_minus_one)
  then show "qs = [] \<longrightarrow> fc - 1 = 0" by (metis list.size(3) unat_eq_zero)
  obtain t where t: "tks q = Some t" using I(6) by (auto simp: dom_def)
  have ok: "ticket_ok tkr True (q \<in> set ms) (q \<in> set aw) (thr q) t"
    using tickets_inv_ticket [OF inv t] by simp
  have qs: "q \<notin> set qs" using I(5) by simp
  have away: "q \<notin> set ms" "q \<notin> set aw" "thr q = None" "tk_flag t = 0"
      "tk_ms_type t = FT_M_FIOV" "tk_aw_type t = FT_A_FIOV"
    using ok by (simp_all add: ticket_ok_def)
  have ok': "ticket_ok tkr False False False None t"
    using ok away by (simp add: ticket_ok_def)
  with t away qs show "\<exists>t. tks q = Some t \<and> ticket_ok tkr False False False None t \<and> tk_flag t = 0 \<and>
      tk_ms_type t = FT_M_FIOV \<and> tk_aw_type t = FT_A_FIOV \<and>
      q \<notin> set ms \<and> q \<notin> set aw \<and> q \<notin> set qs \<and> thr q = None"
    by blast
  have q: "tks(q \<mapsto> t) = tks" using t by (rule map_upd_triv)
  have "all_tickets_ok tkr (set qs) (set ms) (set aw) thr (tks(q \<mapsto> t))"
    using I(1) by (rule all_tickets_ok_upd) (auto simp: ok' away qs)
  then show "tickets_inv tks ms aw qs al (fc - 1) dc tkr thr"
    using I fc1 q unfolding tickets_inv_def by simp
qed

lemma tickets_inv_push_free:
  assumes inv: "tickets_inv tks ms aw fr al fc dc tkr thr" and t: "tks p = Some t"
    and un: "tk_unique t' = tk_unique t"
    and out: "p \<notin> set fr" "p \<notin> set ms" "p \<notin> set aw"
    and ok: "ticket_ok tkr True False False None t'"
  shows "tickets_inv (tks(p \<mapsto> t')) ms aw (fr @ [p]) al (fc + 1) dc tkr (thr(p := None))"
proof -
  note I = tickets_invD [OF inv]
  have "set (p # fr) \<subseteq> set al" and "distinct (p # fr)" and "distinct al"
    using I t out by auto
  then have "length (p # fr) \<le> length al"
    by (metis card_mono distinct_card finite_set)
  then have "unat fc + 1 < 2 ^ 32" using I(7,8,9) by simp
  then have fc1: "unat (fc + 1) = unat fc + 1"
    by (simp add: unat_word_ariths)
  have dom: "dom (tks(p \<mapsto> t')) = dom tks" using t by auto
  have all: "all_tickets_ok tkr (set (fr @ [p])) (set ms) (set aw) (thr(p := None)) (tks(p \<mapsto> t'))"
    using I(1) by (rule all_tickets_ok_upd) (auto simp: ok out)
  have un': "uniques_differ (tks(p \<mapsto> t'))"
    by (rule uniques_differ_upd [OF I(2) t un])
  have "dom (thr(p := None)) \<subseteq> dom tks" "set (fr @ [p]) \<subseteq> dom tks"
    using I(6,14) t by auto
  with all un' I out fc1 show ?thesis unfolding tickets_inv_def dom by simp
qed

lemma tickets_inv_destroy:
  assumes inv: "tickets_inv tks ms aw fr al fc dc tkr thr" and t: "tks p = Some t"
    and out: "p \<notin> set fr" "p \<notin> set ms" "p \<notin> set aw"
  shows "tickets_inv (tks(p := None)) ms aw fr (remove1 p al) fc (dc + 1) tkr (thr(p := None))"
proof -
  note I = tickets_invD [OF inv]
  have pal: "p \<in> set al" using I(3) t by auto
  then have len: "length (remove1 p al) = length al - 1" and pos: "0 < length al"
    by (auto simp: length_remove1 length_pos_if_in_set)
  then have "unat dc + 1 < 2 ^ 32" using I(8,9) by linarith
  then have dc1: "unat (dc + 1) = unat dc + 1" by (simp add: unat_word_ariths)
  have count: "length (remove1 p al) + unat (dc + 1) = unat tkr"
    using len pos I(8) dc1 by linarith
  have sets: "set (remove1 p al) = dom (tks(p := None))" "set ms \<subseteq> dom (tks(p := None))"
      "set aw \<subseteq> dom (tks(p := None))" "set fr \<subseteq> dom (tks(p := None))"
      "dom (thr(p := None)) \<subseteq> dom (tks(p := None))"
    using I(3,4,6,12-14) out by auto
  have "all_tickets_ok tkr (set fr) (set ms) (set aw) (thr(p := None)) (tks(p := None))"
    using I(1) by (rule all_tickets_ok_del)
  moreover have "uniques_differ (tks(p := None))"
    using I(2) by (rule uniques_differ_del)
  ultimately show ?thesis
    using I count sets unfolding tickets_inv_def by simp
qed

section \<open>The operations keep the invariant\<close>

lemma session_inv_frame [simp]:
  "session_inv (d\<lparr>fd_log := l\<rparr>) thr = session_inv d thr"
  "session_inv (d\<lparr>fd_dataflags := fl\<rparr>) thr = session_inv d thr"
  "session_inv (d\<lparr>fd_timeout_status := st\<rparr>) thr = session_inv d thr"
  "session_inv (d\<lparr>fd_daemon_timeout_p := b\<rparr>) thr = session_inv d thr"
  "session_inv (d\<lparr>fd_noimplflags := ni\<rparr>) thr = session_inv d thr"
  by (simp_all add: session_inv_def)

lemma fdata_set_dead_frame [simp]:
  "session_inv (fdata_set_dead d) thr = session_inv d thr"
  "fd_tickets (fdata_set_dead d) = fd_tickets d"
  "fd_ms_head (fdata_set_dead d) = fd_ms_head d"
  "fd_aw_head (fdata_set_dead d) = fd_aw_head d"
  "fd_freetickets_head (fdata_set_dead d) = fd_freetickets_head d"
  "fd_alltickets_head (fdata_set_dead d) = fd_alltickets_head d"
  "fd_ticketer (fdata_set_dead d) = fd_ticketer d"
  by (simp_all add: fdata_set_dead_def)

lemma session_inv_ticket:
  "session_inv d thr \<Longrightarrow> fd_tickets d p = Some t \<Longrightarrow>
     ticket_ok (fd_ticketer d) (p \<in> set (fd_freetickets_head d)) (p \<in> set (fd_ms_head d))
       (p \<in> set (fd_aw_head d)) (thr p) t"
  unfolding session_inv_def by (rule tickets_inv_ticket)

lemma session_inv_thr:
  assumes "session_inv d thr" and "thr p = Some ph"
  obtains t where "fd_tickets d p = Some t"
  using tickets_invD(14) [OF assms(1) [unfolded session_inv_def]] assms(2)
  by (auto simp: dom_def)

lemma session_inv_aw:
  assumes "session_inv d thr" and "p \<in> set (fd_aw_head d)"
  obtains t where "fd_tickets d p = Some t"
  using tickets_invD(13) [OF assms(1) [unfolded session_inv_def]] assms(2)
  by (auto simp: dom_def)

lemma session_inv_ms:
  assumes "session_inv d thr" and "p \<in> set (fd_ms_head d)"
  obtains t where "fd_tickets d p = Some t"
  using tickets_invD(12) [OF assms(1) [unfolded session_inv_def]] assms(2)
  by (auto simp: dom_def)

lemma session_inv_upd:
  assumes "session_inv d thr" and "fd_tickets d p = Some t" and "tk_unique t' = tk_unique t"
    and "ticket_ok (fd_ticketer d) (p \<in> set (fd_freetickets_head d)) (p \<in> set (fd_ms_head d))
           (p \<in> set (fd_aw_head d)) (thr' p) t'"
    and "\<And>q. q \<noteq> p \<Longrightarrow> thr' q = thr q"
  shows "session_inv (d\<lparr>fd_tickets := (fd_tickets d)(p \<mapsto> t')\<rparr>) thr'"
proof -
  note inv = assms(1) [unfolded session_inv_def]
  note I = tickets_invD [OF inv]
  show ?thesis
    using tickets_inv_upd [OF inv assms(2,3) I(10) refl I(11) refl assms(4,5)]
    by (simp add: session_inv_def)
qed

lemma session_inv_phase:
  assumes "session_inv d thr" and "fd_tickets d p = Some t"
    and "ticket_ok (fd_ticketer d) (p \<in> set (fd_freetickets_head d)) (p \<in> set (fd_ms_head d))
           (p \<in> set (fd_aw_head d)) ph t"
  shows "session_inv d (thr(p := ph))"
proof -
  have "session_inv (d\<lparr>fd_tickets := (fd_tickets d)(p \<mapsto> t)\<rparr>) (thr(p := ph))"
    by (rule session_inv_upd [OF assms(1,2)]) (simp_all add: assms(3))
  moreover have "(fd_tickets d)(p \<mapsto> t) = fd_tickets d" using assms(2) by (rule map_upd_triv)
  ultimately show ?thesis by simp
qed

lemma tk_upd_Some:
  "fd_tickets d p = Some t \<Longrightarrow>
     tk_upd p f d = Some (d\<lparr>fd_tickets := (fd_tickets d)(p \<mapsto> f t)\<rparr>)"
  by (simp add: tk_upd_def)

lemma fticket_refresh_ok:
  assumes "mem_ok E" and "iov_ok (tk_ms_fiov t)" and "iov_ok (tk_aw_fiov t)"
  shows "\<exists>t'. fticket_refresh E t = Some t' \<and> tk_unique t' = tk_unique t \<and> tk_flag t' = 0 \<and>
           tk_aw_handler t' = tk_aw_handler t \<and> iov_ok (tk_ms_fiov t') \<and> iov_ok (tk_aw_fiov t') \<and>
           iov_len (tk_ms_fiov t') = 0 \<and> tk_ms_type t' = FT_M_FIOV \<and> tk_aw_type t' = FT_A_FIOV"
proof -
  obtain ms aw where "fiov_refresh E (tk_ms_fiov t) = Some ms" "iov_ok ms" "iov_len ms = 0"
    and "fiov_refresh E (tk_aw_fiov t) = Some aw" "iov_ok aw"
    using fiov_refresh_ok [OF assms(1,2)] fiov_refresh_ok [OF assms(1,3)] by blast
  then show ?thesis by (simp add: fticket_refresh_def)
qed

lemma ticket_ok_idle:
  "iov_ok (tk_ms_fiov t) \<Longrightarrow> iov_ok (tk_aw_fiov t) \<Longrightarrow> tk_unique t < tkr \<Longrightarrow> tk_flag t = 0 \<Longrightarrow>
     tk_ms_type t = FT_M_FIOV \<Longrightarrow> tk_aw_type t = FT_A_FIOV \<Longrightarrow>
     ticket_ok tkr fr False False None t"
  by (simp add: ticket_ok_def)

text \<open>A ticket on no queue is dropped without a crash, be it destroyed or kept on the free list.\<close>

lemma fuse_ticket_drop_ok:
  assumes mem: "mem_ok E" and inv: "session_inv d thr" and t: "fd_tickets d p = Some t"
    and out: "p \<notin> set (fd_freetickets_head d)" "p \<notin> set (fd_ms_head d)" "p \<notin> set (fd_aw_head d)"
  shows "\<exists>d'. fuse_ticket_drop E p d = Some d' \<and> session_inv d' (thr(p := None)) \<and>
           fd_ms_head d' = fd_ms_head d \<and> fd_aw_head d' = fd_aw_head d"
proof (cases "fuse_max_freetickets E \<le> unat (fd_freeticket_counter d) \<or> flag_set (tk_flag t) FT_KILLL")
  case True
  have "session_inv (d\<lparr>fd_deadticket_counter := fd_deadticket_counter d + 1,
       fd_alltickets_head := remove1 p (fd_alltickets_head d),
       fd_tickets := (fd_tickets d)(p := None)\<rparr>) (thr(p := None))"
    using tickets_inv_destroy [OF inv [unfolded session_inv_def] t out]
    by (simp add: session_inv_def)
  with True t show ?thesis
    by (simp add: fuse_ticket_drop_def fticket_destroy_def fuse_remove_allticks_def)
next
  case False
  from session_inv_ticket [OF inv t]
  have ok: "iov_ok (tk_ms_fiov t)" "iov_ok (tk_aw_fiov t)" "tk_unique t < fd_ticketer d"
    by (simp_all add: ticket_ok_def)
  obtain t' where t': "fticket_refresh E t = Some t'" "tk_unique t' = tk_unique t" "tk_flag t' = 0"
      "iov_ok (tk_ms_fiov t')" "iov_ok (tk_aw_fiov t')" "tk_ms_type t' = FT_M_FIOV"
      "tk_aw_type t' = FT_A_FIOV"
    using fticket_refresh_ok [OF mem ok(1,2)] by blast
  have "ticket_ok (fd_ticketer d) True False False None t'"
    using t' ok(3) by (simp add: ticket_ok_idle)
  from tickets_inv_push_free [OF inv [unfolded session_inv_def] t t'(2) out this]
  have "session_inv (fuse_push_freeticks p (d\<lparr>fd_tickets := (fd_tickets d)(p \<mapsto> t')\<rparr>))
          (thr(p := None))"
    by (simp add: session_inv_def fuse_push_freeticks_def)
  with False t t'(1) show ?thesis
    by (simp add: fuse_ticket_drop_def fuse_push_freeticks_def)
qed

text \<open>
  What a fetch gives: a ticket no thread holds and no queue has; everything else is as before.
\<close>

definition fetched :: "tkp \<Rightarrow> fuse_data \<Rightarrow> fuse_data \<Rightarrow> (tkp \<rightharpoonup> phase) \<Rightarrow> bool" where
  "fetched q d d' thr \<longleftrightarrow>
     session_inv d' thr \<and> thr q = None \<and>
     q \<notin> set (fd_freetickets_head d') \<and> q \<notin> set (fd_ms_head d) \<and> q \<notin> set (fd_aw_head d) \<and>
     fd_ms_head d' = fd_ms_head d \<and> fd_aw_head d' = fd_aw_head d \<and>
     (\<forall>r. r \<noteq> q \<longrightarrow> fd_tickets d' r = fd_tickets d r)"

lemma fticket_alloc_ok:
  assumes "mem_ok E"
  shows "\<exists>t d'. fticket_alloc E p d = Some d' \<and> tk_unique t = fd_ticketer d \<and> tk_flag t = 0 \<and>
            iov_ok (tk_ms_fiov t) \<and> iov_ok (tk_aw_fiov t) \<and> tk_ms_type t = FT_M_FIOV \<and>
            tk_aw_type t = FT_A_FIOV \<and>
            d' = d\<lparr>fd_ticketer := fd_ticketer d + 1, fd_tickets := (fd_tickets d)(p \<mapsto> t)\<rparr>"
proof -
  obtain ms aw where "fiov_init E sizeof_in_header = Some ms" "iov_ok ms"
      "fiov_init E 0 = Some aw" "iov_ok aw"
    using fiov_init_ok [OF assms, of sizeof_in_header] fiov_init_ok [OF assms, of 0]
    by (auto simp: sizeof_in_header_def)
  then show ?thesis
    by (intro exI [of _ "\<lparr>tk_unique = fd_ticketer d, tk_flag = 0, tk_age = 0,
        tk_ms_fiov = ms, tk_ms_bufdata = None, tk_ms_bufsize = 0, tk_ms_type = FT_M_FIOV,
        tk_aw_fiov = aw, tk_aw_bufdata = None, tk_aw_bufsize = 0, tk_aw_type = FT_A_FIOV,
        tk_aw_ohead = zero_out_header, tk_aw_errno = 0, tk_aw_handler = None\<rparr>"])
      (simp add: fticket_alloc_def)
qed

lemma fuse_ticket_fetch_ok:
  assumes mem: "mem_ok E" and inv: "session_inv d thr" and al: "alloc_ok p d"
  shows "\<exists>q d' t. fuse_ticket_fetch E p werr d = Some (q, d') \<and> fetched q d d' thr \<and>
            fd_tickets d' q = Some t \<and> tk_flag t = 0 \<and> tk_ms_type t = FT_M_FIOV \<and>
            tk_aw_type t = FT_A_FIOV"
proof -
  note I = tickets_invD [OF inv [unfolded session_inv_def]]
  have step: "\<exists>q b d' t. fuse_ticket_fetch_begin E p d = Some (q, b, d') \<and> fetched q d d' thr \<and>
      fd_tickets d' q = Some t \<and> tk_flag t = 0 \<and> tk_ms_type t = FT_M_FIOV \<and> tk_aw_type t = FT_A_FIOV"
  proof (cases "fd_freeticket_counter d = 0")
    case True
    have none: "fd_tickets d p = None" and lim: "unat (fd_ticketer d) + 1 < 2 ^ 32"
      using al by (simp_all add: alloc_ok_def)
    obtain t where t: "fticket_alloc E p d =
          Some (d\<lparr>fd_ticketer := fd_ticketer d + 1, fd_tickets := (fd_tickets d)(p \<mapsto> t)\<rparr>)"
        "tk_unique t = fd_ticketer d" "tk_flag t = 0" "iov_ok (tk_ms_fiov t)" "iov_ok (tk_aw_fiov t)"
        "tk_ms_type t = FT_M_FIOV" "tk_aw_type t = FT_A_FIOV"
      using fticket_alloc_ok [OF mem, of p d] by blast
    have "unat (fd_ticketer d + 1) = unat (fd_ticketer d) + 1"
      using lim by (simp add: unat_word_ariths)
    then have "ticket_ok (fd_ticketer d + 1) False False False None t"
      using t by (intro ticket_ok_idle) (simp_all add: word_less_nat_alt)
    from tickets_inv_new [OF inv [unfolded session_inv_def] none t(2) lim this]
    have "session_inv (fuse_push_allticks p
       (d\<lparr>fd_ticketer := fd_ticketer d + 1, fd_tickets := (fd_tickets d)(p \<mapsto> t)\<rparr>)) thr"
      by (simp add: session_inv_def fuse_push_allticks_def)
    moreover have "p \<notin> set (fd_ms_head d)" "p \<notin> set (fd_aw_head d)" "p \<notin> set (fd_freetickets_head d)"
        "thr p = None"
      using I(6,12-14) none by (auto simp: dom_def)
    ultimately show ?thesis
      using True t(1,3,6,7)
      by (auto simp: fuse_ticket_fetch_begin_def fetched_def fuse_push_allticks_def)
  next
    case False
    then have "fd_freetickets_head d \<noteq> []" using I(7) by (auto simp: unat_eq_zero)
    then obtain q qs where fr: "fd_freetickets_head d = q # qs" by (cases "fd_freetickets_head d") auto
    note P = tickets_inv_pop_free [OF inv [unfolded session_inv_def fr]]
    from P(2) obtain t where t: "fd_tickets d q = Some t" "tk_flag t = 0"
        "tk_ms_type t = FT_M_FIOV" "tk_aw_type t = FT_A_FIOV" "q \<notin> set (fd_ms_head d)" "q \<notin> set (fd_aw_head d)" "q \<notin> set qs" "thr q = None" by blast
    have "session_inv (d\<lparr>fd_freetickets_head := qs,
            fd_freeticket_counter := fd_freeticket_counter d - 1\<rparr>) thr"
      using P(1) by (simp add: session_inv_def)
    with False t fr P(4) show ?thesis
      by (auto simp: fuse_ticket_fetch_begin_def fuse_pop_freeticks_def fetched_def)
  qed
  then obtain q b d' t where *: "fuse_ticket_fetch_begin E p d = Some (q, b, d')" "fetched q d d' thr"
      "fd_tickets d' q = Some t" "tk_flag t = 0" "tk_ms_type t = FT_M_FIOV" "tk_aw_type t = FT_A_FIOV"
    by blast
  have "fetched q d (if b then fuse_ticket_fetch_wake werr d' else d') thr"
    using *(2) by (auto simp: fetched_def fuse_ticket_fetch_wake_def)
  with * show ?thesis
    by (simp add: fuse_ticket_fetch_def fuse_ticket_fetch_wake_def)
qed


lemma fetched_ticket:
  assumes "fetched q d d' thr" and "fd_tickets d' q = Some t"
  shows "iov_ok (tk_ms_fiov t)" "iov_ok (tk_aw_fiov t)" "tk_unique t < fd_ticketer d'"
    "\<not> flag_set (tk_flag t) FT_KILLL"
  using session_inv_ticket [of d' thr q t] assms by (simp_all add: fetched_def ticket_ok_def)

lemma put_in_header_iov_ok:
  "iov_ok v \<Longrightarrow> iov_ok (v\<lparr>iov_base := put_in_header h (iov_base v)\<rparr>)"
  by (simp add: iov_ok_def length_put_in_header sizeof_in_header_def)

lemma fdisp_fill_ok:
  assumes "mem_ok E" and "iov_ok (tk_ms_fiov t)" and "n < 2 ^ 32"
  shows "\<exists>v. fiov_adjust E (tk_ms_fiov t) n = Some v \<and>
           iov_ok (tk_ms_fiov (fdisp_fill E op nid iosize ctx v t)) \<and>
           iov_len (tk_ms_fiov (fdisp_fill E op nid iosize ctx v t)) = n"
proof -
  obtain v where "fiov_adjust E (tk_ms_fiov t) n = Some v" "iov_ok v" "iov_len v = n"
    using fiov_adjust_ok [OF assms] by blast
  then show ?thesis by (simp add: fdisp_fill_def put_in_header_iov_ok)
qed

lemma fdisp_fill_simps [simp]:
  "tk_unique (fdisp_fill E op nid iosize ctx v t) = tk_unique t"
  "tk_flag (fdisp_fill E op nid iosize ctx v t) = tk_flag t"
  "tk_aw_fiov (fdisp_fill E op nid iosize ctx v t) = tk_aw_fiov t"
  "tk_aw_handler (fdisp_fill E op nid iosize ctx v t) = tk_aw_handler t"
  "tk_ms_type (fdisp_fill E op nid iosize ctx v t) = tk_ms_type t"
  "tk_aw_type (fdisp_fill E op nid iosize ctx v t) = tk_aw_type t"
  by (simp_all add: fdisp_fill_def)

text \<open>A request put together on a fetched ticket; its requester may hold it or not.\<close>

lemma fdisp_make_ok:
  assumes mem: "mem_ok E" and inv: "session_inv d thr" and al: "alloc_ok p d"
    and lim: "sizeof_in_header + iosize < 2 ^ 32"
  shows "\<exists>q d' t. fdisp_make E None p werr op nid iosize ctx d = Some (q, d') \<and>
           fetched q d d' thr \<and> session_inv d' (thr(q \<mapsto> Building)) \<and> fd_tickets d' q = Some t \<and>
           tk_flag t = 0 \<and> iov_len (tk_ms_fiov t) = sizeof_in_header + iosize \<and>
           tk_ms_type t = FT_M_FIOV \<and> tk_aw_type t = FT_A_FIOV \<and>
           (\<exists>v t0. t = fdisp_fill E op nid iosize ctx v t0 \<and> tk_unique t0 = tk_unique t)"
proof -
  obtain q d1 t where f: "fuse_ticket_fetch E p werr d = Some (q, d1)" "fetched q d d1 thr"
      "fd_tickets d1 q = Some t" "tk_flag t = 0" "tk_ms_type t = FT_M_FIOV" "tk_aw_type t = FT_A_FIOV"
    using fuse_ticket_fetch_ok [OF mem inv al] by blast
  note ph = fetched_ticket [OF f(2,3)]
  obtain v where v: "fiov_adjust E (tk_ms_fiov t) (sizeof_in_header + iosize) = Some v"
      "iov_ok (tk_ms_fiov (fdisp_fill E op nid iosize ctx v t))"
      "iov_len (tk_ms_fiov (fdisp_fill E op nid iosize ctx v t)) = sizeof_in_header + iosize"
    using fdisp_fill_ok [OF mem ph(1) lim] by blast
  let ?t = "fdisp_fill E op nid iosize ctx v t"
  let ?d = "d1\<lparr>fd_tickets := (fd_tickets d1)(q \<mapsto> ?t)\<rparr>"
  have inv1: "session_inv d1 thr" and out: "q \<notin> set (fd_freetickets_head d1)"
      "q \<notin> set (fd_ms_head d1)" "q \<notin> set (fd_aw_head d1)" "thr q = None"
    using f(2) by (simp_all add: fetched_def)
  have ok: "ticket_ok (fd_ticketer d1) False False False ph ?t" if "ph = None \<or> ph = Some Building" for ph
    using that v ph(2-4) f(4) by (auto simp: ticket_ok_def)
  have "session_inv ?d thr"
    by (rule session_inv_upd [OF inv1 f(3)]) (simp_all add: out ok)
  moreover have "session_inv ?d (thr(q \<mapsto> Building))"
    by (rule session_inv_upd [OF inv1 f(3)]) (simp_all add: out ok)
  ultimately show ?thesis
    using f v by (auto simp: fdisp_make_def fdisp_ticket_def tk_upd_def fetched_def)
qed

lemma fdisp_remake_ok:
  assumes mem: "mem_ok E" and inv: "session_inv d thr" and ph: "thr q = Some Answered"
    and lim: "sizeof_in_header + iosize < 2 ^ 32"
  shows "\<exists>d'. fdisp_make E (Some q) 0 0 op nid iosize ctx d = Some (q, d') \<and>
           session_inv d' (thr(q \<mapsto> Building))"
proof -
  obtain t where t: "fd_tickets d q = Some t" using session_inv_thr [OF inv ph] .
  note tok = session_inv_ticket [OF inv t, unfolded ph]
  then have io: "iov_ok (tk_ms_fiov t)" "iov_ok (tk_aw_fiov t)" "tk_unique t < fd_ticketer d"
    and out: "q \<notin> set (fd_freetickets_head d)" "q \<notin> set (fd_ms_head d)" "q \<notin> set (fd_aw_head d)"
    by (auto simp: ticket_ok_def)
  obtain t' where t': "fticket_refresh E t = Some t'" "tk_unique t' = tk_unique t" "tk_flag t' = 0"
      "iov_ok (tk_ms_fiov t')" "iov_ok (tk_aw_fiov t')"
    using fticket_refresh_ok [OF mem io(1,2)] by blast
  obtain v where v: "fiov_adjust E (tk_ms_fiov t') (sizeof_in_header + iosize) = Some v"
      "iov_ok (tk_ms_fiov (fdisp_fill E op nid iosize ctx v t'))"
      "iov_len (tk_ms_fiov (fdisp_fill E op nid iosize ctx v t')) = sizeof_in_header + iosize"
    using fdisp_fill_ok [OF mem t'(4) lim] by blast
  let ?t = "fdisp_fill E op nid iosize ctx v t'"
  have "session_inv (d\<lparr>fd_tickets := (fd_tickets d)(q \<mapsto> ?t)\<rparr>) (thr(q \<mapsto> Building))"
    by (rule session_inv_upd [OF inv t]) (use out t' v io(3) in \<open>auto simp: ticket_ok_def\<close>)
  then show ?thesis
    using t t' v by (simp add: fdisp_make_def fdisp_ticket_def tk_upd_def)
qed

lemma fdisp_put_indata_ok:
  assumes inv: "session_inv d thr" and t: "fd_tickets d p = Some t"
    and len: "sizeof_in_header + length bs \<le> iov_len (tk_ms_fiov t)"
    and ph: "thr p = Some Building \<or> thr p = None \<and> p \<notin> set (fd_aw_head d)"
  shows "\<exists>t'. fdisp_put_indata p bs d = Some (d\<lparr>fd_tickets := (fd_tickets d)(p \<mapsto> t')\<rparr>) \<and>
           session_inv (d\<lparr>fd_tickets := (fd_tickets d)(p \<mapsto> t')\<rparr>) thr \<and> tk_flag t' = tk_flag t"
proof -
  note tok = session_inv_ticket [OF inv t]
  then have io: "iov_ok (tk_ms_fiov t)" by (simp add: ticket_ok_def)
  let ?t = "t\<lparr>tk_ms_fiov := (tk_ms_fiov t)
              \<lparr>iov_base := put_bytes sizeof_in_header bs (iov_base (tk_ms_fiov t))\<rparr>\<rparr>"
  have fits: "sizeof_in_header + length bs \<le> length (iov_base (tk_ms_fiov t))"
    using io len by (simp add: iov_ok_def)
  then have "iov_ok (tk_ms_fiov ?t)" using io by (simp add: iov_ok_def)
  then have "session_inv (d\<lparr>fd_tickets := (fd_tickets d)(p \<mapsto> ?t)\<rparr>) thr"
    by (intro session_inv_upd [OF inv t]) (use tok ph in \<open>auto simp: ticket_ok_def fticket_answered_def\<close>)
  moreover have "tk_flag ?t = tk_flag t" by simp
  ultimately show ?thesis
    using t fits by (intro exI [of _ ?t]) (simp add: fdisp_put_indata_def tk_upd_def)
qed

subsection \<open>Sending\<close>

lemma FT_bits [simp]:
  "flag_set (0x04 :: u32) FT_KILLL = False" "flag_set (0x04 :: u32) FT_INVAL = False"
  "flag_set (0x04 :: u32) FT_ANSW = False" "flag_set (0x01 :: u32) FT_KILLL = False"
  "flag_set (0x01 :: u32) FT_INVAL = False" "flag_set (0x01 :: u32) FT_ANSW = True"
  "flag_set (0x02 :: u32) FT_KILLL = False" "flag_set (0x02 :: u32) FT_INVAL = True"
  "flag_set (0x02 :: u32) FT_ANSW = False" "flag_set (0x02 :: u32) FT_DIRTY = False"
  "flag_set (0x01 :: u32) FT_DIRTY = False" "flag_set (0x04 :: u32) FT_DIRTY = True"
  by (simp_all add: flag_set_def)

lemma answerable_simps [simp]:
  "answerable (t\<lparr>tk_flag := f\<rparr>) = answerable t"
  "answerable (t\<lparr>tk_aw_handler := h\<rparr>) = answerable t"
  "answerable (t\<lparr>tk_aw_ohead := oh\<rparr>) = answerable t"
  by (simp_all add: answerable_def fticket_opcode_def read_in_size_def cong: option.case_cong)

lemma fuse_insert_message_ok:
  assumes inv: "session_inv d thr" and t: "fd_tickets d p = Some t"
    and clean: "\<not> flag_set (tk_flag t) FT_DIRTY" and noms: "p \<notin> set (fd_ms_head d)"
    and fr: "p \<notin> set (fd_freetickets_head d)"
    and ph: "thr p = None \<or> thr p = Some Waiting \<and> p \<in> set (fd_aw_head d)"
  shows "\<exists>d'. fuse_insert_message p d = Some d' \<and> session_inv d' thr \<and>
           fd_tickets d' = (fd_tickets d)(p \<mapsto> t\<lparr>tk_flag := tk_flag t OR FT_DIRTY\<rparr>) \<and>
           fd_aw_head d' = fd_aw_head d \<and> fd_dataflags d' = fd_dataflags d"
proof -
  note inv' = inv [unfolded session_inv_def]
  note I = tickets_invD [OF inv']
  note tok = session_inv_ticket [OF inv t]
  let ?t = "t\<lparr>tk_flag := tk_flag t OR FT_DIRTY\<rparr>"
  have flags: "fticket_answered ?t = fticket_answered t" "answerable ?t = answerable t"
    by (simp_all add: fticket_answered_def flag_set_or)
  have ok: "ticket_ok (fd_ticketer d) (p \<in> set (fd_freetickets_head d)) True
       (p \<in> set (fd_aw_head d)) (thr p) ?t"
    using tok ph fr flags by (auto simp: ticket_ok_def flag_set_or)
  have ok': "ticket_ok (fd_ticketer d) (p \<in> set (fd_freetickets_head d)) (p \<in> set (fd_ms_head d))
       (p \<in> set (fd_aw_head d)) (thr p) ?t"
    using tok ph fr flags noms by (auto simp: ticket_ok_def flag_set_or)
  show ?thesis
  proof (cases "fdata_dead_get d")
    case True
    have "session_inv (d\<lparr>fd_tickets := (fd_tickets d)(p \<mapsto> ?t)\<rparr>) thr"
      by (rule session_inv_upd [OF inv t]) (simp_all add: ok')
    with True t clean show ?thesis
      by (simp add: fuse_insert_message_def tk_upd_def fdata_dead_get_def)
  next
    case False
    have ms: "distinct (fd_ms_head d @ [p])"
        "set (fd_ms_head d @ [p]) - {p} = set (fd_ms_head d) - {p}"
      using I(10) noms by auto
    have ok2: "ticket_ok (fd_ticketer d) (p \<in> set (fd_freetickets_head d))
       (p \<in> set (fd_ms_head d @ [p])) (p \<in> set (fd_aw_head d)) (thr p) ?t"
      using ok by simp
    have un: "tk_unique ?t = tk_unique t" by simp
    from tickets_inv_upd [where thr' = thr, OF inv' t un ms I(11) refl ok2]
    have "session_inv ((fuse_ms_push p (d\<lparr>fd_tickets := (fd_tickets d)(p \<mapsto> ?t)\<rparr>))
            \<lparr>fd_log := fd_log d @ [Wakeup_one_data]\<rparr>) thr"
      by (simp add: session_inv_def fuse_ms_push_def)
    with False t clean show ?thesis
      by (simp add: fuse_insert_message_def tk_upd_def fdata_dead_get_def fuse_ms_push_def)
  qed
qed

text \<open>A request that has no answer: forget, interrupt.\<close>

lemma send_invalid_ok:
  assumes mem: "mem_ok E" and inv: "session_inv d thr" and al: "alloc_ok p d"
    and len: "length bs = 8"
  shows "\<exists>q d1 d2 d3 d4. fdisp_make E None p werr op nid 8 ctx d = Some (q, d1) \<and>
           fdisp_put_indata q bs d1 = Some d2 \<and> tk_upd q fticket_invalidate d2 = Some d3 \<and>
           fuse_insert_message q d3 = Some d4 \<and> session_inv d4 thr \<and> thr q = None \<and>
           q \<notin> set (fd_aw_head d) \<and> fd_aw_head d4 = fd_aw_head d \<and>
           (\<forall>r. r \<noteq> q \<longrightarrow> fd_tickets d4 r = fd_tickets d r)"
proof -
  have "sizeof_in_header + 8 < 2 ^ 32" by (simp add: sizeof_in_header_def)
  then obtain q d1 t where m: "fdisp_make E None p werr op nid 8 ctx d = Some (q, d1)"
      "fetched q d d1 thr" "session_inv d1 (thr(q \<mapsto> Building))" "fd_tickets d1 q = Some t"
      "tk_flag t = 0" "iov_len (tk_ms_fiov t) = sizeof_in_header + 8"
    using fdisp_make_ok [OF mem inv al] by blast
  have F: "session_inv d1 thr" "thr q = None" "q \<notin> set (fd_freetickets_head d1)"
      "q \<notin> set (fd_ms_head d)" "q \<notin> set (fd_aw_head d)" "fd_ms_head d1 = fd_ms_head d"
      "fd_aw_head d1 = fd_aw_head d" "\<forall>r. r \<noteq> q \<longrightarrow> fd_tickets d1 r = fd_tickets d r"
    using m(2) by (simp_all add: fetched_def)
  have "sizeof_in_header + length bs \<le> iov_len (tk_ms_fiov t)" using m(6) len by simp
  then obtain t' where p: "fdisp_put_indata q bs d1 = Some (d1\<lparr>fd_tickets := (fd_tickets d1)(q \<mapsto> t')\<rparr>)"
      "session_inv (d1\<lparr>fd_tickets := (fd_tickets d1)(q \<mapsto> t')\<rparr>) thr" "tk_flag t' = tk_flag t"
    using fdisp_put_indata_ok [OF F(1) m(4)] F by auto
  define d2 where "d2 = d1\<lparr>fd_tickets := (fd_tickets d1)(q \<mapsto> t')\<rparr>"
  have t2: "fd_tickets d2 q = Some t'" "tk_flag t' = 0" and inv2: "session_inv d2 thr"
    using p m(5) by (simp_all add: d2_def)
  have fl: "tk_flag (fticket_invalidate t') = FT_INVAL" using t2 by (simp add: fticket_invalidate_def)
  define d3 where "d3 = d2\<lparr>fd_tickets := (fd_tickets d2)(q \<mapsto> fticket_invalidate t')\<rparr>"
  have out: "q \<notin> set (fd_freetickets_head d2)" "q \<notin> set (fd_ms_head d2)" "q \<notin> set (fd_aw_head d2)"
    using F by (simp_all add: d2_def)
  have ok3: "ticket_ok (fd_ticketer d2) False False False None (fticket_invalidate t')"
    using session_inv_ticket [OF inv2 t2(1)] out F(2) fl
    by (simp add: ticket_ok_def fticket_invalidate_def)
  have inv3: "session_inv d3 thr"
    unfolding d3_def
    by (rule session_inv_upd [OF inv2 t2(1)])
      (use ok3 out F(2) in \<open>simp_all add: fticket_invalidate_def\<close>)
  have t3: "fd_tickets d3 q = Some (fticket_invalidate t')" by (simp add: d3_def)
  have u3: "tk_upd q fticket_invalidate d2 = Some d3" using t2 by (simp add: tk_upd_def d3_def)
  have "\<not> flag_set (tk_flag (fticket_invalidate t')) FT_DIRTY" by (simp add: fl)
  then obtain d4 where d4: "fuse_insert_message q d3 = Some d4" "session_inv d4 thr"
      "fd_tickets d4 = (fd_tickets d3)(q \<mapsto> (fticket_invalidate t')
         \<lparr>tk_flag := tk_flag (fticket_invalidate t') OR FT_DIRTY\<rparr>)" "fd_aw_head d4 = fd_aw_head d3"
    using fuse_insert_message_ok [OF inv3 t3] out F(2) by (auto simp: d3_def)
  have "fd_aw_head d4 = fd_aw_head d" using d4(4) F(7) by (simp add: d3_def d2_def)
  moreover have "\<forall>r. r \<noteq> q \<longrightarrow> fd_tickets d4 r = fd_tickets d r"
    using d4(3) F(8) by (simp add: d3_def d2_def)
  ultimately show ?thesis
    using m(1) p(1) u3 d4(1,2) F(2,5) unfolding d2_def by blast
qed

lemma fuse_internal_forget_send_ok:
  assumes "mem_ok E" and "session_inv d thr" and "alloc_ok p d"
  shows "\<exists>q d'. fuse_internal_forget_send E p werr ctx nid nl d = Some (q, d') \<and> session_inv d' thr"
proof -
  have "length (le_enc 8 nl) = 8" by simp
  from send_invalid_ok [OF assms this, where op = FUSE_FORGET and nid = nid and ctx = ctx and werr = werr]
  show ?thesis by (auto simp: fuse_internal_forget_send_def)
qed

lemma fuse_internal_interrupt_send_ok:
  assumes "mem_ok E" and "session_inv d thr" and "alloc_ok p' d"
    and "fd_tickets d p = Some t" and "thr p \<noteq> None"
  shows "\<exists>q d'. fuse_internal_interrupt_send E p' werr p d = Some (q, d') \<and> session_inv d' thr \<and>
           fd_tickets d' p = Some t \<and> fd_aw_head d' = fd_aw_head d"
proof -
  have "length (le_enc 8 (tk_unique t)) = 8" by simp
  from send_invalid_ok [OF assms(1-3) this, where op = FUSE_INTERRUPT and nid = 0 and ctx = None and werr = werr]
  obtain q d1 d2 d3 d4 where *:
    "fdisp_make E None p' werr FUSE_INTERRUPT 0 8 None d = Some (q, d1)"
    "fdisp_put_indata q (le_enc 8 (tk_unique t)) d1 = Some d2" "tk_upd q fticket_invalidate d2 = Some d3"
    "fuse_insert_message q d3 = Some d4" "session_inv d4 thr" "thr q = None"
    "fd_aw_head d4 = fd_aw_head d"
    "\<forall>r. r \<noteq> q \<longrightarrow> fd_tickets d4 r = fd_tickets d r"
    by blast
  moreover have "p \<noteq> q" using assms(5) *(6) by auto
  ultimately show ?thesis using assms(4) by (simp add: fuse_internal_interrupt_send_def)
qed

subsection \<open>Waiting\<close>

lemma answered_simps [simp]:
  "fticket_answered (fticket_set_answered t)"
  "tk_unique (fticket_set_answered t) = tk_unique t"
  "tk_ms_fiov (fticket_set_answered t) = tk_ms_fiov t"
  "tk_aw_fiov (fticket_set_answered t) = tk_aw_fiov t"
  "tk_aw_handler (fticket_set_answered t) = tk_aw_handler t"
  "flag_set (tk_flag (fticket_set_answered t)) FT_KILLL = flag_set (tk_flag t) FT_KILLL"
  "flag_set (tk_flag (fticket_set_answered t)) FT_INVAL = flag_set (tk_flag t) FT_INVAL"
  "fticket_answered (t\<lparr>tk_aw_handler := h\<rparr>) = fticket_answered t"
  by (simp_all add: fticket_answered_def fticket_set_answered_def flag_set_or)


lemma after_answ_inv:
  "ipc_inv (after_answ p thr (Answ_sleeps, d)) \<longleftrightarrow> session_inv d (thr(p \<mapsto> Waiting))"
  "ipc_inv (after_answ p thr (Answ_returns res, d)) \<longleftrightarrow>
     (if fr_err res = 0 then session_inv d (thr(p \<mapsto> Answered)) else session_inv d (thr(p := None)))"
  by (simp_all add: after_answ_def ipc_inv_def)

text \<open>The end of \<open>fdisp_wait_answ\<close> for a ticket that is on no queue any more.\<close>

lemma finish_answered:
  assumes mem: "mem_ok E" and inv: "session_inv d thr'" and t: "fd_tickets d p = Some t"
    and ans: "fticket_answered t" and inval: "\<not> flag_set (tk_flag t) FT_INVAL"
    and out: "p \<notin> set (fd_freetickets_head d)" "p \<notin> set (fd_ms_head d)" "p \<notin> set (fd_aw_head d)"
    and thr: "thr'(p := None) = thr(p := None)"
  shows "\<exists>res d'. fdisp_wait_answ_finish E p err d = Some (res, d') \<and>
           ipc_inv (after_answ p thr (Answ_returns res, d'))"
proof -
  obtain d' where drop: "fuse_ticket_drop E p d = Some d'" "session_inv d' (thr(p := None))"
    using fuse_ticket_drop_ok [OF mem inv t out] thr by auto
  have kept: "session_inv d (thr(p \<mapsto> Answered))"
  proof -
    have "ticket_ok (fd_ticketer d) (p \<in> set (fd_freetickets_head d)) (p \<in> set (fd_ms_head d))
           (p \<in> set (fd_aw_head d)) (Some Answered) t"
      using session_inv_ticket [OF inv t] out inval by (simp add: ticket_ok_def)
    from session_inv_phase [OF inv t this] have "session_inv d (thr'(p \<mapsto> Answered))" .
    moreover have "thr'(p \<mapsto> Answered) = thr(p \<mapsto> Answered)"
      using thr by (metis fun_upd_upd)
    ultimately show ?thesis by simp
  qed
  show ?thesis
  proof (cases "err \<noteq> 0 \<or> tk_aw_errno t \<noteq> 0 \<or> ohead_error (tk_aw_ohead t) \<noteq> 0")
    case True
    with drop t ans show ?thesis by (auto simp: fdisp_wait_answ_finish_def after_answ_inv)
  next
    case False
    with kept t ans show ?thesis by (simp add: fdisp_wait_answ_finish_def after_answ_inv)
  qed
qed

text \<open>A requester that gives up leaves its ticket to the daemon, without a handler.\<close>

lemma finish_unanswered:
  assumes inv: "session_inv d thr" and ph: "thr p = Some Waiting" and t: "fd_tickets d p = Some t"
    and ans: "\<not> fticket_answered t" and err: "err \<noteq> 0"
  shows "\<exists>res d'. fdisp_wait_answ_finish E p err d = Some (res, d') \<and>
           ipc_inv (after_answ p thr (Answ_returns res, d'))"
proof -
  note tok = session_inv_ticket [OF inv t, unfolded ph]
  then have aw: "p \<in> set (fd_aw_head d)" using ans by (simp add: ticket_ok_def)
  let ?t = "(fticket_set_answered t)\<lparr>tk_aw_handler := None\<rparr>"
  have ok: "ticket_ok (fd_ticketer d) (p \<in> set (fd_freetickets_head d)) (p \<in> set (fd_ms_head d))
       (p \<in> set (fd_aw_head d)) None ?t"
    using tok by (auto simp: ticket_ok_def)
  have "session_inv (d\<lparr>fd_tickets := (fd_tickets d)(p \<mapsto> ?t)\<rparr>) (thr(p := None))"
    by (rule session_inv_upd [OF inv t]) (simp_all add: ok)
  with aw t ans err show ?thesis
    by (simp add: fdisp_wait_answ_finish_def tk_upd_def after_answ_inv)
qed

lemma waiting_facts:
  assumes "session_inv d thr" and "thr p = Some Waiting" and "fd_tickets d p = Some t"
  shows "\<not> flag_set (tk_flag t) FT_INVAL" "p \<notin> set (fd_freetickets_head d)"
    "fticket_answered t \<Longrightarrow> p \<notin> set (fd_ms_head d)" "fticket_answered t \<longleftrightarrow> p \<notin> set (fd_aw_head d)"
  using session_inv_ticket [OF assms(1,3), unfolded assms(2)]
  by (auto simp: ticket_ok_def split: if_splits)

text \<open>Whatever a segment of \<open>fticket_wait_answer\<close> returned while the requester is waiting.\<close>

lemma wait_continue_ok:
  assumes mem: "mem_ok E" and inv: "session_inv d thr" and ph: "thr p = Some Waiting"
    and ans: "p \<in> set (fd_aw_head d) \<longrightarrow> w = Wait_sleeps \<or> (\<exists>e. w = Wait_returns e \<and> e \<noteq> 0)"
  shows "\<exists>r. fdisp_wait_answ_continue E p (w, d) = Some r \<and> ipc_inv (after_answ p thr r)"
proof -
  obtain t where t: "fd_tickets d p = Some t" using session_inv_thr [OF inv ph] .
  note W = waiting_facts [OF inv ph t]
  have upd: "thr(p \<mapsto> Waiting) = thr" using ph by (rule map_upd_triv)
  show ?thesis
  proof (cases w)
    case Wait_sleeps
    then show ?thesis
      using inv by (simp add: fdisp_wait_answ_continue_def after_answ_inv upd)
  next
    case (Wait_returns e)
    have "\<exists>res d'. fdisp_wait_answ_finish E p e d = Some (res, d') \<and>
           ipc_inv (after_answ p thr (Answ_returns res, d'))"
    proof (cases "fticket_answered t")
      case True
      then show ?thesis using W by (intro finish_answered [OF mem inv t]) auto
    next
      case False
      then show ?thesis using W ans Wait_returns by (intro finish_unanswered [OF inv ph t]) auto
    qed
    then show ?thesis using Wait_returns by (auto simp: fdisp_wait_answ_continue_def)
  qed
qed

lemma wait_already_dead_ok:
  assumes inv: "session_inv d thr" and ph: "thr p = Some Waiting" and out: "p \<notin> set (fd_aw_head d)"
  shows "\<exists>e d'. wait_already_dead p d = Some (Wait_returns e, d') \<and> session_inv d' thr \<and>
           p \<notin> set (fd_aw_head d')"
proof -
  obtain t where t: "fd_tickets d p = Some t" using session_inv_thr [OF inv ph] .
  let ?d = "if fdata_dead_get d then d else fdata_set_dead d"
  have inv': "session_inv ?d thr" and t': "fd_tickets ?d p = Some t" and out': "p \<notin> set (fd_aw_head ?d)"
    using inv t out by auto
  note tok = session_inv_ticket [OF inv' t', unfolded ph]
  have "ticket_ok (fd_ticketer ?d) (p \<in> set (fd_freetickets_head ?d)) (p \<in> set (fd_ms_head ?d))
       (p \<in> set (fd_aw_head ?d)) (thr p) (fticket_set_answered t)"
    using tok out' unfolding ph by (auto simp: ticket_ok_def split: if_splits)
  then have "session_inv (?d\<lparr>fd_tickets := (fd_tickets ?d)(p \<mapsto> fticket_set_answered t)\<rparr>) thr"
    by (intro session_inv_upd [OF inv' t']) simp_all
  then show ?thesis
    using tk_upd_Some [OF t'] out' by (simp add: wait_already_dead_def)
qed

lemma wait_timed_out_ok:
  assumes inv: "session_inv d thr" and ph: "thr p = Some Waiting" and live: "\<not> dies_waiting alert p d"
  shows "\<exists>w d'. wait_timed_out alert p d = Some (w, d') \<and> session_inv d' thr \<and>
           (p \<in> set (fd_aw_head d') \<longrightarrow> w = Wait_sleeps)"
proof -
  obtain t where t: "fd_tickets d p = Some t" using session_inv_thr [OF inv ph] .
  let ?ok = "\<lambda>r. \<exists>w d'. r = Some (w, d') \<and> (w = Wait_sleeps \<longrightarrow> session_inv d' thr) \<and>
      (p \<notin> set (fd_aw_head d) \<longrightarrow> session_inv d' thr \<and> p \<notin> set (fd_aw_head d'))"
  have dead: "?ok (wait_already_dead p d2)"
    if "session_inv d2 thr" "fd_aw_head d2 = fd_aw_head d" "fd_tickets d2 = fd_tickets d" for d2
  proof (cases "p \<in> set (fd_aw_head d)")
    case True
    have "fd_tickets (if fdata_dead_get d2 then d2 else fdata_set_dead d2) p = Some t"
      using that(3) t by simp
    from tk_upd_Some [OF this] True show ?thesis by (simp add: wait_already_dead_def)
  next
    case False
    with that wait_already_dead_ok [OF that(1) ph] show ?thesis by auto
  qed
  have alert: "?ok (wait_after_alert alert p d2)"
    if "session_inv d2 thr" "fd_aw_head d2 = fd_aw_head d" "fd_tickets d2 = fd_tickets d" for d2
    using that dead [of "d2\<lparr>fd_timeout_status := FUSE_DAEMON_TIMEOUT_DEAD\<rparr>"]
    by (auto simp: wait_after_alert_def split: kunc_response.splits option.splits)
  have "?ok (wait_timed_out alert p d)"
    using inv alert [of "d\<lparr>fd_timeout_status := FUSE_DAEMON_TIMEOUT_PROCESSING\<rparr>"]
      dead [of "d\<lparr>fd_timeout_status := FUSE_DAEMON_TIMEOUT_DEAD\<rparr>"] dead [of d]
    by (simp add: wait_timed_out_def)
  then obtain w d' where w: "wait_timed_out alert p d = Some (w, d')"
      "w = Wait_sleeps \<longrightarrow> session_inv d' thr"
      "p \<notin> set (fd_aw_head d) \<longrightarrow> session_inv d' thr \<and> p \<notin> set (fd_aw_head d')"
    by blast
  show ?thesis
  proof (cases "p \<in> set (fd_aw_head d)")
    case True
    with live w(1) have "w = Wait_sleeps"
      by (cases w) (simp_all add: dies_waiting_def)
    with w show ?thesis by simp
  next
    case False
    with w show ?thesis by simp
  qed
qed

lemma fdisp_wait_answ_wake_ok:
  assumes mem: "mem_ok E" and inv: "session_inv d thr" and ph: "thr p = Some Waiting"
    and al: "alloc_ok p' d" and live: "err = EAGAIN \<longrightarrow> \<not> dies_waiting alert p d"
  shows "\<exists>r. fdisp_wait_answ_wake E p' werr alert err p d = Some r \<and> ipc_inv (after_answ p thr r)"
proof -
  obtain t where t: "fd_tickets d p = Some t" using session_inv_thr [OF inv ph] .
  have "\<exists>w d'. fticket_wait_answer_wake E p' werr alert err p d = Some (w, d') \<and> session_inv d' thr \<and>
      (p \<in> set (fd_aw_head d') \<longrightarrow> w = Wait_sleeps \<or> (\<exists>e. w = Wait_returns e \<and> e \<noteq> 0))"
  proof (cases "err = EAGAIN")
    case True
    then have "\<not> dies_waiting alert p d" using live by simp
    from wait_timed_out_ok [OF inv ph this] True show ?thesis
      unfolding fticket_wait_answer_wake_def by auto
  next
    case False
    show ?thesis
    proof (cases "err = EINTR")
      case True
      obtain q d' where "fuse_internal_interrupt_send E p' werr p d = Some (q, d')" "session_inv d' thr"
          "fd_tickets d' p = Some t"
        using fuse_internal_interrupt_send_ok [OF mem inv al t, of werr] ph by auto
      with True show ?thesis by (simp add: fticket_wait_answer_wake_def)
    next
      case not_intr: False
      have "fticket_answered t \<longrightarrow> p \<notin> set (fd_aw_head d)"
        using waiting_facts [OF inv ph t] by simp
      with False not_intr inv t show ?thesis by (auto simp: fticket_wait_answer_wake_def)
    qed
  qed
  then obtain w d' where w: "fticket_wait_answer_wake E p' werr alert err p d = Some (w, d')"
      "session_inv d' thr" "p \<in> set (fd_aw_head d') \<longrightarrow> w = Wait_sleeps \<or> (\<exists>e. w = Wait_returns e \<and> e \<noteq> 0)"
    by blast
  from wait_continue_ok [OF mem w(2) ph w(3)] w(1) show ?thesis
    by (simp add: fdisp_wait_answ_wake_def)
qed


lemma fuse_insert_callback_ok:
  assumes inv: "session_inv d thr" and t: "fd_tickets d p = Some t" and ph: "thr p = Some Building"
    and live: "\<not> fdata_dead_get d"
    and h: "ph = (if h = Some Standard_handler then Some Waiting else None)"
    and ans: "h = Some Standard_handler \<longrightarrow> answerable t"
  shows "\<exists>d'. fuse_insert_callback p h d = Some d' \<and> session_inv d' (thr(p := ph)) \<and>
           fd_tickets d' p = Some (t\<lparr>tk_aw_handler := h\<rparr>) \<and> p \<in> set (fd_aw_head d') \<and>
           p \<notin> set (fd_ms_head d') \<and> p \<notin> set (fd_freetickets_head d') \<and>
           tk_flag t = 0 \<and> fd_dataflags d' = fd_dataflags d"
proof -
  note inv' = inv [unfolded session_inv_def]
  note tok = session_inv_ticket [OF inv t, unfolded ph]
  then have out: "p \<notin> set (fd_freetickets_head d)" "p \<notin> set (fd_ms_head d)" "p \<notin> set (fd_aw_head d)"
    and flag: "tk_flag t = 0"
    by (auto simp: ticket_ok_def)
  let ?t = "t\<lparr>tk_aw_handler := h\<rparr>" let ?aw = "fd_aw_head d @ [p]"
  have ok: "ticket_ok (fd_ticketer d) (p \<in> set (fd_freetickets_head d)) (p \<in> set (fd_ms_head d))
       (p \<in> set ?aw) ((thr(p := ph)) p) ?t"
    using tok out flag ans h by (auto simp: ticket_ok_def fticket_answered_def)
  have aw: "distinct ?aw" "set ?aw - {p} = set (fd_aw_head d) - {p}"
    using tickets_invD(11) [OF inv'] out by auto
  have un: "tk_unique ?t = tk_unique t" by simp
  have "session_inv (fuse_aw_push p (d\<lparr>fd_tickets := (fd_tickets d)(p \<mapsto> ?t)\<rparr>)) (thr(p := ph))"
    using tickets_inv_upd [where thr' = "thr(p := ph)", OF inv' t un tickets_invD(10) [OF inv'] refl aw ok]
    by (simp add: session_inv_def fuse_aw_push_def)
  with live t out flag show ?thesis
    by (simp add: fuse_insert_callback_def tk_upd_def fuse_aw_push_def)
qed

lemma fdisp_wait_answ_begin_ok:
  assumes mem: "mem_ok E" and inv: "session_inv d thr" and t: "fd_tickets d p = Some t"
    and ph: "thr p = Some Building" and ans: "answerable t"
  shows "\<exists>r. fdisp_wait_answ_begin E p d = Some r \<and> ipc_inv (after_answ p thr r)"
proof (cases "fdata_dead_get d")
  case False
  obtain d1 where d1: "fuse_insert_callback p (Some Standard_handler) d = Some d1"
      "session_inv d1 (thr(p \<mapsto> Waiting))" "fd_tickets d1 p = Some (t\<lparr>tk_aw_handler := Some Standard_handler\<rparr>)"
      "p \<in> set (fd_aw_head d1)" "p \<notin> set (fd_ms_head d1)" "p \<notin> set (fd_freetickets_head d1)"
      "tk_flag t = 0" "fd_dataflags d1 = fd_dataflags d"
    using fuse_insert_callback_ok [OF inv t ph False, where h = "Some Standard_handler"] ans by auto
  have clean: "\<not> flag_set (tk_flag (t\<lparr>tk_aw_handler := Some Standard_handler\<rparr>)) FT_DIRTY"
    using d1(7) by simp
  have ph1: "(thr(p \<mapsto> Waiting)) p = None \<or> (thr(p \<mapsto> Waiting)) p = Some Waiting \<and> p \<in> set (fd_aw_head d1)"
    using d1(4) by simp
  obtain d2 where d2: "fuse_insert_message p d1 = Some d2" "session_inv d2 (thr(p \<mapsto> Waiting))"
      "fd_tickets d2 = (fd_tickets d1)(p \<mapsto> t\<lparr>tk_aw_handler := Some Standard_handler,
         tk_flag := tk_flag (t\<lparr>tk_aw_handler := Some Standard_handler\<rparr>) OR FT_DIRTY\<rparr>)"
      "fd_dataflags d2 = fd_dataflags d1"
    using fuse_insert_message_ok [OF d1(2,3) clean d1(5,6) ph1] by blast
  have t2: "fd_tickets d2 p = Some (t\<lparr>tk_aw_handler := Some Standard_handler, tk_flag := FT_DIRTY\<rparr>)"
    using d2(3) d1(7) by simp
  have "\<not> fdata_dead_get d2" using False d1(8) d2(4) by (simp add: fdata_dead_get_def)
  moreover have "\<not> fticket_answered (t\<lparr>tk_aw_handler := Some Standard_handler, tk_flag := FT_DIRTY\<rparr>)"
    by (simp add: fticket_answered_def)
  ultimately show ?thesis
    using d1(1) d2 t2 by (simp add: fdisp_wait_answ_begin_def fticket_wait_answer_begin_def
        fdisp_wait_answ_continue_def after_answ_inv)
next
  case True
  note tok = session_inv_ticket [OF inv t, unfolded ph]
  then have out: "p \<notin> set (fd_freetickets_head d)" "p \<notin> set (fd_ms_head d)" "p \<notin> set (fd_aw_head d)"
    and flag: "tk_flag t = 0"
    by (auto simp: ticket_ok_def)
  have inv0: "session_inv d (thr(p := None))"
    by (rule session_inv_phase [OF inv t]) (use tok out in \<open>simp add: ticket_ok_def\<close>)
  have clean: "\<not> flag_set (tk_flag t) FT_DIRTY" using flag by simp
  obtain d2 where d2: "fuse_insert_message p d = Some d2"
      "fd_tickets d2 = (fd_tickets d)(p \<mapsto> t\<lparr>tk_flag := tk_flag t OR FT_DIRTY\<rparr>)"
      "session_inv d2 (thr(p := None))" "fd_dataflags d2 = fd_dataflags d"
    using fuse_insert_message_ok [OF inv0 t clean out(2,1)] by auto
  have q2: "fd_ms_head d2 = fd_ms_head d" "fd_aw_head d2 = fd_aw_head d"
      "fd_freetickets_head d2 = fd_freetickets_head d" 
    using d2(1) t True clean by (auto simp: fuse_insert_message_def tk_upd_def fdata_dead_get_def)
  let ?t = "fticket_set_answered (t\<lparr>tk_flag := FT_DIRTY\<rparr>)"
  have t2: "fd_tickets d2 p = Some (t\<lparr>tk_flag := FT_DIRTY\<rparr>)" using d2(2) flag by simp
  let ?d3 = "d2\<lparr>fd_tickets := (fd_tickets d2)(p \<mapsto> ?t)\<rparr>"
  have inv3: "session_inv ?d3 (thr(p := None))"
    by (rule session_inv_upd [OF d2(3) t2])
      (use session_inv_ticket [OF d2(3) t2] out q2 in \<open>auto simp: ticket_ok_def\<close>)
  have "fticket_wait_answer_begin p d2 = Some (Wait_returns ENOTCONN, ?d3)"
    using t2 True d2(4)
    by (simp add: fticket_wait_answer_begin_def fticket_answered_def tk_upd_def fdata_dead_get_def)
  moreover have "\<exists>res d'. fdisp_wait_answ_finish E p ENOTCONN ?d3 = Some (res, d') \<and>
           ipc_inv (after_answ p thr (Answ_returns res, d'))"
    by (rule finish_answered [OF mem inv3, of p ?t]) (use out q2 in simp_all)
  moreover have "fuse_insert_callback p (Some Standard_handler) d = Some d"
    using t True by (simp add: fuse_insert_callback_def)
  ultimately show ?thesis
    using d2(1) by (auto simp: fdisp_wait_answ_begin_def fdisp_wait_answ_continue_def)
qed

lemma send_async_ok:
  assumes inv: "session_inv d thr" and t: "fd_tickets d p = Some t"
    and ph: "thr p = Some Building" and h: "h \<noteq> Some Standard_handler"
  shows "\<exists>d1 d2. fuse_insert_callback p h d = Some d1 \<and> fuse_insert_message p d1 = Some d2 \<and>
           session_inv d2 (thr(p := None))"
proof (cases "fdata_dead_get d")
  case False
  obtain d1 where d1: "fuse_insert_callback p h d = Some d1" "session_inv d1 (thr(p := None))"
      "fd_tickets d1 p = Some (t\<lparr>tk_aw_handler := h\<rparr>)"
      "p \<notin> set (fd_ms_head d1)" "p \<notin> set (fd_freetickets_head d1)" "tk_flag t = 0"
    using fuse_insert_callback_ok [OF inv t ph False, where h = h] h by auto
  have "\<not> flag_set (tk_flag (t\<lparr>tk_aw_handler := h\<rparr>)) FT_DIRTY" using d1(6) by simp
  from fuse_insert_message_ok [OF d1(2,3) this d1(4,5)] d1(1) show ?thesis by auto
next
  case True
  note tok = session_inv_ticket [OF inv t, unfolded ph]
  then have out: "p \<notin> set (fd_freetickets_head d)" "p \<notin> set (fd_ms_head d)" "p \<notin> set (fd_aw_head d)"
    and flag: "tk_flag t = 0"
    by (auto simp: ticket_ok_def)
  have inv0: "session_inv d (thr(p := None))"
    by (rule session_inv_phase [OF inv t]) (use tok out in \<open>simp add: ticket_ok_def\<close>)
  have "\<not> flag_set (tk_flag t) FT_DIRTY" using flag by simp
  from fuse_insert_message_ok [OF inv0 t this out(2,1)] True t show ?thesis
    by (auto simp: fuse_insert_callback_def)
qed


subsection \<open>Replies\<close>

lemma find_answer_ok:
  assumes "set ps \<subseteq> dom tks"
  shows "\<exists>r. find_answer tks un ps = Some r \<and>
           (\<forall>q. r = Some q \<longrightarrow> q \<in> set ps \<and> (\<exists>t. tks q = Some t \<and> tk_unique t = un)) \<and>
           (r = None \<longrightarrow> (\<forall>q t. q \<in> set ps \<longrightarrow> tks q = Some t \<longrightarrow> tk_unique t \<noteq> un))"
  using assms by (induction ps) auto

lemma uiomove_in_length:
  assumes "uiomove_in n u = (e, bs, u1)"
  shows "length bs \<le> n" and "e = 0 \<Longrightarrow> bs = take n (uio_data u) \<and> uio_data u1 = drop n (uio_data u)"
    and "length (uio_data u1) \<le> length (uio_data u)"
  using assms by (auto simp: uiomove_in_def Let_def split: if_splits)

lemma audit_read:
  assumes "body_length_ok abi rsize op blen = Some True" and "op \<in> {FUSE_READ, FUSE_READDIR}"
  shows "blen \<le> rsize"
  using assms by auto

lemma body_length_defined: "has_answer op \<Longrightarrow> \<exists>b. body_length_ok abi rsize op blen = Some b"
  by (cases op) (auto simp: has_answer_def)

text \<open>The body of a reply that passes the audit fits the buffer it goes to.\<close>

lemma fticket_pull_ok:
  assumes mem: "mem_ok E" and ans: "answerable t" and io: "iov_ok (tk_aw_fiov t)"
    and len: "length (uio_data u) < 2 ^ 32"
  shows "\<exists>e t'. fticket_pull E d t u = Some (e, t') \<and> tk_unique t' = tk_unique t \<and>
           tk_flag t' = tk_flag t \<and> tk_ms_fiov t' = tk_ms_fiov t \<and> iov_ok (tk_aw_fiov t')"
proof (cases "ohead_error (tk_aw_ohead t) \<noteq> 0")
  case True
  then show ?thesis using io by (simp add: fticket_pull_def)
next
  case False
  obtain op where op: "opcode_of (fticket_opcode t) = Some op" "has_answer op"
      "tk_aw_type t = FT_A_BUF \<longrightarrow> op \<in> {FUSE_READ, FUSE_READDIR} \<and>
         (case tk_aw_bufdata t of None \<Rightarrow> False | Some b \<Rightarrow> read_in_size t \<le> length b)"
    using ans by (auto simp: answerable_def split: option.splits)
  let ?n = "length (uio_data u)"
  obtain g where g: "body_length_ok (fuse_libabi_geq d 7 4) (read_in_size t) op ?n = Some g"
    using body_length_defined [OF op(2)] by blast
  obtain e where audit: "fuse_body_audit d t ?n = Some e" and good: "e = 0 \<longrightarrow> g"
    using that [of "if fdata_dead_get d then ENOTCONN else if g then 0 else EINVAL"] op(1) g
    by (cases "fdata_dead_get d") (simp_all add: fuse_body_audit_def)
  show ?thesis
  proof (cases "e = 0")
    case bad: False
    then show ?thesis using False audit io by (simp add: fticket_pull_def)
  next
    case True
    obtain e2 bs u2 where mv: "uiomove_in ?n u = (e2, bs, u2)" by (cases "uiomove_in ?n u")
    note bs = uiomove_in_length [OF mv]
    have "\<exists>e t'. fticket_aw_pull_uio E t u = Some (e, t') \<and> tk_unique t' = tk_unique t \<and>
           tk_flag t' = tk_flag t \<and> tk_ms_fiov t' = tk_ms_fiov t \<and> iov_ok (tk_aw_fiov t')"
    proof (cases "tk_aw_type t")
      case FT_A_FIOV
      obtain v where v: "fiov_adjust_canfail E (tk_aw_fiov t) ?n = Some (0, v)" "iov_ok v" "iov_len v = ?n"
        using fiov_adjust_canfail_ok [OF mem io len] by blast
      then have "iov_ok (v\<lparr>iov_base := put_bytes 0 bs (iov_base v)\<rparr>)"
        using bs(1) by (simp add: iov_ok_def)
      with FT_A_FIOV v mv io show ?thesis
        by (cases "uio_data u = []") (simp_all add: fticket_aw_pull_uio_def Let_def)
    next
      case FT_A_BUF
      obtain b where b: "tk_aw_bufdata t = Some b" "read_in_size t \<le> length b"
        using op(3) FT_A_BUF by (auto split: option.splits)
      have "?n \<le> read_in_size t"
        using audit_read [of "fuse_libabi_geq d 7 4" "read_in_size t" op ?n] g op(3) FT_A_BUF good True
        by simp
      with b bs(1) FT_A_BUF mv io show ?thesis
        by (cases "uio_data u = []") (simp_all add: fticket_aw_pull_uio_def Let_def)
    qed
    with False audit True show ?thesis by (simp add: fticket_pull_def)
  qed
qed

lemma session_inv_aw_remove:
  assumes inv: "session_inv d thr" and t: "fd_tickets d q = Some t" and un: "tk_unique t' = tk_unique t"
    and ok: "ticket_ok (fd_ticketer d) (q \<in> set (fd_freetickets_head d)) (q \<in> set (fd_ms_head d))
       False (thr q) t'"
  shows "session_inv ((fuse_aw_remove q d)\<lparr>fd_tickets := (fd_tickets d)(q \<mapsto> t')\<rparr>) thr"
proof -
  note inv' = inv [unfolded session_inv_def]
  note I = tickets_invD [OF inv']
  have aw: "distinct (remove1 q (fd_aw_head d))"
      "set (remove1 q (fd_aw_head d)) - {q} = set (fd_aw_head d) - {q}"
    using I(11) by auto
  have ok': "ticket_ok (fd_ticketer d) (q \<in> set (fd_freetickets_head d)) (q \<in> set (fd_ms_head d))
       (q \<in> set (remove1 q (fd_aw_head d))) (thr q) t'"
    using ok I(11) by simp
  show ?thesis
    using tickets_inv_upd [where thr' = thr, OF inv' t un I(10) refl aw ok' refl]
    by (simp add: session_inv_def fuse_aw_remove_def)
qed

lemma call_handler_ok:
  assumes mem: "mem_ok E" and inv: "session_inv d thr" and t: "fd_tickets d q = Some t"
    and al: "alloc_ok p d" and len: "length (uio_data u) < 2 ^ 32"
    and out: "q \<notin> set (fd_freetickets_head d)" "q \<notin> set (fd_ms_head d)" "q \<notin> set (fd_aw_head d)"
    and notstd: "h \<noteq> Standard_handler" and ph: "thr q = None"
  shows "\<exists>e d'. call_handler E p werr h q u d = Some (e, d') \<and> session_inv d' thr"
proof (cases h)
  case Fsync_callback
  let ?drop = "\<lambda>d1. \<exists>d'. fuse_ticket_drop E q d1 = Some d' \<and> session_inv d' thr"
  have upd: "thr(q := None) = thr" using ph by auto
  have drop: "?drop (fuse_clear_implemented w d)" for w
    using fuse_ticket_drop_ok [OF mem, of "fuse_clear_implemented w d" thr q t] inv t out upd
    by (auto simp: fuse_clear_implemented_def)
  have "?drop d"
    using fuse_ticket_drop_ok [OF mem inv t out] upd by auto
  with drop [of "FSESS_NOIMPLBIT FUSE_FSYNC"] drop [of "FSESS_NOIMPLBIT FUSE_FSYNCDIR"] t Fsync_callback
  show ?thesis
    by (auto simp: call_handler_def fuse_internal_fsync_callback_def)
next
  case Forget_callback
  obtain q' d' where "fuse_internal_forget_send E p werr None
        (ih_nodeid (get_in_header (iov_base (tk_ms_fiov t)))) 1 d = Some (q', d')" "session_inv d' thr"
    using fuse_internal_forget_send_ok [OF mem inv al] by blast
  with t Forget_callback show ?thesis
    by (simp add: call_handler_def fuse_internal_forget_callback_def)
qed (use notstd in simp)

lemma alloc_ok_frame [simp]:
  "alloc_ok p (fuse_aw_remove q d) = alloc_ok p d"
  "alloc_ok p (d\<lparr>fd_tickets := (fd_tickets d)(q \<mapsto> t)\<rparr>) \<longleftrightarrow> p \<noteq> q \<and> alloc_ok p d"
  by (auto simp: alloc_ok_def fuse_aw_remove_def)


lemma fuse_device_write_ok:
  assumes mem: "mem_ok E" and inv: "session_inv d thr" and al: "alloc_ok p d"
    and len: "length (uio_data u) < 2 ^ 32" and read: "answers_read_request u d"
  shows "\<exists>e d'. fuse_device_write E p werr u d = Some (e, d') \<and> session_inv d' thr"
proof -
  note inv' = inv [unfolded session_inv_def]
  note I = tickets_invD [OF inv']
  obtain e0 hb u1 where mv: "uiomove_in sizeof_out_header u = (e0, hb, u1)"
    by (cases "uiomove_in sizeof_out_header u")
  show ?thesis
  proof (cases "length (uio_data u) < sizeof_out_header \<or> e0 \<noteq> 0 \<or>
      length (uio_data u1) + sizeof_out_header \<noteq> unat (oh_len (get_out_header hb)) \<or>
      (uio_data u1 \<noteq> [] \<and> oh_error (get_out_header hb) \<noteq> 0)")
    case True
    then have "\<exists>e. fuse_device_write E p werr u d = Some (e, d)"
      using mv unfolding fuse_device_write_def Let_def
      by (cases "length (uio_data u) < sizeof_out_header"; cases "e0 = 0";
          cases "length (uio_data u1) + sizeof_out_header \<noteq> unat (oh_len (get_out_header hb))") simp_all
    then show ?thesis using inv by auto
  next
    case False
    let ?oh = "get_out_header hb"
    have hb: "hb = take sizeof_out_header (uio_data u)" using uiomove_in_length(2) [OF mv] False by simp
    have len1: "length (uio_data u1) < 2 ^ 32"
      using uiomove_in_length(3) [OF mv] len by linarith
    obtain r where r: "find_answer (fd_tickets d) (oh_unique ?oh) (fd_aw_head d) = Some r"
        "\<forall>q. r = Some q \<longrightarrow> q \<in> set (fd_aw_head d) \<and>
           (\<exists>t. fd_tickets d q = Some t \<and> tk_unique t = oh_unique ?oh)"
      using find_answer_ok [OF I(13), of "oh_unique ?oh"] by blast
    show ?thesis
    proof (cases r)
      case None
      then show ?thesis using False mv r(1) inv by (simp add: fuse_device_write_def Let_def)
    next
      case (Some q)
      then obtain t where q: "q \<in> set (fd_aw_head d)" "fd_tickets d q = Some t"
          "tk_unique t = oh_unique ?oh"
        using r(2) by blast
      note tok = session_inv_ticket [OF inv q(2)]
      have fr: "q \<notin> set (fd_freetickets_head d)" using tok q(1) by (auto simp: ticket_ok_def)
      have ms: "q \<notin> set (fd_ms_head d)"
        using read q(2,3) hb by (auto simp: answers_read_request_def reply_unique_def list_all_iff)
      have pq: "p \<noteq> q" using al q(2) by (auto simp: alloc_ok_def)
      define d1 where "d1 = fuse_aw_remove q d"
      have t1: "fd_tickets d1 q = Some t" using q(2) by (simp add: d1_def fuse_aw_remove_def)
      have out1: "q \<notin> set (fd_freetickets_head d1)" "q \<notin> set (fd_ms_head d1)" "q \<notin> set (fd_aw_head d1)"
        using fr ms I(11) by (simp_all add: d1_def fuse_aw_remove_def)
      let ?oh1 = "?oh\<lparr>oh_error := - oh_error ?oh\<rparr>"
      let ?t = "t\<lparr>tk_aw_ohead := ?oh1\<rparr>"
      have al1: "alloc_ok p (d1\<lparr>fd_tickets := (fd_tickets d1)(q \<mapsto> t')\<rparr>)" for t'
        using al pq by (simp add: d1_def)
      have rest: "fuse_device_write E p werr u d =
          (case tk_aw_handler t of
             Some h \<Rightarrow> do { d2 \<leftarrow> tk_upd q (\<lambda>t. t\<lparr>tk_aw_ohead := ?oh1\<rparr>) d1; call_handler E p werr h q u1 d2 }
           | None \<Rightarrow> do { d2 \<leftarrow> fuse_ticket_drop E q d1; Some (0, d2) })"
        using False mv r(1) Some t1 unfolding d1_def by (auto simp: fuse_device_write_def Let_def)
      show ?thesis
      proof (cases "tk_aw_handler t = Some Standard_handler")
        case std: True
        have ph: "thr q = Some Waiting" and nans: "\<not> fticket_answered t" and ansb: "answerable t"
          using tok q(1) std by (auto simp: ticket_ok_def split: if_splits)
        have io: "iov_ok (tk_aw_fiov ?t)" using tok by (simp add: ticket_ok_def)
        obtain e t' where pull: "fticket_pull E (d1\<lparr>fd_tickets := (fd_tickets d1)(q \<mapsto> ?t)\<rparr>) ?t u1 = Some (e, t')"
            "tk_unique t' = tk_unique t" "tk_flag t' = tk_flag t" "tk_ms_fiov t' = tk_ms_fiov t"
            "iov_ok (tk_aw_fiov t')"
          using fticket_pull_ok [OF mem _ io len1] ansb by force
        let ?t2 = "(fticket_set_answered t')\<lparr>tk_aw_errno := e\<rparr>"
        have flag2: "fticket_answered ?t2" "\<not> fticket_answered t'"
            "flag_set (tk_flag ?t2) FT_KILLL = flag_set (tk_flag t) FT_KILLL"
            "flag_set (tk_flag ?t2) FT_INVAL = flag_set (tk_flag t) FT_INVAL"
          using nans pull(3)
          by (simp_all add: fticket_answered_def fticket_set_answered_def flag_set_or)
        have ok2: "ticket_ok (fd_ticketer d) (q \<in> set (fd_freetickets_head d)) (q \<in> set (fd_ms_head d))
            False (thr q) ?t2"
          using tok fr ms ph flag2 pull by (simp add: ticket_ok_def)
        have un2: "tk_unique ?t2 = tk_unique t" using pull by simp
        have "session_inv (d1\<lparr>fd_tickets := (fd_tickets d)(q \<mapsto> ?t2)\<rparr>) thr"
          using session_inv_aw_remove [OF inv q(2) un2 ok2] by (simp add: d1_def)
        moreover have "fd_tickets d1 = fd_tickets d" by (simp add: d1_def fuse_aw_remove_def)
        ultimately show ?thesis
          using rest std t1 pull(1) flag2(2)
          by (simp add: tk_upd_def call_handler_def fuse_standard_handler_def)
      next
        case nstd: False
        have ph: "thr q = None"
          using tok q(1) nstd by (cases "thr q"; cases "the (thr q)") (auto simp: ticket_ok_def)
        have ok1: "ticket_ok (fd_ticketer d) (q \<in> set (fd_freetickets_head d)) (q \<in> set (fd_ms_head d))
            False (thr q) ?t"
          using tok fr ms ph by (simp add: ticket_ok_def)
        have inv1: "session_inv (d1\<lparr>fd_tickets := (fd_tickets d)(q \<mapsto> ?t)\<rparr>) thr"
          using session_inv_aw_remove [OF inv q(2) _ ok1] by (simp add: d1_def)
        have tks: "fd_tickets d1 = fd_tickets d" by (simp add: d1_def fuse_aw_remove_def)
        show ?thesis
        proof (cases "tk_aw_handler t")
          case None
          have ok0: "ticket_ok (fd_ticketer d) (q \<in> set (fd_freetickets_head d)) (q \<in> set (fd_ms_head d))
              False (thr q) t"
            using tok fr ms ph by (simp add: ticket_ok_def)
          have "(fd_tickets d)(q \<mapsto> t) = fd_tickets d" using q(2) by (rule map_upd_triv)
          then have "session_inv d1 thr"
            using session_inv_aw_remove [OF inv q(2) refl ok0] by (simp add: d1_def fuse_aw_remove_def)
          from fuse_ticket_drop_ok [OF mem this t1 out1] ph rest None show ?thesis
            by (auto simp: fun_upd_idem)
        next
          case (Some h)
          with nstd have h: "h \<noteq> Standard_handler" by simp
          let ?d2 = "d1\<lparr>fd_tickets := (fd_tickets d1)(q \<mapsto> ?t)\<rparr>"
          have "\<exists>e d'. call_handler E p werr h q u1 ?d2 = Some (e, d') \<and> session_inv d' thr"
            by (rule call_handler_ok [where t = ?t, OF mem])
              (use inv1 tks out1 al1 len1 h ph in simp_all)
          then show ?thesis using rest Some t1 by (simp add: tk_upd_def)
        qed
      qed
    qed
  qed
qed

subsection \<open>Reading\<close>

lemma drop_invalid_ok:
  assumes mem: "mem_ok E" and inv: "session_inv d thr" and t: "fd_tickets d p = Some t"
    and out: "p \<notin> set (fd_freetickets_head d)" "p \<notin> set (fd_ms_head d)"
  shows "\<exists>d'. fuse_ticket_drop_invalid E p d = Some d' \<and> session_inv d' thr"
proof (cases "flag_set (tk_flag t) FT_INVAL")
  case False
  then show ?thesis using t inv by (simp add: fuse_ticket_drop_invalid_def)
next
  case True
  with session_inv_ticket [OF inv t] have "p \<notin> set (fd_aw_head d)" and ph: "thr p = None"
    by (auto simp: ticket_ok_def)
  with fuse_ticket_drop_ok [OF mem inv t out] True t show ?thesis
    by (auto simp: fuse_ticket_drop_invalid_def fun_upd_idem)
qed

lemma move_pieces_data:
  "move_pieces bs u d = (e, u1, d1) \<Longrightarrow>
     d1 = d \<or> d1 = d\<lparr>fd_dataflags := fd_dataflags d OR FSESS_DEAD\<rparr>"
  by (induction bs u d rule: move_pieces.induct) (auto split: if_splits prod.splits)

lemma ticket_ok_unqueue: "ticket_ok tkr fr ms aw ph t \<Longrightarrow> ticket_ok tkr fr False aw ph t"
  unfolding ticket_ok_def by (auto split: if_splits)

lemma fuse_device_read_message_ok:
  assumes mem: "mem_ok E" and inv: "session_inv d thr" and ms: "fd_ms_head d = p # ps"
  shows "\<exists>r d'. fuse_device_read_message E p u (d\<lparr>fd_ms_head := ps\<rparr>) = Some (r, d') \<and> session_inv d' thr"
proof -
  note inv' = inv [unfolded session_inv_def]
  note I = tickets_invD [OF inv']
  obtain t where t: "fd_tickets d p = Some t" using session_inv_ms [OF inv, of p] ms by auto
  note tok = session_inv_ticket [OF inv t]
  have pps: "p \<notin> set ps" "distinct ps" using I(10) ms by simp_all
  have fr: "p \<notin> set (fd_freetickets_head d)" using tok ms by (auto simp: ticket_ok_def)
  have ph: "ticket_ok (fd_ticketer d) (p \<in> set (fd_freetickets_head d)) (p \<in> set ps)
      (p \<in> set (fd_aw_head d)) (thr p) t"
    using ticket_ok_unqueue [OF tok] pps by simp
  have triv: "(fd_tickets d)(p \<mapsto> t) = fd_tickets d" using t by (rule map_upd_triv)
  have "set ps - {p} = set (fd_ms_head d) - {p}" using ms by auto
  from tickets_inv_upd [where thr' = thr, OF inv' t refl pps(2) this I(11) refl ph refl]
  have inv1: "session_inv (d\<lparr>fd_ms_head := ps\<rparr>) thr" by (simp add: session_inv_def triv)
  let ?d = "d\<lparr>fd_ms_head := ps\<rparr>"
  obtain e u1 d1 where mv: "move_pieces (message_pieces t) u ?d = (e, u1, d1)"
    by (cases "move_pieces (message_pieces t) u ?d")
  have d1: "d1 = ?d \<or> d1 = ?d\<lparr>fd_dataflags := fd_dataflags ?d OR FSESS_DEAD\<rparr>"
    by (rule move_pieces_data [OF mv])
  have drop: "\<exists>d'. fuse_ticket_drop_invalid E p d2 = Some d' \<and> session_inv d' thr"
    if "d2 = ?d \<or> d2 = ?d\<lparr>fd_dataflags := fd_dataflags ?d OR FSESS_DEAD\<rparr>" for d2
    by (rule drop_invalid_ok [OF mem, of d2 thr p t]) (use that inv1 t fr pps in auto)
  show ?thesis
    using t mv drop [of ?d] drop [OF d1] by (auto simp: fuse_device_read_message_def)
qed

lemma fuse_device_read_begin_ok:
  assumes mem: "mem_ok E" and inv: "session_inv d thr"
  shows "\<exists>r d'. fuse_device_read_begin E nonblock u d = Some (r, d') \<and> session_inv d' thr"
  using fuse_device_read_message_ok [OF mem inv] inv
  by (cases "fd_ms_head d") (auto simp: fuse_device_read_begin_def fuse_ms_pop_def)

lemma fuse_device_read_wake_ok:
  assumes mem: "mem_ok E" and inv: "session_inv d thr"
  shows "\<exists>r d'. fuse_device_read_wake E nonblock err u d = Some (r, d') \<and> session_inv d' thr"
  using fuse_device_read_message_ok [OF mem inv] fuse_device_read_begin_ok [OF mem inv] inv
  by (cases "fd_ms_head d") (auto simp: fuse_device_read_wake_def fuse_ms_pop_def)


section \<open>Every step is safe\<close>

text \<open>A step the environment may make is defined, and keeps the invariant.\<close>

theorem ipc_step_safe:
  assumes mem: "mem_ok E" and inv: "ipc_inv s" and ok: "ipc_ok s e"
  shows "\<exists>t. ipc_step E s e = Some t \<and> ipc_inv t"
proof -
  note I = inv [unfolded ipc_inv_def]
  have held: "\<exists>t. fd_tickets (ip_d s) p = Some t" if "ip_thr s p = Some ph" for p ph
    using session_inv_thr [OF I that] by blast
  show ?thesis
  proof (cases e)
    case (Ev_make p werr op nid iosize ctx)
    have al: "alloc_ok p (ip_d s)" and lim: "sizeof_in_header + iosize < 2 ^ 32"
      using ok Ev_make by simp_all
    obtain q d' where "fdisp_make E None p werr op nid iosize ctx (ip_d s) = Some (q, d')"
        "session_inv d' ((ip_thr s)(q \<mapsto> Building))"
      using fdisp_make_ok [OF mem I al lim] by blast
    with Ev_make show ?thesis by (simp add: ipc_inv_def)
  next
    case (Ev_remake q op nid iosize ctx)
    then have "ip_thr s q = Some Answered" "sizeof_in_header + iosize < 2 ^ 32" using ok by simp_all
    then obtain d' where "fdisp_make E (Some q) 0 0 op nid iosize ctx (ip_d s) = Some (q, d')"
        "session_inv d' ((ip_thr s)(q \<mapsto> Building))"
      using fdisp_remake_ok [OF mem I] by blast
    with Ev_remake show ?thesis by (simp add: ipc_inv_def)
  next
    case (Ev_indata p bs)
    then obtain t where t: "fd_tickets (ip_d s) p = Some t" "ip_thr s p = Some Building"
        "sizeof_in_header + length bs \<le> iov_len (tk_ms_fiov t)"
      using ok by (auto split: option.splits)
    with fdisp_put_indata_ok [OF I t(1,3)] Ev_indata show ?thesis by (auto simp: ipc_inv_def)
  next
    case (Ev_answer_buf p b)
    then have ph: "ip_thr s p = Some Building" using ok by simp
    then obtain t where t: "fd_tickets (ip_d s) p = Some t" using held by blast
    let ?t = "t\<lparr>tk_aw_type := FT_A_BUF, tk_aw_bufdata := Some b\<rparr>"
    have "session_inv ((ip_d s)\<lparr>fd_tickets := (fd_tickets (ip_d s))(p \<mapsto> ?t)\<rparr>) (ip_thr s)"
      by (rule session_inv_upd [OF I t])
        (use session_inv_ticket [OF I t] ph in \<open>auto simp: ticket_ok_def fticket_answered_def\<close>)
    with Ev_answer_buf t show ?thesis by (simp add: tk_upd_def ipc_inv_def)
  next
    case (Ev_message_buf p b n)
    then have ph: "ip_thr s p = Some Building" using ok by simp
    then obtain t where t: "fd_tickets (ip_d s) p = Some t" using held by blast
    let ?t = "t\<lparr>tk_ms_type := FT_M_BUF, tk_ms_bufdata := Some b, tk_ms_bufsize := n\<rparr>"
    have "session_inv ((ip_d s)\<lparr>fd_tickets := (fd_tickets (ip_d s))(p \<mapsto> ?t)\<rparr>) (ip_thr s)"
      by (rule session_inv_upd [OF I t])
        (use session_inv_ticket [OF I t] ph in \<open>auto simp: ticket_ok_def fticket_answered_def\<close>)
    with Ev_message_buf t show ?thesis by (simp add: tk_upd_def ipc_inv_def)
  next
    case (Ev_send p)
    then obtain t where t: "fd_tickets (ip_d s) p = Some t" "ip_thr s p = Some Building" "answerable t"
      using ok by (auto split: option.splits)
    from fdisp_wait_answ_begin_ok [OF mem I this] Ev_send show ?thesis by auto
  next
    case (Ev_send_async p h)
    then have ph: "ip_thr s p = Some Building" and h: "h \<noteq> Some Standard_handler" using ok by simp_all
    obtain t where t: "fd_tickets (ip_d s) p = Some t" using held [OF ph] by blast
    from send_async_ok [OF I t ph h] Ev_send_async show ?thesis by (auto simp: ipc_inv_def)
  next
    case (Ev_wake p' werr alert err p)
    with ok have "ip_thr s p = Some Waiting" "alloc_ok p' (ip_d s)"
        "err = EAGAIN \<longrightarrow> \<not> dies_waiting alert p (ip_d s)"
      by simp_all
    from fdisp_wait_answ_wake_ok [OF mem I this, of werr] Ev_wake show ?thesis by auto
  next
    case (Ev_drop p)
    then have ph: "ip_thr s p = Some Answered" using ok by simp
    obtain t where t: "fd_tickets (ip_d s) p = Some t" using held [OF ph] by blast
    have "p \<notin> set (fd_freetickets_head (ip_d s))" "p \<notin> set (fd_ms_head (ip_d s))"
        "p \<notin> set (fd_aw_head (ip_d s))"
      using session_inv_ticket [OF I t, unfolded ph] by (auto simp: ticket_ok_def)
    from fuse_ticket_drop_ok [OF mem I t this] Ev_drop show ?thesis by (auto simp: ipc_inv_def)
  next
    case (Ev_forget p werr ctx nid nl)
    with ok fuse_internal_forget_send_ok [OF mem I, of p werr ctx nid nl] show ?thesis
      by (auto simp: ipc_inv_def)
  next
    case (Ev_read nonblock u)
    with fuse_device_read_begin_ok [OF mem I, of nonblock u] show ?thesis by (auto simp: ipc_inv_def)
  next
    case (Ev_read_wake nonblock err u)
    with fuse_device_read_wake_ok [OF mem I, of nonblock err u] show ?thesis by (auto simp: ipc_inv_def)
  next
    case (Ev_write p werr u)
    with ok fuse_device_write_ok [OF mem I, of p u werr] show ?thesis by (auto simp: ipc_inv_def)
  next
    case Ev_set_dead
    with I show ?thesis by (simp add: ipc_inv_def)
  qed
qed

end
