(* ===== verification/Fuse_Protocol.thy ===== *)
theory Fuse_Protocol
  imports Fuse_Session
begin

text \<open>
  What the session promises to its two sides: runs of requesters and daemon are crash-free, requests
  arrive as they were sent, replies reach the requester they are for, a dead session refuses
  everything. Two of the properties show what happens outside the provisos of \<open>ipc_ok\<close>.
\<close>

section \<open>Runs\<close>

text \<open>The session is a crash-free system, in any environment whose allocations succeed.\<close>

interpretation ipc: crash_free_system "ipc_step E" "\<lambda>s e. mem_ok E \<and> ipc_ok s e" ipc_inv for E
proof
  fix s e t
  assume inv: "ipc_inv s" and ok: "mem_ok E \<and> ipc_ok s e" and t: "ipc_step E s e = Some t"
  from ipc_step_safe [OF _ inv, of E e] ok t show "ipc_inv t" by auto
next
  fix s e
  assume inv: "ipc_inv s" and ok: "mem_ok E \<and> ipc_ok s e"
  from ipc_step_safe [OF _ inv, of E e] ok show "\<exists>t. ipc_step E s e = Some t" by auto
qed

lemma events_ok_mem:
  "mem_ok E \<Longrightarrow> events_ok ipc_ok step s es \<Longrightarrow> events_ok (\<lambda>s e. mem_ok E \<and> ipc_ok s e) step s es"
  by (induction es arbitrary: s) (auto split: option.splits)

lemma run_events_safe:
  assumes "mem_ok E" and "ipc_inv s" and "events_ok ipc_ok (ipc_step E) s es"
  shows "\<exists>t. run_events (ipc_step E) s es = Some t \<and> ipc_inv t"
  using ipc.run_defined [OF assms(2) events_ok_mem [OF assms(1,3)]] .

subsection \<open>An environment and a session to run things in\<close>

definition example_cred :: ucred where
  "example_cred = \<lparr>cr_uid = 501, cr_ruid = 501, cr_gid = 20, cr_rgid = 20, cr_svgid = 20\<rparr>"

definition example_env :: kenv where
  "example_env = \<lparr>ke_current = \<lparr>ctx_pid = 77, ctx_ucred = example_cred\<rparr>, ke_junk = (\<lambda>n. 0xAA),
     ke_malloc_ok = (\<lambda>n. True), fuse_iov_permanent_bufsize = 2 ^ 19, fuse_iov_credit = 16,
     fuse_max_freetickets = 1024, fuse_max_tickets = 0\<rparr>"

text \<open>An attribute request of a fresh session, sent and not yet read by the daemon.\<close>

definition getattr_sent :: "ipc_event list" where
  "getattr_sent = [Ev_make 0 0 FUSE_GETATTR 1 0 None, Ev_send 0]"

text \<open>A reply without a body: the errno is sent negated.\<close>

definition error_reply :: "u64 \<Rightarrow> u32 \<Rightarrow> uio_w" where
  "error_reply un e =
     \<lparr>uio_data = put_out_header \<lparr>oh_len = of_nat sizeof_out_header, oh_error = - e, oh_unique = un\<rparr>,
      uio_errs = []\<rparr>"

lemmas ipc_eval =
  example_env_def example_cred_def ipc_init_def fdata_alloc_def
  fdisp_make_def fdisp_ticket_def fuse_ticket_fetch_def fuse_ticket_fetch_begin_def fticket_alloc_def
  fiov_init_def FUSE_OSMalloc_def FU_AT_LEAST_def sizeof_simps fuse_push_allticks_def
  fuse_ticket_fetch_wake_def tk_upd_def fdisp_fill_def fuse_setup_ihead_def
  fiov_adjust_def fiov_reallocs_def fiov_wants_shrink_def fiov_credit_after_def
  fdisp_wait_answ_begin_def fuse_insert_callback_def fdata_dead_get_def fuse_aw_push_def
  fuse_insert_message_def fuse_ms_push_def fticket_wait_answer_begin_def fticket_answered_def
  fdisp_wait_answ_continue_def after_answ_def

lemma example_mem_ok [simp]: "mem_ok example_env"
  by (simp add: mem_ok_def example_env_def)

lemma getattr_sent_ok: "events_ok ipc_ok (ipc_step example_env) (ipc_init example_cred 1) getattr_sent"
  by (simp add: getattr_sent_def ipc_eval alloc_ok_def answerable_def fticket_opcode_def
      get_put_in_header has_answer_def)

lemma getattr_sent_state:
  "\<exists>s t. run_events (ipc_step example_env) (ipc_init example_cred 1) getattr_sent = Some s \<and>
     ipc_inv s \<and> ip_thr s 0 = Some Waiting \<and> fd_ms_head (ip_d s) = [0] \<and> fd_aw_head (ip_d s) = [0] \<and>
     fd_dataflags (ip_d s) = 0 \<and> fd_freeticket_counter (ip_d s) = 0 \<and> fd_ticketer (ip_d s) = 1 \<and>
     fd_tickets (ip_d s) 0 = Some t \<and> tk_unique t = 0 \<and> tk_flag t = FT_DIRTY \<and>
     fticket_opcode t = opcode_word FUSE_GETATTR \<and> tk_aw_handler t = Some Standard_handler \<and>
     fd_timeout_status (ip_d s) = 0 \<and> (\<forall>p. p \<noteq> 0 \<longrightarrow> fd_tickets (ip_d s) p = None) \<and>
     tk_aw_type t = FT_A_FIOV"
proof -
  obtain s where s: "run_events (ipc_step example_env) (ipc_init example_cred 1) getattr_sent = Some s"
      "ipc_inv s"
    using run_events_safe [OF example_mem_ok ipc_inv_init getattr_sent_ok] by blast
  have "ip_thr s 0 = Some Waiting \<and> fd_ms_head (ip_d s) = [0] \<and> fd_aw_head (ip_d s) = [0] \<and>
     fd_dataflags (ip_d s) = 0 \<and> fd_freeticket_counter (ip_d s) = 0 \<and> fd_ticketer (ip_d s) = 1 \<and>
     (\<exists>t. fd_tickets (ip_d s) 0 = Some t \<and> tk_unique t = 0 \<and> tk_flag t = FT_DIRTY \<and>
        fticket_opcode t = opcode_word FUSE_GETATTR \<and> tk_aw_handler t = Some Standard_handler \<and>
        tk_aw_type t = FT_A_FIOV) \<and>
     fd_timeout_status (ip_d s) = 0 \<and> (\<forall>p. p \<noteq> 0 \<longrightarrow> fd_tickets (ip_d s) p = None)"
    using s(1) by (auto simp add: getattr_sent_def ipc_eval fticket_opcode_def get_put_in_header)
  with s show ?thesis by blast
qed



section \<open>Where the provisos are needed\<close>





lemma uiomove_error_reply:
  "uiomove_in sizeof_out_header (error_reply un e) =
     (0, put_out_header \<lparr>oh_len = of_nat sizeof_out_header, oh_error = - e, oh_unique = un\<rparr>,
      \<lparr>uio_data = [], uio_errs = []\<rparr>)"
  by (simp add: uiomove_in_def error_reply_def uio_err_def Let_def)

lemma get_error_reply:
  "get_out_header (put_out_header h) = h"
  using get_put_out_header [of h "[]"] by simp

text \<open>The ticket the unique number of a reply stands for is found, if it waits for an answer.\<close>

lemma find_answer_unique:
  assumes inv: "session_inv d thr" and aw: "p \<in> set (fd_aw_head d)" and t: "fd_tickets d p = Some t"
  shows "find_answer (fd_tickets d) (tk_unique t) (fd_aw_head d) = Some (Some p)"
proof -
  note I = tickets_invD [OF inv [unfolded session_inv_def]]
  obtain r where r: "find_answer (fd_tickets d) (tk_unique t) (fd_aw_head d) = Some r"
      "\<forall>q. r = Some q \<longrightarrow> q \<in> set (fd_aw_head d) \<and> (\<exists>u. fd_tickets d q = Some u \<and> tk_unique u = tk_unique t)"
      "r = None \<longrightarrow> (\<forall>q u. q \<in> set (fd_aw_head d) \<longrightarrow> fd_tickets d q = Some u \<longrightarrow> tk_unique u \<noteq> tk_unique t)"
    using find_answer_ok [OF I(13)] by blast
  obtain q where q: "r = Some q" using r(3) aw t by (cases r) auto
  then obtain u where "fd_tickets d q = Some u" "tk_unique u = tk_unique t" using r(2) by blast
  with uniques_differD [OF I(2) _ t] have "q = p" by simp
  with q r(1) show ?thesis by simp
qed

text \<open>An error reply reaches the requester that waits for it.\<close>

lemma error_reply_delivered:
  assumes inv: "session_inv d thr" and ph: "thr p = Some Waiting" and t: "fd_tickets d p = Some t"
    and aw: "p \<in> set (fd_aw_head d)" and e: "sint e \<noteq> 0"
  shows "\<exists>d1. fuse_device_write E q werr (error_reply (tk_unique t) e) d = Some (0, d1) \<and>
           fd_tickets d1 p = Some ((fticket_set_answered t)
             \<lparr>tk_aw_ohead := \<lparr>oh_len = of_nat sizeof_out_header, oh_error = e, oh_unique = tk_unique t\<rparr>,
              tk_aw_errno := 0\<rparr>) \<and>
           fd_ms_head d1 = fd_ms_head d \<and> fd_aw_head d1 = remove1 p (fd_aw_head d) \<and>
           fd_log d1 = fd_log d @ [Wakeup_ticket p] \<and>
           fd_freeticket_counter d1 = fd_freeticket_counter d"
proof -
  have std: "tk_aw_handler t = Some Standard_handler" "\<not> fticket_answered t"
    using session_inv_ticket [OF inv t] ph aw by (auto simp: ticket_ok_def split: if_splits)
  let ?h = "\<lparr>oh_len = of_nat sizeof_out_header, oh_error = - e, oh_unique = tk_unique t\<rparr> :: fuse_out_header"
  let ?t = "t\<lparr>tk_aw_ohead := ?h\<lparr>oh_error := e\<rparr>\<rparr>"
  have size: "length (uio_data (error_reply (tk_unique t) e)) = sizeof_out_header"
    by (simp add: error_reply_def)
  have len: "unat (of_nat sizeof_out_header :: u32) = sizeof_out_header" by (simp add: sizeof_out_header_def)
  have find: "find_answer (fd_tickets d) (tk_unique t) (fd_aw_head d) = Some (Some p)"
    by (rule find_answer_unique [OF inv aw t])
  have pull: "fticket_pull E d' ?t u = Some (0, ?t)" for d' u
    using e by (simp add: fticket_pull_def ohead_error_def)
  have ans: "\<not> fticket_answered ?t" using std(2) by (simp add: fticket_answered_def)
  have "fuse_device_write E q werr (error_reply (tk_unique t) e) d =
      call_handler E q werr Standard_handler p \<lparr>uio_data = [], uio_errs = []\<rparr>
        ((fuse_aw_remove p d)\<lparr>fd_tickets := (fd_tickets d)(p \<mapsto> ?t)\<rparr>)"
    using size len find std t
    by (simp add: fuse_device_write_def Let_def uiomove_error_reply get_error_reply
        fuse_aw_remove_def tk_upd_def)
  then show ?thesis
    using pull ans
    by (simp add: call_handler_def fuse_standard_handler_def fuse_aw_remove_def fticket_set_answered_def)
qed

text \<open>
  C32: When the daemon answers a request it has not read, the requester drops the ticket while it is
  still on the message queue: it is then on the free list too, or destroyed, and the daemon's next
  read uses it.
\<close>

theorem early_reply_leaves_dangling_ticket:
  assumes mem: "mem_ok E" and inv: "session_inv d thr" and ph: "thr p = Some Waiting"
    and t: "fd_tickets d p = Some t" and aw: "p \<in> set (fd_aw_head d)"
    and unread: "fd_ms_head d = p # ps" and e: "sint e \<noteq> 0"
  shows "\<exists>d1 r d2. fuse_device_write E q werr (error_reply (tk_unique t) e) d = Some (0, d1) \<and>
           fdisp_wait_answ_wake E p' werr' alert 0 p d1 = Some (Answ_returns r, d2) \<and>
           fd_ms_head d2 = p # ps \<and>
           (p \<in> set (fd_freetickets_head d2) \<or>
            fd_tickets d2 p = None \<and> fuse_device_read_message E p u (d2\<lparr>fd_ms_head := ps\<rparr>) = None)"
proof -
  obtain d1 where d1: "fuse_device_write E q werr (error_reply (tk_unique t) e) d = Some (0, d1)"
      "fd_tickets d1 p = Some ((fticket_set_answered t)
             \<lparr>tk_aw_ohead := \<lparr>oh_len = of_nat sizeof_out_header, oh_error = e, oh_unique = tk_unique t\<rparr>,
              tk_aw_errno := 0\<rparr>)"
      "fd_ms_head d1 = p # ps"
    using error_reply_delivered [OF inv ph t aw e] unread by metis
  let ?t = "(fticket_set_answered t)\<lparr>tk_aw_ohead := \<lparr>oh_len = of_nat sizeof_out_header, oh_error = e,
      oh_unique = tk_unique t\<rparr>, tk_aw_errno := 0\<rparr>"
  have io: "iov_ok (tk_ms_fiov ?t)" "iov_ok (tk_aw_fiov ?t)"
    using session_inv_ticket [OF inv t] by (simp_all add: ticket_ok_def)
  have ans: "fticket_answered ?t" by (simp add: fticket_answered_def fticket_set_answered_def flag_set_or)
  have drop: "\<exists>d2. fuse_ticket_drop E p d1 = Some d2 \<and> fd_ms_head d2 = p # ps \<and>
      (p \<in> set (fd_freetickets_head d2) \<or> fd_tickets d2 p = None)"
    using d1(2,3) fticket_refresh_ok [OF mem io]
    by (auto simp: fuse_ticket_drop_def fticket_destroy_def fuse_remove_allticks_def fuse_push_freeticks_def)
  then obtain d2 where d2: "fuse_ticket_drop E p d1 = Some d2" "fd_ms_head d2 = p # ps"
      "p \<in> set (fd_freetickets_head d2) \<or> fd_tickets d2 p = None" by blast
  have "fdisp_wait_answ_wake E p' werr' alert 0 p d1 =
      Some (Answ_returns \<lparr>fr_err = sint e, fr_answ_stat = sint e, fr_answ = []\<rparr>, d2)"
    using d1(2) d2(1) ans e
    by (simp add: fdisp_wait_answ_wake_def fticket_wait_answer_wake_def fdisp_wait_answ_continue_def
        fdisp_wait_answ_finish_def ohead_error_def)
  moreover have "fuse_device_read_message E p u (d2\<lparr>fd_ms_head := ps\<rparr>) = None" if "fd_tickets d2 p = None"
    using that by (simp add: fuse_device_read_message_def fuse_ticket_drop_invalid_def)
  ultimately show ?thesis
    using d1(1) d2
    by (intro exI [of _ d1] exI [of _ "\<lparr>fr_err = sint e, fr_answ_stat = sint e, fr_answ = []\<rparr>"]
        exI [of _ d2]) auto
qed

theorem early_reply_leaves_dangling_ticket_witness:
  "\<exists>(t :: fuse_ticket) d d1 r d2. fuse_device_write example_env 1 0 (error_reply (tk_unique t) 5) d = Some (0, d1) \<and>
     fdisp_wait_answ_wake example_env 2 0 None 0 0 d1 = Some (Answ_returns r, d2) \<and>
     fd_ms_head d2 = [0] \<and> (0 \<in> set (fd_freetickets_head d2) \<or> fd_tickets d2 0 = None \<and>
       fuse_device_read_message example_env 0 \<lparr>uior_resid = 4096, uior_moved = [], uior_errs = []\<rparr>
         (d2\<lparr>fd_ms_head := []\<rparr>) = None)"
proof -
  obtain s t where s: "ipc_inv s" "ip_thr s 0 = Some Waiting" "fd_aw_head (ip_d s) = [0]"
      "fd_ms_head (ip_d s) = [0]" "fd_tickets (ip_d s) 0 = Some t"
    using getattr_sent_state by blast
  have "0 \<in> set (fd_aw_head (ip_d s))" "sint (5 :: u32) \<noteq> 0" using s by simp_all
  from early_reply_leaves_dangling_ticket [where q = 1 and werr = 0 and p' = 2 and werr' = 0
      and alert = None and u = "\<lparr>uior_resid = 4096, uior_moved = [], uior_errs = []\<rparr>",
      OF example_mem_ok s(1) [unfolded ipc_inv_def] s(2,5) this(1) s(4) this(2)]
  show ?thesis by blast
qed

section \<open>Requests arrive as they were sent\<close>

lemma get_in_header_put_bytes:
  assumes "sizeof_in_header + length bs \<le> length buf"
  shows "get_in_header (put_bytes sizeof_in_header bs buf) = get_in_header buf"
  using assms by (simp add: get_in_header_def sizeof_in_header_def get_put_before)

lemma alloc_flags: "fticket_alloc E p d = Some d' \<Longrightarrow> fd_dataflags d' = fd_dataflags d"
  by (auto simp: fticket_alloc_def bind_eq_Some_conv)

lemma pop_flags: "fuse_pop_freeticks d = Some (r, d') \<Longrightarrow> fd_dataflags d' = fd_dataflags d"
  by (cases "fd_freetickets_head d") (auto simp: fuse_pop_freeticks_def split: if_splits)

lemma fetch_flags:
  assumes "fuse_ticket_fetch E p 0 d = Some (q, d1)" and "fuse_max_tickets E = 0"
  shows "fd_dataflags d1 = fd_dataflags d"
proof -
  obtain b d2 where b: "fuse_ticket_fetch_begin E p d = Some (q, b, d2)" "d1 = d2"
    using assms(1) by (auto simp: fuse_ticket_fetch_def fuse_ticket_fetch_wake_def bind_eq_Some_conv)
  have "fd_dataflags d2 = fd_dataflags d"
    using b(1) assms(2) alloc_flags pop_flags
    by (auto simp: fuse_ticket_fetch_begin_def fuse_push_allticks_def bind_eq_Some_conv
        split: if_splits option.splits)
  with b(2) show ?thesis by simp
qed

lemma make_flags:
  assumes "fdisp_make E None p 0 op nid iosize ctx d = Some (q, d1)" and "fuse_max_tickets E = 0"
  shows "fd_dataflags d1 = fd_dataflags d"
  using assms fetch_flags
  by (fastforce simp: fdisp_make_def fdisp_ticket_def bind_eq_Some_conv tk_upd_def split: option.splits)

text \<open>Sending in a live session: the ticket goes to both queues and the requester sleeps.\<close>

definition sent :: "tkp \<Rightarrow> fuse_ticket \<Rightarrow> fuse_data \<Rightarrow> fuse_data" where
  "sent q t d =
     d\<lparr>fd_aw_head := fd_aw_head d @ [q],
       fd_tickets := (fd_tickets d)(q \<mapsto> t\<lparr>tk_aw_handler := Some Standard_handler, tk_flag := FT_DIRTY\<rparr>),
       fd_ms_head := fd_ms_head d @ [q],
       fd_log := fd_log d @ [Wakeup_one_data]\<rparr>"

lemma fdisp_wait_answ_begin_live:
  assumes "fd_tickets d q = Some t" and "tk_flag t = 0" and "\<not> fdata_dead_get d"
  shows "fdisp_wait_answ_begin E q d = Some (Answ_sleeps, sent q t d)"
  using assms
  by (simp add: fdisp_wait_answ_begin_def fuse_insert_callback_def fuse_insert_message_def
      tk_upd_def fuse_aw_push_def fuse_ms_push_def fdata_dead_get_def fticket_wait_answer_begin_def
      fticket_answered_def fdisp_wait_answ_continue_def sent_def)

text \<open>Reading the message at the head of the queue, when the reader's buffer holds it.\<close>

lemma fuse_device_read_begin_message:
  assumes "\<not> fdata_dead_get d" and "fd_ms_head d = q # qs" and "fd_tickets d q = Some t"
    and "tk_ms_type t = FT_M_FIOV" and "\<not> fticket_answered t" and "\<not> flag_set (tk_flag t) FT_INVAL"
    and "length (fiov_bytes (tk_ms_fiov t)) \<le> uior_resid u" and "uior_errs u = []"
  shows "\<exists>u'. fuse_device_read_begin E nonblock u d = Some (Read_returns 0 u', d\<lparr>fd_ms_head := qs\<rparr>) \<and>
           uior_moved u' = uior_moved u @ fiov_bytes (tk_ms_fiov t)"
  using assms
  by (simp add: fuse_device_read_begin_def fuse_ms_pop_def fuse_device_read_message_def
      message_pieces_def uiomove_out_def uio_err_def Let_def fdata_dead_get_def
      fuse_ticket_drop_invalid_def)

text \<open>A request put together on a fetched ticket: its message is the header and the body.\<close>

lemma request_built:
  assumes mem: "mem_ok E" and inv: "session_inv d thr" and al: "alloc_ok p d"
    and lim: "sizeof_in_header + length bs < 2 ^ 32"
    and live: "\<not> fdata_dead_get d" and soft: "fuse_max_tickets E = 0"
  obtains q d1 d2 t where
    "fdisp_make E None p 0 op nid (length bs) ctx d = Some (q, d1)"
    "fdisp_put_indata q bs d1 = Some d2" "fd_tickets d2 q = Some t" "tk_flag t = 0"
    "tk_ms_type t = FT_M_FIOV" "\<not> fdata_dead_get d2" "fd_ms_head d2 = fd_ms_head d"
    "fd_aw_head d2 = fd_aw_head d"
    "length (fiov_bytes (tk_ms_fiov t)) = sizeof_in_header + length bs"
    "get_in_header (fiov_bytes (tk_ms_fiov t)) = fuse_setup_ihead E t nid op (length bs) ctx"
    "drop sizeof_in_header (fiov_bytes (tk_ms_fiov t)) = bs"
    "iov_ok (tk_ms_fiov t)" "iov_ok (tk_aw_fiov t)"
proof -
  obtain q d1 t v t0 where m: "fdisp_make E None p 0 op nid (length bs) ctx d = Some (q, d1)"
      "fetched q d d1 thr" "fd_tickets d1 q = Some t" "tk_flag t = 0"
      "iov_len (tk_ms_fiov t) = sizeof_in_header + length bs" "tk_ms_type t = FT_M_FIOV"
      "t = fdisp_fill E op nid (length bs) ctx v t0" "tk_unique t0 = tk_unique t"
    using fdisp_make_ok [OF mem inv al lim, of 0 op nid ctx] by blast
  have io: "iov_ok (tk_ms_fiov t)" "iov_ok (tk_aw_fiov t)"
    using fetched_ticket(1,2) [OF m(2,3)] by simp_all
  let ?base = "put_bytes sizeof_in_header bs (iov_base (tk_ms_fiov t))"
  let ?t2 = "t\<lparr>tk_ms_fiov := (tk_ms_fiov t)\<lparr>iov_base := ?base\<rparr>\<rparr>"
  let ?d2 = "d1\<lparr>fd_tickets := (fd_tickets d1)(q \<mapsto> ?t2)\<rparr>"
  have fits: "sizeof_in_header + length bs \<le> length (iov_base (tk_ms_fiov t))"
    using io m(5) by (simp add: iov_ok_def)
  have bytes: "fiov_bytes (tk_ms_fiov ?t2) = take (sizeof_in_header + length bs) ?base"
    using m(5) by (simp add: fiov_bytes_def)
  have "get_in_header (iov_base (tk_ms_fiov t)) = fuse_setup_ihead E t0 nid op (length bs) ctx"
    unfolding m(7) by (simp add: fdisp_fill_def get_put_in_header)
  then have base: "get_in_header (iov_base (tk_ms_fiov t)) = fuse_setup_ihead E ?t2 nid op (length bs) ctx"
    using m(8) by (simp add: fuse_setup_ihead_def)
  have hd: "get_in_header (fiov_bytes (tk_ms_fiov ?t2)) = fuse_setup_ihead E ?t2 nid op (length bs) ctx"
    unfolding bytes using fits base by (simp add: get_in_header_take get_in_header_put_bytes)
  show ?thesis
  proof (rule that [OF m(1)])
    show "fdisp_put_indata q bs d1 = Some ?d2"
      using m(3) fits by (simp add: fdisp_put_indata_def tk_upd_def)
    show "\<not> fdata_dead_get ?d2"
      using live make_flags [OF m(1) soft] by (simp add: fdata_dead_get_def)
    show "fd_ms_head ?d2 = fd_ms_head d" "fd_aw_head ?d2 = fd_aw_head d"
      using m(2) by (simp_all add: fetched_def)
    show "length (fiov_bytes (tk_ms_fiov ?t2)) = sizeof_in_header + length bs"
      unfolding bytes using fits by simp
    show "drop sizeof_in_header (fiov_bytes (tk_ms_fiov ?t2)) = bs"
      unfolding bytes using fits by (simp add: put_bytes_def)
    show "iov_ok (tk_ms_fiov ?t2)" "iov_ok (tk_aw_fiov ?t2)" using io fits by (simp_all add: iov_ok_def)
  qed (use hd m(4,6) in simp_all)
qed

text \<open>
  C4: A request reaches the daemon as its requester made it: in a live session with no other message
  queued, the daemon's next read returns exactly the header (length, opcode, unique number, node, the
  caller's identity) followed by the body, and the ticket stays on the answer queue.
\<close>

theorem request_reaches_daemon:
  assumes mem: "mem_ok E" and inv: "session_inv d thr" and al: "alloc_ok p d"
    and lim: "sizeof_in_header + length bs < 2 ^ 32"
    and live: "\<not> fdata_dead_get d" and soft: "fuse_max_tickets E = 0"
    and empty: "fd_ms_head d = []"
    and room: "sizeof_in_header + length bs \<le> uior_resid u" and errs: "uior_errs u = []"
  shows "\<exists>q d1 d2 d3 d4 t u' msg.
     fdisp_make E None p 0 op nid (length bs) (Some ctx) d = Some (q, d1) \<and>
     fdisp_put_indata q bs d1 = Some d2 \<and>
     fdisp_wait_answ_begin E q d2 = Some (Answ_sleeps, d3) \<and>
     fuse_device_read_begin E nonblock u d3 = Some (Read_returns 0 u', d4) \<and>
     uior_moved u' = uior_moved u @ msg \<and> length msg = sizeof_in_header + length bs \<and>
     get_in_header msg = \<lparr>ih_len = of_nat (length msg), ih_opcode = opcode_word op,
       ih_unique = tk_unique t, ih_nodeid = nid, ih_uid = cr_uid (ctx_ucred ctx),
       ih_gid = cr_gid (ctx_ucred ctx), ih_pid = ctx_pid ctx\<rparr> \<and>
     drop sizeof_in_header msg = bs \<and>
     fd_tickets d4 q = Some t \<and> q \<in> set (fd_aw_head d4) \<and> fd_ms_head d4 = []"
proof -
  obtain q d1 d2 t where b: "fdisp_make E None p 0 op nid (length bs) (Some ctx) d = Some (q, d1)"
      "fdisp_put_indata q bs d1 = Some d2" "fd_tickets d2 q = Some t" "tk_flag t = 0"
      "tk_ms_type t = FT_M_FIOV" "\<not> fdata_dead_get d2" "fd_ms_head d2 = fd_ms_head d"
      "fd_aw_head d2 = fd_aw_head d"
      "length (fiov_bytes (tk_ms_fiov t)) = sizeof_in_header + length bs"
      "get_in_header (fiov_bytes (tk_ms_fiov t)) = fuse_setup_ihead E t nid op (length bs) (Some ctx)"
      "drop sizeof_in_header (fiov_bytes (tk_ms_fiov t)) = bs"
    using request_built [OF mem inv al lim live soft] .
  define d3 where "d3 = sent q t d2"
  have send: "fdisp_wait_answ_begin E q d2 = Some (Answ_sleeps, d3)"
    unfolding d3_def by (rule fdisp_wait_answ_begin_live [OF b(3,4,6)])
  let ?t3 = "t\<lparr>tk_aw_handler := Some Standard_handler, tk_flag := FT_DIRTY\<rparr>"
  have t3: "fd_tickets d3 q = Some ?t3" and ms3: "fd_ms_head d3 = [q]" and aw3: "q \<in> set (fd_aw_head d3)"
    and live3: "\<not> fdata_dead_get d3"
    using b(6,7) empty by (simp_all add: d3_def sent_def fdata_dead_get_def)
  obtain u' where read: "fuse_device_read_begin E nonblock u d3 =
        Some (Read_returns 0 u', d3\<lparr>fd_ms_head := []\<rparr>)"
      "uior_moved u' = uior_moved u @ fiov_bytes (tk_ms_fiov t)"
    using fuse_device_read_begin_message [OF live3 ms3 t3, of u] b(5,9) room errs
    by (auto simp: fticket_answered_def)
  have hd: "get_in_header (fiov_bytes (tk_ms_fiov t)) =
      \<lparr>ih_len = of_nat (length (fiov_bytes (tk_ms_fiov t))), ih_opcode = opcode_word op,
       ih_unique = tk_unique ?t3, ih_nodeid = nid, ih_uid = cr_uid (ctx_ucred ctx),
       ih_gid = cr_gid (ctx_ucred ctx), ih_pid = ctx_pid ctx\<rparr>"
    using b(9,10) by (simp add: fuse_setup_ihead_def)
  show ?thesis
    using b(1,2) send read b(9) hd b(11) t3 aw3
    by (intro exI [of _ q] exI [of _ d1] exI [of _ d2] exI [of _ d3] exI [of _ "d3\<lparr>fd_ms_head := []\<rparr>"]
        exI [of _ ?t3] exI [of _ u'] exI [of _ "fiov_bytes (tk_ms_fiov t)"]) simp
qed

lemma example_session_inv: "session_inv (fdata_alloc example_cred 1) Map.empty"
  using ipc_inv_init [of example_cred 1] by (simp add: ipc_inv_def ipc_init_def)

definition example_reader :: uio_r where
  "example_reader = \<lparr>uior_resid = 4096, uior_moved = [], uior_errs = []\<rparr>"

theorem request_reaches_daemon_witness:
  "\<exists>q d1 d2 d3 d4 (t :: fuse_ticket) u' msg.
     fdisp_make example_env None 0 0 FUSE_FSYNC 5 (length [7 :: u8, 8]) (Some (ke_current example_env))
       (fdata_alloc example_cred 1) = Some (q, d1) \<and>
     fdisp_put_indata q [7, 8] d1 = Some d2 \<and>
     fdisp_wait_answ_begin example_env q d2 = Some (Answ_sleeps, d3) \<and>
     fuse_device_read_begin example_env False example_reader d3 = Some (Read_returns 0 u', d4) \<and>
     uior_moved u' = uior_moved example_reader @ msg \<and>
     length msg = sizeof_in_header + length [7 :: u8, 8] \<and>
     get_in_header msg = \<lparr>ih_len = of_nat (length msg), ih_opcode = opcode_word FUSE_FSYNC,
       ih_unique = tk_unique t, ih_nodeid = 5, ih_uid = cr_uid (ctx_ucred (ke_current example_env)),
       ih_gid = cr_gid (ctx_ucred (ke_current example_env)), ih_pid = ctx_pid (ke_current example_env)\<rparr> \<and>
     drop sizeof_in_header msg = [7, 8] \<and>
     fd_tickets d4 q = Some t \<and> q \<in> set (fd_aw_head d4) \<and> fd_ms_head d4 = []"
  by (rule request_reaches_daemon [OF example_mem_ok example_session_inv])
    (simp_all add: alloc_ok_def fdata_alloc_def sizeof_in_header_def fdata_dead_get_def
      example_env_def example_reader_def)

section \<open>Replies reach their requester\<close>

text \<open>A successful reply with the given body.\<close>

definition body_reply :: "u64 \<Rightarrow> u8 list \<Rightarrow> uio_w" where
  "body_reply un bs =
     \<lparr>uio_data = put_out_header \<lparr>oh_len = of_nat (sizeof_out_header + length bs), oh_error = 0,
        oh_unique = un\<rparr> @ bs, uio_errs = []\<rparr>"

lemma uiomove_body_reply:
  "uiomove_in sizeof_out_header (body_reply un bs) =
     (0, put_out_header \<lparr>oh_len = of_nat (sizeof_out_header + length bs), oh_error = 0, oh_unique = un\<rparr>,
      \<lparr>uio_data = bs, uio_errs = []\<rparr>)"
  by (simp add: uiomove_in_def body_reply_def uio_err_def Let_def)

lemma length_body_reply: "length (uio_data (body_reply un bs)) = sizeof_out_header + length bs"
  by (simp add: body_reply_def)

lemma fticket_pull_body:
  assumes mem: "mem_ok E" and audit: "fuse_body_audit d t (length bs) = Some 0"
    and ok: "oh_error (tk_aw_ohead t) = 0" and ty: "tk_aw_type t = FT_A_FIOV"
    and io: "iov_ok (tk_aw_fiov t)" and len: "length bs < 2 ^ 32" and ne: "bs \<noteq> []"
  shows "\<exists>v. fticket_pull E d t \<lparr>uio_data = bs, uio_errs = []\<rparr> = Some (0, t\<lparr>tk_aw_fiov := v\<rparr>) \<and>
           fiov_bytes v = bs"
proof -
  obtain v where v: "fiov_adjust_canfail E (tk_aw_fiov t) (length bs) = Some (0, v)" "iov_ok v"
      "iov_len v = length bs"
    using fiov_adjust_canfail_ok [OF mem io len] by blast
  have "fiov_bytes (v\<lparr>iov_base := put_bytes 0 bs (iov_base v)\<rparr>) = bs"
    using v(3) by (simp add: fiov_bytes_def put_bytes_def)
  moreover have "fticket_pull E d t \<lparr>uio_data = bs, uio_errs = []\<rparr> =
      Some (0, t\<lparr>tk_aw_fiov := v\<lparr>iov_base := put_bytes 0 bs (iov_base v)\<rparr>\<rparr>)"
    using v(1) audit ok ty ne
    by (simp add: fticket_pull_def ohead_error_def fticket_aw_pull_uio_def uiomove_in_def uio_err_def
        Let_def)
  ultimately show ?thesis by blast
qed

text \<open>
  C5: A reply reaches the requester whose unique number it carries, and nobody else: its ticket
  leaves the answer queue, the requester is woken, and \<open>fdisp_wait_answ\<close> returns success with the
  very bytes the daemon sent.
\<close>

theorem reply_reaches_requester:
  assumes mem: "mem_ok E" and inv: "session_inv d thr" and ph: "thr p = Some Waiting"
    and t: "fd_tickets d p = Some t" and aw: "p \<in> set (fd_aw_head d)"
    and ty: "tk_aw_type t = FT_A_FIOV"
    and audit: "fuse_body_audit d t (length bs) = Some 0"
    and ne: "bs \<noteq> []" and lim: "sizeof_out_header + length bs < 2 ^ 32"
  shows "\<exists>d1 r d2. fuse_device_write E q werr (body_reply (tk_unique t) bs) d = Some (0, d1) \<and>
           fd_aw_head d1 = remove1 p (fd_aw_head d) \<and> fd_log d1 = fd_log d @ [Wakeup_ticket p] \<and>
           (\<forall>r. r \<noteq> p \<longrightarrow> fd_tickets d1 r = fd_tickets d r) \<and>
           fdisp_wait_answ_wake E p' werr' alert 0 p d1 = Some (Answ_returns r, d2) \<and>
           fr_err r = 0 \<and> fr_answ r = bs"
proof -
  have std: "tk_aw_handler t = Some Standard_handler" "\<not> fticket_answered t"
    and io: "iov_ok (tk_aw_fiov t)"
    using session_inv_ticket [OF inv t] ph aw by (auto simp: ticket_ok_def split: if_splits)
  let ?h = "\<lparr>oh_len = of_nat (sizeof_out_header + length bs), oh_error = 0, oh_unique = tk_unique t\<rparr> :: fuse_out_header"
  let ?t = "t\<lparr>tk_aw_ohead := ?h\<rparr>"
  let ?da = "(fuse_aw_remove p d)\<lparr>fd_tickets := (fd_tickets d)(p \<mapsto> ?t)\<rparr>"
  have len: "unat (of_nat (sizeof_out_header + length bs) :: u32) = sizeof_out_header + length bs"
    using lim by (rule unat_of_nat32)
  have find: "find_answer (fd_tickets d) (tk_unique t) (fd_aw_head d) = Some (Some p)"
    by (rule find_answer_unique [OF inv aw t])
  have auditp: "fuse_body_audit ?da ?t (length bs) = Some 0"
    using audit by (simp add: fuse_body_audit_def fdata_dead_get_def fuse_aw_remove_def
        fticket_opcode_def read_in_size_def fuse_libabi_geq_def split: if_splits option.splits)
  obtain v where v: "fticket_pull E ?da ?t \<lparr>uio_data = bs, uio_errs = []\<rparr> = Some (0, ?t\<lparr>tk_aw_fiov := v\<rparr>)"
      "fiov_bytes v = bs"
    using fticket_pull_body [OF mem auditp] ty io ne lim by (auto simp: sizeof_out_header_def)
  let ?t2 = "(fticket_set_answered (?t\<lparr>tk_aw_fiov := v\<rparr>))\<lparr>tk_aw_errno := 0\<rparr>"
  let ?d1 = "?da\<lparr>fd_tickets := (fd_tickets d)(p \<mapsto> ?t2), fd_log := fd_log d @ [Wakeup_ticket p]\<rparr>"
  have ans: "\<not> fticket_answered (?t\<lparr>tk_aw_fiov := v\<rparr>)" using std(2) by (simp add: fticket_answered_def)
  have "fuse_device_write E q werr (body_reply (tk_unique t) bs) d =
      call_handler E q werr Standard_handler p \<lparr>uio_data = bs, uio_errs = []\<rparr> ?da"
    using len find std t
    by (simp add: fuse_device_write_def Let_def uiomove_body_reply get_error_reply
        fuse_aw_remove_def tk_upd_def length_body_reply)
  also have "\<dots> = Some (0, ?d1)"
    using v(1) ans by (simp add: call_handler_def fuse_standard_handler_def fuse_aw_remove_def)
  finally have wr: "fuse_device_write E q werr (body_reply (tk_unique t) bs) d = Some (0, ?d1)" .
  have "fticket_answered ?t2" by (simp add: fticket_answered_def fticket_set_answered_def flag_set_or)
  then have "fdisp_wait_answ_wake E p' werr' alert 0 p ?d1 =
      Some (Answ_returns \<lparr>fr_err = 0, fr_answ_stat = 0, fr_answ = bs\<rparr>, ?d1)"
    using v(2)
    by (simp add: fdisp_wait_answ_wake_def fticket_wait_answer_wake_def fdisp_wait_answ_continue_def
        fdisp_wait_answ_finish_def ohead_error_def fticket_set_answered_def)
  with wr show ?thesis
    by (intro exI [of _ ?d1] exI [of _ "\<lparr>fr_err = 0, fr_answ_stat = 0, fr_answ = bs\<rparr>"])
      (simp add: fuse_aw_remove_def)
qed

theorem reply_reaches_requester_witness:
  "\<exists>d d1 (r :: fdisp_result) d2. fuse_device_write example_env 1 0
        (body_reply 0 (replicate sizeof_attr_out 7)) d = Some (0, d1) \<and>
     fdisp_wait_answ_wake example_env 2 0 None 0 0 d1 = Some (Answ_returns r, d2) \<and>
     fr_err r = 0 \<and> fr_answ r = replicate sizeof_attr_out 7"
proof -
  obtain s t where s: "ipc_inv s" "ip_thr s 0 = Some Waiting" "fd_aw_head (ip_d s) = [0]"
      "fd_dataflags (ip_d s) = 0" "fd_tickets (ip_d s) 0 = Some t" "tk_unique t = 0"
      "fticket_opcode t = opcode_word FUSE_GETATTR" "tk_aw_type t = FT_A_FIOV"
    using getattr_sent_state by blast
  have "fuse_body_audit (ip_d s) t (length (replicate sizeof_attr_out (7 :: u8))) = Some 0"
    using s by (simp add: fuse_body_audit_def fdata_dead_get_def)
  moreover have "replicate sizeof_attr_out (7 :: u8) \<noteq> []"
      "sizeof_out_header + length (replicate sizeof_attr_out (7 :: u8)) < 2 ^ 32"
      "0 \<in> set (fd_aw_head (ip_d s))"
    using s(3) by (simp_all add: sizeof_simps)
  ultimately show ?thesis
    using reply_reaches_requester [where q = 1 and werr = 0 and p' = 2 and werr' = 0 and alert = None,
        OF example_mem_ok s(1) [unfolded ipc_inv_def] s(2,5) _ s(8), of "replicate sizeof_attr_out 7"] s(6)
    by metis
qed

text \<open>
  A malformed reply is refused with \<open>EINVAL\<close> and changes nothing: one shorter than a header, one
  whose stated length is not its length, and one that carries both an error and a body.
\<close>

theorem malformed_reply_refused:
  assumes "uio_errs u = []"
    and "oh = get_out_header (take sizeof_out_header (uio_data u))"
    and "length (uio_data u) < sizeof_out_header \<or>
         length (uio_data u) \<noteq> unat (oh_len oh) \<or>
         sizeof_out_header < length (uio_data u) \<and> oh_error oh \<noteq> 0"
  shows "fuse_device_write E p werr u d = Some (EINVAL, d)"
proof (cases "length (uio_data u) < sizeof_out_header")
  case True
  then show ?thesis by (simp add: fuse_device_write_def)
next
  case False
  then have len: "length (drop sizeof_out_header (uio_data u)) + sizeof_out_header = length (uio_data u)"
    by simp
  from False assms show ?thesis
    by (auto simp: fuse_device_write_def uiomove_in_def uio_err_def Let_def len)
qed

theorem malformed_reply_refused_witness:
  "fuse_device_write example_env 0 0 \<lparr>uio_data = replicate 16 0, uio_errs = []\<rparr> (fdata_alloc example_cred 1)
     = Some (EINVAL, fdata_alloc example_cred 1)"
  by (rule malformed_reply_refused [OF _ refl])
    (simp_all add: get_out_header_def get_bytes_def sizeof_out_header_def numeral_eq_Suc)

text \<open>
  A reply nobody waits for is accepted and ignored.
\<close>

theorem unknown_reply_ignored:
  assumes "session_inv d thr" and "\<forall>p\<in>set (fd_aw_head d). \<forall>t. fd_tickets d p = Some t \<longrightarrow> tk_unique t \<noteq> un"
    and "sizeof_out_header + length bs < 2 ^ 32"
  shows "fuse_device_write E p werr (body_reply un bs) d = Some (0, d)"
proof -
  have len: "unat (of_nat (sizeof_out_header + length bs) :: u32) = sizeof_out_header + length bs"
    using assms(3) by (rule unat_of_nat32)
  obtain r where r: "find_answer (fd_tickets d) un (fd_aw_head d) = Some r"
      "\<forall>q. r = Some q \<longrightarrow> q \<in> set (fd_aw_head d) \<and> (\<exists>t. fd_tickets d q = Some t \<and> tk_unique t = un)"
    using find_answer_ok [OF tickets_invD(13) [OF assms(1) [unfolded session_inv_def]]] by blast
  then have "r = None" using assms(2) by (cases r) auto
  with r(1) len show ?thesis
    by (simp add: fuse_device_write_def Let_def uiomove_body_reply get_error_reply length_body_reply)
qed

theorem unknown_reply_ignored_witness:
  "fuse_device_write example_env 0 0 (body_reply 3 [1, 2]) (fdata_alloc example_cred 1) =
     Some (0, fdata_alloc example_cred 1)"
  by (rule unknown_reply_ignored [OF example_session_inv])
    (simp_all add: fdata_alloc_def sizeof_out_header_def)

section \<open>Dead sessions\<close>

text \<open>
  A dead session refuses everything at once: a request put together before it died is neither
  queued nor waited for and fails with \<open>ENOTCONN\<close>, and the daemon's reads fail with \<open>ENODEV\<close>.
\<close>

theorem dead_session_refuses:
  assumes mem: "mem_ok E" and inv: "session_inv d thr" and ph: "thr p = Some Building"
    and dead: "fdata_dead_get d"
  shows "(\<exists>r d'. fdisp_wait_answ_begin E p d = Some (Answ_returns r, d') \<and> fr_err r = ENOTCONN \<and>
            fd_ms_head d' = fd_ms_head d \<and> fd_aw_head d' = fd_aw_head d \<and> fd_log d' = fd_log d) \<and>
         fuse_device_read_begin E nonblock u d = Some (Read_returns ENODEV u, d)"
proof
  obtain t where t: "fd_tickets d p = Some t" using session_inv_thr [OF inv ph] .
  have flag: "tk_flag t = 0" and io: "iov_ok (tk_ms_fiov t)" "iov_ok (tk_aw_fiov t)"
    using session_inv_ticket [OF inv t, unfolded ph] by (auto simp: ticket_ok_def)
  let ?t = "fticket_set_answered (t\<lparr>tk_flag := FT_DIRTY\<rparr>)"
  let ?d = "d\<lparr>fd_tickets := (fd_tickets d)(p \<mapsto> ?t)\<rparr>"
  have wait: "fdisp_wait_answ_begin E p d =
      fdisp_wait_answ_continue E p (Wait_returns ENOTCONN, ?d)"
    using t flag dead
    by (simp add: fdisp_wait_answ_begin_def fuse_insert_callback_def fuse_insert_message_def tk_upd_def
        fdata_dead_get_def fticket_wait_answer_begin_def fticket_answered_def)
  have io': "iov_ok (tk_ms_fiov ?t)" "iov_ok (tk_aw_fiov ?t)" using io by simp_all
  have "\<exists>d'. fuse_ticket_drop E p ?d = Some d' \<and> fd_ms_head d' = fd_ms_head d \<and>
      fd_aw_head d' = fd_aw_head d \<and> fd_log d' = fd_log d"
    using fticket_refresh_ok [OF mem io']
    by (auto simp: fuse_ticket_drop_def fticket_destroy_def fuse_remove_allticks_def fuse_push_freeticks_def)
  then show "\<exists>r d'. fdisp_wait_answ_begin E p d = Some (Answ_returns r, d') \<and> fr_err r = ENOTCONN \<and>
      fd_ms_head d' = fd_ms_head d \<and> fd_aw_head d' = fd_aw_head d \<and> fd_log d' = fd_log d"
    by (auto simp: wait fdisp_wait_answ_continue_def fdisp_wait_answ_finish_def)
  show "fuse_device_read_begin E nonblock u d = Some (Read_returns ENODEV u, d)"
    using dead by (simp add: fuse_device_read_begin_def)
qed

theorem dead_session_refuses_witness:
  "\<exists>d r d'. fdisp_wait_answ_begin example_env 0 d = Some (Answ_returns r, d') \<and> fr_err r = ENOTCONN \<and>
     fd_ms_head d' = [] \<and> fd_aw_head d' = [] \<and>
     fuse_device_read_begin example_env False example_reader d = Some (Read_returns ENODEV example_reader, d)"
proof -
  have "events_ok ipc_ok (ipc_step example_env) (ipc_init example_cred 1)
      [Ev_make 0 0 FUSE_GETATTR 1 0 None, Ev_set_dead]"
    by (simp add: ipc_eval alloc_ok_def)
  from run_events_safe [OF example_mem_ok ipc_inv_init this]
  obtain s where s: "run_events (ipc_step example_env) (ipc_init example_cred 1)
      [Ev_make 0 0 FUSE_GETATTR 1 0 None, Ev_set_dead] = Some s" "ipc_inv s"
    by blast
  have "ip_thr s 0 = Some Building" "fdata_dead_get (ip_d s)"
      "fd_ms_head (ip_d s) = []" "fd_aw_head (ip_d s) = []"
    using s(1) by (auto simp: ipc_eval fdata_set_dead_def flag_set_or_self)
  then show ?thesis
    using dead_session_refuses [OF example_mem_ok s(2) [unfolded ipc_inv_def], of 0 False example_reader]
    by (intro exI [of _ "ip_d s"]) auto
qed

text \<open>The loop of \<open>fuse_device_kill\<close> and \<open>fuse_device_close\<close> answers every waiting ticket.\<close>

lemma answer_pending_all:
  assumes "distinct ps" and "fd_aw_head d = ps" and "set ps \<subseteq> dom (fd_tickets d)"
  shows "\<exists>d'. answer_pending ps d = Some d' \<and> fd_aw_head d' = [] \<and>
           fd_dataflags d' = fd_dataflags d \<and>
           fd_log d' = fd_log d @ map Wakeup_ticket ps \<and>
           (\<forall>p t. fd_tickets d p = Some t \<longrightarrow> fd_tickets d' p =
              Some (if p \<in> set ps then (fticket_set_answered t)\<lparr>tk_aw_errno := ENOTCONN\<rparr> else t))"
  using assms
proof (induction ps arbitrary: d)
  case Nil
  then show ?case by simp
next
  case (Cons p ps)
  obtain t where t: "fd_tickets d p = Some t" using Cons.prems(3) by auto
  let ?t = "(fticket_set_answered t)\<lparr>tk_aw_errno := ENOTCONN\<rparr>"
  let ?d = "d\<lparr>fd_aw_head := ps, fd_tickets := (fd_tickets d)(p \<mapsto> ?t),
      fd_log := fd_log d @ [Wakeup_ticket p]\<rparr>"
  have step: "answer_pending (p # ps) d = answer_pending ps ?d"
    using t Cons.prems(2) by (simp add: tk_upd_def fuse_aw_remove_def)
  have prems: "distinct ps" "fd_aw_head ?d = ps" "set ps \<subseteq> dom (fd_tickets ?d)"
    using Cons.prems by auto
  obtain d' where d': "answer_pending ps ?d = Some d'" "fd_aw_head d' = []"
      "fd_dataflags d' = fd_dataflags ?d" "fd_log d' = fd_log ?d @ map Wakeup_ticket ps"
      "\<forall>p t. fd_tickets ?d p = Some t \<longrightarrow> fd_tickets d' p =
         Some (if p \<in> set ps then (fticket_set_answered t)\<lparr>tk_aw_errno := ENOTCONN\<rparr> else t)"
    using Cons.IH [OF prems] by blast
  have "fd_tickets d' q = Some (if q \<in> set (p # ps)
      then (fticket_set_answered u)\<lparr>tk_aw_errno := ENOTCONN\<rparr> else u)" if "fd_tickets d q = Some u" for q u
    using d'(5) that t Cons.prems(1) by (cases "q = p") auto
  with d' step show ?case by simp
qed

text \<open>A waiting requester that finds an error stored in its answered ticket fails with \<open>EIO\<close>.\<close>

lemma woken_with_errno:
  assumes mem: "mem_ok E" and t: "fd_tickets d p = Some t" and ans: "fticket_answered t"
    and err: "tk_aw_errno t \<noteq> 0" and io: "iov_ok (tk_ms_fiov t)" "iov_ok (tk_aw_fiov t)"
  shows "\<exists>r d'. fdisp_wait_answ_wake E p' werr alert 0 p d = Some (Answ_returns r, d') \<and> fr_err r = EIO"
proof -
  have "\<exists>d'. fuse_ticket_drop E p d = Some d'"
    using t fticket_refresh_ok [OF mem io] by (auto simp: fuse_ticket_drop_def fticket_destroy_def
        fuse_remove_allticks_def)
  with t ans err show ?thesis
    by (auto simp: fdisp_wait_answ_wake_def fticket_wait_answer_wake_def fdisp_wait_answ_continue_def
        fdisp_wait_answ_finish_def)
qed

text \<open>
  C8: Killing a device ends its session and answers everything that waits: the session is dead, the
  answer queue is empty, and every requester that was waiting is woken and gets \<open>EIO\<close>.
\<close>

theorem kill_fails_pending:
  assumes mem: "mem_ok E" and unit: "0 \<le> unit" "unit < int MACFUSE_NDEVICES"
    and d: "dv_data (dvs_table s (nat unit)) = Some d" and inv: "session_inv d thr"
    and auth: "cr_uid cred = 0 \<or> fuse_match_cred (fd_daemoncred d) cred = 0"
  shows "\<exists>s' d'. fuse_device_kill unit (Some cred) s = Some (0, s') \<and>
           dv_data (dvs_table s' (nat unit)) = Some d' \<and> fdata_dead_get d' \<and> fd_aw_head d' = [] \<and>
           (\<forall>p\<in>set (fd_aw_head d). Wakeup_ticket p \<in> set (fd_log d') \<and>
              (\<exists>r d''. fdisp_wait_answ_wake E p' werr alert 0 p d' = Some (Answ_returns r, d'') \<and>
                 fr_err r = EIO))"
proof -
  note I = tickets_invD [OF inv [unfolded session_inv_def]]
  let ?d = "fdata_set_dead d"
  obtain d' where d': "answer_pending (fd_aw_head d) ?d = Some d'" "fd_aw_head d' = []"
      "fd_dataflags d' = fd_dataflags ?d" "fd_log d' = fd_log ?d @ map Wakeup_ticket (fd_aw_head d)"
      "\<forall>p t. fd_tickets ?d p = Some t \<longrightarrow> fd_tickets d' p = Some (if p \<in> set (fd_aw_head d)
         then (fticket_set_answered t)\<lparr>tk_aw_errno := ENOTCONN\<rparr> else t)"
    using answer_pending_all [of "fd_aw_head d" ?d] I(11,13) by auto
  have kill: "fuse_device_kill unit (Some cred) s =
      Some (0, set_device (nat unit) ((dvs_table s (nat unit))\<lparr>dv_data := Some d'\<rparr>) s)"
    using unit d auth d'(1) by (simp add: fuse_device_kill_def Let_def)
  have dead: "fdata_dead_get d'"
    using d'(3) by (simp add: fdata_dead_get_def fdata_set_dead_def flag_set_or_self)
  have "Wakeup_ticket p \<in> set (fd_log d') \<and>
      (\<exists>r d''. fdisp_wait_answ_wake E p' werr alert 0 p d' = Some (Answ_returns r, d'') \<and> fr_err r = EIO)"
    if p: "p \<in> set (fd_aw_head d)" for p
  proof -
    obtain t where t: "fd_tickets d p = Some t" using session_inv_aw [OF inv p] .
    let ?t = "(fticket_set_answered t)\<lparr>tk_aw_errno := ENOTCONN\<rparr>"
    have t': "fd_tickets d' p = Some ?t" using d'(5) t p by simp
    have "iov_ok (tk_ms_fiov ?t)" "iov_ok (tk_aw_fiov ?t)"
      using session_inv_ticket [OF inv t] by (simp_all add: ticket_ok_def)
    moreover have "fticket_answered ?t"
      by (simp add: fticket_answered_def fticket_set_answered_def flag_set_or)
    ultimately have "\<exists>r d''. fdisp_wait_answ_wake E p' werr alert 0 p d' = Some (Answ_returns r, d'') \<and>
        fr_err r = EIO"
      by (intro woken_with_errno [OF mem t']) simp_all
    with d'(4) p show ?thesis by simp
  qed
  with kill d'(2) dead show ?thesis
    by (simp add: set_device_def)
qed

text \<open>A device table whose devices all have the session \<open>d\<close>.\<close>

definition example_devices :: "fuse_data \<Rightarrow> fuse_devices" where
  "example_devices d = \<lparr>dvs_available = True, dvs_major = 30,
     dvs_table = (\<lambda>u. fresh_device\<lparr>dv_usecount := 1, dv_data := Some d\<rparr>)\<rparr>"

theorem kill_fails_pending_witness:
  "\<exists>(s :: fuse_devices) s' d'. fuse_device_kill 3 (Some (example_cred\<lparr>cr_uid := 0\<rparr>)) s = Some (0, s') \<and>
     dv_data (dvs_table s' 3) = Some d' \<and> fdata_dead_get d' \<and> fd_aw_head d' = [] \<and>
     (\<exists>r d''. fdisp_wait_answ_wake example_env 1 0 None 0 0 d' = Some (Answ_returns r, d'') \<and>
        fr_err r = EIO)"
proof -
  obtain s where s: "ipc_inv s" "fd_aw_head (ip_d s) = [0]" using getattr_sent_state by blast
  have data: "dv_data (dvs_table (example_devices (ip_d s)) (nat 3)) = Some (ip_d s)"
    by (simp add: example_devices_def)
  have auth: "cr_uid (example_cred\<lparr>cr_uid := 0\<rparr>) = 0 \<or>
      fuse_match_cred (fd_daemoncred (ip_d s)) (example_cred\<lparr>cr_uid := 0\<rparr>) = 0"
    by simp
  show ?thesis
    using kill_fails_pending [OF example_mem_ok _ _ data s(1) [unfolded ipc_inv_def] auth,
        of 1 0 None] s(2)
    by - (rule exI [of _ "example_devices (ip_d s)"], auto)
qed

section \<open>Recycling\<close>

text \<open>
  The variant of \<open>fdisp_make\<close> that ``can fail'' cannot: allocation failure panics before it is
  seen, so both build the same request and the error paths of its callers are dead code.
\<close>

theorem fdisp_make_canfail_never_fails:
  "fdisp_make_canfail E tick p werr op nid iosize ctx d =
     map_option (\<lambda>(q, d'). (0, q, d')) (fdisp_make E tick p werr op nid iosize ctx d)"
proof -
  have adj: "fiov_adjust_canfail E v n = map_option (Pair 0) (fiov_adjust E v n)" for v n
    by (simp add: fiov_adjust_canfail_def fiov_adjust_def FUSE_OSRealloc_nocopy_canfail_def
        FUSE_OSRealloc_nocopy_def FUSE_OSMalloc_def)
  show ?thesis
    unfolding fdisp_make_canfail_def fdisp_make_def adj
    by (auto simp: bind_map_option split: Option.bind_splits prod.splits)
qed

lemma fetch_new:
  assumes "fd_freeticket_counter d = 0" and "fticket_alloc E p d = Some d1"
  shows "\<exists>d2. fuse_ticket_fetch E p werr d = Some (p, d2) \<and> fd_tickets d2 = fd_tickets d1"
  using assms by (simp add: fuse_ticket_fetch_def fuse_ticket_fetch_begin_def
      fuse_push_allticks_def fuse_ticket_fetch_wake_def)

text \<open>
  A message longer than the 160 bytes a fresh ticket has room for is built in newly allocated
  memory that nothing clears: the four padding bytes of its header, which the daemon reads, are
  what the memory held before.
\<close>

theorem request_padding_uninitialised:
  assumes "mem_ok E" and "fd_freeticket_counter d = 0" and "120 < iosize" and "40 + iosize < 2 ^ 32"
  shows "\<exists>d' t. fdisp_make E None p werr op nid iosize ctx d = Some (p, d') \<and>
           fd_tickets d' p = Some t \<and> length (fiov_bytes (tk_ms_fiov t)) = 40 + iosize \<and>
           get_bytes 36 4 (fiov_bytes (tk_ms_fiov t)) = map (ke_junk E) [36..<40]"
proof -
  obtain d1 t where al: "fticket_alloc E p d = Some d1"
      "d1 = d\<lparr>fd_ticketer := fd_ticketer d + 1, fd_tickets := (fd_tickets d)(p \<mapsto> t)\<rparr>"
      "iov_allocated_size (tk_ms_fiov t) = 160"
    using assms(1) by (auto simp: fticket_alloc_def fiov_init_def FUSE_OSMalloc_ok FU_AT_LEAST_def
        sizeof_in_header_def)
  then obtain d2 where f: "fuse_ticket_fetch E p werr d = Some (p, d2)" "fd_tickets d2 p = Some t"
    using fetch_new [OF assms(2) al(1), of werr] by auto
  let ?n = "40 + iosize"
  let ?v = "\<lparr>iov_base = map (ke_junk E) [0..<?n], iov_len = ?n, iov_allocated_size = ?n,
      iov_credit = fuse_iov_credit E\<rparr>"
  have adj: "fiov_adjust E (tk_ms_fiov t) (sizeof_in_header + iosize) = Some ?v"
    using al(3) assms by (simp add: fiov_adjust_def fiov_reallocs_def FUSE_OSRealloc_nocopy_def
        FUSE_OSMalloc_ok FU_AT_LEAST_def sizeof_in_header_def)
  let ?t = "fdisp_fill E op nid iosize ctx ?v t"
  have "fdisp_make E None p werr op nid iosize ctx d = Some (p, d2\<lparr>fd_tickets := (fd_tickets d2)(p \<mapsto> ?t)\<rparr>)"
    using f adj by (simp add: fdisp_make_def fdisp_ticket_def tk_upd_def)
  moreover have "length (fiov_bytes (tk_ms_fiov ?t)) = ?n"
    by (simp add: fdisp_fill_def fiov_bytes_def put_in_header_def)
  moreover have "get_bytes 36 4 (fiov_bytes (tk_ms_fiov ?t)) = map (ke_junk E) [36..<40]"
    by (simp add: fdisp_fill_def fiov_bytes_def put_in_header_def put_bytes_def get_bytes_def
        take_map drop_map)
  ultimately show ?thesis by auto
qed

theorem request_padding_uninitialised_witness:
  "\<exists>d' t. fdisp_make example_env None 0 0 FUSE_WRITE 1 200 None (fdata_alloc example_cred 1) = Some (0, d') \<and>
     fd_tickets d' 0 = Some t \<and> length (fiov_bytes (tk_ms_fiov t)) = 40 + 200 \<and>
     get_bytes 36 4 (fiov_bytes (tk_ms_fiov t)) = map (ke_junk example_env) [36..<40]"
  by (rule request_padding_uninitialised [OF example_mem_ok]) (simp_all add: fdata_alloc_def)

text \<open>Reading a message that is never answered puts its ticket back.\<close>

lemma fuse_device_read_begin_invalid:
  assumes "\<not> fdata_dead_get d" and "fd_ms_head d = [q]" and "fd_tickets d q = Some t"
    and "tk_ms_type t = FT_M_FIOV" and "\<not> fticket_answered t" and "flag_set (tk_flag t) FT_INVAL"
    and "length (fiov_bytes (tk_ms_fiov t)) \<le> uior_resid u" and "uior_errs u = []"
    and mem: "mem_ok E" and io: "iov_ok (tk_ms_fiov t)" "iov_ok (tk_aw_fiov t)"
  shows "\<exists>u' d'. fuse_device_read_begin E nonblock u d = Some (Read_returns 0 u', d') \<and>
           uior_moved u' = uior_moved u @ fiov_bytes (tk_ms_fiov t) \<and> fd_ms_head d' = [] \<and>
           fd_aw_head d' = fd_aw_head d \<and>
           (q \<in> set (fd_freetickets_head d') \<or> fd_tickets d' q = None)"
proof -
  have "\<exists>d'. fuse_ticket_drop E q (d\<lparr>fd_ms_head := []\<rparr>) = Some d' \<and> fd_ms_head d' = [] \<and>
      fd_aw_head d' = fd_aw_head d \<and> (q \<in> set (fd_freetickets_head d') \<or> fd_tickets d' q = None)"
    using assms(3) fticket_refresh_ok [OF mem io]
    by (auto simp: fuse_ticket_drop_def fticket_destroy_def fuse_remove_allticks_def
        fuse_push_freeticks_def)
  then show ?thesis using assms(1-8)
    by (auto simp: fuse_device_read_begin_def fuse_ms_pop_def fuse_device_read_message_def
        message_pieces_def uiomove_out_def uio_err_def Let_def fdata_dead_get_def
        fuse_ticket_drop_invalid_def)
qed

text \<open>
  Forgetting a node sends the daemon one message with the node's number and its lookup count,
  waits for nothing, and leaks nothing: once the daemon has read it, its ticket is on the free list
  again, or destroyed.
\<close>

theorem forget_message:
  assumes mem: "mem_ok E" and inv: "session_inv d thr" and al: "alloc_ok p d"
    and live: "\<not> fdata_dead_get d" and soft: "fuse_max_tickets E = 0" and empty: "fd_ms_head d = []"
    and room: "sizeof_in_header + 8 \<le> uior_resid u" and errs: "uior_errs u = []"
  shows "\<exists>q d1 d2 u' msg.
     fuse_internal_forget_send E p 0 ctx nid nlookup d = Some (q, d1) \<and>
     fuse_device_read_begin E nonblock u d1 = Some (Read_returns 0 u', d2) \<and>
     uior_moved u' = uior_moved u @ msg \<and>
     ih_opcode (get_in_header msg) = opcode_word FUSE_FORGET \<and> ih_nodeid (get_in_header msg) = nid \<and>
     le_dec (drop sizeof_in_header msg) = nlookup \<and>
     fd_ms_head d2 = [] \<and> fd_aw_head d2 = fd_aw_head d \<and>
     (q \<in> set (fd_freetickets_head d2) \<or> fd_tickets d2 q = None)"
proof -
  have lim: "sizeof_in_header + length (le_enc 8 nlookup) < 2 ^ 32" by (simp add: sizeof_in_header_def)
  obtain q d1 d2 t where b: "fdisp_make E None p 0 FUSE_FORGET nid (length (le_enc 8 nlookup)) ctx d = Some (q, d1)"
      "fdisp_put_indata q (le_enc 8 nlookup) d1 = Some d2" "fd_tickets d2 q = Some t" "tk_flag t = 0"
      "tk_ms_type t = FT_M_FIOV" "\<not> fdata_dead_get d2" "fd_ms_head d2 = fd_ms_head d"
      "fd_aw_head d2 = fd_aw_head d"
      "length (fiov_bytes (tk_ms_fiov t)) = sizeof_in_header + length (le_enc 8 nlookup)"
      "get_in_header (fiov_bytes (tk_ms_fiov t)) = fuse_setup_ihead E t nid FUSE_FORGET (length (le_enc 8 nlookup)) ctx"
      "drop sizeof_in_header (fiov_bytes (tk_ms_fiov t)) = le_enc 8 nlookup"
      "iov_ok (tk_ms_fiov t)" "iov_ok (tk_aw_fiov t)"
    using request_built [OF mem inv al lim live soft] .
  let ?t = "t\<lparr>tk_flag := FT_INVAL OR FT_DIRTY\<rparr>"
  let ?d3 = "d2\<lparr>fd_tickets := (fd_tickets d2)(q \<mapsto> ?t), fd_ms_head := fd_ms_head d2 @ [q],
      fd_log := fd_log d2 @ [Wakeup_one_data]\<rparr>"
  have send: "fuse_internal_forget_send E p 0 ctx nid nlookup d = Some (q, ?d3)"
    using b(1-4,6)
    by (simp add: fuse_internal_forget_send_def tk_upd_def fticket_invalidate_def
        fuse_insert_message_def fuse_ms_push_def fdata_dead_get_def)
  have live3: "\<not> fdata_dead_get ?d3" and t3: "fd_tickets ?d3 q = Some ?t" and ms3: "fd_ms_head ?d3 = [q]"
    using b(6,7) empty by (simp_all add: fdata_dead_get_def)
  have fl: "\<not> fticket_answered ?t" "flag_set (tk_flag ?t) FT_INVAL"
    by (simp_all add: fticket_answered_def flag_set_def)
  obtain u' d4 where r: "fuse_device_read_begin E nonblock u ?d3 = Some (Read_returns 0 u', d4)"
      "uior_moved u' = uior_moved u @ fiov_bytes (tk_ms_fiov t)" "fd_ms_head d4 = []"
      "fd_aw_head d4 = fd_aw_head d" "q \<in> set (fd_freetickets_head d4) \<or> fd_tickets d4 q = None"
    using fuse_device_read_begin_invalid [OF live3 ms3 t3 _ fl _ errs mem, of nonblock] b(5,8,9,12,13) room
    by (auto simp del: fun_upd_apply)
  show ?thesis
    using send r b(10,11)
    by (intro exI [of _ q] exI [of _ ?d3] exI [of _ d4] exI [of _ u'] exI [of _ "fiov_bytes (tk_ms_fiov t)"])
      (simp add: fuse_setup_ihead_def Let_def)
qed

theorem forget_message_witness:
  "\<exists>q d1 d2 u' msg.
     fuse_internal_forget_send example_env 0 0 None 42 3 (fdata_alloc example_cred 1) = Some (q, d1) \<and>
     fuse_device_read_begin example_env False example_reader d1 = Some (Read_returns 0 u', d2) \<and>
     uior_moved u' = uior_moved example_reader @ msg \<and>
     ih_opcode (get_in_header msg) = opcode_word FUSE_FORGET \<and> ih_nodeid (get_in_header msg) = 42 \<and>
     le_dec (drop sizeof_in_header msg) = (3 :: u64) \<and>
     fd_ms_head d2 = [] \<and> fd_aw_head d2 = fd_aw_head (fdata_alloc example_cred 1) \<and>
     (q \<in> set (fd_freetickets_head d2) \<or> fd_tickets d2 q = None)"
  by (rule forget_message [OF example_mem_ok example_session_inv])
    (simp_all add: alloc_ok_def fdata_alloc_def sizeof_in_header_def fdata_dead_get_def
      example_env_def example_reader_def)



section \<open>The limit on tickets\<close>

lemma unat_ucast_64: "unat (ucast (w :: u32) :: u64) = unat w"
proof -
  have "unat w < 2 ^ 32" using unsigned_less [of w] by simp
  then show ?thesis by (simp add: unsigned_ucast_eq take_bit_nat_eq_self)
qed

text \<open>
  Exceeding the ``soft limit'' on tickets ends the session: when more tickets exist than
  \<open>fuse_max_tickets\<close>, taking a further one marks the session dead and wakes everybody.
\<close>

theorem ticket_limit_kills_session:
  assumes inv: "session_inv d thr" and mem: "mem_ok E" and al: "alloc_ok p d"
    and ready: "flag_set (fd_dataflags d) FSESS_INITED"
    and none: "fd_freeticket_counter d = 0"
    and limit: "0 < fuse_max_tickets E" "fuse_max_tickets E \<le> length (fd_alltickets_head d)"
  shows "\<exists>d'. fuse_ticket_fetch E p werr d = Some (p, d') \<and> fdata_dead_get d' \<and>
           (\<not> fdata_dead_get d \<longrightarrow> Signal_VQ_DEAD \<in> set (fd_log d'))"
proof -
  note I = tickets_invD [OF inv [unfolded session_inv_def]]
  obtain t where t: "fticket_alloc E p d =
      Some (d\<lparr>fd_ticketer := fd_ticketer d + 1, fd_tickets := (fd_tickets d)(p \<mapsto> t)\<rparr>)"
    using fticket_alloc_ok [OF mem, of p d] by blast
  let ?d = "d\<lparr>fd_ticketer := fd_ticketer d + 1, fd_tickets := (fd_tickets d)(p \<mapsto> t),
      fd_alltickets_head := fd_alltickets_head d @ [p]\<rparr>"
  have tkr: "unat (fd_ticketer d + 1) = unat (fd_ticketer d) + 1"
    using al by (simp add: alloc_ok_def unat_word_ariths)
  have dc: "unat (ucast (fd_deadticket_counter d) :: u64) = unat (fd_deadticket_counter d)"
    by (rule unat_ucast_64)
  have "(ucast (fd_deadticket_counter d) :: u64) \<le> fd_ticketer d + 1"
    using I(8) tkr dc by (simp add: word_le_nat_alt)
  then have "unat (fd_ticketer d + 1 - ucast (fd_deadticket_counter d)) = length (fd_alltickets_head d) + 1"
    using I(8) tkr dc by (simp add: unat_sub)
  then have "fuse_ticket_fetch E p werr d = Some (p, fdata_set_dead ?d)"
    using t none limit ready
    by (simp add: fuse_ticket_fetch_def fuse_ticket_fetch_begin_def fuse_push_allticks_def)
  then show ?thesis
    by (simp add: fdata_set_dead_def fdata_dead_get_def flag_set_or_self)
qed

text \<open>A session past its handshake, with one ticket in use.\<close>

definition inited_session :: "fuse_data \<Rightarrow> fuse_data" where
  "inited_session d = d\<lparr>fd_dataflags := fd_dataflags d OR FSESS_INITED\<rparr>"

theorem ticket_limit_kills_session_witness:
  "\<exists>d d'. fuse_ticket_fetch (example_env\<lparr>fuse_max_tickets := 1\<rparr>) 1 0 d = Some (1, d') \<and>
     \<not> fdata_dead_get d \<and> fdata_dead_get d' \<and> Signal_VQ_DEAD \<in> set (fd_log d')"
proof -
  obtain s t where s: "ipc_inv s" "fd_dataflags (ip_d s) = 0" "fd_freeticket_counter (ip_d s) = 0"
      "fd_ticketer (ip_d s) = 1" "fd_tickets (ip_d s) 0 = Some t"
      "\<forall>p. p \<noteq> 0 \<longrightarrow> fd_tickets (ip_d s) p = None"
    using getattr_sent_state by blast
  let ?d = "inited_session (ip_d s)" let ?E = "example_env\<lparr>fuse_max_tickets := 1\<rparr>"
  have inv: "session_inv ?d (ip_thr s)" using s(1) by (simp add: inited_session_def ipc_inv_def)
  have "0 \<in> set (fd_alltickets_head ?d)"
    using tickets_invD(3) [OF inv [unfolded session_inv_def]] s(5) by (auto simp: inited_session_def)
  then have "1 \<le> length (fd_alltickets_head ?d)" by (cases "fd_alltickets_head ?d") auto
  moreover have "mem_ok ?E" "alloc_ok 1 ?d" "flag_set (fd_dataflags ?d) FSESS_INITED"
      "fd_freeticket_counter ?d = 0" "0 < fuse_max_tickets ?E" "fuse_max_tickets ?E = 1"
    using s by (simp_all add: mem_ok_def example_env_def alloc_ok_def inited_session_def flag_set_def)
  ultimately obtain d' where d': "fuse_ticket_fetch ?E 1 0 ?d = Some (1, d')" "fdata_dead_get d'"
      "\<not> fdata_dead_get ?d \<longrightarrow> Signal_VQ_DEAD \<in> set (fd_log d')"
    using ticket_limit_kills_session [OF inv, of ?E 1 0] by auto
  have "\<not> fdata_dead_get ?d" using s(2) by (simp add: fdata_dead_get_def inited_session_def flag_set_def)
  with d' show ?thesis by blast
qed

end
