(* ===== verification/Fuse_Nodehash.thy ===== *)
theory Fuse_Nodehash
  imports Fuse_Prelude
begin

text \<open>
  The node hash of \<open>core/10.5/fusefs/fuse_nodehash.c\<close>: it maps (device, inode number) to an \<open>HNode\<close>,
  which holds the vnodes of the object's forks and is reference counted by them.

  Nodes live in a store from kernel addresses to records; hash chains hold addresses. Every section
  under \<open>gHashMutex\<close> is one function; \<open>HNodeLookupCreatingIfNecessary\<close>, which drops the mutex in
  its loop, is a function per iteration, so that other threads can come in between. Following a bad
  pointer and a failing \<open>assert\<close> are \<^term>\<open>None\<close>. The magic number, the same in every node, is left
  out; allocations succeed (\<open>FUSE_OSMalloc\<close> panics otherwise).
\<close>

section \<open>Nodes and the table\<close>

type_synonym hnp = nat
type_synonym vnode = nat

record hnode =
  hn_dev :: u64
  hn_ino :: u64
  hn_attachOutstanding :: bool
  hn_waiting :: bool
  hn_forkVNodes :: "vnode option list"
  hn_forkVNodesCount :: nat

text \<open>
  \<open>gh_fsnode\<close> is what \<open>vnode_fsnode\<close> returns for a vnode of the file system; \<open>gh_wakeups\<close> are the
  channels \<open>fuse_wakeup\<close> was called on.
\<close>

record hash_state =
  gh_nodes :: "hnp \<rightharpoonup> hnode"
  gHashTable :: "u64 \<Rightarrow> hnp list"
  gHashTableMask :: u64
  gHashNodeCount :: nat
  gh_fsnode :: "vnode \<rightharpoonup> hnp"
  gh_wakeups :: "hnp list"

definition HNodeGetFirstFromHashTable :: "hash_state \<Rightarrow> u64 \<Rightarrow> u64 \<Rightarrow> u64" where
  "HNodeGetFirstFromHashTable h dev ino = (dev + ino) AND gHashTableMask h"

definition HNodeInit :: "u64 \<Rightarrow> hash_state" where
  "HNodeInit msk = \<lparr>gh_nodes = Map.empty, gHashTable = (\<lambda>b. []), gHashTableMask = msk,
     gHashNodeCount = 0, gh_fsnode = Map.empty, gh_wakeups = []\<rparr>"

definition upd_node :: "hnp \<Rightarrow> hnode \<Rightarrow> hash_state \<Rightarrow> hash_state" where
  "upd_node p n h = h\<lparr>gh_nodes := (gh_nodes h)(p \<mapsto> n)\<rparr>"

section \<open>Accessors\<close>

definition HNodeFromVNode :: "vnode \<Rightarrow> hash_state \<Rightarrow> hnp option" where
  "HNodeFromVNode vn h = gh_fsnode h vn"

definition HNodeGetVNodeForForkAtIndex :: "hnp \<Rightarrow> nat \<Rightarrow> hash_state \<Rightarrow> vnode option option" where
  "HNodeGetVNodeForForkAtIndex p k h =
     do { n \<leftarrow> gh_nodes h p;
          if k < length (hn_forkVNodes n) then Some (hn_forkVNodes n ! k) else None }"

text \<open>The index of the first fork that has the vnode; the loop ends at the size when none has.\<close>

fun fork_index :: "vnode \<Rightarrow> vnode option list \<Rightarrow> nat" where
  "fork_index vn [] = 0"
| "fork_index vn (f # fs) = (if f = Some vn then 0 else Suc (fork_index vn fs))"

definition HNodeGetForkIndexForVNode :: "vnode \<Rightarrow> hash_state \<Rightarrow> nat option" where
  "HNodeGetForkIndexForVNode vn h =
     do { p \<leftarrow> HNodeFromVNode vn h; n \<leftarrow> gh_nodes h p;
          let k = fork_index vn (hn_forkVNodes n);
          if k \<noteq> length (hn_forkVNodes n) then Some k else None }"

section \<open>Looking a node up, creating it if necessary\<close>

text \<open>The search of a chain: the inner option is the node found, if any.\<close>

fun find_node :: "(hnp \<rightharpoonup> hnode) \<Rightarrow> u64 \<Rightarrow> u64 \<Rightarrow> hnp list \<Rightarrow> hnp option option" where
  "find_node nodes dev ino [] = Some None"
| "find_node nodes dev ino (p # ps) =
     do { n \<leftarrow> nodes p;
          if hn_dev n = dev \<and> hn_ino n = ino then Some (Some p) else find_node nodes dev ino ps }"

text \<open>
  A thread in the loop of \<open>HNodeLookupCreatingIfNecessary\<close>: its arguments, the node it has allocated
  and not inserted yet (\<open>newNode\<close>, with its address), and whether it has a spare fork buffer
  (\<open>newForkBuffer\<close>, of \<open>forkIndex + 1\<close> null pointers).
\<close>

record looker =
  lk_dev :: u64
  lk_ino :: u64
  lk_forkIndex :: nat
  lk_newNode :: "(hnp \<times> hnode) option"
  lk_newForkBuffer :: bool

text \<open>
  How an iteration ends: the mutex was dropped and the loop goes round again; the thread sleeps on
  the node; it leaves the mutex to ask for a reference on a vnode; it returns the node with a null
  vnode, so that its caller attaches one.
\<close>

datatype lookup_result = Lk_again | Lk_sleep | Lk_getwithvid hnp vnode | Lk_attach hnp

definition new_hnode :: "looker \<Rightarrow> hnode" where
  "new_hnode l = \<lparr>hn_dev = lk_dev l, hn_ino = lk_ino l, hn_attachOutstanding = False,
     hn_waiting = False, hn_forkVNodes = replicate (lk_forkIndex l + 1) None,
     hn_forkVNodesCount = 0\<rparr>"

text \<open>The part of the loop for a node that was found or just inserted.\<close>

definition HNodeLookup_status ::
  "hnp \<Rightarrow> looker \<Rightarrow> hash_state \<Rightarrow> (lookup_result \<times> looker \<times> hash_state) option" where
  "HNodeLookup_status p l h =
     do {
       n \<leftarrow> gh_nodes h p;
       if hn_attachOutstanding n then Some (Lk_sleep, l, upd_node p (n\<lparr>hn_waiting := True\<rparr>) h)
       else if lk_forkIndex l \<ge> length (hn_forkVNodes n)
       then if \<not> lk_newForkBuffer l then Some (Lk_again, l\<lparr>lk_newForkBuffer := True\<rparr>, h)
            else Some (Lk_again, l\<lparr>lk_newForkBuffer := False\<rparr>,
                   upd_node p (n\<lparr>hn_forkVNodes := hn_forkVNodes n @
                     replicate (lk_forkIndex l + 1 - length (hn_forkVNodes n)) None\<rparr>) h)
       else case hn_forkVNodes n ! lk_forkIndex l of
              None \<Rightarrow>
                Some (Lk_attach p, l, upd_node p (n\<lparr>hn_attachOutstanding := True,
                        hn_forkVNodesCount := hn_forkVNodesCount n + 1\<rparr>) h)
            | Some vn \<Rightarrow> Some (Lk_getwithvid p vn, l, h)
     }"

definition HNodeInsert :: "hnp \<Rightarrow> hnode \<Rightarrow> looker \<Rightarrow> hash_state \<Rightarrow> hash_state" where
  "HNodeInsert p n l h =
     (let b = HNodeGetFirstFromHashTable h (lk_dev l) (lk_ino l) in
      h\<lparr>gh_nodes := (gh_nodes h)(p \<mapsto> n), gHashTable := (gHashTable h)(b := p # gHashTable h b),
        gHashNodeCount := gHashNodeCount h + 1\<rparr>)"

text \<open>One iteration; \<open>q\<close> is the address a new node is allocated at, if one is.\<close>

definition HNodeLookup_iterate ::
  "hnp \<Rightarrow> looker \<Rightarrow> hash_state \<Rightarrow> (lookup_result \<times> looker \<times> hash_state) option" where
  "HNodeLookup_iterate q l h =
     do {
       found \<leftarrow> find_node (gh_nodes h) (lk_dev l) (lk_ino l)
                 (gHashTable h (HNodeGetFirstFromHashTable h (lk_dev l) (lk_ino l)));
       case found of
         Some p \<Rightarrow> HNodeLookup_status p l h
       | None \<Rightarrow>
           (case lk_newNode l of
              None \<Rightarrow> Some (Lk_again, l\<lparr>lk_newNode := Some (q, new_hnode l)\<rparr>, h)
            | Some (p, n) \<Rightarrow> HNodeLookup_status p (l\<lparr>lk_newNode := None\<rparr>) (HNodeInsert p n l h))
     }"

definition lookup_start :: "u64 \<Rightarrow> u64 \<Rightarrow> nat \<Rightarrow> looker" where
  "lookup_start dev ino k = \<lparr>lk_dev = dev, lk_ino = ino, lk_forkIndex = k, lk_newNode = None,
     lk_newForkBuffer = False\<rparr>"


text \<open>
  The variant without creation and without waiting: \<open>getvid\<close> is what \<open>vnode_getwithvid\<close> returns for
  the vnode found.
\<close>

definition HNodeLookupRealQuickIfExists ::
  "u64 \<Rightarrow> u64 \<Rightarrow> nat \<Rightarrow> (vnode \<Rightarrow> int) \<Rightarrow> hash_state \<Rightarrow> (int \<times> (hnp \<times> vnode) option) option" where
  "HNodeLookupRealQuickIfExists dev ino k getvid h =
     do {
       found \<leftarrow> find_node (gh_nodes h) dev ino (gHashTable h (HNodeGetFirstFromHashTable h dev ino));
       case found of
         None \<Rightarrow> Some (ENOENT, None)
       | Some p \<Rightarrow>
           do {
             n \<leftarrow> gh_nodes h p;
             if hn_attachOutstanding n then Some (EAGAIN, None)
             else if k \<ge> length (hn_forkVNodes n) then Some (ENOENT, None)
             else case hn_forkVNodes n ! k of
                    None \<Rightarrow> Some (ENOENT, None)
                  | Some vn \<Rightarrow> if getvid vn = 0 then Some (0, Some (p, vn)) else Some (EAGAIN, None)
           }
     }"

section \<open>Attaching, detaching, freeing\<close>

definition HNodeAttachComplete :: "hnp \<Rightarrow> hash_state \<Rightarrow> hash_state option" where
  "HNodeAttachComplete p h =
     do {
       n \<leftarrow> gh_nodes h p;
       if \<not> hn_attachOutstanding n then None
       else
         let n1 = n\<lparr>hn_attachOutstanding := False\<rparr> in
         if hn_waiting n1
         then Some ((upd_node p (n1\<lparr>hn_waiting := False\<rparr>) h)\<lparr>gh_wakeups := gh_wakeups h @ [p]\<rparr>)
         else Some (upd_node p n1 h)
     }"

definition HNodeForkVNodeDecrement :: "hnp \<Rightarrow> hash_state \<Rightarrow> (bool \<times> hash_state) option" where
  "HNodeForkVNodeDecrement p h =
     do {
       n \<leftarrow> gh_nodes h p;
       if hn_forkVNodesCount n = 0 then None
       else
         let n1 = n\<lparr>hn_forkVNodesCount := hn_forkVNodesCount n - 1\<rparr>; h1 = upd_node p n1 h in
         if hn_forkVNodesCount n1 = 0
         then let b = HNodeGetFirstFromHashTable h (hn_dev n) (hn_ino n) in
              if gHashNodeCount h = 0 \<or> p \<notin> set (gHashTable h b) then None
              else Some (True, h1\<lparr>gHashTable := (gHashTable h)(b := remove1 p (gHashTable h b)),
                                  gHashNodeCount := gHashNodeCount h - 1\<rparr>)
         else Some (False, h1)
     }"

definition HNodeAttachVNodeSucceeded :: "hnp \<Rightarrow> nat \<Rightarrow> vnode \<Rightarrow> hash_state \<Rightarrow> hash_state option" where
  "HNodeAttachVNodeSucceeded p k vn h =
     do {
       n \<leftarrow> gh_nodes h p;
       if \<not> k < length (hn_forkVNodes n) \<or> gh_fsnode h vn \<noteq> Some p then None
       else do {
         h1 \<leftarrow> HNodeAttachComplete p h;
         n1 \<leftarrow> gh_nodes h1 p;
         if hn_forkVNodes n1 ! k \<noteq> None then None
         else Some (upd_node p (n1\<lparr>hn_forkVNodes := (hn_forkVNodes n1)[k := Some vn]\<rparr>) h1)
       }
     }"

definition HNodeAttachVNodeFailed :: "hnp \<Rightarrow> nat \<Rightarrow> hash_state \<Rightarrow> (bool \<times> hash_state) option" where
  "HNodeAttachVNodeFailed p k h =
     do {
       n \<leftarrow> gh_nodes h p;
       if \<not> k < length (hn_forkVNodes n) then None
       else do { h1 \<leftarrow> HNodeAttachComplete p h; HNodeForkVNodeDecrement p h1 }
     }"

definition HNodeDetachVNode :: "hnp \<Rightarrow> vnode \<Rightarrow> hash_state \<Rightarrow> (bool \<times> hash_state) option" where
  "HNodeDetachVNode p vn h =
     do {
       n \<leftarrow> gh_nodes h p;
       let k = fork_index vn (hn_forkVNodes n);
       if \<not> k < length (hn_forkVNodes n) then None
       else HNodeForkVNodeDecrement p
              ((upd_node p (n\<lparr>hn_forkVNodes := (hn_forkVNodes n)[k := None]\<rparr>) h)
                 \<lparr>gh_fsnode := (gh_fsnode h)(vn := None)\<rparr>)
     }"

definition HNodeScrubDone :: "hnp \<Rightarrow> hash_state \<Rightarrow> hash_state option" where
  "HNodeScrubDone p h =
     do {
       n \<leftarrow> gh_nodes h p;
       if hn_waiting n then None else Some (h\<lparr>gh_nodes := (gh_nodes h)(p := None)\<rparr>)
     }"

text \<open>
  The snapshot \<open>HNodePrintState\<close> takes: it walks the buckets below \<open>gHashTableMask\<close>, which leaves out
  the last one.
\<close>

fun walk_buckets :: "hash_state \<Rightarrow> nat \<Rightarrow> nat \<Rightarrow> hnp list" where
  "walk_buckets h i 0 = []"
| "walk_buckets h i (Suc n) = gHashTable h (of_nat i) @ walk_buckets h (Suc i) n"

definition HNodePrintState_snapshot :: "hash_state \<Rightarrow> hnp list" where
  "HNodePrintState_snapshot h = walk_buckets h 0 (unat (gHashTableMask h))"

section \<open>The table and its clients as a system\<close>

text \<open>
  \<open>hs_look\<close>: the threads in the lookup loop, with the node and vnode they are asking a reference on,
  if they are; \<open>hs_att\<close>: the nodes returned with a null vnode and the fork their caller has to attach;
  \<open>hs_scrub\<close>: the nodes taken off the table that are still to be freed.
\<close>

type_synonym tid = nat

record hsys =
  hs_h :: hash_state
  hs_look :: "tid \<rightharpoonup> looker \<times> (hnp \<times> vnode) option"
  hs_att :: "hnp \<rightharpoonup> nat"
  hs_scrub :: "hnp list"

datatype hash_event =
    Hv_lookup tid u64 u64 nat
  | Hv_iterate tid hnp
  | Hv_getwithvid tid bool
  | Hv_attached hnp vnode
  | Hv_attach_failed hnp
  | Hv_reclaim vnode
  | Hv_scrub hnp

definition after_iterate ::
  "tid \<Rightarrow> hsys \<Rightarrow> lookup_result \<times> looker \<times> hash_state \<Rightarrow> hsys" where
  "after_iterate t s r =
     (case r of
        (Lk_again, l, h) \<Rightarrow> s\<lparr>hs_h := h, hs_look := (hs_look s)(t \<mapsto> (l, None))\<rparr>
      | (Lk_sleep, l, h) \<Rightarrow> s\<lparr>hs_h := h, hs_look := (hs_look s)(t \<mapsto> (l, None))\<rparr>
      | (Lk_getwithvid p vn, l, h) \<Rightarrow> s\<lparr>hs_h := h, hs_look := (hs_look s)(t \<mapsto> (l, Some (p, vn)))\<rparr>
      | (Lk_attach p, l, h) \<Rightarrow>
          s\<lparr>hs_h := h, hs_look := (hs_look s)(t := None),
            hs_att := (hs_att s)(p \<mapsto> lk_forkIndex l)\<rparr>)"

definition after_release :: "hnp \<Rightarrow> hsys \<Rightarrow> bool \<times> hash_state \<Rightarrow> hsys" where
  "after_release p s r =
     (case r of (scrubIt, h) \<Rightarrow>
        s\<lparr>hs_h := h, hs_scrub := (if scrubIt then p # hs_scrub s else hs_scrub s)\<rparr>)"

fun hash_step :: "hsys \<Rightarrow> hash_event \<Rightarrow> hsys option" where
  "hash_step s (Hv_lookup t dev ino k) =
     Some (s\<lparr>hs_look := (hs_look s)(t \<mapsto> (lookup_start dev ino k, None))\<rparr>)"
| "hash_step s (Hv_iterate t q) =
     (case hs_look s t of
        Some (l, None) \<Rightarrow>
          do { r \<leftarrow> HNodeLookup_iterate q l (hs_h s); Some (after_iterate t s r) }
      | _ \<Rightarrow> Some s)"
| "hash_step s (Hv_getwithvid t got) =
     (case hs_look s t of
        Some (l, Some (p, vn)) \<Rightarrow>
          Some (s\<lparr>hs_look := (if got then (hs_look s)(t := None) else (hs_look s)(t \<mapsto> (l, None)))\<rparr>)
      | _ \<Rightarrow> Some s)"
| "hash_step s (Hv_attached p vn) =
     (case hs_att s p of
        None \<Rightarrow> Some s
      | Some k \<Rightarrow>
          do {
            h \<leftarrow> HNodeAttachVNodeSucceeded p k vn
                  ((hs_h s)\<lparr>gh_fsnode := (gh_fsnode (hs_h s))(vn \<mapsto> p)\<rparr>);
            Some (s\<lparr>hs_h := h, hs_att := (hs_att s)(p := None)\<rparr>)
          })"
| "hash_step s (Hv_attach_failed p) =
     (case hs_att s p of
        None \<Rightarrow> Some s
      | Some k \<Rightarrow>
          do {
            r \<leftarrow> HNodeAttachVNodeFailed p k (hs_h s);
            Some ((after_release p s r)\<lparr>hs_att := (hs_att s)(p := None)\<rparr>)
          })"
| "hash_step s (Hv_reclaim vn) =
     (case HNodeFromVNode vn (hs_h s) of
        None \<Rightarrow> Some s
      | Some p \<Rightarrow> do { r \<leftarrow> HNodeDetachVNode p vn (hs_h s); Some (after_release p s r) })"
| "hash_step s (Hv_scrub p) =
     (if p \<in> set (hs_scrub s)
      then do { h \<leftarrow> HNodeScrubDone p (hs_h s); Some (s\<lparr>hs_h := h, hs_scrub := remove1 p (hs_scrub s)\<rparr>) }
      else Some s)"

text \<open>The addresses threads hold for nodes not inserted yet.\<close>

definition held :: "hsys \<Rightarrow> hnp \<Rightarrow> bool" where
  "held s p \<longleftrightarrow> (\<exists>t l c n. hs_look s t = Some (l, c) \<and> lk_newNode l = Some (p, n))"

text \<open>
  The environment: allocation gives an address not in use, a new vnode is not one the file system
  has already, a thread runs one lookup at a time.
\<close>

fun hash_ok :: "hsys \<Rightarrow> hash_event \<Rightarrow> bool" where
  "hash_ok s (Hv_lookup t dev ino k) = (hs_look s t = None)"
| "hash_ok s (Hv_iterate t q) = (gh_nodes (hs_h s) q = None \<and> \<not> held s q)"
| "hash_ok s (Hv_getwithvid t got) = True"
| "hash_ok s (Hv_attached p vn) = (gh_fsnode (hs_h s) vn = None)"
| "hash_ok s (Hv_attach_failed p) = True"
| "hash_ok s (Hv_reclaim vn) = True"
| "hash_ok s (Hv_scrub p) = True"

definition hash_init :: "u64 \<Rightarrow> hsys" where
  "hash_init msk = \<lparr>hs_h = HNodeInit msk, hs_look = Map.empty, hs_att = Map.empty, hs_scrub = []\<rparr>"

section \<open>The invariant\<close>

text \<open>
  One node: its count is the number of its vnodes, plus one while an attach is outstanding; somebody
  has to attach exactly when one is, to a fork that is free; it is in the table as long as its count
  is positive, and to be freed from then on.
\<close>

definition fork_count :: "vnode option list \<Rightarrow> nat" where
  "fork_count fs = length (filter (\<lambda>f. f \<noteq> None) fs)"

definition node_ok :: "bool \<Rightarrow> nat option \<Rightarrow> bool \<Rightarrow> hnode \<Rightarrow> bool" where
  "node_ok tab att scr n \<longleftrightarrow>
     hn_forkVNodesCount n =
       fork_count (hn_forkVNodes n) + (if hn_attachOutstanding n then 1 else 0) \<and>
     (hn_waiting n \<longrightarrow> hn_attachOutstanding n) \<and>
     (hn_attachOutstanding n \<longleftrightarrow> att \<noteq> None) \<and>
     (\<forall>k. att = Some k \<longrightarrow> k < length (hn_forkVNodes n) \<and> hn_forkVNodes n ! k = None) \<and>
     (tab \<longleftrightarrow> 0 < hn_forkVNodesCount n) \<and> (scr \<longleftrightarrow> \<not> tab)"

definition bucket_of :: "u64 \<Rightarrow> hnode \<Rightarrow> u64" where
  "bucket_of msk n = (hn_dev n + hn_ino n) AND msk"

definition in_table :: "(u64 \<Rightarrow> hnp list) \<Rightarrow> hnp \<Rightarrow> bool" where
  "in_table tbl p \<longleftrightarrow> (\<exists>b. p \<in> set (tbl b))"

definition table_inv :: "(hnp \<rightharpoonup> hnode) \<Rightarrow> (u64 \<Rightarrow> hnp list) \<Rightarrow> u64 \<Rightarrow> nat \<Rightarrow> bool" where
  "table_inv nodes tbl msk cnt \<longleftrightarrow>
     finite (dom nodes) \<and> (\<forall>b. distinct (tbl b)) \<and>
     (\<forall>b. \<forall>p\<in>set (tbl b). \<exists>n. nodes p = Some n \<and> bucket_of msk n = b) \<and>
     (\<forall>p q n m. in_table tbl p \<longrightarrow> in_table tbl q \<longrightarrow> nodes p = Some n \<longrightarrow> nodes q = Some m \<longrightarrow>
        hn_dev n = hn_dev m \<longrightarrow> hn_ino n = hn_ino m \<longrightarrow> p = q) \<and>
     cnt = card {p. in_table tbl p}"

definition owners_inv ::
  "(hnp \<rightharpoonup> hnode) \<Rightarrow> (u64 \<Rightarrow> hnp list) \<Rightarrow> (hnp \<rightharpoonup> nat) \<Rightarrow> hnp list \<Rightarrow> bool" where
  "owners_inv nodes tbl att scr \<longleftrightarrow>
     (\<forall>p n. nodes p = Some n \<longrightarrow> node_ok (in_table tbl p) (att p) (p \<in> set scr) n) \<and>
     distinct scr \<and> set scr \<subseteq> dom nodes \<and> dom att \<subseteq> dom nodes"

definition vnodes_inv :: "(hnp \<rightharpoonup> hnode) \<Rightarrow> (vnode \<rightharpoonup> hnp) \<Rightarrow> bool" where
  "vnodes_inv nodes fsn \<longleftrightarrow>
     (\<forall>vn p. fsn vn = Some p \<longleftrightarrow> (\<exists>n. nodes p = Some n \<and> Some vn \<in> set (hn_forkVNodes n))) \<and>
     (\<forall>p n. nodes p = Some n \<longrightarrow> distinct (filter (\<lambda>f. f \<noteq> None) (hn_forkVNodes n)))"

definition lookers_inv ::
  "(hnp \<rightharpoonup> hnode) \<Rightarrow> (tid \<rightharpoonup> looker \<times> (hnp \<times> vnode) option) \<Rightarrow> bool" where
  "lookers_inv nodes look \<longleftrightarrow>
     (\<forall>t l c p n. look t = Some (l, c) \<longrightarrow> lk_newNode l = Some (p, n) \<longrightarrow>
        nodes p = None \<and> n = new_hnode l) \<and>
     (\<forall>t l c u m d p n n'. look t = Some (l, c) \<longrightarrow> look u = Some (m, d) \<longrightarrow>
        lk_newNode l = Some (p, n) \<longrightarrow> lk_newNode m = Some (p, n') \<longrightarrow> t = u)"

definition hash_inv :: "hsys \<Rightarrow> bool" where
  "hash_inv s \<longleftrightarrow>
     table_inv (gh_nodes (hs_h s)) (gHashTable (hs_h s)) (gHashTableMask (hs_h s))
       (gHashNodeCount (hs_h s)) \<and>
     owners_inv (gh_nodes (hs_h s)) (gHashTable (hs_h s)) (hs_att s) (hs_scrub s) \<and>
     vnodes_inv (gh_nodes (hs_h s)) (gh_fsnode (hs_h s)) \<and>
     lookers_inv (gh_nodes (hs_h s)) (hs_look s)"

lemma hash_inv_init: "hash_inv (hash_init msk)"
  by (simp add: hash_inv_def hash_init_def HNodeInit_def table_inv_def owners_inv_def vnodes_inv_def
      lookers_inv_def in_table_def)

subsection \<open>The table\<close>

lemma in_tableI: "p \<in> set (tbl b) \<Longrightarrow> in_table tbl p"
  by (auto simp: in_table_def)

lemma in_table_cons: "in_table (tbl(b := p # tbl b)) q \<longleftrightarrow> q = p \<or> in_table tbl q"
  by (auto simp: in_table_def)

lemma table_inv_bucket:
  "table_inv nodes tbl msk cnt \<Longrightarrow> nodes p = Some n \<Longrightarrow> p \<in> set (tbl b) \<Longrightarrow> b = bucket_of msk n"
  unfolding table_inv_def by force

lemma in_table_bucket:
  assumes "table_inv nodes tbl msk cnt" and "nodes p = Some n"
  shows "in_table tbl p \<longleftrightarrow> p \<in> set (tbl (bucket_of msk n))"
  using table_inv_bucket [OF assms] by (auto simp: in_table_def)

lemma table_inv_unique:
  "table_inv nodes tbl msk cnt \<Longrightarrow> in_table tbl p \<Longrightarrow> in_table tbl q \<Longrightarrow> nodes p = Some n \<Longrightarrow>
     nodes q = Some m \<Longrightarrow> hn_dev n = hn_dev m \<Longrightarrow> hn_ino n = hn_ino m \<Longrightarrow> p = q"
  unfolding table_inv_def by blast

lemma table_inv_dom:
  "table_inv nodes tbl msk cnt \<Longrightarrow> in_table tbl p \<Longrightarrow> \<exists>n. nodes p = Some n"
  unfolding table_inv_def in_table_def by blast

lemma table_inv_finite:
  assumes "table_inv nodes tbl msk cnt"
  shows "finite {p. in_table tbl p}"
proof -
  have "{p. in_table tbl p} \<subseteq> dom nodes" using table_inv_dom [OF assms] by auto
  then show ?thesis using assms unfolding table_inv_def by (blast intro: finite_subset)
qed

lemma table_inv_count: "table_inv nodes tbl msk cnt \<Longrightarrow> cnt = card {p. in_table tbl p}"
  unfolding table_inv_def by blast

lemma table_inv_upd:
  assumes inv: "table_inv nodes tbl msk cnt" and n: "nodes p = Some n"
    and same: "hn_dev n' = hn_dev n" "hn_ino n' = hn_ino n"
  shows "table_inv (nodes(p \<mapsto> n')) tbl msk cnt"
proof -
  have b: "bucket_of msk n' = bucket_of msk n" using same by (simp add: bucket_of_def)
  have old: "\<exists>m. nodes q = Some m \<and> hn_dev m = hn_dev m' \<and> hn_ino m = hn_ino m' \<and>
      bucket_of msk m = bucket_of msk m'" if "(nodes(p \<mapsto> n')) q = Some m'" for q m'
    using that n same b by (cases "q = p") auto
  have uniq: "q = r" if "in_table tbl q" "in_table tbl r" "(nodes(p \<mapsto> n')) q = Some m"
      "(nodes(p \<mapsto> n')) r = Some m'" "hn_dev m = hn_dev m'" "hn_ino m = hn_ino m'" for q r m m'
    using old [OF that(3)] old [OF that(4)] table_inv_unique [OF inv that(1,2)] that(5,6) by metis
  have chains: "\<exists>m. (nodes(p \<mapsto> n')) q = Some m \<and> bucket_of msk m = c" if q: "q \<in> set (tbl c)" for c q
  proof -
    obtain m where m: "nodes q = Some m" "bucket_of msk m = c"
      using inv q unfolding table_inv_def by blast
    then show ?thesis using n b by (cases "q = p") auto
  qed
  have "finite (dom (nodes(p \<mapsto> n')))" "\<forall>c. distinct (tbl c)" "cnt = card {p. in_table tbl p}"
    using inv unfolding table_inv_def by auto
  with uniq chains show ?thesis unfolding table_inv_def by blast
qed

lemma table_inv_insert:
  assumes inv: "table_inv nodes tbl msk cnt" and none: "nodes p = None"
    and new: "\<And>q m. in_table tbl q \<Longrightarrow> nodes q = Some m \<Longrightarrow> hn_dev m = hn_dev n \<Longrightarrow> hn_ino m \<noteq> hn_ino n"
    and b: "b = bucket_of msk n"
  shows "table_inv (nodes(p \<mapsto> n)) (tbl(b := p # tbl b)) msk (cnt + 1)"
proof -
  have out: "\<not> in_table tbl p" using table_inv_dom [OF inv, of p] none by auto
  then have out': "p \<notin> set (tbl c)" for c by (auto simp: in_table_def)
  note tab = in_table_cons [of tbl b p]
  then have set: "{q. in_table (tbl(b := p # tbl b)) q} = insert p {q. in_table tbl q}" by auto
  have cnt: "cnt + 1 = card {q. in_table (tbl(b := p # tbl b)) q}"
    using table_inv_count [OF inv] table_inv_finite [OF inv] out by (simp add: set)
  have uniq: "q = r" if "in_table (tbl(b := p # tbl b)) q" "in_table (tbl(b := p # tbl b)) r"
      "(nodes(p \<mapsto> n)) q = Some m" "(nodes(p \<mapsto> n)) r = Some m'" "hn_dev m = hn_dev m'" "hn_ino m = hn_ino m'"
    for q r m m'
  proof (cases "q = p"; cases "r = p")
    assume "q = p" "r \<noteq> p"
    with that tab new [of r m'] show ?thesis by simp
  next
    assume "q \<noteq> p" "r = p"
    with that tab new [of q m] show ?thesis by simp
  next
    assume "q \<noteq> p" "r \<noteq> p"
    with that tab table_inv_unique [OF inv, of q r m m'] show ?thesis by simp
  qed simp
  have chains: "\<exists>m. (nodes(p \<mapsto> n)) q = Some m \<and> bucket_of msk m = c"
    if "q \<in> set ((tbl(b := p # tbl b)) c)" for c q
  proof (cases "q = p")
    case True
    with that out' b show ?thesis by (auto split: if_splits)
  next
    case False
    with that have "q \<in> set (tbl c)" by (auto split: if_splits)
    with inv False show ?thesis unfolding table_inv_def by auto
  qed
  have "finite (dom (nodes(p \<mapsto> n)))" "\<forall>c. distinct ((tbl(b := p # tbl b)) c)"
    using inv out' unfolding table_inv_def by auto
  with uniq chains cnt show ?thesis unfolding table_inv_def by blast
qed

lemma table_inv_remove:
  assumes inv: "table_inv nodes tbl msk cnt" and n: "nodes p = Some n" and tab: "in_table tbl p"
    and b: "b = bucket_of msk n"
  shows "table_inv nodes (tbl(b := remove1 p (tbl b))) msk (cnt - 1)" and "p \<in> set (tbl b)"
    and "0 < cnt" and "in_table (tbl(b := remove1 p (tbl b))) q \<longleftrightarrow> in_table tbl q \<and> q \<noteq> p"
proof -
  show p: "p \<in> set (tbl b)" using in_table_bucket [OF inv n] tab b by simp
  have dist: "distinct (tbl c)" for c using inv unfolding table_inv_def by blast
  have only: "p \<notin> set (tbl c)" if "c \<noteq> b" for c
    using table_inv_bucket [OF inv n, of c] that b by auto
  have tab': "in_table (tbl(b := remove1 p (tbl b))) q \<longleftrightarrow> in_table tbl q \<and> q \<noteq> p" for q
  proof
    assume "in_table (tbl(b := remove1 p (tbl b))) q"
    then obtain c where "q \<in> set ((tbl(b := remove1 p (tbl b))) c)" by (auto simp: in_table_def)
    then show "in_table tbl q \<and> q \<noteq> p"
      using dist only by (cases "c = b") (auto intro: in_tableI)
  next
    assume "in_table tbl q \<and> q \<noteq> p"
    then obtain c where "q \<in> set (tbl c)" "q \<noteq> p" by (auto simp: in_table_def)
    then have "q \<in> set ((tbl(b := remove1 p (tbl b))) c)" using dist by (cases "c = b") auto
    then show "in_table (tbl(b := remove1 p (tbl b))) q" by (rule in_tableI)
  qed
  then show "in_table (tbl(b := remove1 p (tbl b))) q \<longleftrightarrow> in_table tbl q \<and> q \<noteq> p" .
  have set: "{q. in_table (tbl(b := remove1 p (tbl b))) q} = {q. in_table tbl q} - {p}"
    using tab' by auto
  show "0 < cnt"
    using table_inv_count [OF inv] table_inv_finite [OF inv] tab by (auto simp: card_gt_0_iff)
  have cnt: "cnt - 1 = card {q. in_table (tbl(b := remove1 p (tbl b))) q}"
    using table_inv_count [OF inv] table_inv_finite [OF inv] tab by (simp add: set)
  have uniq: "q = r" if "in_table (tbl(b := remove1 p (tbl b))) q" "in_table (tbl(b := remove1 p (tbl b))) r"
      "nodes q = Some m" "nodes r = Some m'" "hn_dev m = hn_dev m'" "hn_ino m = hn_ino m'" for q r m m'
    using that tab' table_inv_unique [OF inv, of q r m m'] by simp
  have chains: "\<exists>m. nodes q = Some m \<and> bucket_of msk m = c"
    if "q \<in> set ((tbl(b := remove1 p (tbl b))) c)" for c q
  proof -
    have "q \<in> set (tbl c)" using that dist by (cases "c = b") simp_all
    with inv show ?thesis unfolding table_inv_def by blast
  qed
  have "finite (dom nodes)" "\<forall>c. distinct ((tbl(b := remove1 p (tbl b))) c)"
    using inv dist unfolding table_inv_def by auto
  with uniq chains cnt show "table_inv nodes (tbl(b := remove1 p (tbl b))) msk (cnt - 1)"
    unfolding table_inv_def by blast
qed

lemma table_inv_free:
  assumes inv: "table_inv nodes tbl msk cnt" and out: "\<not> in_table tbl p"
  shows "table_inv (nodes(p := None)) tbl msk cnt"
proof -
  have chains: "\<exists>m. (nodes(p := None)) q = Some m \<and> bucket_of msk m = c" if "q \<in> set (tbl c)" for c q
  proof -
    have "q \<noteq> p" using that out by (auto simp: in_table_def)
    with inv that show ?thesis unfolding table_inv_def by auto
  qed
  have uniq: "q = r" if "in_table tbl q" "in_table tbl r" "(nodes(p := None)) q = Some m"
      "(nodes(p := None)) r = Some m'" "hn_dev m = hn_dev m'" "hn_ino m = hn_ino m'" for q r m m'
    using that table_inv_unique [OF inv, of q r m m'] by (auto split: if_splits)
  have "finite (dom (nodes(p := None)))" "\<forall>c. distinct (tbl c)" "cnt = card {p. in_table tbl p}"
    using inv unfolding table_inv_def by auto
  with uniq chains show ?thesis unfolding table_inv_def by blast
qed

text \<open>The search of the chain of a key finds the node with that key, and nothing else.\<close>

lemma find_node_defined: "\<forall>p\<in>set ps. \<exists>n. nodes p = Some n \<Longrightarrow> \<exists>r. find_node nodes dev ino ps = Some r"
  by (induction ps) auto

lemma find_node_Some:
  "find_node nodes dev ino ps = Some (Some p) \<Longrightarrow>
     p \<in> set ps \<and> (\<exists>n. nodes p = Some n \<and> hn_dev n = dev \<and> hn_ino n = ino)"
  by (induction ps) (auto simp: bind_eq_Some_conv split: if_splits)

lemma find_node_None:
  "find_node nodes dev ino ps = Some None \<Longrightarrow> p \<in> set ps \<Longrightarrow> nodes p = Some n \<Longrightarrow>
     hn_dev n = dev \<Longrightarrow> hn_ino n \<noteq> ino"
  by (induction ps) (auto simp: bind_eq_Some_conv split: if_splits)

lemma find_node_table:
  assumes inv: "table_inv nodes tbl msk cnt"
  obtains "find_node nodes dev ino (tbl ((dev + ino) AND msk)) = Some None"
      "\<And>p n. in_table tbl p \<Longrightarrow> nodes p = Some n \<Longrightarrow> hn_dev n = dev \<Longrightarrow> hn_ino n \<noteq> ino"
  | p n where "find_node nodes dev ino (tbl ((dev + ino) AND msk)) = Some (Some p)"
      "in_table tbl p" "nodes p = Some n" "hn_dev n = dev" "hn_ino n = ino"
proof -
  let ?c = "tbl ((dev + ino) AND msk)"
  have "\<forall>p\<in>set ?c. \<exists>n. nodes p = Some n" using inv unfolding table_inv_def by blast
  from find_node_defined [OF this] obtain r where r: "find_node nodes dev ino ?c = Some r" by blast
  show ?thesis
  proof (cases r)
    case None
    have "hn_ino n \<noteq> ino" if "in_table tbl p" "nodes p = Some n" "hn_dev n = dev" for p n
    proof
      assume "hn_ino n = ino"
      then have "p \<in> set ?c" using in_table_bucket [OF inv that(2)] that(1,3) by (simp add: bucket_of_def)
      from find_node_None [OF r [unfolded None] this that(2,3)] \<open>hn_ino n = ino\<close> show False by simp
    qed
    with r None that(1) show ?thesis by blast
  next
    case (Some p)
    from find_node_Some [OF r [unfolded Some]] r Some that(2) show ?thesis by (auto intro: in_tableI)
  qed
qed


subsection \<open>Owners\<close>

lemma owners_inv_node:
  "owners_inv nodes tbl att scr \<Longrightarrow> nodes p = Some n \<Longrightarrow> node_ok (in_table tbl p) (att p) (p \<in> set scr) n"
  unfolding owners_inv_def by blast

lemma owners_inv_att:
  "owners_inv nodes tbl att scr \<Longrightarrow> att p = Some k \<Longrightarrow> \<exists>n. nodes p = Some n"
  unfolding owners_inv_def by auto

lemma owners_inv_change:
  assumes inv: "owners_inv nodes tbl att scr"
    and ok: "node_ok (in_table tbl' p) (att' p) (p \<in> set scr') n'"
    and other: "\<And>q. q \<noteq> p \<Longrightarrow> in_table tbl' q = in_table tbl q \<and> att' q = att q \<and> (q \<in> set scr') = (q \<in> set scr)"
    and dist: "distinct scr'"
  shows "owners_inv (nodes(p \<mapsto> n')) tbl' att' scr'"
proof -
  have "node_ok (in_table tbl' q) (att' q) (q \<in> set scr') m" if "(nodes(p \<mapsto> n')) q = Some m" for q m
  proof (cases "q = p")
    case True
    with that ok show ?thesis by simp
  next
    case False
    with that owners_inv_node [OF inv, of q m] other [OF False] show ?thesis by simp
  qed
  moreover have "q \<in> dom (nodes(p \<mapsto> n'))" if "q \<in> set scr' \<or> q \<in> dom att'" for q
  proof (cases "q = p")
    case False
    with that other [OF False] have "q \<in> set scr \<or> q \<in> dom att" by (auto simp: dom_def)
    with inv show ?thesis unfolding owners_inv_def by auto
  qed simp
  ultimately show ?thesis using dist unfolding owners_inv_def by blast
qed

lemma owners_inv_free:
  assumes inv: "owners_inv nodes tbl att scr" and p: "p \<in> set scr"
  shows "owners_inv (nodes(p := None)) tbl att (remove1 p scr)"
proof -
  have dist: "distinct scr" and sub: "set scr \<subseteq> dom nodes" "dom att \<subseteq> dom nodes"
    using inv unfolding owners_inv_def by blast+
  obtain n where n: "nodes p = Some n" using p sub by auto
  have att: "att p = None"
    using owners_inv_node [OF inv n] p by (auto simp: node_ok_def split: if_splits)
  have "node_ok (in_table tbl q) (att q) (q \<in> set (remove1 p scr)) m" if "(nodes(p := None)) q = Some m" for q m
    using that owners_inv_node [OF inv, of q m] dist by (auto split: if_splits)
  moreover have "set (remove1 p scr) \<subseteq> dom (nodes(p := None))" "dom att \<subseteq> dom (nodes(p := None))"
    using sub att dist by auto
  ultimately show ?thesis using dist unfolding owners_inv_def by auto
qed

subsection \<open>Vnodes\<close>

lemma Some_in_filter: "Some vn \<in> set fs \<longleftrightarrow> Some vn \<in> set (filter (\<lambda>f. f \<noteq> None) fs)"
  by simp

lemma filter_mem:
  assumes "filter (\<lambda>f. f \<noteq> None) fs = filter (\<lambda>f. f \<noteq> None) gs"
  shows "Some vn \<in> set fs \<longleftrightarrow> Some vn \<in> set gs"
  by (subst (1 2) Some_in_filter) (simp only: assms)

lemma vnodes_inv_iff:
  "vnodes_inv nodes fsn \<Longrightarrow> fsn vn = Some p \<longleftrightarrow> (\<exists>n. nodes p = Some n \<and> Some vn \<in> set (hn_forkVNodes n))"
  unfolding vnodes_inv_def by blast

lemma vnodes_inv_distinct:
  "vnodes_inv nodes fsn \<Longrightarrow> nodes p = Some n \<Longrightarrow> distinct (filter (\<lambda>f. f \<noteq> None) (hn_forkVNodes n))"
  unfolding vnodes_inv_def by blast

lemma vnodes_inv_change:
  assumes inv: "vnodes_inv nodes fsn"
    and dist: "distinct (filter (\<lambda>f. f \<noteq> None) (hn_forkVNodes n'))"
    and here: "\<And>vn. fsn' vn = Some p \<longleftrightarrow> Some vn \<in> set (hn_forkVNodes n')"
    and other: "\<And>vn q. q \<noteq> p \<Longrightarrow> fsn' vn = Some q \<longleftrightarrow> fsn vn = Some q"
  shows "vnodes_inv (nodes(p \<mapsto> n')) fsn'"
proof -
  have "fsn' vn = Some q \<longleftrightarrow> (\<exists>n. (nodes(p \<mapsto> n')) q = Some n \<and> Some vn \<in> set (hn_forkVNodes n))" for vn q
    using here other vnodes_inv_iff [OF inv, of vn q] by (cases "q = p") auto
  moreover have "distinct (filter (\<lambda>f. f \<noteq> None) (hn_forkVNodes m))" if "(nodes(p \<mapsto> n')) q = Some m" for q m
    using that dist vnodes_inv_distinct [OF inv, of q m] by (auto split: if_splits)
  ultimately show ?thesis unfolding vnodes_inv_def by blast
qed

lemma vnodes_inv_same:
  assumes inv: "vnodes_inv nodes fsn" and n: "nodes p = Some n"
    and same: "filter (\<lambda>f. f \<noteq> None) (hn_forkVNodes n') = filter (\<lambda>f. f \<noteq> None) (hn_forkVNodes n)"
  shows "vnodes_inv (nodes(p \<mapsto> n')) fsn"
proof (rule vnodes_inv_change [OF inv])
  show "distinct (filter (\<lambda>f. f \<noteq> None) (hn_forkVNodes n'))"
    using vnodes_inv_distinct [OF inv n] same by simp
  show "fsn vn = Some p \<longleftrightarrow> Some vn \<in> set (hn_forkVNodes n')" for vn
    using vnodes_inv_iff [OF inv, of vn p] n by (simp add: filter_mem [OF same])
qed simp

lemma vnodes_inv_new:
  assumes inv: "vnodes_inv nodes fsn" and none: "nodes p = None"
    and empty: "filter (\<lambda>f. f \<noteq> None) (hn_forkVNodes n) = []"
  shows "vnodes_inv (nodes(p \<mapsto> n)) fsn"
proof (rule vnodes_inv_change [OF inv])
  show "fsn vn = Some p \<longleftrightarrow> Some vn \<in> set (hn_forkVNodes n)" for vn
    using vnodes_inv_iff [OF inv, of vn p] none filter_mem [of "hn_forkVNodes n" "[]" vn] empty by auto
  show "distinct (filter (\<lambda>f. f \<noteq> None) (hn_forkVNodes n))" unfolding empty by simp
qed simp_all

lemma vnodes_inv_free:
  assumes inv: "vnodes_inv nodes fsn" and n: "nodes p = Some n"
    and empty: "fork_count (hn_forkVNodes n) = 0"
  shows "vnodes_inv (nodes(p := None)) fsn"
proof -
  have none: "Some vn \<notin> set (hn_forkVNodes n)" for vn
    using empty Some_in_filter [of vn "hn_forkVNodes n"] by (simp add: fork_count_def)
  have "fsn vn = Some q \<longleftrightarrow> (\<exists>n. (nodes(p := None)) q = Some n \<and> Some vn \<in> set (hn_forkVNodes n))" for vn q
    using vnodes_inv_iff [OF inv, of vn q] n none by (cases "q = p") auto
  moreover have "distinct (filter (\<lambda>f. f \<noteq> None) (hn_forkVNodes m))" if "(nodes(p := None)) q = Some m" for q m
    using that vnodes_inv_distinct [OF inv, of q m] by (auto split: if_splits)
  ultimately show ?thesis unfolding vnodes_inv_def by blast
qed

lemma filter_set_None:
  assumes "k < length fs" and "fs ! k = None"
  shows "\<exists>xs ys. filter (\<lambda>f. f \<noteq> None) fs = xs @ ys \<and>
           filter (\<lambda>f. f \<noteq> None) (fs[k := Some vn]) = xs @ Some vn # ys"
proof (intro exI conjI)
  let ?f = "filter (\<lambda>f. f \<noteq> None)"
  have "fs = take k fs @ None # drop (Suc k) fs" using assms by (metis id_take_nth_drop)
  then have "?f fs = ?f (take k fs @ None # drop (Suc k) fs)" by simp
  then show "?f fs = ?f (take k fs) @ ?f (drop (Suc k) fs)" by simp
  show "?f (fs[k := Some vn]) = ?f (take k fs) @ Some vn # ?f (drop (Suc k) fs)"
    using assms(1) by (simp add: upd_conv_take_nth_drop)
qed

lemma filter_clear_Some:
  assumes "k < length fs" and "fs ! k = Some vn"
  shows "\<exists>xs ys. filter (\<lambda>f. f \<noteq> None) fs = xs @ Some vn # ys \<and>
           filter (\<lambda>f. f \<noteq> None) (fs[k := None]) = xs @ ys"
proof (intro exI conjI)
  let ?f = "filter (\<lambda>f. f \<noteq> None)"
  have "fs = take k fs @ Some vn # drop (Suc k) fs" using assms by (metis id_take_nth_drop)
  then have "?f fs = ?f (take k fs @ Some vn # drop (Suc k) fs)" by simp
  then show "?f fs = ?f (take k fs) @ Some vn # ?f (drop (Suc k) fs)" by simp
  show "?f (fs[k := None]) = ?f (take k fs) @ ?f (drop (Suc k) fs)"
    using assms(1) by (simp add: upd_conv_take_nth_drop)
qed

lemma vnodes_inv_attach:
  assumes inv: "vnodes_inv nodes fsn" and n: "nodes p = Some n" and new: "fsn vn = None"
    and k: "k < length (hn_forkVNodes n)" "hn_forkVNodes n ! k = None"
    and n': "hn_forkVNodes n' = (hn_forkVNodes n)[k := Some vn]"
  shows "vnodes_inv (nodes(p \<mapsto> n')) (fsn(vn \<mapsto> p))"
    and "fork_count (hn_forkVNodes n') = fork_count (hn_forkVNodes n) + 1"
proof -
  obtain xs ys where f: "filter (\<lambda>f. f \<noteq> None) (hn_forkVNodes n) = xs @ ys"
      "filter (\<lambda>f. f \<noteq> None) (hn_forkVNodes n') = xs @ Some vn # ys"
    using filter_set_None [OF k, of vn] n' by auto
  show "fork_count (hn_forkVNodes n') = fork_count (hn_forkVNodes n) + 1"
    using f by (simp add: fork_count_def)
  have "Some vn \<notin> set (hn_forkVNodes n)" using vnodes_inv_iff [OF inv, of vn p] new n by auto
  then have fresh: "Some vn \<notin> set (xs @ ys)" using f(1) Some_in_filter by metis
  show "vnodes_inv (nodes(p \<mapsto> n')) (fsn(vn \<mapsto> p))"
  proof (rule vnodes_inv_change [OF inv])
    show "distinct (filter (\<lambda>f. f \<noteq> None) (hn_forkVNodes n'))"
      using vnodes_inv_distinct [OF inv n] f fresh by simp
    show "(fsn(vn \<mapsto> p)) v = Some p \<longleftrightarrow> Some v \<in> set (hn_forkVNodes n')" for v
    proof -
      have "Some v \<in> set (hn_forkVNodes n') \<longleftrightarrow> v = vn \<or> Some v \<in> set (hn_forkVNodes n)"
        using f Some_in_filter [of v "hn_forkVNodes n'"] Some_in_filter [of v "hn_forkVNodes n"] by auto
      then show ?thesis using vnodes_inv_iff [OF inv, of v p] n by auto
    qed
    show "(fsn(vn \<mapsto> p)) v = Some q \<longleftrightarrow> fsn v = Some q" if "q \<noteq> p" for v q
      using that new by auto
  qed
qed

lemma fork_index_found:
  "Some vn \<in> set fs \<Longrightarrow> fork_index vn fs < length fs \<and> fs ! fork_index vn fs = Some vn"
  by (induction fs) auto

lemma vnodes_inv_detach:
  assumes inv: "vnodes_inv nodes fsn" and n: "nodes p = Some n" and vn: "fsn vn = Some p"
    and n': "hn_forkVNodes n' = (hn_forkVNodes n)[fork_index vn (hn_forkVNodes n) := None]"
  shows "vnodes_inv (nodes(p \<mapsto> n')) (fsn(vn := None))"
    and "fork_count (hn_forkVNodes n) = fork_count (hn_forkVNodes n') + 1"
proof -
  have mem: "Some vn \<in> set (hn_forkVNodes n)" using vnodes_inv_iff [OF inv, of vn p] vn n by auto
  obtain xs ys where f: "filter (\<lambda>f. f \<noteq> None) (hn_forkVNodes n) = xs @ Some vn # ys"
      "filter (\<lambda>f. f \<noteq> None) (hn_forkVNodes n') = xs @ ys"
    using filter_clear_Some fork_index_found [OF mem] n' by metis
  show "fork_count (hn_forkVNodes n) = fork_count (hn_forkVNodes n') + 1"
    using f by (simp add: fork_count_def)
  have dist: "distinct (xs @ Some vn # ys)" using vnodes_inv_distinct [OF inv n] f by simp
  show "vnodes_inv (nodes(p \<mapsto> n')) (fsn(vn := None))"
  proof (rule vnodes_inv_change [OF inv])
    show "distinct (filter (\<lambda>f. f \<noteq> None) (hn_forkVNodes n'))" using dist f by simp
    show "(fsn(vn := None)) v = Some p \<longleftrightarrow> Some v \<in> set (hn_forkVNodes n')" for v
    proof -
      have "Some v \<in> set (hn_forkVNodes n') \<longleftrightarrow> v \<noteq> vn \<and> Some v \<in> set (hn_forkVNodes n)"
        using f dist Some_in_filter [of v "hn_forkVNodes n'"] Some_in_filter [of v "hn_forkVNodes n"] by auto
      then show ?thesis using vnodes_inv_iff [OF inv, of v p] n by auto
    qed
    show "(fsn(vn := None)) v = Some q \<longleftrightarrow> fsn v = Some q" if "q \<noteq> p" for v q
      using that vn by auto
  qed
qed

subsection \<open>Threads in the lookup loop\<close>

lemma lookers_inv_new:
  "lookers_inv nodes look \<Longrightarrow> look t = Some (l, c) \<Longrightarrow> lk_newNode l = Some (p, n) \<Longrightarrow>
     nodes p = None \<and> n = new_hnode l"
  unfolding lookers_inv_def by blast

lemma lookers_inv_one:
  "lookers_inv nodes look \<Longrightarrow> look t = Some (l, c) \<Longrightarrow> look u = Some (m, d) \<Longrightarrow>
     lk_newNode l = Some (p, n) \<Longrightarrow> lk_newNode m = Some (p, n') \<Longrightarrow> t = u"
  unfolding lookers_inv_def by blast

lemma lookers_inv_dom:
  assumes "lookers_inv nodes look" and "dom nodes' \<subseteq> dom nodes"
  shows "lookers_inv nodes' look"
proof -
  have "nodes' p = None" if "nodes p = None" for p using assms(2) that by auto
  then show ?thesis
    using lookers_inv_new [OF assms(1)] lookers_inv_one [OF assms(1)] unfolding lookers_inv_def by blast
qed

lemma lookers_inv_drop:
  assumes "lookers_inv nodes look"
  shows "lookers_inv nodes (look(t := None))"
  unfolding lookers_inv_def
  using lookers_inv_new [OF assms] lookers_inv_one [OF assms] by (auto split: if_splits) 

lemma lookers_inv_set:
  assumes inv: "lookers_inv nodes look"
    and new: "\<And>p n. lk_newNode l = Some (p, n) \<Longrightarrow> nodes p = None \<and> n = new_hnode l"
    and own: "\<And>p n u m d n'. lk_newNode l = Some (p, n) \<Longrightarrow> u \<noteq> t \<Longrightarrow> look u = Some (m, d) \<Longrightarrow>
                lk_newNode m \<noteq> Some (p, n')"
  shows "lookers_inv nodes (look(t \<mapsto> (l, c)))"
proof -
  have "nodes p = None \<and> n = new_hnode m"
    if "(look(t \<mapsto> (l, c))) u = Some (m, d)" "lk_newNode m = Some (p, n)" for u m d p n
    using that new lookers_inv_new [OF inv, of u m d p n] by (cases "u = t") auto
  moreover have "u = v" if "(look(t \<mapsto> (l, c))) u = Some (m, d)" "(look(t \<mapsto> (l, c))) v = Some (m', d')"
      "lk_newNode m = Some (p, n)" "lk_newNode m' = Some (p, n')" for u v m d m' d' p n n'
  proof (cases "u = t"; cases "v = t")
    assume "u = t" "v \<noteq> t"
    with that own [of p n v m' d' n'] show ?thesis by simp
  next
    assume "u \<noteq> t" "v = t"
    with that own [of p n' u m d n] show ?thesis by simp
  next
    assume "u \<noteq> t" "v \<noteq> t"
    with that lookers_inv_one [OF inv, of u m d v m' d' p n n'] show ?thesis by simp
  qed simp
  ultimately show ?thesis unfolding lookers_inv_def by blast
qed

text \<open>A thread that inserts its node gives it up.\<close>

lemma lookers_inv_insert:
  assumes inv: "lookers_inv nodes look" and t: "look t = Some (l, c)" and p: "lk_newNode l = Some (p, n)"
  shows "lookers_inv (nodes(p \<mapsto> n')) (look(t := None))"
proof -
  have "(nodes(p \<mapsto> n')) q = None \<and> m' = new_hnode m"
    if "(look(t := None)) u = Some (m, d)" "lk_newNode m = Some (q, m')" for u m d q m'
  proof -
    have u: "u \<noteq> t" "look u = Some (m, d)" using that(1) by (auto split: if_splits)
    moreover have "q \<noteq> p" using lookers_inv_one [OF inv t u(2) p] that(2) u(1) by auto
    ultimately show ?thesis using lookers_inv_new [OF inv u(2) that(2)] by simp
  qed
  moreover have "u = v" if "(look(t := None)) u = Some (m, d)" "(look(t := None)) v = Some (m', d')"
      "lk_newNode m = Some (q, n1)" "lk_newNode m' = Some (q, n2)" for u v m d m' d' q n1 n2
    using that lookers_inv_one [OF inv, of u m d v m' d' q n1 n2] by (auto split: if_splits)
  ultimately show ?thesis unfolding lookers_inv_def by blast
qed


section \<open>Every step keeps the invariant\<close>

lemma upd_node_simps [simp]:
  "gh_nodes (upd_node p n h) = (gh_nodes h)(p \<mapsto> n)" "gHashTable (upd_node p n h) = gHashTable h"
  "gHashTableMask (upd_node p n h) = gHashTableMask h" "gHashNodeCount (upd_node p n h) = gHashNodeCount h"
  "gh_fsnode (upd_node p n h) = gh_fsnode h" "gh_wakeups (upd_node p n h) = gh_wakeups h"
  by (simp_all add: upd_node_def)

lemma hash_invD:
  assumes "hash_inv s"
  shows "table_inv (gh_nodes (hs_h s)) (gHashTable (hs_h s)) (gHashTableMask (hs_h s)) (gHashNodeCount (hs_h s))"
    and "owners_inv (gh_nodes (hs_h s)) (gHashTable (hs_h s)) (hs_att s) (hs_scrub s)"
    and "vnodes_inv (gh_nodes (hs_h s)) (gh_fsnode (hs_h s))"
    and "lookers_inv (gh_nodes (hs_h s)) (hs_look s)"
  using assms by (simp_all add: hash_inv_def)

text \<open>A change of one node in place.\<close>

lemma hash_inv_upd:
  assumes inv: "hash_inv s" and n: "gh_nodes (hs_h s) p = Some n"
    and same: "hn_dev n' = hn_dev n" "hn_ino n' = hn_ino n"
    and vn: "vnodes_inv ((gh_nodes (hs_h s))(p \<mapsto> n')) fsn"
    and ok: "node_ok (in_table (gHashTable (hs_h s)) p) (att p) (p \<in> set (hs_scrub s)) n'"
    and att: "\<And>q. q \<noteq> p \<Longrightarrow> att q = hs_att s q"
    and look: "lookers_inv (gh_nodes (hs_h s)) look"
    and s': "gh_nodes (hs_h s') = (gh_nodes (hs_h s))(p \<mapsto> n')" "gHashTable (hs_h s') = gHashTable (hs_h s)"
      "gHashTableMask (hs_h s') = gHashTableMask (hs_h s)" "gHashNodeCount (hs_h s') = gHashNodeCount (hs_h s)"
      "gh_fsnode (hs_h s') = fsn" "hs_att s' = att" "hs_scrub s' = hs_scrub s" "hs_look s' = look"
  shows "hash_inv s'"
proof -
  note I = hash_invD [OF inv]
  have dist: "distinct (hs_scrub s)" using I(2) unfolding owners_inv_def by blast
  have "owners_inv ((gh_nodes (hs_h s))(p \<mapsto> n')) (gHashTable (hs_h s)) att (hs_scrub s)"
    by (rule owners_inv_change [OF I(2)]) (simp_all add: ok att dist)
  moreover have "lookers_inv ((gh_nodes (hs_h s))(p \<mapsto> n')) look"
    by (rule lookers_inv_dom [OF look]) (use n in auto)
  ultimately show ?thesis
    using table_inv_upd [OF I(1) n same] vn s' by (simp add: hash_inv_def)
qed

lemma hash_inv_look:
  assumes "hash_inv s" and "lookers_inv (gh_nodes (hs_h s)) look"
    and "hs_h s' = hs_h s" "hs_att s' = hs_att s" "hs_scrub s' = hs_scrub s" "hs_look s' = look"
  shows "hash_inv s'"
  using assms by (simp add: hash_inv_def)

subsection \<open>The lookup loop\<close>

lemma filter_replicate_None [simp]: "filter (\<lambda>f. f \<noteq> None) (replicate k None) = []"
  by (induction k) auto

lemma fork_count_append_None [simp]: "fork_count (fs @ replicate k None) = fork_count fs"
  by (simp add: fork_count_def filter_empty_conv)

lemma lookers_inv_buffer:
  assumes inv: "lookers_inv nodes look" and t: "look t = Some (l, c)"
    and l': "lk_newNode l' = lk_newNode l" "new_hnode l' = new_hnode l"
  shows "lookers_inv nodes (look(t \<mapsto> (l', c')))"
proof (rule lookers_inv_set [OF inv])
  show "nodes p = None \<and> n = new_hnode l'" if "lk_newNode l' = Some (p, n)" for p n
    using lookers_inv_new [OF inv t] that l' by simp
  show "lk_newNode m \<noteq> Some (p, n')"
    if "lk_newNode l' = Some (p, n)" "u \<noteq> t" "look u = Some (m, d)" for p n u m d n'
    using lookers_inv_one [OF inv t that(3), of p n n'] that l' by auto
qed

lemma lookup_status_ok:
  assumes inv: "hash_inv s" and t: "hs_look s t = Some (l, None)"
    and n: "gh_nodes (hs_h s) p = Some n" and tab: "in_table (gHashTable (hs_h s)) p"
  shows "\<exists>r. HNodeLookup_status p l (hs_h s) = Some r \<and> hash_inv (after_iterate t s r)"
proof -
  note I = hash_invD [OF inv]
  note ok = owners_inv_node [OF I(2) n]
  let ?k = "lk_forkIndex l" let ?fs = "hn_forkVNodes n"
  have triv: "(hs_look s)(t \<mapsto> (l, None)) = hs_look s" using t by (rule map_upd_triv)
  consider (sleep) "hn_attachOutstanding n" | (buffer) "\<not> hn_attachOutstanding n" "length ?fs \<le> ?k" "\<not> lk_newForkBuffer l"
    | (grow) "\<not> hn_attachOutstanding n" "length ?fs \<le> ?k" "lk_newForkBuffer l"
    | (attach) "\<not> hn_attachOutstanding n" "?k < length ?fs" "?fs ! ?k = None"
    | (found) vn where "\<not> hn_attachOutstanding n" "?k < length ?fs" "?fs ! ?k = Some vn"
    by (cases "hn_attachOutstanding n"; cases "?k < length ?fs"; cases "?fs ! ?k"; cases "lk_newForkBuffer l") auto
  then show ?thesis
  proof cases
    case sleep
    have "hash_inv (s\<lparr>hs_h := upd_node p (n\<lparr>hn_waiting := True\<rparr>) (hs_h s)\<rparr>)"
      by (rule hash_inv_upd [OF inv n, where fsn = "gh_fsnode (hs_h s)" and att = "hs_att s" and look = "hs_look s"])
        (use sleep ok I in \<open>auto simp: node_ok_def intro!: vnodes_inv_same [OF I(3) n]\<close>)
    with sleep n show ?thesis by (simp add: HNodeLookup_status_def after_iterate_def triv)
  next
    case buffer
    have "hash_inv (s\<lparr>hs_h := hs_h s, hs_look := (hs_look s)(t \<mapsto> (l\<lparr>lk_newForkBuffer := True\<rparr>, None))\<rparr>)"
      by (rule hash_inv_look [OF inv lookers_inv_buffer [OF I(4) t, where c' = None]])
        (simp_all add: new_hnode_def)
    with buffer n show ?thesis by (simp add: HNodeLookup_status_def after_iterate_def)
  next
    case grow
    let ?n = "n\<lparr>hn_forkVNodes := ?fs @ replicate (?k + 1 - length ?fs) None\<rparr>"
    let ?look = "(hs_look s)(t \<mapsto> (l\<lparr>lk_newForkBuffer := False\<rparr>, None))"
    have "vnodes_inv ((gh_nodes (hs_h s))(p \<mapsto> ?n)) (gh_fsnode (hs_h s))"
      by (rule vnodes_inv_same [OF I(3) n]) (simp add: filter_empty_conv)
    moreover have "lookers_inv (gh_nodes (hs_h s)) ?look"
      by (rule lookers_inv_buffer [OF I(4) t]) (simp_all add: new_hnode_def)
    ultimately have "hash_inv (s\<lparr>hs_h := upd_node p ?n (hs_h s), hs_look := ?look\<rparr>)"
      by (intro hash_inv_upd [OF inv n, where fsn = "gh_fsnode (hs_h s)" and att = "hs_att s" and look = ?look])
        (use grow ok in \<open>auto simp: node_ok_def\<close>)
    with grow n show ?thesis by (simp add: HNodeLookup_status_def after_iterate_def)
  next
    case attach
    let ?n = "n\<lparr>hn_attachOutstanding := True, hn_forkVNodesCount := hn_forkVNodesCount n + 1\<rparr>"
    let ?att = "(hs_att s)(p \<mapsto> ?k)" let ?look = "(hs_look s)(t := None)"
    have "hash_inv (s\<lparr>hs_h := upd_node p ?n (hs_h s), hs_look := ?look, hs_att := ?att\<rparr>)"
      by (rule hash_inv_upd [OF inv n, where fsn = "gh_fsnode (hs_h s)" and att = ?att and look = ?look])
        (use attach ok tab I in \<open>auto simp: node_ok_def intro!: vnodes_inv_same [OF I(3) n] lookers_inv_drop\<close>)
    with attach n show ?thesis by (simp add: HNodeLookup_status_def after_iterate_def)
  next
    case found
    have "hash_inv (s\<lparr>hs_h := hs_h s, hs_look := (hs_look s)(t \<mapsto> (l, Some (p, vn)))\<rparr>)"
      by (rule hash_inv_look [OF inv lookers_inv_buffer [OF I(4) t, where c' = "Some (p, vn)" and l' = l]]) simp_all
    with found n show ?thesis by (simp add: HNodeLookup_status_def after_iterate_def)
  qed
qed

lemma lookup_insert_ok:
  assumes inv: "hash_inv s" and t: "hs_look s t = Some (l, None)"
    and p: "lk_newNode l = Some (p, n)"
    and absent: "\<And>q m. in_table (gHashTable (hs_h s)) q \<Longrightarrow> gh_nodes (hs_h s) q = Some m \<Longrightarrow>
                   hn_dev m = lk_dev l \<Longrightarrow> hn_ino m \<noteq> lk_ino l"
  shows "\<exists>r. HNodeLookup_status p (l\<lparr>lk_newNode := None\<rparr>) (HNodeInsert p n l (hs_h s)) = Some r \<and>
           hash_inv (after_iterate t s r)"
proof -
  note I = hash_invD [OF inv]
  let ?h = "hs_h s" let ?k = "lk_forkIndex l"
  have none: "gh_nodes ?h p = None" and n: "n = new_hnode l"
    using lookers_inv_new [OF I(4) t p] by simp_all
  let ?n = "n\<lparr>hn_attachOutstanding := True, hn_forkVNodesCount := 1\<rparr>"
  let ?b = "(lk_dev l + lk_ino l) AND gHashTableMask ?h"
  let ?tbl = "(gHashTable ?h)(?b := p # gHashTable ?h ?b)"
  let ?att = "(hs_att s)(p \<mapsto> ?k)" let ?look = "(hs_look s)(t := None)"
  have forks: "hn_forkVNodes n = replicate (?k + 1) None" "hn_attachOutstanding n = False"
      "hn_forkVNodesCount n = 0" "hn_waiting n = False" "hn_dev n = lk_dev l" "hn_ino n = lk_ino l"
    by (simp_all add: n new_hnode_def)
  have nth: "replicate (?k + 1) None ! ?k = (None :: vnode option)" by (rule nth_replicate) simp
  have out: "\<not> in_table (gHashTable ?h) p" using table_inv_dom [OF I(1), of p] none by auto
  have scr: "p \<notin> set (hs_scrub s)" using I(2) none unfolding owners_inv_def by auto
  note tab = in_table_cons [of "gHashTable ?h" ?b p]
  have T: "table_inv ((gh_nodes ?h)(p \<mapsto> ?n)) ?tbl (gHashTableMask ?h) (gHashNodeCount ?h + 1)"
    by (rule table_inv_insert [OF I(1) none]) (use absent forks in \<open>auto simp: bucket_of_def\<close>)
  have "node_ok True (Some ?k) False ?n"
    using forks nth by (auto simp: node_ok_def fork_count_def filter_empty_conv)
  then have O: "owners_inv ((gh_nodes ?h)(p \<mapsto> ?n)) ?tbl ?att (hs_scrub s)"
    using scr tab I(2) by (intro owners_inv_change [OF I(2)]) (auto simp: owners_inv_def)
  have V: "vnodes_inv ((gh_nodes ?h)(p \<mapsto> ?n)) (gh_fsnode ?h)"
    by (rule vnodes_inv_new [OF I(3) none]) (simp add: forks filter_empty_conv)
  have L: "lookers_inv ((gh_nodes ?h)(p \<mapsto> ?n)) ?look"
    by (rule lookers_inv_insert [OF I(4) t p])
  let ?h1 = "HNodeInsert p n l ?h"
  have "HNodeLookup_status p (l\<lparr>lk_newNode := None\<rparr>) ?h1 =
      Some (Lk_attach p, l\<lparr>lk_newNode := None\<rparr>, upd_node p ?n ?h1)"
    using forks nth by (simp add: HNodeLookup_status_def HNodeInsert_def Let_def del: replicate.simps)
  moreover have "hash_inv (s\<lparr>hs_h := upd_node p ?n ?h1, hs_look := ?look, hs_att := ?att\<rparr>)"
    using T O V L by (simp add: hash_inv_def HNodeInsert_def HNodeGetFirstFromHashTable_def Let_def)
  ultimately show ?thesis by (simp add: after_iterate_def)
qed

lemma lookup_iterate_ok:
  assumes inv: "hash_inv s" and t: "hs_look s t = Some (l, None)"
    and fresh: "gh_nodes (hs_h s) q = None" "\<not> held s q"
  shows "\<exists>r. HNodeLookup_iterate q l (hs_h s) = Some r \<and> hash_inv (after_iterate t s r)"
proof -
  note I = hash_invD [OF inv]
  from I(1) show ?thesis
  proof (cases rule: find_node_table [of _ _ _ _ "lk_dev l" "lk_ino l"])
    case 1
    show ?thesis
    proof (cases "lk_newNode l")
      case None
      let ?l = "l\<lparr>lk_newNode := Some (q, new_hnode l)\<rparr>"
      have "lookers_inv (gh_nodes (hs_h s)) ((hs_look s)(t \<mapsto> (?l, None)))"
        by (rule lookers_inv_set [OF I(4)]) (use fresh in \<open>auto simp: new_hnode_def held_def\<close>)
      then have "hash_inv (s\<lparr>hs_h := hs_h s, hs_look := (hs_look s)(t \<mapsto> (?l, None))\<rparr>)"
        by (rule hash_inv_look [OF inv]) simp_all
      with 1(1) None show ?thesis
        by (simp add: HNodeLookup_iterate_def HNodeGetFirstFromHashTable_def after_iterate_def)
    next
      case (Some pn)
      obtain p n where p: "lk_newNode l = Some (p, n)" using Some by (cases pn) auto
      from lookup_insert_ok [OF inv t p] 1 p show ?thesis
        by (auto simp: HNodeLookup_iterate_def HNodeGetFirstFromHashTable_def)
    qed
  next
    case (2 p n)
    from lookup_status_ok [OF inv t 2(3,2)] 2(1) show ?thesis
      by (auto simp: HNodeLookup_iterate_def HNodeGetFirstFromHashTable_def)
  qed
qed


subsection \<open>Attaching and detaching\<close>

lemma HNodeAttachComplete_Some:
  assumes "gh_nodes h p = Some n" and "hn_attachOutstanding n"
  shows "HNodeAttachComplete p h =
    Some ((upd_node p (n\<lparr>hn_attachOutstanding := False, hn_waiting := False\<rparr>) h)
            \<lparr>gh_wakeups := gh_wakeups h @ (if hn_waiting n then [p] else [])\<rparr>)"
proof (cases "hn_waiting n")
  case True
  with assms show ?thesis by (simp add: HNodeAttachComplete_def upd_node_def)
next
  case False
  then have eq: "n\<lparr>hn_attachOutstanding := False, hn_waiting := False\<rparr> = n\<lparr>hn_attachOutstanding := False\<rparr>"
    by (cases n) simp
  show ?thesis unfolding eq using False assms by (simp add: HNodeAttachComplete_def upd_node_def)
qed

text \<open>Giving up one reference: the node leaves the table with its last one.\<close>

lemma release_ok:
  assumes inv: "hash_inv s" and n: "gh_nodes (hs_h s) p = Some n" and tab: "in_table (gHashTable (hs_h s)) p"
    and h1: "gh_nodes h1 = (gh_nodes (hs_h s))(p \<mapsto> n1)" "gHashTable h1 = gHashTable (hs_h s)"
      "gHashTableMask h1 = gHashTableMask (hs_h s)" "gHashNodeCount h1 = gHashNodeCount (hs_h s)"
    and same: "hn_dev n1 = hn_dev n" "hn_ino n1 = hn_ino n"
    and pos: "0 < hn_forkVNodesCount n1" and n2: "n2 = n1\<lparr>hn_forkVNodesCount := hn_forkVNodesCount n1 - 1\<rparr>"
    and ok: "node_ok (0 < hn_forkVNodesCount n2) (att p) (hn_forkVNodesCount n2 = 0) n2"
    and vn: "vnodes_inv ((gh_nodes (hs_h s))(p \<mapsto> n2)) (gh_fsnode h1)"
    and att: "\<And>q. q \<noteq> p \<Longrightarrow> att q = hs_att s q"
  shows "\<exists>r. HNodeForkVNodeDecrement p h1 = Some r \<and> hash_inv ((after_release p s r)\<lparr>hs_att := att\<rparr>)"
proof -
  note I = hash_invD [OF inv]
  have scr: "p \<notin> set (hs_scrub s)" using owners_inv_node [OF I(2) n] tab by (simp add: node_ok_def)
  have same2: "hn_dev n2 = hn_dev n" "hn_ino n2 = hn_ino n" using same n2 by simp_all
  show ?thesis
  proof (cases "hn_forkVNodesCount n2 = 0")
    case False
    have "hash_inv (s\<lparr>hs_h := upd_node p n2 h1, hs_att := att\<rparr>)"
      by (rule hash_inv_upd [OF inv n same2 vn, where att = att and look = "hs_look s"])
        (use ok False tab scr att I(4) h1 in simp_all)
    moreover have "HNodeForkVNodeDecrement p h1 = Some (False, upd_node p n2 h1)"
      using h1(1) pos n2 False by (auto simp: HNodeForkVNodeDecrement_def Let_def)
    ultimately show ?thesis by (simp add: after_release_def)
  next
    case True
    let ?b = "bucket_of (gHashTableMask (hs_h s)) n2"
    let ?tbl = "(gHashTable (hs_h s))(?b := remove1 p (gHashTable (hs_h s) ?b))"
    have b: "HNodeGetFirstFromHashTable h1 (hn_dev n1) (hn_ino n1) = ?b"
      using same same2 h1 by (simp add: HNodeGetFirstFromHashTable_def bucket_of_def)
    have T1: "table_inv ((gh_nodes (hs_h s))(p \<mapsto> n2)) (gHashTable (hs_h s)) (gHashTableMask (hs_h s))
        (gHashNodeCount (hs_h s))"
      by (rule table_inv_upd [OF I(1) n same2])
    have n2': "((gh_nodes (hs_h s))(p \<mapsto> n2)) p = Some n2" by simp
    note R = table_inv_remove [OF T1 n2' tab refl]
    have O: "owners_inv ((gh_nodes (hs_h s))(p \<mapsto> n2)) ?tbl att (p # hs_scrub s)"
      by (rule owners_inv_change [OF I(2)])
        (use ok True R(4) att scr I(2) in \<open>simp_all add: owners_inv_def\<close>)
    have L: "lookers_inv ((gh_nodes (hs_h s))(p \<mapsto> n2)) (hs_look s)"
      by (rule lookers_inv_dom [OF I(4)]) (use n in auto)
    let ?h2 = "(upd_node p n2 h1)\<lparr>gHashTable := ?tbl, gHashNodeCount := gHashNodeCount (hs_h s) - 1\<rparr>"
    have "hash_inv (s\<lparr>hs_h := ?h2, hs_scrub := p # hs_scrub s, hs_att := att\<rparr>)"
      using h1 by (simp add: hash_inv_def R(1) O vn L del: One_nat_def fun_upd_apply)
    moreover have "HNodeForkVNodeDecrement p h1 = Some (True, ?h2)"
      using h1 pos n2 True R(2,3) b by (simp add: HNodeForkVNodeDecrement_def Let_def)
    ultimately show ?thesis by (simp add: after_release_def)
  qed
qed

lemma attaching_node:
  assumes inv: "hash_inv s" and att: "hs_att s p = Some k"
  obtains n where "gh_nodes (hs_h s) p = Some n" "hn_attachOutstanding n" "k < length (hn_forkVNodes n)"
    "hn_forkVNodes n ! k = None" "in_table (gHashTable (hs_h s)) p"
    "hn_forkVNodesCount n = fork_count (hn_forkVNodes n) + 1" "p \<notin> set (hs_scrub s)"
proof -
  note I = hash_invD [OF inv]
  obtain n where n: "gh_nodes (hs_h s) p = Some n" using owners_inv_att [OF I(2) att] by blast
  from owners_inv_node [OF I(2) n] att that n show ?thesis by (auto simp: node_ok_def)
qed

lemma attached_ok:
  assumes inv: "hash_inv s" and att: "hs_att s p = Some k" and new: "gh_fsnode (hs_h s) vn = None"
  shows "\<exists>h. HNodeAttachVNodeSucceeded p k vn
            ((hs_h s)\<lparr>gh_fsnode := (gh_fsnode (hs_h s))(vn \<mapsto> p)\<rparr>) = Some h \<and>
         hash_inv (s\<lparr>hs_h := h, hs_att := (hs_att s)(p := None)\<rparr>)"
proof -
  note I = hash_invD [OF inv]
  obtain n where n: "gh_nodes (hs_h s) p = Some n" "hn_attachOutstanding n" "k < length (hn_forkVNodes n)"
    "hn_forkVNodes n ! k = None" "in_table (gHashTable (hs_h s)) p"
    "hn_forkVNodesCount n = fork_count (hn_forkVNodes n) + 1" "p \<notin> set (hs_scrub s)"
    using attaching_node [OF inv att] .
  let ?n = "n\<lparr>hn_attachOutstanding := False, hn_waiting := False,
      hn_forkVNodes := (hn_forkVNodes n)[k := Some vn]\<rparr>"
  let ?hv = "(hs_h s)\<lparr>gh_fsnode := (gh_fsnode (hs_h s))(vn \<mapsto> p)\<rparr>"
  let ?h = "upd_node p ?n (?hv\<lparr>gh_wakeups := gh_wakeups (hs_h s) @ (if hn_waiting n then [p] else [])\<rparr>)"
  have n0: "gh_nodes ?hv p = Some n" using n(1) by simp
  have run: "HNodeAttachVNodeSucceeded p k vn ?hv = Some ?h"
    using n HNodeAttachComplete_Some [OF n0 n(2)]
    by (simp add: HNodeAttachVNodeSucceeded_def upd_node_def)
  have forks: "hn_forkVNodes ?n = (hn_forkVNodes n)[k := Some vn]" by simp
  note V = vnodes_inv_attach [OF I(3) n(1) new n(3,4) forks]
  have cnt: "fork_count ((hn_forkVNodes n)[k := Some vn]) = fork_count (hn_forkVNodes n) + 1"
    using V(2) by simp
  have "hash_inv (s\<lparr>hs_h := ?h, hs_att := (hs_att s)(p := None)\<rparr>)"
    by (rule hash_inv_upd [OF inv n(1) _ _ V(1), where att = "(hs_att s)(p := None)" and look = "hs_look s"])
      (use n cnt I(4) in \<open>simp_all add: node_ok_def\<close>)
  with run show ?thesis by blast
qed

lemma attach_failed_ok:
  assumes inv: "hash_inv s" and att: "hs_att s p = Some k"
  shows "\<exists>r. HNodeAttachVNodeFailed p k (hs_h s) = Some r \<and>
           hash_inv ((after_release p s r)\<lparr>hs_att := (hs_att s)(p := None)\<rparr>)"
proof -
  note I = hash_invD [OF inv]
  obtain n where n: "gh_nodes (hs_h s) p = Some n" "hn_attachOutstanding n" "k < length (hn_forkVNodes n)"
    "hn_forkVNodes n ! k = None" "in_table (gHashTable (hs_h s)) p"
    "hn_forkVNodesCount n = fork_count (hn_forkVNodes n) + 1" "p \<notin> set (hs_scrub s)"
    using attaching_node [OF inv att] .
  let ?n1 = "n\<lparr>hn_attachOutstanding := False, hn_waiting := False\<rparr>"
  let ?n2 = "?n1\<lparr>hn_forkVNodesCount := hn_forkVNodesCount ?n1 - 1\<rparr>"
  let ?h1 = "(upd_node p ?n1 (hs_h s))\<lparr>gh_wakeups := gh_wakeups (hs_h s) @ (if hn_waiting n then [p] else [])\<rparr>"
  have V: "vnodes_inv ((gh_nodes (hs_h s))(p \<mapsto> ?n2)) (gh_fsnode ?h1)"
    using vnodes_inv_same [OF I(3) n(1), of ?n2] by simp
  have "\<exists>r. HNodeForkVNodeDecrement p ?h1 = Some r \<and>
      hash_inv ((after_release p s r)\<lparr>hs_att := (hs_att s)(p := None)\<rparr>)"
    by (rule release_ok [OF inv n(1,5), where att = "(hs_att s)(p := None)" and ?n1.0 = ?n1 and ?n2.0 = ?n2]) (use n V in \<open>auto simp: node_ok_def\<close>)
  with n HNodeAttachComplete_Some [OF n(1,2)] show ?thesis
    by (simp add: HNodeAttachVNodeFailed_def)
qed

lemma reclaim_ok:
  assumes inv: "hash_inv s" and vn: "gh_fsnode (hs_h s) vn = Some p"
  shows "\<exists>r. HNodeDetachVNode p vn (hs_h s) = Some r \<and> hash_inv (after_release p s r)"
proof -
  note I = hash_invD [OF inv]
  obtain n where n: "gh_nodes (hs_h s) p = Some n" and mem: "Some vn \<in> set (hn_forkVNodes n)"
    using vnodes_inv_iff [OF I(3)] vn by blast
  note ok = owners_inv_node [OF I(2) n]
  let ?k = "fork_index vn (hn_forkVNodes n)"
  have k: "?k < length (hn_forkVNodes n)" using fork_index_found [OF mem] by simp
  let ?n1 = "n\<lparr>hn_forkVNodes := (hn_forkVNodes n)[?k := None]\<rparr>"
  let ?n2 = "?n1\<lparr>hn_forkVNodesCount := hn_forkVNodesCount ?n1 - 1\<rparr>"
  let ?h1 = "(upd_node p ?n1 (hs_h s))\<lparr>gh_fsnode := (gh_fsnode (hs_h s))(vn := None)\<rparr>"
  have forks: "hn_forkVNodes ?n2 = (hn_forkVNodes n)[?k := None]" by simp
  note V = vnodes_inv_detach [OF I(3) n vn forks]
  have cnt: "fork_count (hn_forkVNodes n) = fork_count ((hn_forkVNodes n)[?k := None]) + 1"
    using V(2) by simp
  then have pos: "0 < hn_forkVNodesCount n" using ok by (simp add: node_ok_def)
  then have tab: "in_table (gHashTable (hs_h s)) p" using ok by (simp add: node_ok_def)
  have att: "hn_forkVNodes n ! j = None \<Longrightarrow> (hn_forkVNodes n)[?k := None] ! j = None" for j
    by (cases "j = ?k") (simp_all add: k)
  have "\<exists>r. HNodeForkVNodeDecrement p ?h1 = Some r \<and>
      hash_inv ((after_release p s r)\<lparr>hs_att := hs_att s\<rparr>)"
    by (rule release_ok [OF inv n tab, where att = "hs_att s" and ?n1.0 = ?n1 and ?n2.0 = ?n2]) (use ok pos V(1) cnt att in \<open>auto simp: node_ok_def\<close>)
  moreover have "(after_release p s r)\<lparr>hs_att := hs_att s\<rparr> = after_release p s r" for r
    by (cases r) (simp add: after_release_def)
  ultimately show ?thesis using n k by (simp add: HNodeDetachVNode_def)
qed

lemma scrub_ok:
  assumes inv: "hash_inv s" and p: "p \<in> set (hs_scrub s)"
  shows "\<exists>h. HNodeScrubDone p (hs_h s) = Some h \<and>
           hash_inv (s\<lparr>hs_h := h, hs_scrub := remove1 p (hs_scrub s)\<rparr>)"
proof -
  note I = hash_invD [OF inv]
  obtain n where n: "gh_nodes (hs_h s) p = Some n" using I(2) p unfolding owners_inv_def by auto
  note ok = owners_inv_node [OF I(2) n]
  then have out: "\<not> in_table (gHashTable (hs_h s)) p" and fc: "fork_count (hn_forkVNodes n) = 0"
    and w: "\<not> hn_waiting n"
    using p by (auto simp: node_ok_def split: if_splits)
  have L: "lookers_inv ((gh_nodes (hs_h s))(p := None)) (hs_look s)"
    by (rule lookers_inv_dom [OF I(4)]) auto
  have "hash_inv (s\<lparr>hs_h := (hs_h s)\<lparr>gh_nodes := (gh_nodes (hs_h s))(p := None)\<rparr>,
      hs_scrub := remove1 p (hs_scrub s)\<rparr>)"
    using table_inv_free [OF I(1) out] owners_inv_free [OF I(2) p] vnodes_inv_free [OF I(3) n fc] L
    by (simp add: hash_inv_def)
  with n w show ?thesis by (simp add: HNodeScrubDone_def)
qed

subsection \<open>Runs\<close>

lemma hash_step_ok:
  assumes inv: "hash_inv s" and ok: "hash_ok s e"
  shows "\<exists>t. hash_step s e = Some t \<and> hash_inv t"
proof (cases e)
  case (Hv_lookup t dev ino k)
  note I = hash_invD [OF inv]
  have "lookers_inv (gh_nodes (hs_h s)) ((hs_look s)(t \<mapsto> (lookup_start dev ino k, None)))"
    by (rule lookers_inv_set [OF I(4)]) (simp_all add: lookup_start_def)
  with Hv_lookup show ?thesis using hash_inv_look [OF inv] by simp
next
  case (Hv_iterate t q)
  show ?thesis
  proof (cases "hs_look s t")
    case None
    with Hv_iterate inv show ?thesis by simp
  next
    case (Some lc)
    obtain l c where lc: "hs_look s t = Some (l, c)" using Some by (cases lc) auto
    show ?thesis
    proof (cases c)
      case None
      with lc Hv_iterate ok lookup_iterate_ok [OF inv, of t l q] show ?thesis by auto
    next
      case (Some pv)
      with lc Hv_iterate inv show ?thesis by simp
    qed
  qed
next
  case (Hv_getwithvid t got)
  note I = hash_invD [OF inv]
  show ?thesis
  proof (cases "\<exists>l p vn. hs_look s t = Some (l, Some (p, vn))")
    case True
    then obtain l p vn where l: "hs_look s t = Some (l, Some (p, vn))" by blast
    have "lookers_inv (gh_nodes (hs_h s)) (if got then (hs_look s)(t := None) else (hs_look s)(t \<mapsto> (l, None)))"
      using lookers_inv_drop [OF I(4)] lookers_inv_buffer [OF I(4) l, of l None] by simp
    with l Hv_getwithvid show ?thesis using hash_inv_look [OF inv] by simp
  next
    case False
    with Hv_getwithvid inv show ?thesis by (auto split: option.splits)
  qed
next
  case (Hv_attached p vn)
  show ?thesis
  proof (cases "hs_att s p")
    case None
    with Hv_attached inv show ?thesis by simp
  next
    case (Some k)
    have new: "gh_fsnode (hs_h s) vn = None" using ok Hv_attached by simp
    from attached_ok [OF inv Some new] Some Hv_attached show ?thesis by auto
  qed
next
  case (Hv_attach_failed p)
  show ?thesis
  proof (cases "hs_att s p")
    case None
    with Hv_attach_failed inv show ?thesis by simp
  next
    case (Some k)
    from attach_failed_ok [OF inv Some] Some Hv_attach_failed show ?thesis by auto
  qed
next
  case (Hv_reclaim vn)
  show ?thesis
  proof (cases "gh_fsnode (hs_h s) vn")
    case None
    with Hv_reclaim inv show ?thesis by (simp add: HNodeFromVNode_def)
  next
    case (Some p)
    from reclaim_ok [OF inv Some] Some Hv_reclaim show ?thesis by (auto simp: HNodeFromVNode_def)
  qed
next
  case (Hv_scrub p)
  then show ?thesis using scrub_ok [OF inv] inv by force
qed

interpretation nodehash: crash_free_system hash_step hash_ok hash_inv
proof
  show "hash_inv t" if "hash_inv s" "hash_ok s e" "hash_step s e = Some t" for s e t
    using hash_step_ok [OF that(1,2)] that(3) by auto
  show "\<exists>t. hash_step s e = Some t" if "hash_inv s" "hash_ok s e" for s e
    using hash_step_ok [OF that] by blast
qed


section \<open>What the table promises\<close>

text \<open>A first lookup: nobody else is in the table.\<close>

definition example_hash_run :: "hash_event list" where
  "example_hash_run = [Hv_lookup 1 0 7 0, Hv_iterate 1 100, Hv_iterate 1 101, Hv_attached 100 5]"

lemmas hash_eval =
  hash_init_def HNodeInit_def HNodeLookup_iterate_def HNodeGetFirstFromHashTable_def
  HNodeLookup_status_def HNodeInsert_def lookup_start_def new_hnode_def after_iterate_def upd_node_def
  held_def HNodeAttachVNodeSucceeded_def HNodeAttachComplete_def

lemma example_hash_run_ok: "events_ok hash_ok hash_step (hash_init 3) example_hash_run"
  by (simp add: example_hash_run_def hash_eval)

text \<open>
  C2: However lookups, attaches, failures and reclaims of different threads interleave, the node hash
  follows no dangling pointer and trips no assertion; it never has two nodes for one object; and a
  node is in it exactly as long as some vnode or an outstanding attach refers to it.
\<close>

theorem nodehash_runs_safe:
  assumes "events_ok hash_ok hash_step (hash_init msk) es"
  shows "\<exists>s. run_events hash_step (hash_init msk) es = Some s \<and>
     (\<forall>p q n m. in_table (gHashTable (hs_h s)) p \<and> in_table (gHashTable (hs_h s)) q \<and>
        gh_nodes (hs_h s) p = Some n \<and> gh_nodes (hs_h s) q = Some m \<and>
        hn_dev n = hn_dev m \<and> hn_ino n = hn_ino m \<longrightarrow> p = q) \<and>
     (\<forall>p n. gh_nodes (hs_h s) p = Some n \<longrightarrow>
        hn_forkVNodesCount n = fork_count (hn_forkVNodes n) + (if hn_attachOutstanding n then 1 else 0) \<and>
        (in_table (gHashTable (hs_h s)) p \<longleftrightarrow> 0 < hn_forkVNodesCount n))"
proof -
  obtain s where s: "run_events hash_step (hash_init msk) es = Some s" "hash_inv s"
    using nodehash.run_defined [OF hash_inv_init assms] by blast
  note I = hash_invD [OF s(2)]
  have "hn_forkVNodesCount n = fork_count (hn_forkVNodes n) + (if hn_attachOutstanding n then 1 else 0) \<and>
      (in_table (gHashTable (hs_h s)) p \<longleftrightarrow> 0 < hn_forkVNodesCount n)"
    if "gh_nodes (hs_h s) p = Some n" for p n
    using owners_inv_node [OF I(2) that] unfolding node_ok_def by blast
  with s(1) table_inv_unique [OF I(1)] show ?thesis by blast
qed

theorem nodehash_runs_safe_witness:
  "\<exists>s. run_events hash_step (hash_init 3) example_hash_run = Some s \<and>
     (\<forall>p n. gh_nodes (hs_h s) p = Some n \<longrightarrow> (in_table (gHashTable (hs_h s)) p \<longleftrightarrow> 0 < hn_forkVNodesCount n))"
  using nodehash_runs_safe [OF example_hash_run_ok] by blast





lemma decrement_result:
  assumes "HNodeForkVNodeDecrement p h = Some (scr, h')" and "gh_nodes h p = Some n"
  shows "scr \<longleftrightarrow> hn_forkVNodesCount n = 1" and "gh_fsnode h' = gh_fsnode h"
    and "gHashTableMask h' = gHashTableMask h"
    and "gh_nodes h' = (gh_nodes h)(p \<mapsto> n\<lparr>hn_forkVNodesCount := hn_forkVNodesCount n - 1\<rparr>)"
    and "scr \<Longrightarrow> gHashTable h' = (gHashTable h)(HNodeGetFirstFromHashTable h (hn_dev n) (hn_ino n) :=
           remove1 p (gHashTable h (HNodeGetFirstFromHashTable h (hn_dev n) (hn_ino n))))"
  using assms by (auto simp: HNodeForkVNodeDecrement_def Let_def split: if_splits)

text \<open>
  Reclaiming a vnode tells its caller to free the node exactly when the vnode was the node's last
  reference, and from then on a lookup does not find the object.
\<close>

theorem last_reclaim_removes:
  assumes inv: "hash_inv s" and vn: "gh_fsnode (hs_h s) vn = Some p" and n: "gh_nodes (hs_h s) p = Some n"
  shows "\<exists>scr h. HNodeDetachVNode p vn (hs_h s) = Some (scr, h) \<and> (scr \<longleftrightarrow> hn_forkVNodesCount n = 1) \<and>
           gh_fsnode h vn = None \<and>
           (scr \<longrightarrow> HNodeLookupRealQuickIfExists (hn_dev n) (hn_ino n) k getvid h = Some (ENOENT, None))"
proof -
  note I = hash_invD [OF inv]
  obtain scr h where d: "HNodeDetachVNode p vn (hs_h s) = Some (scr, h)" "hash_inv (after_release p s (scr, h))"
    using reclaim_ok [OF inv vn] by auto
  let ?fs = "(hn_forkVNodes n)[fork_index vn (hn_forkVNodes n) := None]"
  let ?n1 = "n\<lparr>hn_forkVNodes := ?fs\<rparr>"
  let ?h1 = "(upd_node p ?n1 (hs_h s))\<lparr>gh_fsnode := (gh_fsnode (hs_h s))(vn := None)\<rparr>"
  have dec: "HNodeForkVNodeDecrement p ?h1 = Some (scr, h)"
    using d(1) n by (auto simp: HNodeDetachVNode_def Let_def split: if_splits)
  have n1: "gh_nodes ?h1 p = Some ?n1" by simp
  note R = decrement_result [OF dec n1]
  have T: "table_inv (gh_nodes h) (gHashTable h) (gHashTableMask h) (gHashNodeCount h)"
    using hash_invD(1) [OF d(2)] by (simp add: after_release_def)
  have "HNodeLookupRealQuickIfExists (hn_dev n) (hn_ino n) k getvid h = Some (ENOENT, None)" if scr
  proof -
    have tab: "in_table (gHashTable (hs_h s)) p"
      using owners_inv_node [OF I(2) n] R(1) that by (simp add: node_ok_def)
    have b: "HNodeGetFirstFromHashTable ?h1 (hn_dev ?n1) (hn_ino ?n1) = bucket_of (gHashTableMask (hs_h s)) n"
      by (simp add: HNodeGetFirstFromHashTable_def bucket_of_def)
    have only: "in_table (gHashTable h) q \<longleftrightarrow> in_table (gHashTable (hs_h s)) q \<and> q \<noteq> p" for q
      using table_inv_remove(4) [OF I(1) n tab refl, of q] R(5) [OF that] b by simp
    from T show ?thesis
    proof (cases rule: find_node_table [of _ _ _ _ "hn_dev n" "hn_ino n"])
      case 1
      then show ?thesis
        by (simp add: HNodeLookupRealQuickIfExists_def HNodeGetFirstFromHashTable_def)
    next
      case (2 q m)
      then have q: "in_table (gHashTable (hs_h s)) q" "q \<noteq> p" using only by simp_all
      then have "gh_nodes (hs_h s) q = Some m" using 2(3) R(4) by simp
      with table_inv_unique [OF I(1) q(1) tab this n] 2(4,5) q(2) show ?thesis by simp
    qed
  qed
  with d(1) R(1,2) show ?thesis by simp
qed

theorem last_reclaim_removes_witness:
  "\<exists>s scr h n. run_events hash_step (hash_init 3) example_hash_run = Some s \<and>
     gh_nodes (hs_h s) 100 = Some n \<and> hn_forkVNodesCount n = 1 \<and>
     HNodeDetachVNode 100 5 (hs_h s) = Some (scr, h) \<and> scr \<and>
     HNodeLookupRealQuickIfExists (hn_dev n) (hn_ino n) 0 (\<lambda>v. 0) h = Some (ENOENT, None)"
proof -
  obtain s where s: "run_events hash_step (hash_init 3) example_hash_run = Some s" "hash_inv s"
    using nodehash.run_defined [OF hash_inv_init example_hash_run_ok] by blast
  have vn: "gh_fsnode (hs_h s) 5 = Some 100"
    using s(1) by (auto simp: example_hash_run_def hash_eval)
  have "\<exists>n. gh_nodes (hs_h s) 100 = Some n \<and> hn_forkVNodesCount n = 1"
    using s(1) by (auto simp: example_hash_run_def hash_eval)
  then obtain n where n: "gh_nodes (hs_h s) 100 = Some n" "hn_forkVNodesCount n = 1" by blast
  from last_reclaim_removes [OF s(2) vn n(1), of 0 "\<lambda>v. 0"] s(1) n show ?thesis by auto
qed

text \<open>
  The state printed for debugging leaves out the last bucket: a node whose key hashes to the
  mask itself is in the table but not in the snapshot, although the code asserts that the snapshot
  has as many nodes as the table.
\<close>

theorem print_state_misses_last_bucket:
  assumes inv: "hash_inv s" and p: "p \<in> set (gHashTable (hs_h s) (gHashTableMask (hs_h s)))"
    and small: "unat (gHashTableMask (hs_h s)) < 2 ^ 32"
  shows "in_table (gHashTable (hs_h s)) p \<and> p \<notin> set (HNodePrintState_snapshot (hs_h s))"
proof
  note I = hash_invD [OF inv]
  let ?h = "hs_h s" let ?m = "gHashTableMask (hs_h s)"
  show "in_table (gHashTable ?h) p" using p by (rule in_tableI)
  obtain n where n: "gh_nodes ?h p = Some n" "bucket_of ?m n = ?m"
    using I(1) p unfolding table_inv_def by blast
  have walk: "q \<in> set (walk_buckets ?h i j) \<Longrightarrow> \<exists>k. i \<le> k \<and> k < i + j \<and> q \<in> set (gHashTable ?h (of_nat k))" for q i j
  proof (induction j arbitrary: i)
    case (Suc j)
    then consider "q \<in> set (gHashTable ?h (of_nat i))" | "q \<in> set (walk_buckets ?h (Suc i) j)" by auto
    then show ?case
    proof cases
      case 1
      then show ?thesis by (intro exI [of _ i]) simp
    next
      case 2
      then obtain k where "Suc i \<le> k" "k < Suc i + j" "q \<in> set (gHashTable ?h (of_nat k))"
        using Suc.IH by blast
      then show ?thesis by (intro exI [of _ k]) simp
    qed
  qed simp
  show "p \<notin> set (HNodePrintState_snapshot ?h)"
  proof
    assume "p \<in> set (HNodePrintState_snapshot ?h)"
    then obtain k where k: "k < unat ?m" "p \<in> set (gHashTable ?h (of_nat k))"
      using walk [of p 0 "unat ?m"] by (auto simp: HNodePrintState_snapshot_def)
    have "of_nat k = ?m" using table_inv_bucket [OF I(1) n(1) k(2)] n(2) by simp
    then have "unat (of_nat k :: u64) = unat ?m" by simp
    moreover have "unat (of_nat k :: u64) = k"
      using k(1) small by (simp add: unsigned_of_nat take_bit_nat_eq_self)
    ultimately show False using k(1) by simp
  qed
qed

theorem print_state_misses_last_bucket_witness:
  "\<exists>s. run_events hash_step (hash_init 3) example_hash_run = Some s \<and>
     in_table (gHashTable (hs_h s)) 100 \<and> 100 \<notin> set (HNodePrintState_snapshot (hs_h s))"
proof -
  obtain s where s: "run_events hash_step (hash_init 3) example_hash_run = Some s" "hash_inv s"
    using nodehash.run_defined [OF hash_inv_init example_hash_run_ok] by blast
  have "gHashTableMask (hs_h s) = 3" "100 \<in> set (gHashTable (hs_h s) 3)"
    using s(1) by (auto simp: example_hash_run_def hash_eval)
  with print_state_misses_last_bucket [OF s(2), of 100] s(1) show ?thesis by auto
qed

end
