(* ===== verification/Fuse_Internal.thy ===== *)
theory Fuse_Internal
  imports Fuse_Device Fuse_Nodehash
begin

text \<open>
  The helpers of \<open>core/10.5/fusefs/fuse_internal.h\<close>, \<open>fuse_internal.c\<close>, \<open>fuse_file.h\<close> and
  \<open>fuse_node.h\<close> that decide and convert without talking to the daemon: the options of a mount, the
  size rounding, the names a mount hides, who may use a volume, file attributes in the three forms
  the code has (\<open>fuse_attr\<close> from the daemon, \<open>vnode_attr\<close> of the kernel, \<open>fuse_setattr_in\<close> to the
  daemon), and the notifications of attribute changes.

  A \<open>time_t\<close> and a \<open>long\<close> have 64 bits (the LP64 build).
\<close>

section \<open>Vnodes and their file system data\<close>

record timespec =
  tv_sec :: u64
  tv_nsec :: u64

definition zero_time :: timespec where "zero_time = \<lparr>tv_sec = 0, tv_nsec = 0\<rparr>"

datatype vtype = VNON | VREG | VDIR | VBLK | VCHR | VLNK | VSOCK | VFIFO | VBAD | VSTR | VCPLX

abbreviation (input) S_IFMT :: u32 where "S_IFMT \<equiv> 0xF000"
abbreviation (input) S_IFDIR :: u32 where "S_IFDIR \<equiv> 0x4000"
abbreviation (input) S_IFREG :: u32 where "S_IFREG \<equiv> 0x8000"

text \<open>\<open>IFTOVT\<close>, the table \<open>iftovt_tab\<close> of the kernel indexed by the type bits of a mode.\<close>

definition IFTOVT :: "u32 \<Rightarrow> vtype" where
  "IFTOVT mode =
     [VNON, VFIFO, VCHR, VNON, VDIR, VNON, VBLK, VNON,
      VREG, VNON, VLNK, VNON, VSOCK, VNON, VNON, VBAD] ! unat (drop_bit 12 (mode AND S_IFMT))"

text \<open>The attributes the code asks about, requests or returns, by name.\<close>

datatype vattr =
    Va_fsid | Va_fileid | Va_linkid | Va_parentid | Va_gen | Va_data_size | Va_data_alloc
  | Va_mode | Va_nlink | Va_uid | Va_gid | Va_rdev | Va_type | Va_iosize | Va_flags
  | Va_access_time | Va_change_time | Va_modify_time | Va_create_time | Va_backup_time

record vnode_attr =
  va_supported :: "vattr set"
  va_active :: "vattr set"
  va_fsid :: u32
  va_fileid :: u64
  va_linkid :: u64
  va_parentid :: u64
  va_gen :: u32
  va_data_size :: u64
  va_data_alloc :: u64
  va_mode :: u16
  va_nlink :: u64
  va_uid :: u32
  va_gid :: u32
  va_rdev :: u32
  va_type :: vtype
  va_iosize :: u32
  va_flags :: u32
  va_access_time :: timespec
  va_change_time :: timespec
  va_modify_time :: timespec
  va_create_time :: timespec
  va_backup_time :: timespec

definition VATTR_IS_ACTIVE :: "vnode_attr \<Rightarrow> vattr \<Rightarrow> bool" where
  "VATTR_IS_ACTIVE vap a \<longleftrightarrow> a \<in> va_active vap"

definition VATTR_IS_SUPPORTED :: "vnode_attr \<Rightarrow> vattr \<Rightarrow> bool" where
  "VATTR_IS_SUPPORTED vap a \<longleftrightarrow> a \<in> va_supported vap"

definition VATTR_SET_SUPPORTED :: "vattr \<Rightarrow> vnode_attr \<Rightarrow> vnode_attr" where
  "VATTR_SET_SUPPORTED a vap = vap\<lparr>va_supported := insert a (va_supported vap)\<rparr>"

definition VATTR_INIT :: "vnode_attr \<Rightarrow> vnode_attr" where
  "VATTR_INIT vap = vap\<lparr>va_supported := {}, va_active := {}\<rparr>"

record fuse_filehandle =
  fh_id :: u64
  open_count :: int
  open_flags :: u32
  fuse_open_flags :: u32
  aux_count :: int

datatype fufh_type = FUFH_INVALID | FUFH_RDONLY | FUFH_WRONLY | FUFH_RDWR

definition FUFH_IS_VALID :: "fuse_filehandle \<Rightarrow> bool" where
  "FUFH_IS_VALID f \<longleftrightarrow> open_count f > 0"

text \<open>
  \<open>fuse_vnode_data\<close>, what \<open>VTOFUD\<close> gives for a vnode. The last two fields are the vnode's own:
  whether it is the root of its mount, and its type.
\<close>

record fuse_vnode_data =
  fv_nodeid :: u64
  fv_generation :: u64
  fv_parentvp :: "vnode option"
  fv_parent_nodeid :: u64
  fv_fufh :: "fufh_type \<Rightarrow> fuse_filehandle"
  fv_flag :: u32
  fv_c_flag :: u32
  fv_modify_time :: timespec
  fv_entry_valid :: timespec
  fv_attr_valid :: timespec
  fv_cached_attr :: vnode_attr
  fv_filesize :: u64
  fv_nlookup :: u64
  fv_vtype :: vtype
  fv_isvroot :: bool

abbreviation (input) FN_CREATING :: u32 where "FN_CREATING \<equiv> 0x02"
abbreviation (input) FN_DIRECT_IO :: u32 where "FN_DIRECT_IO \<equiv> 0x04"
abbreviation (input) FN_IS_ROOT :: u32 where "FN_IS_ROOT \<equiv> 0x10"
abbreviation (input) FN_REVOKED :: u32 where "FN_REVOKED \<equiv> 0x20"
abbreviation (input) C_XTIMES_VALID :: u32 where "C_XTIMES_VALID \<equiv> 0x80000"

definition vnode_isdir :: "fuse_vnode_data \<Rightarrow> bool" where "vnode_isdir v \<longleftrightarrow> fv_vtype v = VDIR"
definition vnode_isreg :: "fuse_vnode_data \<Rightarrow> bool" where "vnode_isreg v \<longleftrightarrow> fv_vtype v = VREG"
definition vnode_islnk :: "fuse_vnode_data \<Rightarrow> bool" where "vnode_islnk v \<longleftrightarrow> fv_vtype v = VLNK"

definition fuse_invalidate_attr :: "fuse_vnode_data \<Rightarrow> fuse_vnode_data" where
  "fuse_invalidate_attr v =
     v\<lparr>fv_attr_valid := zero_time, fv_c_flag := fv_c_flag v AND NOT C_XTIMES_VALID\<rparr>"

section \<open>The options of a mount\<close>

text \<open>The mount flags of the kernel the code reads and sets, with the session of the mount.\<close>

record fuse_mount =
  mnt_data :: fuse_data
  mnt_synchronous :: bool
  mnt_async :: bool
  mnt_authopaque :: bool
  mnt_authopaqueaccess :: bool
  mnt_extendedsecurity :: bool
  mnt_local :: bool
  mnt_fsid :: u32

definition fuse_vfs_context_issuser :: "vfs_context \<Rightarrow> bool" where
  "fuse_vfs_context_issuser ctx \<longleftrightarrow> cr_uid (ctx_ucred ctx) = 0"

definition fuse_isautocache_mp :: "fuse_data \<Rightarrow> bool" where
  "fuse_isautocache_mp d = flag_set (fd_dataflags d) FSESS_AUTO_CACHE"

definition fuse_isdeadfs_mp :: "fuse_data \<Rightarrow> bool" where
  "fuse_isdeadfs_mp d = flag_set (fd_dataflags d) FSESS_DEAD"

definition fuse_isdeadfs :: "fuse_data \<Rightarrow> fuse_vnode_data \<Rightarrow> bool" where
  "fuse_isdeadfs d v = (if flag_set (fv_flag v) FN_REVOKED then True else fuse_isdeadfs_mp d)"

definition fuse_isdeadfs_fs :: "fuse_data \<Rightarrow> bool" where
  "fuse_isdeadfs_fs d = fuse_isdeadfs_mp d"

definition fuse_isdirectio :: "fuse_data \<Rightarrow> fuse_vnode_data \<Rightarrow> bool" where
  "fuse_isdirectio d v =
     (if flag_set (fd_dataflags d) FSESS_DIRECT_IO then True else flag_set (fv_flag v) FN_DIRECT_IO)"

definition fuse_isdirectio_mp :: "fuse_data \<Rightarrow> bool" where
  "fuse_isdirectio_mp d = flag_set (fd_dataflags d) FSESS_DIRECT_IO"

definition fuse_isnoattrcache :: "fuse_data \<Rightarrow> bool" where
  "fuse_isnoattrcache d = (if flag_set (fd_dataflags d) FSESS_NO_ATTRCACHE then True else False)"

definition fuse_isnoattrcache_mp :: "fuse_data \<Rightarrow> bool" where
  "fuse_isnoattrcache_mp d = flag_set (fd_dataflags d) FSESS_NO_ATTRCACHE"

definition fuse_isnoreadahead :: "fuse_data \<Rightarrow> fuse_vnode_data \<Rightarrow> bool" where
  "fuse_isnoreadahead d v =
     (if flag_set (fd_dataflags d) FSESS_NO_READAHEAD then True else fuse_isdirectio d v)"

definition fuse_isnosynconclose :: "fuse_data \<Rightarrow> fuse_vnode_data \<Rightarrow> bool" where
  "fuse_isnosynconclose d v =
     (if fuse_isdirectio d v then False else flag_set (fd_dataflags d) FSESS_NO_SYNCONCLOSE)"

definition fuse_isnosyncwrites_mp :: "fuse_data \<Rightarrow> bool" where
  "fuse_isnosyncwrites_mp d =
     (if fuse_isdirectio_mp d then False else flag_set (fd_dataflags d) FSESS_NO_SYNCWRITES)"

definition fuse_setnosyncwrites_mp :: "fuse_mount \<Rightarrow> fuse_mount" where
  "fuse_setnosyncwrites_mp m =
     m\<lparr>mnt_synchronous := False, mnt_async := True,
       mnt_data := (mnt_data m)
         \<lparr>fd_dataflags := fd_dataflags (mnt_data m) OR FSESS_NO_SYNCWRITES\<rparr>\<rparr>"

definition fuse_clearnosyncwrites_mp :: "fuse_mount \<Rightarrow> fuse_mount" where
  "fuse_clearnosyncwrites_mp m =
     (if \<not> mnt_synchronous m
      then m\<lparr>mnt_async := False, mnt_synchronous := True,
             mnt_data := (mnt_data m)
               \<lparr>fd_dataflags := fd_dataflags (mnt_data m) AND NOT FSESS_NO_SYNCWRITES\<rparr>\<rparr>
      else m)"

definition fuse_isnoubc :: "fuse_data \<Rightarrow> fuse_vnode_data \<Rightarrow> bool" where
  "fuse_isnoubc d v =
     (if flag_set (fd_dataflags d) FSESS_NO_UBC then True else fuse_isdirectio d v)"

definition fuse_isnoubc_mp :: "fuse_data \<Rightarrow> bool" where
  "fuse_isnoubc_mp d = flag_set (fd_dataflags d) FSESS_NO_UBC"

definition fuse_isnegativevncache_mp :: "fuse_data \<Rightarrow> bool" where
  "fuse_isnegativevncache_mp d = flag_set (fd_dataflags d) FSESS_NEGATIVE_VNCACHE"

definition fuse_isnovncache :: "fuse_data \<Rightarrow> fuse_vnode_data \<Rightarrow> bool" where
  "fuse_isnovncache d v =
     (if flag_set (fd_dataflags d) FSESS_NO_VNCACHE then True else fuse_isdirectio d v)"

definition fuse_isnovncache_mp :: "fuse_data \<Rightarrow> bool" where
  "fuse_isnovncache_mp d = flag_set (fd_dataflags d) FSESS_NO_VNCACHE"

definition fuse_isextendedsecurity :: "fuse_data \<Rightarrow> bool" where
  "fuse_isextendedsecurity d = flag_set (fd_dataflags d) FSESS_EXTENDED_SECURITY"

definition fuse_isextendedsecurity_mp :: "fuse_data \<Rightarrow> bool" where
  "fuse_isextendedsecurity_mp d = flag_set (fd_dataflags d) FSESS_EXTENDED_SECURITY"

definition fuse_isdefaultpermissions :: "fuse_data \<Rightarrow> bool" where
  "fuse_isdefaultpermissions d = flag_set (fd_dataflags d) FSESS_DEFAULT_PERMISSIONS"

definition fuse_isdefaultpermissions_mp :: "fuse_data \<Rightarrow> bool" where
  "fuse_isdefaultpermissions_mp d = flag_set (fd_dataflags d) FSESS_DEFAULT_PERMISSIONS"

definition fuse_isdeferpermissions :: "fuse_data \<Rightarrow> bool" where
  "fuse_isdeferpermissions d = flag_set (fd_dataflags d) FSESS_DEFER_PERMISSIONS"

definition fuse_isdeferpermissions_mp :: "fuse_data \<Rightarrow> bool" where
  "fuse_isdeferpermissions_mp d = flag_set (fd_dataflags d) FSESS_DEFER_PERMISSIONS"

definition fuse_isxtimes :: "fuse_data \<Rightarrow> bool" where
  "fuse_isxtimes d = flag_set (fd_dataflags d) FSESS_XTIMES"

definition fuse_isxtimes_mp :: "fuse_data \<Rightarrow> bool" where
  "fuse_isxtimes_mp d = flag_set (fd_dataflags d) FSESS_XTIMES"

definition fuse_issparse_mp :: "fuse_data \<Rightarrow> bool" where
  "fuse_issparse_mp d = flag_set (fd_dataflags d) FSESS_SPARSE"

section \<open>Rounding a size\<close>

text \<open>The loop of \<open>fuse_round_powerof2\<close>; that it ends is proved below.\<close>

partial_function (option) round_loop :: "u32 \<Rightarrow> u32 \<Rightarrow> u32 option" where
  "round_loop sz result =
     (if result < sz then round_loop sz (push_bit 1 result) else Some result)"

definition fuse_round_powerof2 :: "u32 \<Rightarrow> u32 option" where
  "fuse_round_powerof2 sz = round_loop (sz AND 0x7FFFFFFF) 512"

definition fuse_round_size :: "u32 \<Rightarrow> u32 \<Rightarrow> u32 \<Rightarrow> u32 option" where
  "fuse_round_size sz b_min b_max =
     do {
       candidate \<leftarrow> fuse_round_powerof2 sz;
       let candidate1 = (if candidate < b_min then b_min else candidate);
       Some (if candidate1 > b_max then b_max else candidate1)
     }"

lemma unat_pow32: "k < 32 \<Longrightarrow> unat (2 ^ k :: u32) = 2 ^ k"
proof -
  assume "k < 32"
  then have "(2 :: nat) ^ k < 2 ^ 32" by (simp only: power_strict_increasing_iff)
  then have "unat (of_nat (2 ^ k) :: u32) = 2 ^ k" by (rule unat_of_nat32)
  then show ?thesis by simp
qed

lemma word_pow_less: "k < 32 \<Longrightarrow> (2 ^ k :: u32) < w \<longleftrightarrow> 2 ^ k < unat w"
  by (simp add: word_less_nat_alt unat_pow32)

text \<open>From \<open>2 ^ k\<close> the loop ends at the first power of two that is not below the size.\<close>

lemma round_loop_power:
  assumes "unat sz \<le> 2 ^ 31" and "k \<le> 31" and "k = 9 \<or> 2 ^ (k - 1) < unat sz"
  shows "\<exists>m. k \<le> m \<and> m \<le> 31 \<and> round_loop sz (2 ^ k) = Some (2 ^ m) \<and> unat sz \<le> 2 ^ m \<and>
    (m = 9 \<or> 2 ^ (m - 1) < unat sz)"
  using assms(2,3)
proof (induction "31 - k" arbitrary: k rule: less_induct)
  case less
  show ?case
  proof (cases "(2 ^ k :: u32) < sz")
    case True
    then have lt: "2 ^ k < unat sz" using less.prems by (simp add: word_pow_less)
    with assms(1) have "(2::nat) ^ k < 2 ^ 31" by linarith
    then have "k < 31" by (simp only: power_strict_increasing_iff)
    then have "31 - Suc k < 31 - k" and "Suc k \<le> 31" by arith+
    moreover have "2 ^ (Suc k - 1) < unat sz" using lt by simp
    ultimately obtain m where m: "Suc k \<le> m \<and> m \<le> 31 \<and> round_loop sz (2 ^ Suc k) = Some (2 ^ m) \<and>
        unat sz \<le> 2 ^ m \<and> (m = 9 \<or> 2 ^ (m - 1) < unat sz)"
      using less.hyps [of "Suc k"] by blast
    have "round_loop sz (2 ^ k) = round_loop sz (2 ^ Suc k)"
      using True by (simp add: round_loop.simps [of sz "2 ^ k"] push_bit_eq_mult mult.commute)
    with m show ?thesis by (intro exI [of _ m]) simp
  next
    case False
    then have "unat sz \<le> 2 ^ k" using less.prems by (simp add: word_pow_less)
    moreover have "round_loop sz (2 ^ k) = Some (2 ^ k)"
      using False by (simp add: round_loop.simps)
    ultimately show ?thesis using less.prems by auto
  qed
qed

lemma unat_clip_2G: "unat (sz AND 0x7FFFFFFF :: u32) = unat sz mod 2 ^ 31"
proof -
  have "sz AND 0x7FFFFFFF = take_bit 31 sz"
    by (simp add: take_bit_eq_mask mask_eq_exp_minus_1)
  then show ?thesis by (simp add: unsigned_take_bit_eq) (simp add: take_bit_eq_mod)
qed

lemma round_powerof2_result:
  "\<exists>m. 9 \<le> m \<and> m \<le> 31 \<and> fuse_round_powerof2 sz = Some (2 ^ m) \<and>
     unat sz mod 2 ^ 31 \<le> 2 ^ m \<and> (m = 9 \<or> 2 ^ (m - 1) < unat sz mod 2 ^ 31)"
proof -
  have "unat sz mod 2 ^ 31 \<le> (2 :: nat) ^ 31" by (simp add: less_imp_le)
  then show ?thesis
    using round_loop_power [of "sz AND 0x7FFFFFFF" 9]
    by (simp add: fuse_round_powerof2_def unat_clip_2G)
qed

section \<open>Names a mount hides\<close>

text \<open>
  \<open>nameptr\<close> is the memory a name pointer points to, the name and what follows it; a null pointer is
  \<^term>\<open>None\<close>. Of \<open>.DS_Store\<close> the terminating null is compared too.
\<close>

definition DS_STORE :: "u8 list" where
  "DS_STORE = [0x2E, 0x44, 0x53, 0x5F, 0x53, 0x74, 0x6F, 0x72, 0x65, 0]"

definition fuse_skip_apple_double_mp :: "fuse_data \<Rightarrow> u8 list option \<Rightarrow> int \<Rightarrow> bool" where
  "fuse_skip_apple_double_mp d nameptr namelen =
     (case nameptr of
        None \<Rightarrow> False
      | Some mem \<Rightarrow>
          if flag_set (fd_dataflags d) FSESS_NO_APPLEDOUBLE \<and> namelen > 2
          then if namelen = 9 \<and> take 10 mem = DS_STORE then True
               else take 2 mem = [0x2E, 0x5F]
          else False)"

definition COM_APPLE :: "u8 list" where
  "COM_APPLE = [0x63, 0x6F, 0x6D, 0x2E, 0x61, 0x70, 0x70, 0x6C, 0x65, 0x2E]"

definition fuse_skip_apple_xattr_mp :: "fuse_data \<Rightarrow> u8 list option \<Rightarrow> bool" where
  "fuse_skip_apple_xattr_mp d name =
     (case name of
        None \<Rightarrow> False
      | Some mem \<Rightarrow> flag_set (fd_dataflags d) FSESS_NO_APPLEXATTR \<and> take 10 mem = COM_APPLE)"

section \<open>Who may use a volume\<close>

definition fuse_blanket_deny :: "fuse_data \<Rightarrow> fuse_vnode_data \<Rightarrow> vfs_context \<Rightarrow> bool" where
  "fuse_blanket_deny d v ctx =
     (let issuser = fuse_vfs_context_issuser ctx; isvroot = fv_isvroot v in
      if flag_set (fd_dataflags d) FSESS_ALLOW_OTHER then False
      else if issuser \<and> flag_set (fd_dataflags d) FSESS_ALLOW_ROOT then False
      else if fuse_match_cred (fd_daemoncred d) (ctx_ucred ctx) = 0 then False
      else if \<not> flag_set (fd_dataflags d) FSESS_INITED \<and> isvroot \<and> issuser then False
      else if fuse_isdeadfs d v \<and> isvroot then False
      else if ctx_pid ctx = 0 then False
      else True)"

section \<open>File handles\<close>

abbreviation (input) PROT_READ :: u32 where "PROT_READ \<equiv> 1"
abbreviation (input) PROT_WRITE :: u32 where "PROT_WRITE \<equiv> 2"
abbreviation (input) PROT_EXEC :: u32 where "PROT_EXEC \<equiv> 4"
abbreviation (input) FREAD :: u32 where "FREAD \<equiv> 1"
abbreviation (input) FWRITE :: u32 where "FWRITE \<equiv> 2"
abbreviation (input) O_RDONLY :: u32 where "O_RDONLY \<equiv> 0"
abbreviation (input) O_WRONLY :: u32 where "O_WRONLY \<equiv> 1"
abbreviation (input) O_RDWR :: u32 where "O_RDWR \<equiv> 2"
abbreviation (input) O_SYMLINK :: u32 where "O_SYMLINK \<equiv> 0x200000"

definition fuse_filehandle_xlate_from_mmap :: "u32 \<Rightarrow> fufh_type" where
  "fuse_filehandle_xlate_from_mmap fflags =
     (if flag_set fflags PROT_WRITE
      then if flag_set fflags (PROT_READ OR PROT_EXEC) then FUFH_RDWR else FUFH_WRONLY
      else if flag_set fflags (PROT_READ OR PROT_EXEC) then FUFH_RDONLY
      else FUFH_INVALID)"

text \<open>Flags that are neither read nor write, but not zero, are a panic.\<close>

definition fuse_filehandle_xlate_from_fflags :: "u32 \<Rightarrow> fufh_type option" where
  "fuse_filehandle_xlate_from_fflags fflags =
     (if flag_set fflags FREAD \<and> flag_set fflags FWRITE then Some FUFH_RDWR
      else if flag_set fflags FWRITE then Some FUFH_WRONLY
      else if flag_set fflags FREAD then Some FUFH_RDONLY
      else if fflags = 0 then Some FUFH_RDONLY else None)"

definition fuse_filehandle_xlate_to_oflags :: "fufh_type \<Rightarrow> u32" where
  "fuse_filehandle_xlate_to_oflags type =
     (case type of
        FUFH_RDONLY \<Rightarrow> O_RDONLY
      | FUFH_WRONLY \<Rightarrow> O_WRONLY
      | FUFH_RDWR \<Rightarrow> O_RDWR
      | FUFH_INVALID \<Rightarrow> -1)"

abbreviation (input) KAUTH_VNODE_READ_DATA :: u32 where "KAUTH_VNODE_READ_DATA \<equiv> 0x2"
abbreviation (input) KAUTH_VNODE_WRITE_DATA :: u32 where "KAUTH_VNODE_WRITE_DATA \<equiv> 0x4"

text \<open>
  \<open>authorize\<close> is what \<open>vnode_authorize\<close> answers to an action. The caller's context is the running
  one when none is given.
\<close>

definition fuse_filehandle_preflight_status ::
  "(u32 \<Rightarrow> int) \<Rightarrow> fuse_mount \<Rightarrow> fuse_vnode_data \<Rightarrow> fufh_type \<Rightarrow> int" where
  "fuse_filehandle_preflight_status authorize m v type =
     (if mnt_authopaque m \<or> \<not> mnt_synchronous m \<or> \<not> vnode_isreg v then 0
      else case type of
        FUFH_RDONLY \<Rightarrow> authorize KAUTH_VNODE_READ_DATA
      | FUFH_WRONLY \<Rightarrow> authorize KAUTH_VNODE_WRITE_DATA
      | FUFH_RDWR \<Rightarrow> authorize (KAUTH_VNODE_READ_DATA OR KAUTH_VNODE_WRITE_DATA)
      | FUFH_INVALID \<Rightarrow> EINVAL)"

section \<open>Attributes from the daemon\<close>

record fuse_attr =
  at_ino :: u64
  at_size :: u64
  at_blocks :: u64
  at_atime :: u64
  at_mtime :: u64
  at_ctime :: u64
  at_crtime :: u64
  at_atimensec :: u32
  at_mtimensec :: u32
  at_ctimensec :: u32
  at_crtimensec :: u32
  at_mode :: u32
  at_nlink :: u32
  at_uid :: u32
  at_gid :: u32
  at_rdev :: u32
  at_flags :: u32

text \<open>
  \<open>fuse_internal_attr_fat2vat\<close>: the result is the attributes, and the \<open>fuse_attr\<close> with the size the
  code stores into it when writes are asynchronous.
\<close>

definition fuse_internal_attr_fat2vat ::
  "fuse_mount \<Rightarrow> fuse_vnode_data \<Rightarrow> fuse_attr \<Rightarrow> vnode_attr \<Rightarrow> fuse_attr \<times> vnode_attr" where
  "fuse_internal_attr_fat2vat m v fat vap =
     (let fat1 = (if \<not> mnt_synchronous m then fat\<lparr>at_size := fv_filesize v\<rparr> else fat);
          vap1 = VATTR_INIT vap;
          vap2 = vap1
            \<lparr>va_supported := {Va_fsid, Va_fileid, Va_linkid, Va_data_size, Va_access_time,
               Va_change_time, Va_modify_time, Va_create_time, Va_mode, Va_nlink, Va_uid, Va_gid,
               Va_rdev, Va_type, Va_iosize, Va_flags},
             va_fsid := mnt_fsid m, va_fileid := at_ino fat1, va_linkid := at_ino fat1,
             va_data_size := at_size fat1,
             va_access_time := \<lparr>tv_sec = at_atime fat1, tv_nsec = ucast (at_atimensec fat1)\<rparr>,
             va_change_time := \<lparr>tv_sec = at_ctime fat1, tv_nsec = ucast (at_ctimensec fat1)\<rparr>,
             va_modify_time := \<lparr>tv_sec = at_mtime fat1, tv_nsec = ucast (at_mtimensec fat1)\<rparr>,
             va_create_time := \<lparr>tv_sec = at_crtime fat1, tv_nsec = ucast (at_crtimensec fat1)\<rparr>,
             va_mode := ucast (at_mode fat1 AND NOT S_IFMT),
             va_nlink := ucast (at_nlink fat1), va_uid := at_uid fat1, va_gid := at_gid fat1,
             va_rdev := at_rdev fat1, va_type := IFTOVT (at_mode fat1),
             va_iosize := fd_iosize (mnt_data m), va_flags := at_flags fat1\<rparr>;
          vap3 = (if fuse_issparse_mp (mnt_data m)
                  then VATTR_SET_SUPPORTED Va_data_alloc (vap2\<lparr>va_data_alloc := at_blocks fat1\<rparr>)
                  else vap2)
      in (fat1, vap3))"

text \<open>\<open>cache_attrs\<close>: the daemon's answer becomes the vnode's cached attributes, until the time given.\<close>

definition fuse_timespec_add :: "timespec \<Rightarrow> timespec \<Rightarrow> timespec" where
  "fuse_timespec_add t u =
     (let s = tv_sec t + tv_sec u; n = tv_nsec t + tv_nsec u in
      if 1000000000 \<le>s n then \<lparr>tv_sec = s + 1, tv_nsec = n - 1000000000\<rparr>
      else \<lparr>tv_sec = s, tv_nsec = n\<rparr>)"

definition cache_attrs ::
  "fuse_mount \<Rightarrow> timespec \<Rightarrow> u64 \<Rightarrow> u32 \<Rightarrow> fuse_attr \<Rightarrow> fuse_vnode_data \<Rightarrow> fuse_vnode_data" where
  "cache_attrs m uptime valid valid_nsec fat v =
     (let v1 = v\<lparr>fv_attr_valid :=
                   fuse_timespec_add \<lparr>tv_sec = valid, tv_nsec = ucast valid_nsec\<rparr> uptime\<rparr> in
      v1\<lparr>fv_cached_attr := snd (fuse_internal_attr_fat2vat m v1 fat (fv_cached_attr v1))\<rparr>)"

section \<open>Attributes for the kernel\<close>

definition VATTR_RETURN :: "vattr \<Rightarrow> (vnode_attr \<Rightarrow> vnode_attr) \<Rightarrow> vnode_attr \<Rightarrow> vnode_attr" where
  "VATTR_RETURN a f vap = VATTR_SET_SUPPORTED a (f vap)"

text \<open>Calls to the buffer cache, in their order, and the hints of a change notification.\<close>

datatype ubc_call = Ubc_msync u64 | Ubc_setsize u64

abbreviation (input) NOTE_WRITE :: u32 where "NOTE_WRITE \<equiv> 0x2"
abbreviation (input) NOTE_EXTEND :: u32 where "NOTE_EXTEND \<equiv> 0x4"
abbreviation (input) NOTE_ATTRIB :: u32 where "NOTE_ATTRIB \<equiv> 0x8"

text \<open>
  The size: with asynchronous writes the kernel's own size wins over the cached one; otherwise a
  size that differs from the cached one is given up. The result is the vnode, the hint, the calls to
  the buffer cache, and whether the cache was purged.
\<close>

definition loadvap_size ::
  "fuse_mount \<Rightarrow> fuse_vnode_data \<Rightarrow> fuse_vnode_data \<times> u32 \<times> ubc_call list \<times> bool" where
  "loadvap_size m v =
     (let in_vap = fv_cached_attr v in
      if \<not> mnt_synchronous m
      then (v\<lparr>fv_cached_attr :=
               VATTR_RETURN Va_data_size (\<lambda>a. a\<lparr>va_data_size := fv_filesize v\<rparr>) in_vap\<rparr>, 0, [], False)
      else if fv_filesize v \<noteq> va_data_size in_vap
      then (v\<lparr>fv_filesize := va_data_size in_vap\<rparr>,
            if va_data_size in_vap <s fv_filesize v then NOTE_WRITE OR NOTE_EXTEND else NOTE_WRITE,
            [Ubc_msync (fv_filesize v), Ubc_setsize (va_data_size in_vap)], True)
      else (v, 0, [], False))"

text \<open>The attributes that are copied from the cached ones as they are.\<close>

definition loadvap_copy :: "fuse_mount \<Rightarrow> vnode_attr \<Rightarrow> vnode_attr \<Rightarrow> vnode_attr" where
  "loadvap_copy m in_vap out =
     (let out1 = VATTR_RETURN Va_data_size (\<lambda>a. a\<lparr>va_data_size := va_data_size in_vap\<rparr>) out;
          out2 = (if fuse_issparse_mp (mnt_data m)
                  then VATTR_RETURN Va_data_alloc (\<lambda>a. a\<lparr>va_data_alloc := va_data_alloc in_vap\<rparr>) out1
                  else out1);
          out3 = out2
            \<lparr>va_supported := va_supported out2 \<union> {Va_mode, Va_nlink, Va_uid, Va_gid, Va_rdev,
               Va_type, Va_iosize, Va_flags, Va_access_time, Va_change_time, Va_modify_time},
             va_mode := va_mode in_vap, va_nlink := va_nlink in_vap, va_uid := va_uid in_vap,
             va_gid := va_gid in_vap, va_rdev := va_rdev in_vap, va_type := va_type in_vap,
             va_iosize := va_iosize in_vap, va_flags := va_flags in_vap,
             va_access_time := va_access_time in_vap, va_change_time := va_change_time in_vap,
             va_modify_time := va_modify_time in_vap\<rparr>
      in if tv_sec (va_create_time in_vap) \<noteq> -1
         then VATTR_RETURN Va_create_time (\<lambda>a. a\<lparr>va_create_time := va_create_time in_vap\<rparr>) out3
         else out3)"

text \<open>The attributes that identify the file; the root has no parent to give.\<close>

definition loadvap_ids :: "fuse_vnode_data \<Rightarrow> vnode_attr \<Rightarrow> vnode_attr" where
  "loadvap_ids v out =
     (let in_vap = fv_cached_attr v;
          out1 = out\<lparr>va_supported := va_supported out \<union> {Va_fsid, Va_fileid, Va_linkid, Va_gen},
                     va_fsid := va_fsid in_vap, va_fileid := va_fileid in_vap,
                     va_linkid := va_linkid in_vap, va_gen := ucast (fv_generation v)\<rparr>
      in if \<not> fv_isvroot v
         then VATTR_RETURN Va_parentid (\<lambda>a. a\<lparr>va_parentid := fv_parent_nodeid v\<rparr>) out1
         else out1)"

record loadvap_result =
  lv_node :: fuse_vnode_data
  lv_out :: vnode_attr
  lv_hint :: u32
  lv_ubc :: "ubc_call list"
  lv_loadxtimes :: bool

text \<open>
  \<open>fuse_internal_attr_loadvap\<close> up to the point where it asks for the extended times:
  \<open>lv_loadxtimes\<close> says whether it does. A caller that passes the cached attributes themselves gets
  them back.
\<close>

definition fuse_internal_attr_loadvap ::
  "fuse_mount \<Rightarrow> bool \<Rightarrow> fuse_vnode_data \<Rightarrow> vnode_attr \<Rightarrow> loadvap_result" where
  "fuse_internal_attr_loadvap m same v out =
     (if same then \<lparr>lv_node = v, lv_out = out, lv_hint = 0, lv_ubc = [], lv_loadxtimes = False\<rparr>
      else
        let out2 = loadvap_ids v out
        in case loadvap_size m v of
          (v1, hint, ubc, purged) \<Rightarrow>
            (let in1 = fv_cached_attr v1;
                 out3 = loadvap_copy m in1 out2;
                 touched = (tv_sec (fv_modify_time v1) \<noteq> tv_sec (va_modify_time in1) \<or>
                            tv_nsec (fv_modify_time v1) \<noteq> tv_nsec (va_modify_time in1));
                 v2 = (if touched then v1\<lparr>fv_modify_time := va_modify_time in1\<rparr> else v1)
             in \<lparr>lv_node = v2, lv_out = out3,
                 lv_hint = (if touched then hint OR NOTE_ATTRIB else hint),
                 lv_ubc = (if touched \<and> fuse_isautocache_mp (mnt_data m) \<and> \<not> purged
                           then ubc @ [Ubc_msync (fv_filesize v2)] else ubc),
                 lv_loadxtimes = (VATTR_IS_ACTIVE out3 Va_backup_time \<or>
                   (VATTR_IS_ACTIVE out3 Va_create_time \<and>
                    \<not> VATTR_IS_SUPPORTED out3 Va_create_time))\<rparr>))"

section \<open>Attributes to the daemon\<close>

record fuse_setattr_in =
  fsai_valid :: u32
  fsai_fh :: u64
  fsai_size :: u64
  fsai_atime :: u64
  fsai_mtime :: u64
  fsai_atimensec :: u32
  fsai_mtimensec :: u32
  fsai_mode :: u32
  fsai_uid :: u32
  fsai_gid :: u32
  fsai_bkuptime :: u64
  fsai_chgtime :: u64
  fsai_crtime :: u64
  fsai_bkuptimensec :: u32
  fsai_chgtimensec :: u32
  fsai_crtimensec :: u32
  fsai_flags :: u32

abbreviation (input) FATTR_MODE :: u32 where "FATTR_MODE \<equiv> 0x1"
abbreviation (input) FATTR_UID :: u32 where "FATTR_UID \<equiv> 0x2"
abbreviation (input) FATTR_GID :: u32 where "FATTR_GID \<equiv> 0x4"
abbreviation (input) FATTR_SIZE :: u32 where "FATTR_SIZE \<equiv> 0x8"
abbreviation (input) FATTR_ATIME :: u32 where "FATTR_ATIME \<equiv> 0x10"
abbreviation (input) FATTR_MTIME :: u32 where "FATTR_MTIME \<equiv> 0x20"
abbreviation (input) FATTR_FH :: u32 where "FATTR_FH \<equiv> 0x40"
abbreviation (input) FATTR_CRTIME :: u32 where "FATTR_CRTIME \<equiv> 0x10000000"
abbreviation (input) FATTR_CHGTIME :: u32 where "FATTR_CHGTIME \<equiv> 0x20000000"
abbreviation (input) FATTR_BKUPTIME :: u32 where "FATTR_BKUPTIME \<equiv> 0x40000000"
abbreviation (input) FATTR_FLAGS :: u32 where "FATTR_FLAGS \<equiv> 0x80000000"

text \<open>\<open>set_valid b\<close> is \<open>fsai->valid |= b\<close>.\<close>

definition set_valid :: "u32 \<Rightarrow> fuse_setattr_in \<Rightarrow> fuse_setattr_in" where
  "set_valid b f = f\<lparr>fsai_valid := fsai_valid f OR b\<rparr>"

text \<open>The handle a truncation goes through: a write-only one before a read-write one.\<close>

definition truncation_handle :: "fuse_vnode_data \<Rightarrow> fuse_filehandle option" where
  "truncation_handle v =
     (if FUFH_IS_VALID (fv_fufh v FUFH_WRONLY) then Some (fv_fufh v FUFH_WRONLY)
      else if FUFH_IS_VALID (fv_fufh v FUFH_RDWR) then Some (fv_fufh v FUFH_RDWR)
      else None)"

definition vat2fsai_owner :: "vnode_attr \<Rightarrow> fuse_setattr_in \<Rightarrow> fuse_setattr_in" where
  "vat2fsai_owner vap f =
     (let nuid = (if VATTR_IS_ACTIVE vap Va_uid then va_uid vap else -1);
          f1 = (if nuid \<noteq> -1 then set_valid FATTR_UID (f\<lparr>fsai_uid := nuid\<rparr>) else f);
          ngid = (if VATTR_IS_ACTIVE vap Va_gid then va_gid vap else -1)
      in if ngid \<noteq> -1 then set_valid FATTR_GID (f1\<lparr>fsai_gid := ngid\<rparr>) else f1)"

definition vat2fsai_size ::
  "fuse_vnode_data option \<Rightarrow> vnode_attr \<Rightarrow> fuse_setattr_in \<Rightarrow> fuse_setattr_in" where
  "vat2fsai_size vp vap f =
     (if VATTR_IS_ACTIVE vap Va_data_size
      then let f1 = set_valid FATTR_SIZE (f\<lparr>fsai_size := va_data_size vap\<rparr>) in
           case vp of
             None \<Rightarrow> f1
           | Some v \<Rightarrow> (case truncation_handle v of
                          None \<Rightarrow> f1
                        | Some h \<Rightarrow> set_valid FATTR_FH (f1\<lparr>fsai_fh := fh_id h\<rparr>))
      else f)"

definition vat2fsai_times :: "fuse_data \<Rightarrow> vnode_attr \<Rightarrow> fuse_setattr_in \<Rightarrow> fuse_setattr_in" where
  "vat2fsai_times d vap f =
     (let f1 = (if VATTR_IS_ACTIVE vap Va_access_time
                then set_valid FATTR_ATIME (f\<lparr>fsai_atime := tv_sec (va_access_time vap),
                       fsai_atimensec := ucast (tv_nsec (va_access_time vap))\<rparr>) else f);
          f2 = (if VATTR_IS_ACTIVE vap Va_modify_time
                then set_valid FATTR_MTIME (f1\<lparr>fsai_mtime := tv_sec (va_modify_time vap),
                       fsai_mtimensec := ucast (tv_nsec (va_modify_time vap))\<rparr>) else f1);
          f3 = (if VATTR_IS_ACTIVE vap Va_backup_time \<and> fuse_isxtimes_mp d
                then set_valid FATTR_BKUPTIME (f2\<lparr>fsai_bkuptime := tv_sec (va_backup_time vap),
                       fsai_bkuptimensec := ucast (tv_nsec (va_backup_time vap))\<rparr>) else f2);
          f4 = (if VATTR_IS_ACTIVE vap Va_change_time \<and> fuse_isxtimes_mp d
                then set_valid FATTR_CHGTIME (f3\<lparr>fsai_chgtime := tv_sec (va_change_time vap),
                       fsai_chgtimensec := ucast (tv_nsec (va_change_time vap))\<rparr>) else f3)
      in if VATTR_IS_ACTIVE vap Va_create_time \<and> fuse_isxtimes_mp d
         then set_valid FATTR_CRTIME (f4\<lparr>fsai_crtime := tv_sec (va_create_time vap),
                fsai_crtimensec := ucast (tv_nsec (va_create_time vap))\<rparr>) else f4)"

definition vat2fsai_supported :: "fuse_data \<Rightarrow> vnode_attr \<Rightarrow> vattr set" where
  "vat2fsai_supported d vap =
     {Va_uid, Va_gid, Va_data_size, Va_access_time, Va_modify_time, Va_mode, Va_flags} \<union>
     (if fuse_isxtimes_mp d
      then {Va_backup_time, Va_change_time, Va_create_time} \<inter> va_active vap else {})"

text \<open>
  \<open>fuse_internal_attr_vat2fsai\<close>: whether the size changes, the message, the attributes with what the
  code marks as supported, and the new size, 0 when it is not changed.
\<close>

definition fuse_internal_attr_vat2fsai ::
  "fuse_data \<Rightarrow> fuse_vnode_data option \<Rightarrow> vnode_attr \<Rightarrow> fuse_setattr_in \<Rightarrow>
     bool \<times> fuse_setattr_in \<times> vnode_attr \<times> u64" where
  "fuse_internal_attr_vat2fsai d vp vap fsai =
     (let f1 = vat2fsai_owner vap (fsai\<lparr>fsai_valid := 0\<rparr>);
          f2 = vat2fsai_size vp vap f1;
          f3 = vat2fsai_times d vap f2;
          f4 = (if VATTR_IS_ACTIVE vap Va_mode
                then set_valid FATTR_MODE (f3\<lparr>fsai_mode := ucast (va_mode vap AND 0xFFF)\<rparr>) else f3);
          f5 = (if VATTR_IS_ACTIVE vap Va_flags
                then set_valid FATTR_FLAGS (f4\<lparr>fsai_flags := va_flags vap\<rparr>) else f4)
      in (VATTR_IS_ACTIVE vap Va_data_size, f5,
          vap\<lparr>va_supported := va_supported vap \<union> vat2fsai_supported d vap\<rparr>,
          if VATTR_IS_ACTIVE vap Va_data_size then va_data_size vap else 0))"

section \<open>Entries from the daemon\<close>

record fuse_entry_out =
  eo_nodeid :: u64
  eo_generation :: u64
  eo_entry_valid :: u64
  eo_attr_valid :: u64
  eo_entry_valid_nsec :: u32
  eo_attr_valid_nsec :: u32
  eo_attr :: fuse_attr

abbreviation (input) FUSE_NULL_ID :: u64 where "FUSE_NULL_ID \<equiv> 0"
abbreviation (input) FUSE_ROOT_ID :: u64 where "FUSE_ROOT_ID \<equiv> 1"

definition fuse_internal_checkentry :: "fuse_entry_out \<Rightarrow> vtype \<Rightarrow> int" where
  "fuse_internal_checkentry feo vtype =
     (if vtype \<noteq> IFTOVT (at_mode (eo_attr feo)) then EINVAL
      else if eo_nodeid feo = FUSE_NULL_ID then EINVAL
      else if eo_nodeid feo = FUSE_ROOT_ID then EINVAL
      else 0)"

section \<open>Altering a vnode from the daemon\<close>

record fuse_avfi_ioctl =
  avfi_inode :: u64
  avfi_cmd :: u64
  avfi_ubc_flags :: u32
  avfi_note :: u32
  avfi_size :: u64

abbreviation (input) FUSE_AVFI_MARKGONE :: u64 where "FUSE_AVFI_MARKGONE \<equiv> 0x01"
abbreviation (input) FUSE_AVFI_PURGEATTRCACHE :: u64 where "FUSE_AVFI_PURGEATTRCACHE \<equiv> 0x02"
abbreviation (input) FUSE_AVFI_PURGEVNCACHE :: u64 where "FUSE_AVFI_PURGEVNCACHE \<equiv> 0x04"
abbreviation (input) FUSE_AVFI_UBC :: u64 where "FUSE_AVFI_UBC \<equiv> 0x08"
abbreviation (input) FUSE_AVFI_UBC_SETSIZE :: u64 where "FUSE_AVFI_UBC_SETSIZE \<equiv> 0x10"
abbreviation (input) FUSE_AVFI_KNOTE :: u64 where "FUSE_AVFI_KNOTE \<equiv> 0x20"

text \<open>\<open>UBC_PUSHDIRTY | UBC_PUSHALL | UBC_INVALIDATE | UBC_SYNC\<close>.\<close>

abbreviation (input) UBC_FLAGS :: u32 where "UBC_FLAGS \<equiv> 0x1 OR 0x2 OR 0x4 OR 0x8"

record avfi_result =
  ar_ret :: int
  ar_node :: fuse_vnode_data
  ar_hint :: u32
  ar_setsize :: "u64 option"
  ar_purged :: bool

text \<open>
  \<open>msync\<close> is what \<open>ubc_msync\<close> returns for the flags; \<open>ar_setsize\<close> is the argument of \<open>ubc_setsize\<close>,
  \<open>ar_purged\<close> whether the name cache is purged, \<open>ar_hint\<close> the notification (none when 0).
\<close>

definition fuse_internal_ioctl_avfi ::
  "(u32 \<Rightarrow> int) \<Rightarrow> fuse_vnode_data \<Rightarrow> fuse_avfi_ioctl option \<Rightarrow> avfi_result" where
  "fuse_internal_ioctl_avfi msync v avfi =
     (let fail = \<lparr>ar_ret = EINVAL, ar_node = v, ar_hint = 0, ar_setsize = None, ar_purged = False\<rparr> in
      case avfi of
        None \<Rightarrow> fail
      | Some a \<Rightarrow>
          if flag_set (avfi_cmd a) FUSE_AVFI_MARKGONE then fail
          else
            let ret = (if flag_set (avfi_cmd a) FUSE_AVFI_UBC \<and>
                          msync (avfi_ubc_flags a AND UBC_FLAGS) = 0 then EINVAL else 0);
                resize = (flag_set (avfi_cmd a) FUSE_AVFI_UBC_SETSIZE \<and>
                          fv_filesize v \<noteq> avfi_size a);
                h1 = (if resize then if fv_filesize v <s avfi_size a
                                     then NOTE_WRITE OR NOTE_EXTEND else NOTE_WRITE else 0);
                v1 = (if resize then v\<lparr>fv_filesize := avfi_size a\<rparr> else v);
                v2 = (if flag_set (avfi_cmd a) FUSE_AVFI_UBC_SETSIZE
                      then fuse_invalidate_attr v1 else v1);
                purge = flag_set (avfi_cmd a) FUSE_AVFI_PURGEATTRCACHE;
                h2 = (if purge then h1 OR NOTE_ATTRIB else h1);
                v3 = (if purge then fuse_invalidate_attr v2 else v2)
            in \<lparr>ar_ret = ret, ar_node = v3,
                ar_hint = (if flag_set (avfi_cmd a) FUSE_AVFI_KNOTE then h2 OR avfi_note a else h2),
                ar_setsize = (if resize then Some (avfi_size a) else None),
                ar_purged = flag_set (avfi_cmd a) FUSE_AVFI_PURGEVNCACHE\<rparr>)"

end
