(* ===== verification/Fuse_Internal_Props.thy ===== *)
theory Fuse_Internal_Props
  imports Fuse_Internal
begin

text \<open>
  Properties of the helpers of \<open>fuse_internal.h\<close>: rounding ends within its limits, who is denied a
  volume, which attributes travel in which direction, and what change notifications say. The example
  records are inputs of the witnesses.
\<close>

section \<open>Sizes\<close>

text \<open>
  Rounding a size ends and gives a size within the limits: the smallest power of two from 512 on
  that holds the size (clipped to 2G), unless a limit takes its place.
\<close>

theorem fuse_round_size_correct:
  assumes "b_min \<le> b_max"
  shows "\<exists>m r. 9 \<le> m \<and> m \<le> 31 \<and> fuse_round_powerof2 sz = Some (2 ^ m) \<and>
    unat sz mod 2 ^ 31 \<le> 2 ^ m \<and> (m = 9 \<or> 2 ^ (m - 1) < unat sz mod 2 ^ 31) \<and>
    fuse_round_size sz b_min b_max = Some r \<and> b_min \<le> r \<and> r \<le> b_max \<and>
    r = max b_min (min (2 ^ m) b_max)"
proof -
  obtain m where m: "9 \<le> m" "m \<le> 31" "fuse_round_powerof2 sz = Some (2 ^ m)"
    "unat sz mod 2 ^ 31 \<le> 2 ^ m" "m = 9 \<or> 2 ^ (m - 1) < unat sz mod 2 ^ 31"
    using round_powerof2_result [of sz] by blast
  have "fuse_round_size sz b_min b_max = Some (max b_min (min (2 ^ m) b_max))"
    using assms by (auto simp: fuse_round_size_def m(3) max_def min_def Let_def)
  then show ?thesis
    using m assms by (intro exI [of _ m]) (auto simp: max_def min_def)
qed

theorem fuse_round_size_correct_witness:
  "\<exists>m r. 9 \<le> m \<and> m \<le> 31 \<and> fuse_round_powerof2 (1000 :: u32) = Some (2 ^ m) \<and>
    unat (1000 :: u32) mod 2 ^ 31 \<le> 2 ^ m \<and> (m = 9 \<or> 2 ^ (m - 1) < unat (1000 :: u32) mod 2 ^ 31) \<and>
    fuse_round_size (1000 :: u32) 512 4096 = Some r \<and> (512 :: u32) \<le> r \<and> r \<le> 4096 \<and>
    r = max 512 (min (2 ^ m) 4096)"
  using fuse_round_size_correct [of "512 :: u32" 4096 1000] by simp

section \<open>Access to a volume\<close>

text \<open>
  Without \<open>allow_other\<close>, a process that is neither root, nor the daemon's user, nor the kernel is
  denied every object of a live volume; opening the volume to others lets everybody through.
\<close>

theorem stranger_denied:
  assumes "fuse_match_cred (fd_daemoncred d) (ctx_ucred ctx) \<noteq> 0"
    and "cr_uid (ctx_ucred ctx) \<noteq> 0" and "ctx_pid ctx \<noteq> 0"
    and "\<not> fv_isvroot v \<or> \<not> fuse_isdeadfs d v"
  shows "(fuse_blanket_deny d v ctx \<longleftrightarrow> \<not> flag_set (fd_dataflags d) FSESS_ALLOW_OTHER) \<and>
    \<not> fuse_blanket_deny (d\<lparr>fd_dataflags := fd_dataflags d OR FSESS_ALLOW_OTHER\<rparr>) v ctx"
  using assms
  by (auto simp: fuse_blanket_deny_def Let_def fuse_vfs_context_issuser_def flag_set_or_self)

definition example_daemon :: ucred where
  "example_daemon = \<lparr>cr_uid = 501, cr_ruid = 501, cr_gid = 20, cr_rgid = 20, cr_svgid = 20\<rparr>"

definition example_stranger :: vfs_context where
  "example_stranger = \<lparr>ctx_pid = 77, ctx_ucred =
     \<lparr>cr_uid = 502, cr_ruid = 502, cr_gid = 20, cr_rgid = 20, cr_svgid = 20\<rparr>\<rparr>"

definition example_attrs :: vnode_attr where
  "example_attrs = \<lparr>va_supported = {}, va_active = {}, va_fsid = 0, va_fileid = 0, va_linkid = 0,
     va_parentid = 0, va_gen = 0, va_data_size = 0, va_data_alloc = 0, va_mode = 0, va_nlink = 0,
     va_uid = 0, va_gid = 0, va_rdev = 0, va_type = VNON, va_iosize = 0, va_flags = 0,
     va_access_time = zero_time, va_change_time = zero_time, va_modify_time = zero_time,
     va_create_time = zero_time, va_backup_time = zero_time\<rparr>"

definition example_handle :: fuse_filehandle where
  "example_handle = \<lparr>fh_id = 0, open_count = 0, open_flags = 0, fuse_open_flags = 0, aux_count = 0\<rparr>"

definition example_vnode :: fuse_vnode_data where
  "example_vnode = \<lparr>fv_nodeid = 5, fv_generation = 1, fv_parentvp = None,
     fv_parent_nodeid = 1, fv_fufh = (\<lambda>t. example_handle), fv_flag = 0, fv_c_flag = 0,
     fv_modify_time = zero_time, fv_entry_valid = zero_time, fv_attr_valid = zero_time,
     fv_cached_attr = example_attrs, fv_filesize = 0, fv_nlookup = 1, fv_vtype = VREG,
     fv_isvroot = False\<rparr>"

theorem stranger_denied_witness:
  "(fuse_blanket_deny (fdata_alloc example_daemon 9) example_vnode example_stranger \<longleftrightarrow>
      \<not> flag_set (fd_dataflags (fdata_alloc example_daemon 9)) FSESS_ALLOW_OTHER) \<and>
    \<not> fuse_blanket_deny (fdata_alloc example_daemon 9
        \<lparr>fd_dataflags := fd_dataflags (fdata_alloc example_daemon 9) OR FSESS_ALLOW_OTHER\<rparr>)
        example_vnode example_stranger"
  by (rule stranger_denied)
    (simp_all add: fdata_alloc_def example_daemon_def example_stranger_def example_vnode_def
      fuse_match_cred_def)

section \<open>Attributes\<close>

lemma valid_set_valid:
  "flag_set (fsai_valid (set_valid b f)) m \<longleftrightarrow> flag_set (fsai_valid f) m \<or> flag_set b m"
  by (simp add: set_valid_def flag_set_or)

lemma valid_owner:
  "flag_set (fsai_valid (vat2fsai_owner vap f)) m \<longleftrightarrow> flag_set (fsai_valid f) m \<or>
     (Va_uid \<in> va_active vap \<and> va_uid vap \<noteq> -1 \<and> flag_set FATTR_UID m) \<or>
     (Va_gid \<in> va_active vap \<and> va_gid vap \<noteq> -1 \<and> flag_set FATTR_GID m)"
  by (auto simp: vat2fsai_owner_def Let_def VATTR_IS_ACTIVE_def valid_set_valid)

lemma valid_size:
  "flag_set (fsai_valid (vat2fsai_size vp vap f)) m \<longleftrightarrow> flag_set (fsai_valid f) m \<or>
     (Va_data_size \<in> va_active vap \<and> (flag_set FATTR_SIZE m \<or>
        (flag_set FATTR_FH m \<and> (\<exists>v h. vp = Some v \<and> truncation_handle v = Some h))))"
  by (auto simp: vat2fsai_size_def Let_def VATTR_IS_ACTIVE_def valid_set_valid split: option.splits)

lemma valid_times:
  "flag_set (fsai_valid (vat2fsai_times d vap f)) m \<longleftrightarrow> flag_set (fsai_valid f) m \<or>
     (Va_access_time \<in> va_active vap \<and> flag_set FATTR_ATIME m) \<or>
     (Va_modify_time \<in> va_active vap \<and> flag_set FATTR_MTIME m) \<or>
     (fuse_isxtimes_mp d \<and>
       ((Va_backup_time \<in> va_active vap \<and> flag_set FATTR_BKUPTIME m) \<or>
        (Va_change_time \<in> va_active vap \<and> flag_set FATTR_CHGTIME m) \<or>
        (Va_create_time \<in> va_active vap \<and> flag_set FATTR_CRTIME m)))"
  by (auto simp: vat2fsai_times_def Let_def VATTR_IS_ACTIVE_def valid_set_valid)

lemma valid_vat2fsai:
  "flag_set (fsai_valid (fst (snd (fuse_internal_attr_vat2fsai d vp vap f)))) m \<longleftrightarrow>
     flag_set (fsai_valid (vat2fsai_times d vap (vat2fsai_size vp vap
       (vat2fsai_owner vap (f\<lparr>fsai_valid := 0\<rparr>))))) m \<or>
     (Va_mode \<in> va_active vap \<and> flag_set FATTR_MODE m) \<or>
     (Va_flags \<in> va_active vap \<and> flag_set FATTR_FLAGS m)"
  by (auto simp: fuse_internal_attr_vat2fsai_def Let_def VATTR_IS_ACTIVE_def valid_set_valid)

lemma set_valid_fields [simp]:
  "fsai_uid (set_valid b f) = fsai_uid f"
  "fsai_gid (set_valid b f) = fsai_gid f"
  "fsai_size (set_valid b f) = fsai_size f"
  "fsai_fh (set_valid b f) = fsai_fh f"
  "fsai_atime (set_valid b f) = fsai_atime f"
  "fsai_mtime (set_valid b f) = fsai_mtime f"
  "fsai_mode (set_valid b f) = fsai_mode f"
  "fsai_flags (set_valid b f) = fsai_flags f"
  by (simp_all add: set_valid_def)

lemma owner_fields [simp]:
  "fsai_uid (vat2fsai_owner vap f) =
     (if Va_uid \<in> va_active vap \<and> va_uid vap \<noteq> -1 then va_uid vap else fsai_uid f)"
  "fsai_gid (vat2fsai_owner vap f) =
     (if Va_gid \<in> va_active vap \<and> va_gid vap \<noteq> -1 then va_gid vap else fsai_gid f)"
  "fsai_size (vat2fsai_owner vap f) = fsai_size f"
  "fsai_fh (vat2fsai_owner vap f) = fsai_fh f"
  "fsai_atime (vat2fsai_owner vap f) = fsai_atime f"
  "fsai_mtime (vat2fsai_owner vap f) = fsai_mtime f"
  "fsai_mode (vat2fsai_owner vap f) = fsai_mode f"
  "fsai_flags (vat2fsai_owner vap f) = fsai_flags f"
  by (simp_all add: vat2fsai_owner_def Let_def VATTR_IS_ACTIVE_def)

lemma size_fields [simp]:
  "fsai_size (vat2fsai_size vp vap f) =
     (if Va_data_size \<in> va_active vap then va_data_size vap else fsai_size f)"
  "fsai_uid (vat2fsai_size vp vap f) = fsai_uid f"
  "fsai_gid (vat2fsai_size vp vap f) = fsai_gid f"
  "fsai_atime (vat2fsai_size vp vap f) = fsai_atime f"
  "fsai_mtime (vat2fsai_size vp vap f) = fsai_mtime f"
  "fsai_mode (vat2fsai_size vp vap f) = fsai_mode f"
  "fsai_flags (vat2fsai_size vp vap f) = fsai_flags f"
  by (simp_all add: vat2fsai_size_def Let_def VATTR_IS_ACTIVE_def split: option.split)

lemma times_fields [simp]:
  "fsai_atime (vat2fsai_times d vap f) =
     (if Va_access_time \<in> va_active vap then tv_sec (va_access_time vap) else fsai_atime f)"
  "fsai_mtime (vat2fsai_times d vap f) =
     (if Va_modify_time \<in> va_active vap then tv_sec (va_modify_time vap) else fsai_mtime f)"
  "fsai_uid (vat2fsai_times d vap f) = fsai_uid f"
  "fsai_gid (vat2fsai_times d vap f) = fsai_gid f"
  "fsai_size (vat2fsai_times d vap f) = fsai_size f"
  "fsai_fh (vat2fsai_times d vap f) = fsai_fh f"
  "fsai_mode (vat2fsai_times d vap f) = fsai_mode f"
  "fsai_flags (vat2fsai_times d vap f) = fsai_flags f"
  by (simp_all add: vat2fsai_times_def Let_def VATTR_IS_ACTIVE_def)

text \<open>
  The message that changes attributes has exactly the valid bits of the attributes that were asked
  for (the times of the Mac only where the daemon supports them, an owner of -1 not at all), the
  value asked for in each of those fields, and every other field as it was; it goes through the open
  write handle, if there is one, exactly when the size changes.
\<close>

theorem setattr_request_exact:
  assumes "fuse_internal_attr_vat2fsai d vp vap f0 = (changed, f, vap', newsize)"
  shows
   "(flag_set (fsai_valid f) FATTR_UID \<longleftrightarrow> Va_uid \<in> va_active vap \<and> va_uid vap \<noteq> -1) \<and>
    (flag_set (fsai_valid f) FATTR_GID \<longleftrightarrow> Va_gid \<in> va_active vap \<and> va_gid vap \<noteq> -1) \<and>
    (flag_set (fsai_valid f) FATTR_MODE \<longleftrightarrow> Va_mode \<in> va_active vap) \<and>
    (flag_set (fsai_valid f) FATTR_SIZE \<longleftrightarrow> Va_data_size \<in> va_active vap) \<and>
    (flag_set (fsai_valid f) FATTR_FH \<longleftrightarrow> Va_data_size \<in> va_active vap \<and>
       (\<exists>v h. vp = Some v \<and> truncation_handle v = Some h)) \<and>
    (flag_set (fsai_valid f) FATTR_ATIME \<longleftrightarrow> Va_access_time \<in> va_active vap) \<and>
    (flag_set (fsai_valid f) FATTR_MTIME \<longleftrightarrow> Va_modify_time \<in> va_active vap) \<and>
    (flag_set (fsai_valid f) FATTR_CRTIME \<longleftrightarrow> Va_create_time \<in> va_active vap \<and> fuse_isxtimes_mp d) \<and>
    (flag_set (fsai_valid f) FATTR_CHGTIME \<longleftrightarrow> Va_change_time \<in> va_active vap \<and> fuse_isxtimes_mp d) \<and>
    (flag_set (fsai_valid f) FATTR_BKUPTIME \<longleftrightarrow> Va_backup_time \<in> va_active vap \<and> fuse_isxtimes_mp d) \<and>
    (flag_set (fsai_valid f) FATTR_FLAGS \<longleftrightarrow> Va_flags \<in> va_active vap) \<and>
    fsai_uid f = (if Va_uid \<in> va_active vap \<and> va_uid vap \<noteq> -1 then va_uid vap else fsai_uid f0) \<and>
    fsai_gid f = (if Va_gid \<in> va_active vap \<and> va_gid vap \<noteq> -1 then va_gid vap else fsai_gid f0) \<and>
    fsai_mode f = (if Va_mode \<in> va_active vap then ucast (va_mode vap AND 0xFFF) else fsai_mode f0) \<and>
    fsai_size f = (if Va_data_size \<in> va_active vap then va_data_size vap else fsai_size f0) \<and>
    fsai_atime f = (if Va_access_time \<in> va_active vap then tv_sec (va_access_time vap) else fsai_atime f0) \<and>
    fsai_mtime f = (if Va_modify_time \<in> va_active vap then tv_sec (va_modify_time vap) else fsai_mtime f0) \<and>
    fsai_flags f = (if Va_flags \<in> va_active vap then va_flags vap else fsai_flags f0) \<and>
    (changed \<longleftrightarrow> Va_data_size \<in> va_active vap) \<and>
    newsize = (if Va_data_size \<in> va_active vap then va_data_size vap else 0)"
proof -
  have f: "f = fst (snd (fuse_internal_attr_vat2fsai d vp vap f0))"
    and c: "changed = (Va_data_size \<in> va_active vap)"
    and n: "newsize = (if Va_data_size \<in> va_active vap then va_data_size vap else 0)"
    using assms by (auto simp: fuse_internal_attr_vat2fsai_def Let_def VATTR_IS_ACTIVE_def)
  have bit: "flag_set (fsai_valid f) m \<longleftrightarrow>
      (Va_uid \<in> va_active vap \<and> va_uid vap \<noteq> -1 \<and> flag_set FATTR_UID m) \<or>
      (Va_gid \<in> va_active vap \<and> va_gid vap \<noteq> -1 \<and> flag_set FATTR_GID m) \<or>
      (Va_data_size \<in> va_active vap \<and> (flag_set FATTR_SIZE m \<or>
        (flag_set FATTR_FH m \<and> (\<exists>v h. vp = Some v \<and> truncation_handle v = Some h)))) \<or>
      (Va_access_time \<in> va_active vap \<and> flag_set FATTR_ATIME m) \<or>
      (Va_modify_time \<in> va_active vap \<and> flag_set FATTR_MTIME m) \<or>
      (fuse_isxtimes_mp d \<and>
        ((Va_backup_time \<in> va_active vap \<and> flag_set FATTR_BKUPTIME m) \<or>
         (Va_change_time \<in> va_active vap \<and> flag_set FATTR_CHGTIME m) \<or>
         (Va_create_time \<in> va_active vap \<and> flag_set FATTR_CRTIME m))) \<or>
      (Va_mode \<in> va_active vap \<and> flag_set FATTR_MODE m) \<or>
      (Va_flags \<in> va_active vap \<and> flag_set FATTR_FLAGS m)" for m
    by (simp only: f valid_vat2fsai valid_times valid_size valid_owner) auto
  have fields:
    "fsai_uid f = (if Va_uid \<in> va_active vap \<and> va_uid vap \<noteq> -1 then va_uid vap else fsai_uid f0)"
    "fsai_gid f = (if Va_gid \<in> va_active vap \<and> va_gid vap \<noteq> -1 then va_gid vap else fsai_gid f0)"
    "fsai_mode f = (if Va_mode \<in> va_active vap then ucast (va_mode vap AND 0xFFF) else fsai_mode f0)"
    "fsai_size f = (if Va_data_size \<in> va_active vap then va_data_size vap else fsai_size f0)"
    "fsai_atime f = (if Va_access_time \<in> va_active vap then tv_sec (va_access_time vap) else fsai_atime f0)"
    "fsai_mtime f = (if Va_modify_time \<in> va_active vap then tv_sec (va_modify_time vap) else fsai_mtime f0)"
    "fsai_flags f = (if Va_flags \<in> va_active vap then va_flags vap else fsai_flags f0)"
    by (simp_all add: f fuse_internal_attr_vat2fsai_def Let_def VATTR_IS_ACTIVE_def)
  show ?thesis
    using fields c n by (simp only: bit) (simp add: flag_set_def conj_commute)
qed

definition example_chmod :: vnode_attr where
  "example_chmod = example_attrs\<lparr>va_active := {Va_mode, Va_data_size}, va_mode := 0x81A4, va_data_size := 7\<rparr>"

definition example_fsai :: fuse_setattr_in where
  "example_fsai = \<lparr>fsai_valid = 0, fsai_fh = 0, fsai_size = 0, fsai_atime = 0, fsai_mtime = 0,
     fsai_atimensec = 0, fsai_mtimensec = 0, fsai_mode = 0, fsai_uid = 0, fsai_gid = 0,
     fsai_bkuptime = 0, fsai_chgtime = 0, fsai_crtime = 0, fsai_bkuptimensec = 0,
     fsai_chgtimensec = 0, fsai_crtimensec = 0, fsai_flags = 0\<rparr>"

theorem setattr_request_exact_witness:
  "\<exists>f vap'. fuse_internal_attr_vat2fsai (fdata_alloc example_daemon 9) (Some example_vnode)
      example_chmod example_fsai = (True, f, vap', 7) \<and>
    flag_set (fsai_valid f) FATTR_MODE \<and> \<not> flag_set (fsai_valid f) FATTR_UID \<and>
    fsai_mode f = 0x1A4 \<and> fsai_size f = 7"
proof -
  obtain f vap' where e: "fuse_internal_attr_vat2fsai (fdata_alloc example_daemon 9)
      (Some example_vnode) example_chmod example_fsai = (True, f, vap', 7)"
    by (simp add: fuse_internal_attr_vat2fsai_def Let_def VATTR_IS_ACTIVE_def example_chmod_def)
  show ?thesis
    using setattr_request_exact [OF e] e by (auto simp: example_chmod_def)
qed

lemma copy_fields [simp]:
  "va_nlink (loadvap_copy m i out) = va_nlink i"
  "va_uid (loadvap_copy m i out) = va_uid i"
  "va_gid (loadvap_copy m i out) = va_gid i"
  "va_rdev (loadvap_copy m i out) = va_rdev i"
  "va_flags (loadvap_copy m i out) = va_flags i"
  "va_type (loadvap_copy m i out) = va_type i"
  "va_mode (loadvap_copy m i out) = va_mode i"
  "va_modify_time (loadvap_copy m i out) = va_modify_time i"
  "va_access_time (loadvap_copy m i out) = va_access_time i"
  "va_change_time (loadvap_copy m i out) = va_change_time i"
  "va_data_size (loadvap_copy m i out) = va_data_size i"
  "va_fileid (loadvap_copy m i out) = va_fileid out"
  "va_linkid (loadvap_copy m i out) = va_linkid out"
  "va_parentid (loadvap_copy m i out) = va_parentid out"
  "va_active (loadvap_copy m i out) = va_active out"
  by (simp_all add: loadvap_copy_def Let_def VATTR_RETURN_def VATTR_SET_SUPPORTED_def)

lemma copy_supported:
  "va_supported (loadvap_copy m i out) \<supseteq> va_supported out \<union> {Va_data_size, Va_nlink, Va_uid, Va_gid,
     Va_mode, Va_type, Va_modify_time}"
  by (auto simp add: loadvap_copy_def Let_def VATTR_RETURN_def VATTR_SET_SUPPORTED_def)

lemma ids_fields [simp]:
  "va_fileid (loadvap_ids v out) = va_fileid (fv_cached_attr v)"
  "va_linkid (loadvap_ids v out) = va_linkid (fv_cached_attr v)"
  "Va_fileid \<in> va_supported (loadvap_ids v out)"
  by (simp_all add: loadvap_ids_def Let_def VATTR_RETURN_def VATTR_SET_SUPPORTED_def)

text \<open>What the size step leaves of the vnode: sizes agree, the other attributes stay.\<close>

lemma loadvap_size_node:
  assumes "loadvap_size m v = (v1, hint, ubc, purged)"
  shows "fv_filesize v1 = va_data_size (fv_cached_attr v1)"
    and "va_data_size (fv_cached_attr v1) =
      (if mnt_synchronous m then va_data_size (fv_cached_attr v) else fv_filesize v)"
    and "va_nlink (fv_cached_attr v1) = va_nlink (fv_cached_attr v)"
    and "va_uid (fv_cached_attr v1) = va_uid (fv_cached_attr v)"
    and "va_gid (fv_cached_attr v1) = va_gid (fv_cached_attr v)"
    and "va_rdev (fv_cached_attr v1) = va_rdev (fv_cached_attr v)"
    and "va_flags (fv_cached_attr v1) = va_flags (fv_cached_attr v)"
    and "va_type (fv_cached_attr v1) = va_type (fv_cached_attr v)"
    and "va_mode (fv_cached_attr v1) = va_mode (fv_cached_attr v)"
    and "va_modify_time (fv_cached_attr v1) = va_modify_time (fv_cached_attr v)"
    and "va_access_time (fv_cached_attr v1) = va_access_time (fv_cached_attr v)"
    and "va_change_time (fv_cached_attr v1) = va_change_time (fv_cached_attr v)"
  using assms
  by (auto simp: loadvap_size_def Let_def VATTR_RETURN_def VATTR_SET_SUPPORTED_def split: if_splits)

lemma loadvap_result:
  assumes "loadvap_size m v = (v1, hint, ubc, purged)"
  shows "lv_out (fuse_internal_attr_loadvap m False v out) =
      loadvap_copy m (fv_cached_attr v1) (loadvap_ids v out)"
    and "fv_filesize (lv_node (fuse_internal_attr_loadvap m False v out)) = fv_filesize v1"
    and "fv_modify_time (lv_node (fuse_internal_attr_loadvap m False v out)) =
      va_modify_time (fv_cached_attr v1)"
    and "flag_set (lv_hint (fuse_internal_attr_loadvap m False v out)) NOTE_EXTEND =
      flag_set hint NOTE_EXTEND"
  using assms
  by (simp_all add: fuse_internal_attr_loadvap_def Let_def flag_set_or) (simp_all add: flag_set_def)

lemma fat2vat_fields [simp]:
  "va_fileid (snd (fuse_internal_attr_fat2vat m v fat vap)) = at_ino fat"
  "va_linkid (snd (fuse_internal_attr_fat2vat m v fat vap)) = at_ino fat"
  "va_data_size (snd (fuse_internal_attr_fat2vat m v fat vap)) =
     (if mnt_synchronous m then at_size fat else fv_filesize v)"
  "va_nlink (snd (fuse_internal_attr_fat2vat m v fat vap)) = ucast (at_nlink fat)"
  "va_uid (snd (fuse_internal_attr_fat2vat m v fat vap)) = at_uid fat"
  "va_gid (snd (fuse_internal_attr_fat2vat m v fat vap)) = at_gid fat"
  "va_rdev (snd (fuse_internal_attr_fat2vat m v fat vap)) = at_rdev fat"
  "va_flags (snd (fuse_internal_attr_fat2vat m v fat vap)) = at_flags fat"
  "va_type (snd (fuse_internal_attr_fat2vat m v fat vap)) = IFTOVT (at_mode fat)"
  "va_mode (snd (fuse_internal_attr_fat2vat m v fat vap)) = ucast (at_mode fat AND NOT S_IFMT)"
  "tv_sec (va_modify_time (snd (fuse_internal_attr_fat2vat m v fat vap))) = at_mtime fat"
  "tv_sec (va_access_time (snd (fuse_internal_attr_fat2vat m v fat vap))) = at_atime fat"
  "tv_sec (va_change_time (snd (fuse_internal_attr_fat2vat m v fat vap))) = at_ctime fat"
  by (simp_all add: fuse_internal_attr_fat2vat_def Let_def VATTR_SET_SUPPORTED_def)

text \<open>
  What the daemon says about a file is what the kernel is given: after \<open>cache_attrs\<close> and
  \<open>loadvap\<close> every attribute is the daemon's, except that with asynchronous writes the size is the one
  the kernel extension keeps itself; and the kept size is the size given out.
\<close>

theorem attributes_reach_kernel:
  "let v1 = cache_attrs m up valid nsec fat v;
       r = fuse_internal_attr_loadvap m False v1 out in
    va_fileid (lv_out r) = at_ino fat \<and> va_linkid (lv_out r) = at_ino fat \<and>
    va_nlink (lv_out r) = ucast (at_nlink fat) \<and> va_uid (lv_out r) = at_uid fat \<and>
    va_gid (lv_out r) = at_gid fat \<and> va_rdev (lv_out r) = at_rdev fat \<and>
    va_flags (lv_out r) = at_flags fat \<and> va_type (lv_out r) = IFTOVT (at_mode fat) \<and>
    va_mode (lv_out r) = ucast (at_mode fat AND NOT S_IFMT) \<and>
    tv_sec (va_modify_time (lv_out r)) = at_mtime fat \<and>
    tv_sec (va_access_time (lv_out r)) = at_atime fat \<and>
    tv_sec (va_change_time (lv_out r)) = at_ctime fat \<and>
    va_data_size (lv_out r) = (if mnt_synchronous m then at_size fat else fv_filesize v) \<and>
    fv_filesize (lv_node r) = va_data_size (lv_out r) \<and>
    fv_modify_time (lv_node r) = va_modify_time (lv_out r) \<and>
    {Va_fileid, Va_nlink, Va_uid, Va_gid, Va_mode, Va_type, Va_data_size, Va_modify_time}
      \<subseteq> va_supported (lv_out r)"
proof -
  define v1 where "v1 = cache_attrs m up valid nsec fat v"
  obtain v2 hint ubc purged where e: "loadvap_size m v1 = (v2, hint, ubc, purged)"
    by (metis prod_cases4)
  have v1: "fv_cached_attr v1 =
      snd (fuse_internal_attr_fat2vat m (v\<lparr>fv_attr_valid := fv_attr_valid v1\<rparr>) fat (fv_cached_attr v))"
    and "fv_filesize v1 = fv_filesize v"
    by (simp_all add: v1_def cache_attrs_def Let_def)
  then show ?thesis
    using copy_supported [of "loadvap_ids v1 out" m "fv_cached_attr v2"]
    unfolding Let_def v1_def [symmetric]
    by (auto simp: loadvap_result [OF e] loadvap_size_node [OF e])
qed

text \<open>
  The notification of a change that was made behind the kernel's back is the wrong way round:
  \<open>loadvap\<close> reports an extension exactly when a file has shrunk, while the control request that sets
  a size reports one exactly when it grows.
\<close>

theorem extend_note_reversed:
  "(flag_set (lv_hint (fuse_internal_attr_loadvap m False v out)) NOTE_EXTEND \<longleftrightarrow>
     mnt_synchronous m \<and> va_data_size (fv_cached_attr v) <s fv_filesize v) \<and>
   (flag_set (ar_hint (fuse_internal_ioctl_avfi msync v
       (Some \<lparr>avfi_inode = i, avfi_cmd = FUSE_AVFI_UBC_SETSIZE, avfi_ubc_flags = u, avfi_note = 0,
              avfi_size = s\<rparr>))) NOTE_EXTEND \<longleftrightarrow> fv_filesize v <s s)"
proof -
  obtain v2 hint ubc purged where e: "loadvap_size m v = (v2, hint, ubc, purged)"
    by (metis prod_cases4)
  then have "flag_set hint NOTE_EXTEND \<longleftrightarrow>
      mnt_synchronous m \<and> va_data_size (fv_cached_attr v) <s fv_filesize v"
    by (auto simp: loadvap_size_def Let_def flag_set_def split: if_splits)
  then show ?thesis
    by (simp add: loadvap_result [OF e]) (simp add: fuse_internal_ioctl_avfi_def flag_set_def Let_def)
qed

text \<open>
  A request to flush a vnode's buffers answers \<open>EINVAL\<close> exactly when \<open>ubc_msync\<close> gives 0, which
  is its success.
\<close>

theorem avfi_flush_result:
  "ar_ret (fuse_internal_ioctl_avfi msync v
      (Some \<lparr>avfi_inode = i, avfi_cmd = FUSE_AVFI_UBC, avfi_ubc_flags = u, avfi_note = n,
             avfi_size = s\<rparr>)) = (if msync (u AND UBC_FLAGS) = 0 then EINVAL else 0)"
  by (simp add: Let_def fuse_internal_ioctl_avfi_def flag_set_def)

end
