(* ===== verification/Fuse_Wire.thy ===== *)
theory Fuse_Wire
  imports Fuse_Internal
begin

text \<open>
  The bodies of messages (the structures of \<open>fuse_kernel.h\<close>): the answers the kernel extension
  decodes, with the layout a daemon fills in, and the bodies of requests. A byte of a request body the
  code does not write is \<^term>\<open>None\<close>: it keeps what the buffer held.
\<close>

section \<open>Answers\<close>

definition get32 :: "nat \<Rightarrow> u8 list \<Rightarrow> u32" where
  "get32 off buf = le_dec (get_bytes off 4 buf)"

definition get64 :: "nat \<Rightarrow> u8 list \<Rightarrow> u64" where
  "get64 off buf = le_dec (get_bytes off 8 buf)"

definition put_attr :: "fuse_attr \<Rightarrow> u8 list" where
  "put_attr a =
     le_enc 8 (at_ino a) @ le_enc 8 (at_size a) @ le_enc 8 (at_blocks a) @ le_enc 8 (at_atime a) @
     le_enc 8 (at_mtime a) @ le_enc 8 (at_ctime a) @ le_enc 8 (at_crtime a) @
     le_enc 4 (at_atimensec a) @ le_enc 4 (at_mtimensec a) @ le_enc 4 (at_ctimensec a) @
     le_enc 4 (at_crtimensec a) @ le_enc 4 (at_mode a) @ le_enc 4 (at_nlink a) @
     le_enc 4 (at_uid a) @ le_enc 4 (at_gid a) @ le_enc 4 (at_rdev a) @ le_enc 4 (at_flags a)"

definition get_attr :: "nat \<Rightarrow> u8 list \<Rightarrow> fuse_attr" where
  "get_attr o1 buf =
     \<lparr>at_ino = get64 o1 buf, at_size = get64 (o1 + 8) buf, at_blocks = get64 (o1 + 16) buf,
      at_atime = get64 (o1 + 24) buf, at_mtime = get64 (o1 + 32) buf, at_ctime = get64 (o1 + 40) buf,
      at_crtime = get64 (o1 + 48) buf, at_atimensec = get32 (o1 + 56) buf,
      at_mtimensec = get32 (o1 + 60) buf, at_ctimensec = get32 (o1 + 64) buf,
      at_crtimensec = get32 (o1 + 68) buf, at_mode = get32 (o1 + 72) buf,
      at_nlink = get32 (o1 + 76) buf, at_uid = get32 (o1 + 80) buf, at_gid = get32 (o1 + 84) buf,
      at_rdev = get32 (o1 + 88) buf, at_flags = get32 (o1 + 92) buf\<rparr>"

definition put_entry_out :: "fuse_entry_out \<Rightarrow> u8 list" where
  "put_entry_out e =
     le_enc 8 (eo_nodeid e) @ le_enc 8 (eo_generation e) @ le_enc 8 (eo_entry_valid e) @
     le_enc 8 (eo_attr_valid e) @ le_enc 4 (eo_entry_valid_nsec e) @
     le_enc 4 (eo_attr_valid_nsec e) @ put_attr (eo_attr e)"

definition get_entry_out :: "u8 list \<Rightarrow> fuse_entry_out" where
  "get_entry_out buf =
     \<lparr>eo_nodeid = get64 0 buf, eo_generation = get64 8 buf, eo_entry_valid = get64 16 buf,
      eo_attr_valid = get64 24 buf, eo_entry_valid_nsec = get32 32 buf,
      eo_attr_valid_nsec = get32 36 buf, eo_attr = get_attr 40 buf\<rparr>"

record fuse_attr_out =
  ao_attr_valid :: u64
  ao_attr_valid_nsec :: u32
  ao_dummy :: u32
  ao_attr :: fuse_attr

definition put_attr_out :: "fuse_attr_out \<Rightarrow> u8 list" where
  "put_attr_out a =
     le_enc 8 (ao_attr_valid a) @ le_enc 4 (ao_attr_valid_nsec a) @ le_enc 4 (ao_dummy a) @
     put_attr (ao_attr a)"

definition get_attr_out :: "u8 list \<Rightarrow> fuse_attr_out" where
  "get_attr_out buf =
     \<lparr>ao_attr_valid = get64 0 buf, ao_attr_valid_nsec = get32 8 buf, ao_dummy = get32 12 buf,
      ao_attr = get_attr 16 buf\<rparr>"

record fuse_open_out =
  oo_fh :: u64
  oo_open_flags :: u32

definition get_open_out :: "nat \<Rightarrow> u8 list \<Rightarrow> fuse_open_out" where
  "get_open_out o1 buf = \<lparr>oo_fh = get64 o1 buf, oo_open_flags = get32 (o1 + 8) buf\<rparr>"

record fuse_kstatfs =
  st_blocks :: u64
  st_bfree :: u64
  st_bavail :: u64
  st_files :: u64
  st_ffree :: u64
  st_bsize :: u32
  st_namelen :: u32
  st_frsize :: u32

definition get_kstatfs :: "u8 list \<Rightarrow> fuse_kstatfs" where
  "get_kstatfs buf =
     \<lparr>st_blocks = get64 0 buf, st_bfree = get64 8 buf, st_bavail = get64 16 buf,
      st_files = get64 24 buf, st_ffree = get64 32 buf, st_bsize = get32 40 buf,
      st_namelen = get32 44 buf, st_frsize = get32 48 buf\<rparr>"

record fuse_init_out =
  io_major :: u32
  io_minor :: u32
  io_max_readahead :: u32
  io_flags :: u32
  io_max_write :: u32

definition get_init_out :: "u8 list \<Rightarrow> fuse_init_out" where
  "get_init_out buf =
     \<lparr>io_major = get32 0 buf, io_minor = get32 4 buf, io_max_readahead = get32 8 buf,
      io_flags = get32 12 buf, io_max_write = get32 20 buf\<rparr>"

text \<open>Reading a field from behind others.\<close>

lemma get_bytes_append:
  "get_bytes off n (xs @ ys) =
     (if length xs \<le> off then get_bytes (off - length xs) n ys
      else if off + n \<le> length xs then get_bytes off n xs
      else get_bytes off n (xs @ ys))"
  by (simp add: get_bytes_def drop_append take_append)

lemma get32_enc [simp]: "get32 0 (le_enc 4 w @ ys) = w"
  by (simp add: get32_def get_bytes_def take_append)

lemma get64_enc [simp]: "get64 0 (le_enc 8 w @ ys) = w"
  by (simp add: get64_def get_bytes_def take_append)

lemma get32_skip [simp]: "n \<le> off \<Longrightarrow> get32 off (le_enc n w @ ys) = get32 (off - n) ys"
  by (simp add: get32_def get_bytes_append [of off _ "le_enc n w"])

lemma get64_skip [simp]: "n \<le> off \<Longrightarrow> get64 off (le_enc n w @ ys) = get64 (off - n) ys"
  by (simp add: get64_def get_bytes_append [of off _ "le_enc n w"])

lemma length_put_attr [simp, codec_simps]: "length (put_attr a) = 96"
  by (simp add: put_attr_def)

lemma get_attr_skip [simp]: "n \<le> off \<Longrightarrow> get_attr off (le_enc n w @ ys) = get_attr (off - n) ys"
  by (simp add: get_attr_def)

lemma get_put_attr [simp]: "get_attr 0 (put_attr a @ ys) = a"
  by (simp add: get_attr_def put_attr_def)

text \<open>
  An entry the daemon lays out as \<open>fuse_kernel.h\<close> says has the size the audit of a lookup's answer
  asks for and is read back unchanged; so are the attributes in the answer to \<open>GETATTR\<close>.
\<close>

theorem answers_round_trip:
  "get_entry_out (put_entry_out e) = e \<and> length (put_entry_out e) = sizeof_entry_out \<and>
   body_length_ok abi rsize FUSE_LOOKUP (length (put_entry_out e)) = Some True \<and>
   get_attr_out (put_attr_out a) = a \<and> length (put_attr_out a) = sizeof_attr_out \<and>
   body_length_ok abi rsize FUSE_GETATTR (length (put_attr_out a)) = Some True"
  using get_put_attr [of "eo_attr e" "[]"] get_put_attr [of "ao_attr a" "[]"]
  by (simp add: get_entry_out_def put_entry_out_def get_attr_out_def put_attr_out_def
      sizeof_entry_out_def sizeof_attr_out_def)

section \<open>Bodies of requests\<close>

type_synonym body = "u8 option list"

definition b32 :: "u32 \<Rightarrow> body" where "b32 w = map Some (le_enc 4 w)"
definition b64 :: "u64 \<Rightarrow> body" where "b64 w = map Some (le_enc 8 w)"
definition bgap :: "nat \<Rightarrow> body" where "bgap n = replicate n None"

text \<open>A name of the given length copied from memory, with the null the code writes after it.\<close>

definition bname :: "u8 list \<Rightarrow> nat \<Rightarrow> body" where
  "bname mem n = map Some (take n mem) @ [Some 0]"

text \<open>\<open>fuse_setattr_in\<close>, as far as the code fills it in; the fields not listed are left alone.\<close>

definition setattr_body :: "fuse_setattr_in \<Rightarrow> body" where
  "setattr_body f =
     b32 (fsai_valid f) @ bgap 4 @ b64 (fsai_fh f) @ b64 (fsai_size f) @ bgap 8 @
     b64 (fsai_atime f) @ b64 (fsai_mtime f) @ bgap 8 @ b32 (fsai_atimensec f) @
     b32 (fsai_mtimensec f) @ bgap 4 @ b32 (fsai_mode f) @ bgap 4 @ b32 (fsai_uid f) @
     b32 (fsai_gid f) @ bgap 4 @ b64 (fsai_bkuptime f) @ b64 (fsai_chgtime f) @
     b64 (fsai_crtime f) @ b32 (fsai_bkuptimensec f) @ b32 (fsai_chgtimensec f) @
     b32 (fsai_crtimensec f) @ b32 (fsai_flags f)"

end
