(* ===== verification/Fuse_Upcall.thy ===== *)
theory Fuse_Upcall
  imports Fuse_Wire
begin

text \<open>
  Operations that ask the daemon. An operation runs until it needs an answer or a service of the
  kernel, gives the request away and goes on with the answer and with the state the other threads have
  left meanwhile. On 64-bit kernels the per-mount lock of \<open>fuse_biglock_vnops.c\<close> keeps the others out
  while the daemon is asked, and lets them in around the services of the kernel; on 32-bit kernels
  there is no such lock and they run in both cases, which is what is modelled. Such an operation is a
  value of \<open>upcall\<close>: finished, stopped at a request with its continuation, or crashed.

  \<open>fuse_world\<close> is what the operations of one mount share: the mount and its session, the node hash with
  the nodes' data, and a log of what they tell the kernel, in its order.
\<close>

section \<open>Operations\<close>

text \<open>More errno values of the platform, with \<open>EJUSTRETURN\<close>, which only the kernel sees.\<close>

abbreviation (input) E2BIG :: int where "E2BIG \<equiv> 7"
abbreviation (input) EBADF :: int where "EBADF \<equiv> 9"
abbreviation (input) EXDEV :: int where "EXDEV \<equiv> 18"
abbreviation (input) ENOTDIR :: int where "ENOTDIR \<equiv> 20"
abbreviation (input) EISDIR :: int where "EISDIR \<equiv> 21"
abbreviation (input) EFBIG :: int where "EFBIG \<equiv> 27"
abbreviation (input) EMLINK :: int where "EMLINK \<equiv> 31"
abbreviation (input) ERANGE :: int where "ERANGE \<equiv> 34"
abbreviation (input) ENOATTR :: int where "ENOATTR \<equiv> 93"
abbreviation (input) EJUSTRETURN :: int where "EJUSTRETURN \<equiv> -2"

record request =
  rq_op :: fuse_opcode
  rq_nodeid :: u64
  rq_body :: body
  rq_ctx :: "vfs_context option"

type_synonym name = "u8 list"

text \<open>
  The interfaces of the kernel whose answers the code uses, and what they answer: an errno, a vnode,
  a time, a number or bytes.
\<close>

datatype kcall =
    K_vnode_create hnp vtype u64 bool "vnode option"
  | K_vnode_getwithvid vnode
  | K_vnode_authorize vnode u32
  | K_vnode_isinuse vnode int
  | K_vnode_isrecycled vnode
  | K_vnode_ref vnode
  | K_vnode_get vnode
  | K_vnode_getname vnode
  | K_vfs_busy
  | K_uptime
  | K_msleep
  | K_hash_sleep
  | K_cache_lookup vnode name
  | K_uiomove "u8 list"
  | K_uiomove_in nat
  | K_ubc_msync vnode u64 u32
  | K_cluster_read vnode u64 u32
  | K_cluster_write vnode u64 u64 u64 u64 u32
  | K_cluster_pagein vnode u64 nat u64 u32
  | K_cluster_pageout vnode u64 nat u64 u32
  | K_cluster_bp
  | K_vnode_hasdirtyblks vnode
  | K_vflush "vnode option" bool
  | K_buf_map

record kret =
  kr_err :: int
  kr_vnode :: "vnode option"
  kr_time :: timespec
  kr_count :: nat
  kr_bytes :: "u8 list"

text \<open>
  \<open>Stuck\<close> is a loop that has used up the rounds given to it.
\<close>

datatype ('s, 'a) upcall =
    Done 'a 's
  | Ask request 's "fdisp_result \<Rightarrow> 's \<Rightarrow> ('s, 'a) upcall"
  | Call kcall 's "kret \<Rightarrow> 's \<Rightarrow> ('s, 'a) upcall"
  | Stuck 's
  | Crash

lemma upcall_induct [case_names Done Ask Call Stuck Crash]:
  assumes "\<And>a s. P (Done a s)" and "\<And>r s k. (\<And>x t. P (k x t)) \<Longrightarrow> P (Ask r s k)"
    and "\<And>c s k. (\<And>x t. P (k x t)) \<Longrightarrow> P (Call c s k)" and "\<And>s. P (Stuck s)" and "P Crash"
  shows "P p"
proof (induction p)
  case (Ask r s k)
  show ?case by (rule assms(2)) (rule Ask.IH [OF rangeI rangeI])
next
  case (Call c s k)
  show ?case by (rule assms(3)) (rule Call.IH [OF rangeI rangeI])
qed (simp_all add: assms)

primrec upcall_bind ::
  "('s, 'a) upcall \<Rightarrow> ('a \<Rightarrow> 's \<Rightarrow> ('s, 'b) upcall) \<Rightarrow> ('s, 'b) upcall" where
  "upcall_bind (Done a s) f = f a s"
| "upcall_bind (Ask r s k) f = Ask r s (\<lambda>x t. upcall_bind (k x t) f)"
| "upcall_bind (Call c s k) f = Call c s (\<lambda>x t. upcall_bind (k x t) f)"
| "upcall_bind (Stuck s) f = Stuck s"
| "upcall_bind Crash f = Crash"

text \<open>Following a pointer: a bad one crashes.\<close>

definition need :: "'a option \<Rightarrow> ('a \<Rightarrow> ('s, 'b) upcall) \<Rightarrow> ('s, 'b) upcall" where
  "need x f = (case x of None \<Rightarrow> Crash | Some a \<Rightarrow> f a)"

lemma need_simps [simp]: "need (Some a) f = f a" "need None f = Crash"
  by (simp_all add: need_def)

lemma upcall_bind_need [simp]: "upcall_bind (need x f) g = need x (\<lambda>a. upcall_bind (f a) g)"
  by (simp add: need_def split: option.split)

lemma upcall_bind_if [simp]:
  "upcall_bind (if b then p else q) f = (if b then upcall_bind p f else upcall_bind q f)"
  by simp

lemma upcall_bind_assoc [simp]:
  "upcall_bind (upcall_bind p f) g = upcall_bind p (\<lambda>a s. upcall_bind (f a s) g)"
  by (induction p rule: upcall_induct) (auto simp: fun_eq_iff)

text \<open>
  Running an operation in an environment: \<open>env s r\<close> is the answer to \<open>r\<close> and the state it comes back
  to, \<open>kern s c\<close> what the kernel answers. The requests it makes are listed in their order.
\<close>

record 's environment =
  ev_daemon :: "'s \<Rightarrow> request \<Rightarrow> fdisp_result \<times> 's"
  ev_kernel :: "'s \<Rightarrow> kcall \<Rightarrow> kret \<times> 's"

primrec run_upcall :: "'s environment \<Rightarrow> ('s, 'a) upcall \<Rightarrow> ('a \<times> 's) option" where
  "run_upcall E (Done a s) = Some (a, s)"
| "run_upcall E (Ask r s k) = (case ev_daemon E s r of (x, t) \<Rightarrow> run_upcall E (k x t))"
| "run_upcall E (Call c s k) = (case ev_kernel E s c of (x, t) \<Rightarrow> run_upcall E (k x t))"
| "run_upcall E (Stuck s) = None"
| "run_upcall E Crash = None"

primrec requests_of :: "'s environment \<Rightarrow> ('s, 'a) upcall \<Rightarrow> request list" where
  "requests_of E (Done a s) = []"
| "requests_of E (Ask r s k) = r # (case ev_daemon E s r of (x, t) \<Rightarrow> requests_of E (k x t))"
| "requests_of E (Call c s k) = (case ev_kernel E s c of (x, t) \<Rightarrow> requests_of E (k x t))"
| "requests_of E (Stuck s) = []"
| "requests_of E Crash = []"

lemma run_upcall_bind:
  "run_upcall E (upcall_bind p f) =
     (case run_upcall E p of None \<Rightarrow> None | Some (a, s) \<Rightarrow> run_upcall E (f a s))"
  by (induction p rule: upcall_induct) (auto split: prod.split)

text \<open>
  \<open>guarantees R K Q p\<close>: whatever the daemon answers and the other threads do within \<open>R\<close> while \<open>p\<close>
  waits, and whatever the kernel does within its contract \<open>K\<close>, \<open>p\<close> does not crash and ends with \<open>Q\<close>.
  \<open>conforms\<close> is the same but for loops that use up their rounds.
\<close>

type_synonym 's daemon_contract = "request \<Rightarrow> 's \<Rightarrow> fdisp_result \<Rightarrow> 's \<Rightarrow> bool"
type_synonym 's contract = "kcall \<Rightarrow> 's \<Rightarrow> kret \<Rightarrow> 's \<Rightarrow> bool"

primrec ensures ::
  "bool \<Rightarrow> 's daemon_contract \<Rightarrow> 's contract \<Rightarrow> ('a \<Rightarrow> 's \<Rightarrow> bool) \<Rightarrow> ('s, 'a) upcall \<Rightarrow> bool" where
  "ensures b R K Q (Done a s) \<longleftrightarrow> Q a s"
| "ensures b R K Q (Ask r s k) \<longleftrightarrow> (\<forall>x t. R r s x t \<longrightarrow> ensures b R K Q (k x t))"
| "ensures b R K Q (Call c s k) \<longleftrightarrow> (\<forall>x t. K c s x t \<longrightarrow> ensures b R K Q (k x t))"
| "ensures b R K Q (Stuck s) \<longleftrightarrow> b"
| "ensures b R K Q Crash \<longleftrightarrow> False"

abbreviation "guarantees \<equiv> ensures False"
abbreviation "conforms \<equiv> ensures True"

lemma ensures_bind:
  "ensures b R K P p \<Longrightarrow> (\<And>a s. P a s \<Longrightarrow> ensures b R K Q (f a s)) \<Longrightarrow>
   ensures b R K Q (upcall_bind p f)"
  by (induction p rule: upcall_induct) auto

lemma ensures_mono:
  "ensures b R K P p \<Longrightarrow> (\<And>a s. P a s \<Longrightarrow> Q a s) \<Longrightarrow> ensures b R K Q p"
  by (induction p rule: upcall_induct) auto

lemma ensures_conj:
  "ensures b R K P p \<Longrightarrow> ensures b R K Q p \<Longrightarrow> ensures b R K (\<lambda>a s. P a s \<and> Q a s) p"
  by (induction p rule: upcall_induct) auto

lemma ensures_need: "ensures b R K Q (need x f) \<longleftrightarrow> (\<exists>a. x = Some a \<and> ensures b R K Q (f a))"
  by (cases x) auto

text \<open>
  The interface between an operation and its environment: an environment within \<open>R\<close> and \<open>K\<close> gives an
  operation that \<open>guarantees\<close> its result a run that ends with it.
\<close>

locale upcall_environment =
  fixes E :: "'s environment" and R :: "'s daemon_contract" and K :: "'s contract"
  assumes daemon_within: "R r s (fst (ev_daemon E s r)) (snd (ev_daemon E s r))"
    and kernel_within: "K c s (fst (ev_kernel E s c)) (snd (ev_kernel E s c))"
begin

lemma run_guaranteed:
  "guarantees R K Q p \<Longrightarrow> \<exists>a s. run_upcall E p = Some (a, s) \<and> Q a s"
proof (induction p rule: upcall_induct)
  case (Done a s)
  then show ?case by simp
next
  case (Ask r s k)
  obtain x t where e: "ev_daemon E s r = (x, t)" by force
  then have "R r s x t" using daemon_within [of r s] by simp
  with Ask.prems have "guarantees R K Q (k x t)" by simp
  then have "\<exists>a u. run_upcall E (k x t) = Some (a, u) \<and> Q a u"
    by (rule Ask.IH)
  with e show ?case by simp
next
  case (Call c s k)
  obtain x t where e: "ev_kernel E s c = (x, t)" by force
  then have "K c s x t" using kernel_within [of c s] by simp
  with Call.prems have "guarantees R K Q (k x t)" by simp
  then have "\<exists>a u. run_upcall E (k x t) = Some (a, u) \<and> Q a u"
    by (rule Call.IH)
  with e show ?case by simp
next
  case (Stuck s)
  then show ?case by simp
next
  case Crash
  then show ?case by simp
qed

lemma run_conforms:
  "conforms R K Q p \<Longrightarrow> run_upcall E p = Some (a, s) \<Longrightarrow> Q a s"
proof (induction p rule: upcall_induct)
  case (Ask r u k)
  obtain x t where e: "ev_daemon E u r = (x, t)" by force
  then have "R r u x t" using daemon_within [of r u] by simp
  with Ask.prems have "conforms R K Q (k x t)" by simp
  then show ?case using Ask.IH Ask.prems(2) e by simp
next
  case (Call c u k)
  obtain x t where e: "ev_kernel E u c = (x, t)" by force
  then have "K c u x t" using kernel_within [of c u] by simp
  with Call.prems have "conforms R K Q (k x t)" by simp
  then show ?case using Call.IH Call.prems(2) e by simp
qed simp_all

end

section \<open>The state of a mount\<close>

text \<open>What an operation tells the kernel or sends to the daemon without waiting.\<close>

datatype effect =
    Ef_send request "fuse_handler option option"
  | Ef_knote vnode u32
  | Ef_cache_enter vnode "vnode option" name
  | Ef_cache_purge vnode
  | Ef_cache_purge_negatives vnode
  | Ef_ubc vnode ubc_call
  | Ef_cluster_push vnode
  | Ef_vnode_recycle vnode
  | Ef_vn_revoke vnode
  | Ef_kludge_exchange vnode vnode
  | Ef_vnode_put vnode
  | Ef_vnode_rele vnode
  | Ef_proc_signal int
  | Ef_setnocache vnode
  | Ef_setnoreadahead vnode
  | Ef_ubc_flush vnode
  | Ef_wakeup_creator vnode
  | Ef_upl_abort vnode

record fuse_world =
  w_mnt :: fuse_mount
  w_rdonly :: bool
  w_isforce :: bool
  w_hash :: hash_state
  w_brk :: hnp
  w_dev :: u64
  w_fud :: "hnp \<rightharpoonup> fuse_vnode_data"
  w_held :: nat
  w_log :: "effect list"

abbreviation w_data :: "fuse_world \<Rightarrow> fuse_data" where "w_data w \<equiv> mnt_data (w_mnt w)"

definition set_data :: "(fuse_data \<Rightarrow> fuse_data) \<Rightarrow> fuse_world \<Rightarrow> fuse_world" where
  "set_data f w = w\<lparr>w_mnt := (w_mnt w)\<lparr>mnt_data := f (w_data w)\<rparr>\<rparr>"

definition emit :: "effect \<Rightarrow> fuse_world \<Rightarrow> fuse_world" where
  "emit e w = w\<lparr>w_log := w_log w @ [e]\<rparr>"

definition VTOFUD :: "vnode \<Rightarrow> fuse_world \<Rightarrow> fuse_vnode_data option" where
  "VTOFUD vp w = do { p \<leftarrow> gh_fsnode (w_hash w) vp; w_fud w p }"

definition set_fud :: "vnode \<Rightarrow> (fuse_vnode_data \<Rightarrow> fuse_vnode_data) \<Rightarrow> fuse_world \<Rightarrow> fuse_world" where
  "set_fud vp f w =
     (case gh_fsnode (w_hash w) vp of
        None \<Rightarrow> w
      | Some p \<Rightarrow> w\<lparr>w_fud := (w_fud w)(p := map_option f (w_fud w p))\<rparr>)"

lemma VTOFUD_Some:
  "VTOFUD vp w = Some v \<longleftrightarrow> (\<exists>p. gh_fsnode (w_hash w) vp = Some p \<and> w_fud w p = Some v)"
  by (auto simp: VTOFUD_def split: bind_splits)

text \<open>
  Asking and waiting: \<open>fdisp_init\<close>, \<open>fdisp_make\<close>, writing the body and \<open>fdisp_wait_answ\<close>. A request
  that is answered without error leaves its ticket with the operation, which has to drop it;
  \<open>w_held\<close> counts the tickets an operation holds. Dropping one it does not hold is a crash here:
  the ticket would be recycled under its next user. \<open>reask\<close> makes the next request with the ticket of
  the last one (\<open>fdip->tick\<close> not null).
\<close>

definition ask ::
  "request \<Rightarrow> fuse_world \<Rightarrow> (fdisp_result \<Rightarrow> fuse_world \<Rightarrow> (fuse_world, 'a) upcall) \<Rightarrow>
     (fuse_world, 'a) upcall" where
  "ask r w k =
     Ask r w (\<lambda>x t. k x (if fr_err x = 0 then t\<lparr>w_held := w_held t + 1\<rparr> else t))"

definition fuse_drop ::
  "fuse_world \<Rightarrow> (fuse_world \<Rightarrow> (fuse_world, 'a) upcall) \<Rightarrow> (fuse_world, 'a) upcall" where
  "fuse_drop w k = (if w_held w = 0 then Crash else k (w\<lparr>w_held := w_held w - 1\<rparr>))"

definition reask ::
  "bool \<Rightarrow> request \<Rightarrow> fuse_world \<Rightarrow> (fdisp_result \<Rightarrow> fuse_world \<Rightarrow> (fuse_world, 'a) upcall) \<Rightarrow>
     (fuse_world, 'a) upcall" where
  "reask first r w k = (if first then ask r w k else fuse_drop w (\<lambda>w. ask r w k))"

text \<open>
  A request about a vnode: its node number is that of the vnode. \<open>ask_vp\<close> is \<open>fdisp_make_vp\<close>
  with \<open>fdisp_wait_answ\<close>; \<open>fdisp_simple_putget_vp\<close> does so without a body.
\<close>

definition ask_vp ::
  "fuse_opcode \<Rightarrow> vnode \<Rightarrow> body \<Rightarrow> vfs_context option \<Rightarrow> fuse_world \<Rightarrow>
     (fdisp_result \<Rightarrow> fuse_world \<Rightarrow> (fuse_world, 'a) upcall) \<Rightarrow> (fuse_world, 'a) upcall" where
  "ask_vp op vp body ctx w k =
     need (VTOFUD vp w) (\<lambda>v.
       ask \<lparr>rq_op = op, rq_nodeid = fv_nodeid v, rq_body = body, rq_ctx = ctx\<rparr> w k)"

definition fdisp_simple_putget_vp ::
  "fuse_opcode \<Rightarrow> vnode \<Rightarrow> vfs_context \<Rightarrow> fuse_world \<Rightarrow>
     (fdisp_result \<Rightarrow> fuse_world \<Rightarrow> (fuse_world, 'a) upcall) \<Rightarrow> (fuse_world, 'a) upcall" where
  "fdisp_simple_putget_vp op vp ctx = ask_vp op vp [] (Some ctx)"

text \<open>
  The common pattern of a request whose answer carries nothing: the ticket of a success is dropped,
  the errno is the result.
\<close>

definition ask_errno ::
  "fuse_opcode \<Rightarrow> vnode \<Rightarrow> body \<Rightarrow> vfs_context option \<Rightarrow> fuse_world \<Rightarrow>
     (int \<Rightarrow> fuse_world \<Rightarrow> (fuse_world, 'a) upcall) \<Rightarrow> (fuse_world, 'a) upcall" where
  "ask_errno op vp body ctx w k =
     ask_vp op vp body ctx w (\<lambda>x w.
       if fr_err x = 0 then fuse_drop w (k 0) else k (fr_err x) w)"

text \<open>\<open>fuse_invalidate_attr(vp)\<close>.\<close>

definition invalidate_attr :: "vnode \<Rightarrow> fuse_world \<Rightarrow> fuse_world" where
  "invalidate_attr vp = set_fud vp fuse_invalidate_attr"

lemma world_simps [simp]:
  "w_held (set_data f w) = w_held w" "w_held (emit e w) = w_held w" "w_held (set_fud vp g w) = w_held w"
  "w_hash (set_data f w) = w_hash w" "w_hash (emit e w) = w_hash w" "w_hash (set_fud vp g w) = w_hash w"
  "w_fud (set_data f w) = w_fud w" "w_fud (emit e w) = w_fud w"
  "w_data (set_data f w) = f (w_data w)" "w_mnt (emit e w) = w_mnt w" "w_mnt (set_fud vp g w) = w_mnt w"
  "w_log (set_data f w) = w_log w" "w_log (emit e w) = w_log w @ [e]" "w_log (set_fud vp g w) = w_log w"
  "w_rdonly (set_data f w) = w_rdonly w" "w_rdonly (emit e w) = w_rdonly w"
  "w_rdonly (set_fud vp g w) = w_rdonly w"
  "w_isforce (set_data f w) = w_isforce w" "w_isforce (emit e w) = w_isforce w"
  "w_isforce (set_fud vp g w) = w_isforce w"
  by (simp_all add: set_data_def emit_def set_fud_def split: option.split)

lemma VTOFUD_simps [simp]:
  "VTOFUD vp (set_data g w) = VTOFUD vp w" "VTOFUD vp (emit e w) = VTOFUD vp w"
  "VTOFUD vp (w\<lparr>w_held := h\<rparr>) = VTOFUD vp w" "VTOFUD vp (w\<lparr>w_log := l\<rparr>) = VTOFUD vp w"
  by (simp_all add: VTOFUD_def set_data_def emit_def)

lemma VTOFUD_set_same [simp]: "VTOFUD vp (set_fud vp f w) = map_option f (VTOFUD vp w)"
  by (auto simp: VTOFUD_def set_fud_def split: option.split bind_splits)

lemma VTOFUD_set_live [simp]: "VTOFUD vq (set_fud vp f w) = None \<longleftrightarrow> VTOFUD vq w = None"
  by (auto simp: VTOFUD_def set_fud_def split: option.split bind_splits)

end
