(* ===== verification/Fuse_Threads.thy ===== *)
theory Fuse_Threads
  imports Fuse_Upcall
begin

text \<open>
  What an operation may rely on while it waits, and what it keeps for the others. The other threads
  do not take its tickets, do not reclaim the vnodes it has references on, and use the node hash by
  its protocol (\<open>hash_inv\<close> of the node hash, with this operation as the thread 0). The kernel keeps
  the contract of its interfaces.
\<close>

section \<open>The node hash in the world\<close>

text \<open>How far an operation is in creating a vnode.\<close>

datatype stage = St_idle | St_look looker | St_get looker hnp vnode | St_attach hnp

fun stage_ok :: "stage \<Rightarrow> hsys \<Rightarrow> bool" where
  "stage_ok St_idle s = (hs_look s 0 = None)"
| "stage_ok (St_look l) s = (hs_look s 0 = Some (l, None) \<and> lk_forkIndex l = 0)"
| "stage_ok (St_get l p vn) s = (hs_look s 0 = Some (l, Some (p, vn)) \<and> lk_forkIndex l = 0)"
| "stage_ok (St_attach p) s = (hs_look s 0 = None \<and> hs_att s p = Some 0)"

text \<open>
  The node hash with its users as a system, the addresses from \<open>w_brk\<close> on are free, a vnode has its
  data, and only nodes have data.
\<close>

definition hash_at :: "hsys \<Rightarrow> fuse_world \<Rightarrow> bool" where
  "hash_at s w \<longleftrightarrow> hs_h s = w_hash w \<and> hash_inv s \<and>
     (\<forall>q\<ge>w_brk w. gh_nodes (w_hash w) q = None \<and> \<not> held s q) \<and>
     (\<forall>vn p. gh_fsnode (w_hash w) vn = Some p \<longrightarrow> w_fud w p \<noteq> None) \<and>
     (\<forall>p. gh_nodes (w_hash w) p = None \<longrightarrow> w_fud w p = None)"

definition hash_stage :: "stage \<Rightarrow> fuse_world \<Rightarrow> bool" where
  "hash_stage st w \<longleftrightarrow> (\<exists>s. hash_at s w \<and> stage_ok st s)"

definition live :: "vnode set \<Rightarrow> fuse_world \<Rightarrow> bool" where
  "live V w \<longleftrightarrow> (\<forall>vp\<in>V. VTOFUD vp w \<noteq> None)"

definition staged :: "vnode set \<Rightarrow> nat \<Rightarrow> stage \<Rightarrow> fuse_world \<Rightarrow> bool" where
  "staged V n st w \<longleftrightarrow> w_held w = n \<and> live V w \<and> hash_stage st w"

text \<open>Between two requests an operation is not creating a vnode.\<close>

abbreviation steady :: "vnode set \<Rightarrow> nat \<Rightarrow> fuse_world \<Rightarrow> bool" where
  "steady V n \<equiv> staged V n St_idle"

section \<open>Rely and contract\<close>

definition keeps :: "vnode set \<Rightarrow> stage \<Rightarrow> fuse_world \<Rightarrow> fuse_world \<Rightarrow> bool" where
  "keeps V st w t \<longleftrightarrow> (\<forall>n. staged V n st w \<longrightarrow> staged V n st t)"

text \<open>
  The message layer lets an answer through when \<open>fuse_body_audit\<close> accepts its length. The size a
  \<open>READ\<close> or \<open>READDIR\<close> asks for is the third field of its body.
\<close>

definition requested_size :: "request \<Rightarrow> nat" where
  "requested_size r = unat (get32 16 (map (\<lambda>b. case b of None \<Rightarrow> 0 | Some x \<Rightarrow> x) (rq_body r)))"

definition answer_audited :: "fuse_data \<Rightarrow> request \<Rightarrow> fdisp_result \<Rightarrow> bool" where
  "answer_audited d r x \<longleftrightarrow>
     body_length_ok (fuse_libabi_geq d 7 4) (requested_size r) (rq_op r) (length (fr_answ x)) = Some True"

definition world_rely :: "vnode set \<Rightarrow> fuse_world daemon_contract" where
  "world_rely V r w x t \<longleftrightarrow>
     keeps V St_idle w t \<and> (fr_err x = 0 \<longrightarrow> answer_audited (w_data t) r x)"

fun kernel_rely :: "vnode set \<Rightarrow> fuse_world contract" where
  "kernel_rely V K_hash_sleep w x t \<longleftrightarrow> (\<forall>l. keeps V (St_look l) w t)"
| "kernel_rely V (K_vnode_getwithvid vn) w x t \<longleftrightarrow>
     (\<forall>l p. keeps V (St_get l p vn) w t) \<and> (kr_err x = 0 \<longrightarrow> VTOFUD vn t \<noteq> None)"
| "kernel_rely V (K_vnode_create p ty sz root dvp) w x t \<longleftrightarrow>
     keeps V (St_attach p) w t \<and> (w_fud w p \<noteq> None \<longrightarrow> w_fud t p \<noteq> None) \<and>
     (kr_err x = 0 \<longrightarrow> (\<exists>vn. kr_vnode x = Some vn \<and> gh_fsnode (w_hash t) vn = None))"
| "kernel_rely V (K_cache_lookup dvp nm) w x t \<longleftrightarrow> keeps V St_idle w t \<and>
     (kr_err x = -1 \<longrightarrow> (\<exists>vp. kr_vnode x = Some vp \<and> VTOFUD vp t \<noteq> None))"
| "kernel_rely V K_uptime w x t \<longleftrightarrow> t = w"
| "kernel_rely V (K_vnode_isinuse vp k) w x t \<longleftrightarrow> t = w"
| "kernel_rely V c w x t \<longleftrightarrow> keeps V St_idle w t"

fun waits_idle :: "kcall \<Rightarrow> bool" where
  "waits_idle K_hash_sleep = False"
| "waits_idle (K_vnode_getwithvid vn) = False"
| "waits_idle (K_vnode_create p ty sz root dvp) = False"
| "waits_idle K_uptime = False"
| "waits_idle c = True"

lemma kernel_rely_idle: "waits_idle c \<Longrightarrow> kernel_rely V c w x t \<Longrightarrow> keeps V St_idle w t"
  by (cases c) (simp_all add: keeps_def)

lemma keepsD: "keeps V st w t \<Longrightarrow> staged V n st w \<Longrightarrow> staged V n st t"
  by (simp add: keeps_def)

text \<open>
  \<open>steady_op V n p\<close>: in any such environment \<open>p\<close> does not crash, drops exactly the tickets it was
  given, and leaves the node hash to the others as it should be.
\<close>

abbreviation steady_op :: "vnode set \<Rightarrow> nat \<Rightarrow> (fuse_world, 'a) upcall \<Rightarrow> bool" where
  "steady_op V n \<equiv> conforms (world_rely V) (kernel_rely V) (\<lambda>a. steady V n)"

section \<open>Changes that keep the state steady\<close>

lemma hash_at_simps [simp]:
  "hash_at s (set_data g w) = hash_at s w" "hash_at s (emit e w) = hash_at s w"
  "hash_at s (w\<lparr>w_held := m\<rparr>) = hash_at s w" "hash_at s (w\<lparr>w_log := l\<rparr>) = hash_at s w"
  "hash_at s (w\<lparr>w_mnt := mt\<rparr>) = hash_at s w"
  by (simp_all add: hash_at_def set_data_def emit_def)

lemma w_fud_set_fud: "w_fud (set_fud vp f w) p = None \<longleftrightarrow> w_fud w p = None"
  by (auto simp: set_fud_def split: option.split)

lemma w_brk_set_fud [simp]: "w_brk (set_fud vp f w) = w_brk w"
  by (simp add: set_fud_def split: option.split)

lemma hash_at_set_fud [simp]: "hash_at s (set_fud vp f w) = hash_at s w"
  by (simp add: hash_at_def w_fud_set_fud)

lemma live_simps [simp]:
  "live V (set_data g w) = live V w" "live V (emit e w) = live V w" "live V (set_fud vp f w) = live V w"
  "live V (w\<lparr>w_held := h\<rparr>) = live V w" "live V (w\<lparr>w_log := l\<rparr>) = live V w"
  "live V (w\<lparr>w_mnt := mt\<rparr>) = live V w"
  by (simp_all add: live_def) (simp add: VTOFUD_def)

lemma staged_simps [simp]:
  "staged V n st (set_data g w) = staged V n st w" "staged V n st (emit e w) = staged V n st w"
  "staged V n st (set_fud vp f w) = staged V n st w" "staged V n st (invalidate_attr vp w) = staged V n st w"
  "staged V n st (w\<lparr>w_log := l\<rparr>) = staged V n st w"
  "staged V n st (w\<lparr>w_mnt := mt\<rparr>) = staged V n st w"
  by (simp_all add: staged_def invalidate_attr_def hash_stage_def)

lemma staged_live: "staged V n st w \<Longrightarrow> vp \<in> V \<Longrightarrow> \<exists>v. VTOFUD vp w = Some v"
  by (auto simp: staged_def live_def)

lemma staged_held: "staged V n st w \<Longrightarrow> w_held w = n"
  by (simp add: staged_def)

section \<open>Operations that keep the state steady\<close>

named_theorems steady_intros \<open>rules for operations that keep the state steady\<close>

abbreviation "steady_within b V Q \<equiv> ensures b (world_rely V) (kernel_rely V) Q"
abbreviation "steady_until V Q \<equiv> steady_within True V Q"

lemma ensures_Done [steady_intros]: "Q a w \<Longrightarrow> ensures b R K Q (Done a w)"
  by simp

lemma ensures_if [steady_intros]:
  "(c \<Longrightarrow> ensures b R K Q p) \<Longrightarrow> (\<not> c \<Longrightarrow> ensures b R K Q q) \<Longrightarrow> ensures b R K Q (if c then p else q)"
  by simp

lemma ensures_Let [steady_intros]: "(\<And>y. y = x \<Longrightarrow> ensures b R K Q (f y)) \<Longrightarrow> ensures b R K Q (Let x f)"
  by simp

lemma ensures_option [steady_intros]:
  "(x = None \<Longrightarrow> ensures b R K Q p) \<Longrightarrow> (\<And>a. x = Some a \<Longrightarrow> ensures b R K Q (f a)) \<Longrightarrow>
   ensures b R K Q (case x of None \<Rightarrow> p | Some a \<Rightarrow> f a)"
  by (simp split: option.split)

lemma ensures_pair [steady_intros]:
  "(\<And>a c. x = (a, c) \<Longrightarrow> ensures b R K Q (f a c)) \<Longrightarrow> ensures b R K Q (case x of (a, c) \<Rightarrow> f a c)"
  by (simp split: prod.split)

lemma steady_need [steady_intros]:
  assumes "staged V n st w" and "vp \<in> V" and "\<And>v. VTOFUD vp w = Some v \<Longrightarrow> ensures b R K Q (f v)"
  shows "ensures b R K Q (need (VTOFUD vp w) f)"
  using assms by (auto dest!: staged_live)

lemma steady_ask [steady_intros]:
  assumes "steady V n w"
    and "\<And>x t. fr_err x = 0 \<Longrightarrow> answer_audited (w_data t) r x \<Longrightarrow> steady V (Suc n) t \<Longrightarrow> steady_within b V Q (k x t)"
    and "\<And>x t. fr_err x \<noteq> 0 \<Longrightarrow> steady V n t \<Longrightarrow> steady_within b V Q (k x t)"
  shows "steady_within b V Q (ask r w k)"
proof -
  have "steady_within b V Q (k x (if fr_err x = 0 then t\<lparr>w_held := w_held t + 1\<rparr> else t))"
    if r: "world_rely V r w x t" for x t
  proof -
    have t: "steady V n t" using r assms(1) by (auto simp: world_rely_def dest: keepsD)
    then have "steady V (Suc n) (t\<lparr>w_held := w_held t + 1\<rparr>)" by (simp add: staged_def hash_stage_def)
    with t show ?thesis using assms(2,3) r by (simp add: world_rely_def)
  qed
  then show ?thesis by (simp add: ask_def)
qed

lemma steady_drop [steady_intros]:
  assumes "staged V (Suc n) st w"
    and "staged V n st (w\<lparr>w_held := n\<rparr>) \<Longrightarrow> ensures b R K Q (k (w\<lparr>w_held := n\<rparr>))"
  shows "ensures b R K Q (fuse_drop w k)"
  using assms by (simp add: fuse_drop_def staged_def hash_stage_def)

lemma steady_call [steady_intros]:
  assumes "steady V n w" and "waits_idle c" and "\<And>x t. steady V n t \<Longrightarrow> steady_within b V Q (k x t)"
  shows "steady_within b V Q (Call c w k)"
  using assms by (auto dest!: kernel_rely_idle keepsD)

lemma steady_ask_vp [steady_intros]:
  assumes "steady V n w" and "vp \<in> V"
    and "\<And>(v :: fuse_vnode_data) x t. fr_err x = 0 \<Longrightarrow> answer_audited (w_data t)
           \<lparr>rq_op = op, rq_nodeid = fv_nodeid v, rq_body = body, rq_ctx = ctx\<rparr> x \<Longrightarrow>
           steady V (Suc n) t \<Longrightarrow> steady_within b V Q (k x t)"
    and "\<And>x t. fr_err x \<noteq> 0 \<Longrightarrow> steady V n t \<Longrightarrow> steady_within b V Q (k x t)"
  shows "steady_within b V Q (ask_vp op vp body ctx w k)"
  unfolding ask_vp_def
proof (rule steady_need [OF assms(1,2)])
  fix v :: fuse_vnode_data
  show "steady_within b V Q (ask \<lparr>rq_op = op, rq_nodeid = fv_nodeid v, rq_body = body, rq_ctx = ctx\<rparr> w k)"
    by (rule steady_ask [OF assms(1)]) (rule assms(3) assms(4); assumption)+
qed

lemma steady_ask_errno [steady_intros]:
  assumes "steady V n w" and "vp \<in> V" and "\<And>e t. steady V n t \<Longrightarrow> steady_within b V Q (k e t)"
  shows "steady_within b V Q (ask_errno op vp body ctx w k)"
  unfolding ask_errno_def
  by (rule steady_ask_vp [OF assms(1,2)]) (auto intro: assms(3) steady_drop)

lemma steady_bind [steady_intros]:
  assumes "steady_within b V (\<lambda>a. steady V n) p" and "\<And>a t. steady V n t \<Longrightarrow> steady_within b V Q (f a t)"
  shows "steady_within b V Q (upcall_bind p f)"
  using assms by (rule ensures_bind) simp_all

text \<open>Reading the clock lets nobody else in.\<close>

lemma steady_uptime [steady_intros]:
  "(\<And>x. ensures b R (kernel_rely V) Q (k x w)) \<Longrightarrow> ensures b R (kernel_rely V) Q (Call K_uptime w k)"
  by simp

section \<open>Environments that keep the contract\<close>

text \<open>
  A mount that one process uses at a time: the daemon answers, and an answer the audit does not
  accept ends as an error; the kernel gives references on vnodes that are there and creates vnodes
  where \<open>fresh\<close> says.
\<close>

definition quiet_daemon :: "(request \<Rightarrow> fdisp_result) \<Rightarrow> fuse_world \<Rightarrow> request \<Rightarrow> fdisp_result \<times> fuse_world" where
  "quiet_daemon daemon w r =
     (if fr_err (daemon r) = 0 \<and> \<not> answer_audited (w_data w) r (daemon r)
      then ((daemon r)\<lparr>fr_err := EIO\<rparr>, w) else (daemon r, w))"

definition quiet_kernel ::
  "(fuse_world \<Rightarrow> vnode) \<Rightarrow> (kcall \<Rightarrow> kret) \<Rightarrow> fuse_world \<Rightarrow> kcall \<Rightarrow> kret \<times> fuse_world" where
  "quiet_kernel fresh other w c =
     (case c of
        K_vnode_getwithvid vn \<Rightarrow>
          ((other c)\<lparr>kr_err := if VTOFUD vn w = None then ENOENT else kr_err (other c)\<rparr>, w)
      | K_vnode_create p ty sz root dvp \<Rightarrow>
          (if gh_fsnode (w_hash w) (fresh w) = None
           then ((other c)\<lparr>kr_vnode := Some (fresh w)\<rparr>, w) else ((other c)\<lparr>kr_err := ENOMEM\<rparr>, w))
      | K_cache_lookup dvp nm \<Rightarrow>
          (case kr_vnode (other c) of
             Some vp \<Rightarrow> ((other c)\<lparr>kr_err := if VTOFUD vp w = None then 0 else kr_err (other c)\<rparr>, w)
           | None \<Rightarrow> ((other c)\<lparr>kr_err := if kr_err (other c) = -1 then 0 else kr_err (other c)\<rparr>, w))
      | _ \<Rightarrow> (other c, w))"

definition quiet_environment ::
  "(request \<Rightarrow> fdisp_result) \<Rightarrow> (fuse_world \<Rightarrow> vnode) \<Rightarrow> (kcall \<Rightarrow> kret) \<Rightarrow> fuse_world environment" where
  "quiet_environment daemon fresh other =
     \<lparr>ev_daemon = quiet_daemon daemon, ev_kernel = quiet_kernel fresh other\<rparr>"

lemma keeps_refl [simp]: "keeps V st w w"
  by (simp add: keeps_def)

lemma quiet_kernel_rely:
  "kernel_rely V c w (fst (quiet_kernel fresh other w c)) (snd (quiet_kernel fresh other w c))"
  by (cases c) (auto simp: quiet_kernel_def split: option.split)

interpretation quiet: upcall_environment "quiet_environment daemon fresh other" "world_rely V" "kernel_rely V"
  for daemon fresh other V
  by unfold_locales
    (simp_all add: quiet_environment_def quiet_kernel_rely quiet_daemon_def world_rely_def)

end
