(* ===== verification/Fuse_Node.thy ===== *)
theory Fuse_Node
  imports Fuse_Threads
begin

text \<open>
  File handles and vnodes: \<open>fuse_file.c\<close>, \<open>fuse_node.c\<close>, and the operations of
  \<open>fuse_internal.c\<close> that create, revoke and forget a vnode.
\<close>

section \<open>Making a vnode disappear\<close>

abbreviation (input) REVOKE_NONE :: int where "REVOKE_NONE \<equiv> 0"
abbreviation (input) REVOKE_SOFT :: int where "REVOKE_SOFT \<equiv> 1"
abbreviation (input) REVOKE_HARD :: int where "REVOKE_HARD \<equiv> 2"

definition fuse_internal_revoke :: "vnode \<Rightarrow> int \<Rightarrow> fuse_world \<Rightarrow> fuse_world" where
  "fuse_internal_revoke vp how w =
     (let w1 = set_fud vp (\<lambda>v. v\<lparr>fv_flag := fv_flag v OR FN_REVOKED\<rparr>) w
      in if how = REVOKE_HARD then emit (Ef_vn_revoke vp) w1 else w1)"

definition fuse_internal_vnode_disappear ::
  "vnode \<Rightarrow> int \<Rightarrow> fuse_world \<Rightarrow> (fuse_world, unit) upcall" where
  "fuse_internal_vnode_disappear vp how w =
     (let w1 = emit (Ef_cache_purge vp) w in
      if how \<noteq> REVOKE_NONE
      then need (VTOFUD vp w1) (\<lambda>v.
             Call (K_vnode_isrecycled vp) (fuse_internal_revoke vp how w1) (\<lambda>x w.
               Done () (if kr_err x = 0 then emit (Ef_vnode_recycle vp) w else w)))
      else Done () w1)"

section \<open>File handles\<close>

definition set_fufh ::
  "vnode \<Rightarrow> fufh_type \<Rightarrow> (fuse_filehandle \<Rightarrow> fuse_filehandle) \<Rightarrow> fuse_world \<Rightarrow> fuse_world" where
  "set_fufh vp type f =
     set_fud vp (\<lambda>v. v\<lparr>fv_fufh := (fv_fufh v)(type := f (fv_fufh v type))\<rparr>)"

definition FUFH_USE_INC :: "fuse_filehandle \<Rightarrow> fuse_filehandle" where
  "FUFH_USE_INC f = f\<lparr>open_count := open_count f + 1\<rparr>"
definition FUFH_USE_DEC :: "fuse_filehandle \<Rightarrow> fuse_filehandle" where
  "FUFH_USE_DEC f = f\<lparr>open_count := open_count f - 1\<rparr>"
definition FUFH_USE_RESET :: "fuse_filehandle \<Rightarrow> fuse_filehandle" where
  "FUFH_USE_RESET f = f\<lparr>open_count := 0\<rparr>"
definition FUFH_AUX_INC :: "fuse_filehandle \<Rightarrow> fuse_filehandle" where
  "FUFH_AUX_INC f = f\<lparr>aux_count := aux_count f + 1\<rparr>"

text \<open>
  Opening a file through the daemon. A handle that is already open is a panic, as is a type that is
  no index of the table.
\<close>

definition fuse_filehandle_get ::
  "vnode \<Rightarrow> vfs_context option \<Rightarrow> fufh_type \<Rightarrow> u32 \<Rightarrow> fuse_world \<Rightarrow> (fuse_world, int) upcall" where
  "fuse_filehandle_get vp ctx type mode w =
     need (VTOFUD vp w) (\<lambda>v.
       if type = FUFH_INVALID \<or> FUFH_IS_VALID (fv_fufh v type) then Crash
       else
         let op = (if vnode_isdir v then FUSE_OPENDIR else FUSE_OPEN);
             oflags = (if vnode_islnk v \<and> flag_set mode O_SYMLINK
                       then fuse_filehandle_xlate_to_oflags type OR O_SYMLINK
                       else fuse_filehandle_xlate_to_oflags type)
         in ask_vp op vp (b32 oflags @ bgap 4) ctx w (\<lambda>x w.
              if fr_err x = ENOENT
              then upcall_bind
                     (fuse_internal_vnode_disappear vp REVOKE_SOFT (emit (Ef_cache_purge vp) w))
                     (\<lambda>_. Done ENOENT)
              else if fr_err x \<noteq> 0 then Done (fr_err x) w
              else
                let foo = get_open_out 0 (fr_answ x) in
                fuse_drop (set_fufh vp type
                  (\<lambda>_. \<lparr>fh_id = oo_fh foo, open_count = 1, open_flags = oflags,
                        fuse_open_flags = oo_open_flags foo, aux_count = 0\<rparr>) w) (Done 0)))"

text \<open>Releasing a handle that is no longer in use, with or without waiting for the daemon.\<close>

definition release_body :: "fuse_filehandle \<Rightarrow> body" where
  "release_body f = b64 (fh_id f) @ b32 (open_flags f) @ bgap 4 @ bgap 8"

definition fuse_filehandle_put ::
  "vnode \<Rightarrow> vfs_context option \<Rightarrow> fufh_type \<Rightarrow> bool \<Rightarrow> fuse_world \<Rightarrow> (fuse_world, int) upcall" where
  "fuse_filehandle_put vp ctx type foreground w =
     need (VTOFUD vp w) (\<lambda>v.
       if type = FUFH_INVALID \<or> FUFH_IS_VALID (fv_fufh v type) then Crash
       else if fuse_isdeadfs (w_data w) v then Done 0 (invalidate_attr vp w)
       else
         let op = (if vnode_isdir v then FUSE_RELEASEDIR else FUSE_RELEASE);
             body = release_body (fv_fufh v type)
         in if foreground
            then ask_errno op vp body ctx w (\<lambda>err w. Done err (invalidate_attr vp w))
            else Done 0 (invalidate_attr vp (emit (Ef_send
                   \<lparr>rq_op = op, rq_nodeid = fv_nodeid v, rq_body = body, rq_ctx = ctx\<rparr>
                   (Some None)) w)))"

text \<open>
  The check before a handle is opened on behalf of a process. Only the actions that are decided by
  the kernel ask it.
\<close>

definition preflight_action :: "fufh_type \<Rightarrow> u32" where
  "preflight_action type =
     (case type of FUFH_RDONLY \<Rightarrow> KAUTH_VNODE_READ_DATA
      | FUFH_WRONLY \<Rightarrow> KAUTH_VNODE_WRITE_DATA
      | FUFH_RDWR \<Rightarrow> KAUTH_VNODE_READ_DATA OR KAUTH_VNODE_WRITE_DATA
      | FUFH_INVALID \<Rightarrow> 0)"

definition preflight ::
  "vnode \<Rightarrow> fufh_type \<Rightarrow> fuse_world \<Rightarrow> (int \<Rightarrow> fuse_world \<Rightarrow> (fuse_world, 'a) upcall) \<Rightarrow>
     (fuse_world, 'a) upcall" where
  "preflight vp type w k =
     need (VTOFUD vp w) (\<lambda>v.
       if mnt_authopaque (w_mnt w) \<or> \<not> mnt_synchronous (w_mnt w) \<or> \<not> vnode_isreg v \<or>
          type = FUFH_INVALID
       then k (fuse_filehandle_preflight_status (\<lambda>_. 0) (w_mnt w) v type) w
       else Call (K_vnode_authorize vp (preflight_action type)) w (\<lambda>x.
              k (fuse_filehandle_preflight_status (\<lambda>_. kr_err x) (w_mnt w) v type)))"

section \<open>Creating the vnode of an entry\<close>

text \<open>
  The lookup in the node hash as part of an operation, with \<open>n\<close> rounds: \<open>w_brk\<close> is where the next
  node is allocated. It gives the node with its vnode, or without one when the caller has to attach
  it.
\<close>

fun hnode_lookup ::
  "nat \<Rightarrow> looker \<Rightarrow> fuse_world \<Rightarrow> (fuse_world, hnp \<times> vnode option) upcall" where
  "hnode_lookup 0 l w = Stuck w"
| "hnode_lookup (Suc n) l w =
     need (HNodeLookup_iterate (w_brk w) l (w_hash w)) (\<lambda>(r, l1, h1).
       let w1 = w\<lparr>w_hash := h1,
                  w_brk := if lk_newNode l = None \<and> lk_newNode l1 \<noteq> None then w_brk w + 1
                           else w_brk w\<rparr>
       in case r of
            Lk_again \<Rightarrow> hnode_lookup n l1 w1
          | Lk_sleep \<Rightarrow> Call K_hash_sleep w1 (\<lambda>x. hnode_lookup n l1)
          | Lk_getwithvid p vn \<Rightarrow>
              Call (K_vnode_getwithvid vn) w1 (\<lambda>x t.
                if kr_err x = 0 then Done (p, Some vn) t else hnode_lookup n l1 t)
          | Lk_attach p \<Rightarrow> Done (p, None) w1)"

definition zero_handle :: fuse_filehandle where
  "zero_handle = \<lparr>fh_id = 0, open_count = 0, open_flags = 0, fuse_open_flags = 0, aux_count = 0\<rparr>"

definition zero_attr :: vnode_attr where
  "zero_attr = \<lparr>va_supported = {}, va_active = {}, va_fsid = 0, va_fileid = 0, va_linkid = 0,
     va_parentid = 0, va_gen = 0, va_data_size = 0, va_data_alloc = 0, va_mode = 0, va_nlink = 0,
     va_uid = 0, va_gid = 0, va_rdev = 0, va_type = VNON, va_iosize = 0, va_flags = 0,
     va_access_time = zero_time, va_change_time = zero_time, va_modify_time = zero_time,
     va_create_time = zero_time, va_backup_time = zero_time\<rparr>"

text \<open>The data of a new vnode, in memory that was zeroed.\<close>

definition new_fud ::
  "u32 \<Rightarrow> fuse_entry_out \<Rightarrow> (vnode \<times> u64) option \<Rightarrow> fuse_vnode_data" where
  "new_fud flags feo parent =
     \<lparr>fv_nodeid = eo_nodeid feo, fv_generation = eo_generation feo,
      fv_parentvp = map_option fst parent,
      fv_parent_nodeid = (case parent of None \<Rightarrow> 0 | Some (dvp, nid) \<Rightarrow> nid),
      fv_fufh = (\<lambda>_. zero_handle), fv_flag = flags, fv_c_flag = 0,
      fv_modify_time = \<lparr>tv_sec = at_mtime (eo_attr feo),
                        tv_nsec = ucast (at_mtimensec (eo_attr feo))\<rparr>,
      fv_entry_valid = \<lparr>tv_sec = eo_entry_valid feo, tv_nsec = ucast (eo_entry_valid_nsec feo)\<rparr>,
      fv_attr_valid = \<lparr>tv_sec = eo_attr_valid feo, tv_nsec = ucast (eo_attr_valid_nsec feo)\<rparr>,
      fv_cached_attr = zero_attr,
      fv_filesize = (if flag_set flags FN_IS_ROOT then 0 else at_size (eo_attr feo)),
      fv_nlookup = 0, fv_vtype = IFTOVT (at_mode (eo_attr feo)),
      fv_isvroot = flag_set flags FN_IS_ROOT\<rparr>"

text \<open>The rounds of the lookup; without other threads four are enough (\<open>lookup_terminates\<close>).\<close>

definition lookup_rounds :: nat where "lookup_rounds = 64"

text \<open>What \<open>vnode_create\<close> does to the state when it succeeds: the vnode refers to the node.\<close>

definition vnode_created :: "vnode \<Rightarrow> hnp \<Rightarrow> vtype \<Rightarrow> bool \<Rightarrow> fuse_world \<Rightarrow> fuse_world" where
  "vnode_created vn p vtyp markroot w =
     set_fud vn (\<lambda>v. v\<lparr>fv_vtype := vtyp, fv_isvroot := markroot\<rparr>)
       (w\<lparr>w_hash := (w_hash w)\<lparr>gh_fsnode := (gh_fsnode (w_hash w))(vn \<mapsto> p)\<rparr>\<rparr>)"

text \<open>Attaching a new vnode to its node, or giving the node up.\<close>

definition fsnode_create ::
  "u32 \<Rightarrow> fuse_entry_out \<Rightarrow> vnode option \<Rightarrow> hnp \<Rightarrow> fuse_world \<Rightarrow> (fuse_world, int \<times> vnode option) upcall" where
  "fsnode_create flags feo dvp p w =
     (let vtyp = IFTOVT (at_mode (eo_attr feo));
          markroot = flag_set flags FN_IS_ROOT;
          fvsize = (if markroot then 0 else at_size (eo_attr feo))
      in Call (K_vnode_create p vtyp fvsize markroot dvp) w (\<lambda>x w.
           if kr_err x = 0
           then need (kr_vnode x) (\<lambda>vn.
             let w1 = vnode_created vn p vtyp markroot w;
                 w2 = set_fud vn (\<lambda>v. v\<lparr>fv_parentvp := if markroot then Some vn else dvp\<rparr>) w1
             in need (HNodeAttachVNodeSucceeded p 0 vn (w_hash w2)) (\<lambda>h.
                  Done (0, Some vn) (w2\<lparr>w_hash := h\<rparr>)))
           else
             need (HNodeAttachVNodeFailed p 0 (w_hash w)) (\<lambda>(scrub, h).
               if scrub
               then need (HNodeScrubDone p h) (\<lambda>h1.
                      Done (kr_err x, None) (w\<lparr>w_hash := h1, w_fud := (w_fud w)(p := None)\<rparr>))
               else Done (kr_err x, None) (w\<lparr>w_hash := h\<rparr>))))"

definition fsnode_attach ::
  "u32 \<Rightarrow> fuse_entry_out \<Rightarrow> vnode option \<Rightarrow> hnp \<Rightarrow> fuse_world \<Rightarrow> (fuse_world, int \<times> vnode option) upcall" where
  "fsnode_attach flags feo dvp p w =
     (let init = (\<lambda>parent. fsnode_create flags feo dvp p
                    (w\<lparr>w_fud := (w_fud w)(p \<mapsto> new_fud flags feo parent)\<rparr>))
      in if w_fud w p \<noteq> None then fsnode_create flags feo dvp p w
         else case dvp of
                None \<Rightarrow> init None
              | Some d \<Rightarrow> need (VTOFUD d w) (\<lambda>dv. init (Some (d, fv_nodeid dv))))"

text \<open>A vnode that changed its type or generation is thrown away.\<close>

definition fsnode_check ::
  "fuse_entry_out \<Rightarrow> vnode \<Rightarrow> fuse_world \<Rightarrow> (fuse_world, int \<times> vnode option) upcall" where
  "fsnode_check feo vn w =
     need (VTOFUD vn w) (\<lambda>v.
       if fv_vtype v \<noteq> IFTOVT (at_mode (eo_attr feo))
       then upcall_bind (fuse_internal_vnode_disappear vn REVOKE_SOFT w)
              (\<lambda>_ w. Done (EIO, None) (emit (Ef_vnode_put vn) w))
       else if fv_generation v \<noteq> eo_generation feo
       then upcall_bind (fuse_internal_vnode_disappear vn REVOKE_SOFT w)
              (\<lambda>_ w. Done (ESTALE, None) (emit (Ef_vnode_put vn) w))
       else Done (0, Some vn) w)"

definition FSNodeGetOrCreateFileVNodeByID ::
  "u32 \<Rightarrow> fuse_entry_out \<Rightarrow> vnode option \<Rightarrow> fuse_world \<Rightarrow> (fuse_world, int \<times> vnode option) upcall" where
  "FSNodeGetOrCreateFileVNodeByID flags feo dvp w =
     (if IFTOVT (at_mode (eo_attr feo)) \<in> {VBAD, VSTR, VCPLX, VNON} then Done (EINVAL, None) w
      else upcall_bind (hnode_lookup lookup_rounds (lookup_start (w_dev w) (eo_nodeid feo) 0) w)
        (\<lambda>(p, found) w.
          case found of
            Some vn \<Rightarrow> fsnode_check feo vn w
          | None \<Rightarrow> upcall_bind (fsnode_attach flags feo dvp p w) (\<lambda>(err, vn) w.
              case vn of None \<Rightarrow> Done (err, None) w | Some vn \<Rightarrow> fsnode_check feo vn w)))"

text \<open>The names of directory entries as the kernel passes them.\<close>

datatype nameiop = NI_LOOKUP | NI_CREATE | NI_DELETE | NI_RENAME

record componentname =
  cn_nameptr :: "u8 list"
  cn_namelen :: nat
  cn_nameiop :: nameiop
  cn_makeentry :: bool
  cn_islastcn :: bool
  cn_isdotdot :: bool

definition cn_name :: "componentname \<Rightarrow> name" where
  "cn_name cnp = take (cn_namelen cnp) (cn_nameptr cnp)"

definition fuse_vget_i ::
  "u32 \<Rightarrow> fuse_entry_out \<Rightarrow> componentname \<Rightarrow> vnode \<Rightarrow> fuse_world \<Rightarrow>
     (fuse_world, int \<times> vnode option) upcall" where
  "fuse_vget_i flags feo cnp dvp w =
     upcall_bind (FSNodeGetOrCreateFileVNodeByID flags feo (Some dvp) w) (\<lambda>(err, vpp) w.
       case vpp of
         None \<Rightarrow> Done (err, None) w
       | Some vp \<Rightarrow>
           let w1 = (if \<not> fuse_isnovncache_mp (w_data w) \<and> cn_makeentry cnp
                     then emit (Ef_cache_enter dvp (Some vp) (cn_name cnp)) w else w)
           in Done (0, Some vp) (set_fud vp (\<lambda>v. v\<lparr>fv_nlookup := fv_nlookup v + 1\<rparr>) w1))"

section \<open>Creating a vnode among other threads\<close>

text \<open>What an iteration changes: nodes are only added, the one the thread holds at most.\<close>

lemma lookup_status_effect:
  assumes "HNodeLookup_status p l h = Some (r, l1, h1)"
  shows "(\<forall>q. gh_nodes h1 q = None \<longleftrightarrow> gh_nodes h q = None) \<and> gh_fsnode h1 = gh_fsnode h \<and>
    lk_newNode l1 = lk_newNode l \<and> lk_forkIndex l1 = lk_forkIndex l"
  using assms
  by (auto simp: HNodeLookup_status_def Let_def bind_eq_Some_conv
      split: if_splits option.splits)

lemma HNodeInsert_fields [simp]:
  "gh_nodes (HNodeInsert p n l h) = (gh_nodes h)(p \<mapsto> n)" "gh_fsnode (HNodeInsert p n l h) = gh_fsnode h"
  by (simp_all add: HNodeInsert_def Let_def)

lemma lookup_iterate_effect:
  assumes "HNodeLookup_iterate q l h = Some (r, l1, h1)"
  shows "(\<forall>p. gh_nodes h1 p = None \<longrightarrow> gh_nodes h p = None) \<and>
    (\<forall>p. gh_nodes h1 p \<noteq> None \<longrightarrow> gh_nodes h p \<noteq> None \<or> (\<exists>n. lk_newNode l = Some (p, n))) \<and>
    gh_fsnode h1 = gh_fsnode h \<and> lk_forkIndex l1 = lk_forkIndex l \<and>
    (lk_newNode l1 = lk_newNode l \<or> lk_newNode l1 = None \<or>
     (lk_newNode l = None \<and> (\<exists>n. lk_newNode l1 = Some (q, n))))"
proof -
  from assms obtain found where f: "find_node (gh_nodes h) (lk_dev l) (lk_ino l)
      (gHashTable h (HNodeGetFirstFromHashTable h (lk_dev l) (lk_ino l))) = Some found"
    by (auto simp: HNodeLookup_iterate_def bind_eq_Some_conv)
  show ?thesis
  proof (cases found)
    case (Some p)
    with assms f have "HNodeLookup_status p l h = Some (r, l1, h1)" by (simp add: HNodeLookup_iterate_def)
    from lookup_status_effect [OF this] show ?thesis by simp
  next
    case None
    show ?thesis
    proof (cases "lk_newNode l")
      case None
      with assms f \<open>found = None\<close> show ?thesis by (auto simp: HNodeLookup_iterate_def)
    next
      case (Some pn)
      then obtain p n where pn: "lk_newNode l = Some (p, n)" by (cases pn) auto
      with assms f \<open>found = None\<close> have
        "HNodeLookup_status p (l\<lparr>lk_newNode := None\<rparr>) (HNodeInsert p n l h) = Some (r, l1, h1)"
        by (simp add: HNodeLookup_iterate_def)
      from lookup_status_effect [OF this] pn show ?thesis by (auto split: if_splits)
    qed
  qed
qed

lemma after_iterate_fields [simp]:
  "hs_h (after_iterate t s (r, l, h)) = h" "hs_scrub (after_iterate t s (r, l, h)) = hs_scrub s"
  "hs_look (after_iterate t s (r, l, h)) =
     (hs_look s)(t := case r of Lk_again \<Rightarrow> Some (l, None) | Lk_sleep \<Rightarrow> Some (l, None)
        | Lk_getwithvid p vn \<Rightarrow> Some (l, Some (p, vn)) | Lk_attach p \<Rightarrow> None)"
  "hs_att (after_iterate t s (r, l, h)) =
     (case r of Lk_attach p \<Rightarrow> (hs_att s)(p \<mapsto> lk_forkIndex l) | _ \<Rightarrow> hs_att s)"
  by (simp_all add: after_iterate_def split: lookup_result.split)

text \<open>One iteration within the world: the new state of the system.\<close>

definition stage_after :: "lookup_result \<Rightarrow> looker \<Rightarrow> stage" where
  "stage_after r l =
     (case r of Lk_again \<Rightarrow> St_look l | Lk_sleep \<Rightarrow> St_look l
      | Lk_getwithvid p vn \<Rightarrow> St_get l p vn | Lk_attach p \<Rightarrow> St_attach p)"

lemma iterate_staged:
  assumes "staged V n (St_look l) w"
  obtains r l1 h1 where "HNodeLookup_iterate (w_brk w) l (w_hash w) = Some (r, l1, h1)"
    and "staged V n (stage_after r l1) (w\<lparr>w_hash := h1,
           w_brk := if lk_newNode l = None \<and> lk_newNode l1 \<noteq> None then w_brk w + 1 else w_brk w\<rparr>)"
proof -
  obtain s where s: "hash_at s w" and l: "hs_look s 0 = Some (l, None)" and k: "lk_forkIndex l = 0"
    using assms by (auto simp: staged_def hash_stage_def)
  have h: "hs_h s = w_hash w" "hash_inv s"
    and brk: "\<And>q. w_brk w \<le> q \<Longrightarrow> gh_nodes (w_hash w) q = None \<and> \<not> held s q"
    using s by (auto simp: hash_at_def)
  obtain r l1 h1 where it: "HNodeLookup_iterate (w_brk w) l (w_hash w) = Some (r, l1, h1)"
      and inv: "hash_inv (after_iterate 0 s (r, l1, h1))"
    using lookup_iterate_ok [OF h(2) l, of "w_brk w"] brk h(1) by (metis order_refl prod_cases3)
  note eff = lookup_iterate_effect [OF it]
  let ?s = "after_iterate 0 s (r, l1, h1)"
  let ?b = "if lk_newNode l = None \<and> lk_newNode l1 \<noteq> None then w_brk w + 1 else w_brk w"
  have mine: "p < w_brk w" if "lk_newNode l = Some (p, m)" for p m
    using brk [of p] l that by (fastforce simp: held_def)
  have old: "held s q \<or> (\<exists>m. lk_newNode l1 = Some (q, m))" if "held ?s q" for q
    using that by (auto simp: held_def split: if_splits lookup_result.splits)
  have "gh_nodes h1 q = None \<and> \<not> held ?s q" if q: "?b \<le> q" for q
  proof -
    have q': "w_brk w \<le> q" using q by (auto split: if_splits)
    have new: "lk_newNode l1 \<noteq> Some (q, m)" for m
      using q q' eff mine [of q m] by (auto split: if_splits)
    have "gh_nodes h1 q = None" using eff brk [OF q'] mine [of q] q' by fastforce
    with old [of q] brk [OF q'] new show ?thesis by blast
  qed
  moreover have "\<forall>p. gh_nodes h1 p = None \<longrightarrow> w_fud w p = None"
    using s eff unfolding hash_at_def by blast
  ultimately have "hash_at ?s (w\<lparr>w_hash := h1, w_brk := ?b\<rparr>)"
    using s eff inv by (simp add: hash_at_def)
  moreover have "stage_ok (stage_after r l1) ?s"
    using k eff by (cases r) (simp_all add: stage_after_def)
  moreover have "live V (w\<lparr>w_hash := h1, w_brk := ?b\<rparr>)"
    using assms eff by (simp add: staged_def live_def VTOFUD_def)
  ultimately show ?thesis
    using that [OF it] assms by (auto simp: staged_def hash_stage_def)
qed

text \<open>The end of a lookup that found a vnode and got a reference on it.\<close>

lemma hash_at_forget_looker:
  assumes "hash_at s w"
  shows "hash_at (s\<lparr>hs_look := (hs_look s)(t := None)\<rparr>) w"
proof -
  have "hash_inv (s\<lparr>hs_look := (hs_look s)(t := None)\<rparr>)"
    using assms lookers_inv_drop [of "gh_nodes (w_hash w)" "hs_look s" t]
    by (auto simp: hash_at_def hash_inv_def)
  moreover have "held (s\<lparr>hs_look := (hs_look s)(t := None)\<rparr>) q \<Longrightarrow> held s q" for q
    by (auto simp: held_def split: if_splits)
  ultimately show ?thesis using assms by (auto simp: hash_at_def)
qed

lemma get_done:
  assumes "staged V n (St_get l p vn) w"
  shows "steady V n w"
proof -
  obtain s where s: "hash_at s w" using assms by (auto simp: staged_def hash_stage_def)
  from hash_at_forget_looker [OF this, of 0] show ?thesis
    using assms by (auto simp: staged_def hash_stage_def intro!: exI [of _ "s\<lparr>hs_look := (hs_look s)(0 := None)\<rparr>"])
qed

lemma get_again:
  assumes "staged V n (St_get l p vn) w"
  shows "staged V n (St_look l) w"
proof -
  obtain s where s: "hash_at s w" "hs_look s 0 = Some (l, Some (p, vn))" "lk_forkIndex l = 0"
    using assms by (auto simp: staged_def hash_stage_def)
  let ?s = "s\<lparr>hs_look := (hs_look s)(0 \<mapsto> (l, None))\<rparr>"
  have "hash_inv ?s"
    using hash_step_ok [of s "Hv_getwithvid 0 False"] s by (simp add: hash_at_def)
  moreover have "held ?s q \<Longrightarrow> held s q" for q
    using s(2) by (auto simp: held_def split: if_splits)
  ultimately have "hash_at ?s w" using s(1) by (auto simp: hash_at_def)
  then show ?thesis using assms s(3) by (auto simp: staged_def hash_stage_def intro!: exI [of _ ?s])
qed

lemma start_lookup:
  assumes "steady V n w"
  shows "staged V n (St_look (lookup_start dev ino 0)) w"
proof -
  obtain s where s: "hash_at s w" "hs_look s 0 = None"
    using assms by (auto simp: staged_def hash_stage_def)
  let ?s = "s\<lparr>hs_look := (hs_look s)(0 \<mapsto> (lookup_start dev ino 0, None))\<rparr>"
  have "hash_inv ?s"
    using hash_step_ok [of s "Hv_lookup 0 dev ino 0"] s by (simp add: hash_at_def)
  moreover have "held ?s q \<Longrightarrow> held s q" for q
    by (auto simp: held_def lookup_start_def split: if_splits)
  ultimately have "hash_at ?s w" using s(1) by (auto simp: hash_at_def)
  then show ?thesis
    using assms by (auto simp: staged_def hash_stage_def lookup_start_def intro!: exI [of _ ?s])
qed

text \<open>What the lookup in the hash leaves its caller with: a vnode, or a node to attach one to.\<close>

definition looked_up :: "vnode set \<Rightarrow> nat \<Rightarrow> hnp \<times> vnode option \<Rightarrow> fuse_world \<Rightarrow> bool" where
  "looked_up V n r t =
     (case r of (p, Some vn) \<Rightarrow> steady V n t \<and> VTOFUD vn t \<noteq> None
      | (p, None) \<Rightarrow> staged V n (St_attach p) t)"

lemma looked_up_simps [simp]:
  "looked_up V n (p, Some vn) t \<longleftrightarrow> steady V n t \<and> VTOFUD vn t \<noteq> None"
  "looked_up V n (p, None) t \<longleftrightarrow> staged V n (St_attach p) t"
  by (simp_all add: looked_up_def)

lemma hnode_lookup_staged:
  "staged V n (St_look l) w \<Longrightarrow> steady_until V (looked_up V n) (hnode_lookup k l w)"
proof (induction k arbitrary: l w)
  case 0
  then show ?case by simp
next
  case (Suc k)
  obtain r l1 h1 where it: "HNodeLookup_iterate (w_brk w) l (w_hash w) = Some (r, l1, h1)"
    and st0: "staged V n (stage_after r l1) (w\<lparr>w_hash := h1,
           w_brk := if lk_newNode l = None \<and> lk_newNode l1 \<noteq> None then w_brk w + 1 else w_brk w\<rparr>)"
    by (rule iterate_staged [OF Suc.prems])
  define w1 where w1: "w1 = w\<lparr>w_hash := h1,
           w_brk := if lk_newNode l = None \<and> lk_newNode l1 \<noteq> None then w_brk w + 1 else w_brk w\<rparr>"
  have st: "staged V n (stage_after r l1) w1" using st0 by (simp only: w1)
  note [simp del] = hnode_lookup.simps
  have step: "hnode_lookup (Suc k) l w = (case r of
            Lk_again \<Rightarrow> hnode_lookup k l1 w1
          | Lk_sleep \<Rightarrow> Call K_hash_sleep w1 (\<lambda>x. hnode_lookup k l1)
          | Lk_getwithvid p vn \<Rightarrow>
              Call (K_vnode_getwithvid vn) w1 (\<lambda>x t.
                if kr_err x = 0 then Done (p, Some vn) t else hnode_lookup k l1 t)
          | Lk_attach p \<Rightarrow> Done (p, None) w1)"
    by (simp only: hnode_lookup.simps it need_simps prod.case Let_def w1)
  show ?case
  proof (cases r)
    case Lk_again
    then show ?thesis using st Suc.IH by (simp add: step stage_after_def)
  next
    case Lk_sleep
    then have "staged V n (St_look l1) t" if "keeps V (St_look l1) w1 t" for t
      using st that by (auto simp: stage_after_def dest: keepsD)
    with Lk_sleep show ?thesis by (auto simp: step intro: Suc.IH)
  next
    case (Lk_getwithvid p vn)
    then have got: "staged V n (St_get l1 p vn) t" if "keeps V (St_get l1 p vn) w1 t" for t
      using st that by (auto simp: stage_after_def dest: keepsD)
    have "staged V n (St_look l1) t" "steady V n t" if "keeps V (St_get l1 p vn) w1 t" for t
      using got [OF that] by (auto intro: get_again get_done)
    with Lk_getwithvid show ?thesis
      by (auto simp: step intro: Suc.IH)
  next
    case (Lk_attach p)
    with st show ?thesis by (simp add: step stage_after_def)
  qed
qed


text \<open>A vnode is attached, or its node given up.\<close>

lemma attach_succeeded:
  assumes "staged V n (St_attach p) w" and "gh_fsnode (w_hash w) vn = None" and "w_fud w p \<noteq> None"
  obtains h where "HNodeAttachVNodeSucceeded p 0 vn
      ((w_hash w)\<lparr>gh_fsnode := (gh_fsnode (w_hash w))(vn \<mapsto> p)\<rparr>) = Some h"
    and "steady V n (w\<lparr>w_hash := h\<rparr>)" and "gh_fsnode h vn = Some p"
proof -
  obtain s where s: "hash_at s w" "hs_look s 0 = None" "hs_att s p = Some 0"
    using assms(1) by (auto simp: staged_def hash_stage_def)
  then have inv: "hash_inv s" and eq: "hs_h s = w_hash w" by (simp_all add: hash_at_def)
  obtain h where h: "HNodeAttachVNodeSucceeded p 0 vn
      ((w_hash w)\<lparr>gh_fsnode := (gh_fsnode (w_hash w))(vn \<mapsto> p)\<rparr>) = Some h"
    "hash_inv (s\<lparr>hs_h := h, hs_att := (hs_att s)(p := None)\<rparr>)"
    using attached_ok [OF inv s(3), of vn] assms(2) eq by auto
  have eff: "(\<forall>q. gh_nodes h q = None \<longleftrightarrow> gh_nodes (w_hash w) q = None) \<and>
      gh_fsnode h = (gh_fsnode (w_hash w))(vn \<mapsto> p)"
    using h(1) by (auto simp: HNodeAttachVNodeSucceeded_def HNodeAttachComplete_def Let_def
        bind_eq_Some_conv split: if_splits)
  have "hash_at (s\<lparr>hs_h := h, hs_att := (hs_att s)(p := None)\<rparr>) (w\<lparr>w_hash := h\<rparr>)"
    using s(1) h(2) eff assms(3) by (auto simp: hash_at_def held_def)
  moreover have "live V (w\<lparr>w_hash := h\<rparr>)"
    using assms eff by (auto simp: staged_def live_def VTOFUD_def)
  ultimately have "steady V n (w\<lparr>w_hash := h\<rparr>)"
    using assms(1) s(2) by (auto simp: staged_def hash_stage_def)
  with that [OF h(1)] eff show ?thesis by simp
qed

lemma attach_failed:
  assumes "staged V n (St_attach p) w"
  obtains h where "HNodeAttachVNodeFailed p 0 (w_hash w) = Some (False, h)"
    and "steady V n (w\<lparr>w_hash := h\<rparr>)"
  | h h1 where "HNodeAttachVNodeFailed p 0 (w_hash w) = Some (True, h)"
    and "HNodeScrubDone p h = Some h1" and "steady V n (w\<lparr>w_hash := h1, w_fud := (w_fud w)(p := None)\<rparr>)"
proof -
  obtain s where s: "hash_at s w" "hs_look s 0 = None" "hs_att s p = Some 0"
    using assms(1) by (auto simp: staged_def hash_stage_def)
  then have inv: "hash_inv s" and eq: "hs_h s = w_hash w" by (simp_all add: hash_at_def)
  obtain b h where h: "HNodeAttachVNodeFailed p 0 (w_hash w) = Some (b, h)"
    "hash_inv ((after_release p s (b, h))\<lparr>hs_att := (hs_att s)(p := None)\<rparr>)"
    using attach_failed_ok [OF inv s(3)] eq by auto
  have eff: "(\<forall>q. gh_nodes h q = None \<longleftrightarrow> gh_nodes (w_hash w) q = None) \<and>
      gh_fsnode h = gh_fsnode (w_hash w)"
    using h(1) by (auto simp: HNodeAttachVNodeFailed_def HNodeAttachComplete_def
        HNodeForkVNodeDecrement_def Let_def bind_eq_Some_conv split: if_splits)
  let ?s = "(after_release p s (b, h))\<lparr>hs_att := (hs_att s)(p := None)\<rparr>"
  have held: "held ?s q \<longleftrightarrow> held s q" for q by (simp add: held_def after_release_def)
  show ?thesis
  proof (cases b)
    case False
    have "hash_at ?s (w\<lparr>w_hash := h\<rparr>)"
      using s(1) h(2) eff held by (auto simp: hash_at_def after_release_def)
    moreover have "live V (w\<lparr>w_hash := h\<rparr>)"
      using assms eff by (auto simp: staged_def live_def VTOFUD_def)
    ultimately have "steady V n (w\<lparr>w_hash := h\<rparr>)"
      using assms(1) s(2) by (auto simp: staged_def hash_stage_def after_release_def)
    with that(1) [of h] h(1) False show ?thesis by simp
  next
    case True
    have "p \<in> set (hs_scrub ?s)" using True by (simp add: after_release_def)
    from scrub_ok [OF h(2) this] obtain h1 where h1: "HNodeScrubDone p h = Some h1"
      "hash_inv (?s\<lparr>hs_h := h1, hs_scrub := remove1 p (hs_scrub ?s)\<rparr>)"
      by (auto simp: after_release_def)
    let ?s1 = "?s\<lparr>hs_h := h1, hs_scrub := remove1 p (hs_scrub ?s)\<rparr>"
    let ?w1 = "w\<lparr>w_hash := h1, w_fud := (w_fud w)(p := None)\<rparr>"
    have eff1: "gh_nodes h1 = (gh_nodes h)(p := None)" "gh_fsnode h1 = gh_fsnode h"
      using h1(1) by (auto simp: HNodeScrubDone_def bind_eq_Some_conv split: if_splits)
    have none: "gh_nodes h1 p = None" using eff1 by simp
    have off: "gh_fsnode (w_hash w) vn \<noteq> Some p" for vn
      using h1(2) eff eff1 none unfolding hash_inv_def vnodes_inv_def by fastforce
    have "held ?s1 q \<longleftrightarrow> held s q" for q by (simp add: held_def after_release_def)
    then have "hash_at ?s1 ?w1"
      using s(1) h1(2) eff eff1 off by (auto simp: hash_at_def)
    moreover have "live V ?w1"
      using assms eff eff1 off by (fastforce simp: staged_def live_def VTOFUD_def split: bind_splits)
    ultimately have "steady V n ?w1"
      using assms(1) s(2) by (auto simp: staged_def hash_stage_def after_release_def)
    with that(2) [OF _ h1(1)] h(1) True show ?thesis by simp
  qed
qed

text \<open>The result of an operation that gives a vnode: the vnode with its data, or an error.\<close>

definition vnode_result :: "vnode set \<Rightarrow> nat \<Rightarrow> int \<times> vnode option \<Rightarrow> fuse_world \<Rightarrow> bool" where
  "vnode_result V n r t =
     (steady V n t \<and> (case r of (err, Some vn) \<Rightarrow> err = 0 \<and> VTOFUD vn t \<noteq> None
                              | (err, None) \<Rightarrow> err \<noteq> 0))"

lemma vnode_result_simps [simp]:
  "vnode_result V n (err, Some vn) t \<longleftrightarrow> steady V n t \<and> err = 0 \<and> VTOFUD vn t \<noteq> None"
  "vnode_result V n (err, None) t \<longleftrightarrow> steady V n t \<and> err \<noteq> 0"
  by (auto simp: vnode_result_def)

lemma disappear_steady [steady_intros]:
  assumes "steady V n w" and "VTOFUD vp w \<noteq> None"
  shows "steady_within b V (\<lambda>_. steady V n) (fuse_internal_vnode_disappear vp how w)"
proof -
  have s: "steady V n (fuse_internal_revoke vp how (emit (Ef_cache_purge vp) w))"
    using assms by (simp add: fuse_internal_revoke_def Let_def)
  show ?thesis
    using assms s by (auto simp: fuse_internal_vnode_disappear_def Let_def dest: keepsD)
qed

lemma fsnode_check_result:
  assumes "steady V n w" and "VTOFUD vn w \<noteq> None"
  shows "steady_until V (vnode_result V n) (fsnode_check feo vn w)"
proof -
  obtain v where v: "VTOFUD vn w = Some v" using assms(2) by auto
  have "steady_until V (vnode_result V n) (upcall_bind (fuse_internal_vnode_disappear vn REVOKE_SOFT w)
          (\<lambda>_ w. Done (err, None) (emit (Ef_vnode_put vn) w)))" if "err \<noteq> 0" for err
    by (rule steady_bind [OF disappear_steady [OF assms]]) (simp add: that)
  then show ?thesis using assms(1) v by (simp add: fsnode_check_def)
qed

lemma vnode_created_hash:
  "w_hash (vnode_created vn p ty root w) = (w_hash w)\<lparr>gh_fsnode := (gh_fsnode (w_hash w))(vn \<mapsto> p)\<rparr>"
  by (simp add: vnode_created_def)

lemma set_fud_hash_fsnode:
  "gh_fsnode h vp = gh_fsnode (w_hash w) vp \<Longrightarrow>
     (set_fud vp f w)\<lparr>w_hash := h\<rparr> = set_fud vp f (w\<lparr>w_hash := h\<rparr>)"
  by (simp add: set_fud_def split: option.split)

lemma fsnode_create_result:
  assumes "staged V n (St_attach p) w" and "w_fud w p \<noteq> None"
  shows "steady_until V (vnode_result V n) (fsnode_create flags feo dvp p w)"
proof -
  let ?ty = "IFTOVT (at_mode (eo_attr feo))" and ?root = "flag_set flags FN_IS_ROOT"
  have "steady_until V (vnode_result V n)
      (need (HNodeAttachVNodeSucceeded p 0 vn (w_hash (vnode_created vn p ?ty ?root t))) (\<lambda>h.
         Done (0, Some vn) ((set_fud vn g (vnode_created vn p ?ty ?root t))\<lparr>w_hash := h\<rparr>)))"
    if t: "staged V n (St_attach p) t" "w_fud t p \<noteq> None" "gh_fsnode (w_hash t) vn = None" for t vn g
  proof -
    obtain h where h: "HNodeAttachVNodeSucceeded p 0 vn
      ((w_hash t)\<lparr>gh_fsnode := (gh_fsnode (w_hash t))(vn \<mapsto> p)\<rparr>) = Some h"
      "steady V n (t\<lparr>w_hash := h\<rparr>)" "gh_fsnode h vn = Some p"
      by (rule attach_succeeded [OF t(1,3,2)])
    have "(set_fud vn g (vnode_created vn p ?ty ?root t))\<lparr>w_hash := h\<rparr> =
        set_fud vn g (set_fud vn (\<lambda>v. v\<lparr>fv_vtype := ?ty, fv_isvroot := ?root\<rparr>) (t\<lparr>w_hash := h\<rparr>))"
      using h(3) by (simp add: vnode_created_def set_fud_hash_fsnode)
    moreover have "VTOFUD vn (t\<lparr>w_hash := h\<rparr>) \<noteq> None" using h(3) t(2) by (simp add: VTOFUD_def)
    ultimately show ?thesis using h by (simp add: vnode_created_hash)
  qed
  moreover have "steady_until V (vnode_result V n)
      (need (HNodeAttachVNodeFailed p 0 (w_hash t)) (\<lambda>(scrub, h).
         if scrub then need (HNodeScrubDone p h) (\<lambda>h1.
           Done (err, None) (t\<lparr>w_hash := h1, w_fud := (w_fud t)(p := None)\<rparr>))
         else Done (err, None) (t\<lparr>w_hash := h\<rparr>)))"
    if "staged V n (St_attach p) t" "err \<noteq> 0" for t err
    using that(1) by (rule attach_failed) (simp_all add: that(2))
  ultimately show ?thesis
    using assms keepsD [OF _ assms(1)]
    by (auto simp: fsnode_create_def Let_def)
qed


lemma fsnode_attach_result:
  assumes "staged V n (St_attach p) w" and "set_option dvp \<subseteq> V"
  shows "steady_until V (vnode_result V n) (fsnode_attach flags feo dvp p w)"
proof -
  have set: "staged V n (St_attach p) (w\<lparr>w_fud := (w_fud w)(p \<mapsto> f)\<rparr>)" for f
  proof -
    obtain s where s: "hash_at s w" "hs_look s 0 = None" "hs_att s p = Some 0"
      using assms(1) by (auto simp: staged_def hash_stage_def)
    then have "gh_nodes (w_hash w) p \<noteq> None"
      using attaching_node [of s p 0] by (metis hash_at_def option.distinct(1))
    then have "hash_at s (w\<lparr>w_fud := (w_fud w)(p \<mapsto> f)\<rparr>)" using s(1) by (auto simp: hash_at_def)
    moreover have "live V (w\<lparr>w_fud := (w_fud w)(p \<mapsto> f)\<rparr>)"
      using assms(1) by (auto simp: staged_def live_def VTOFUD_def split: bind_splits)
    ultimately show ?thesis using assms(1) s(2,3) by (auto simp: staged_def hash_stage_def)
  qed
  have init: "steady_until V (vnode_result V n)
      (fsnode_create flags feo dvp p (w\<lparr>w_fud := (w_fud w)(p \<mapsto> f)\<rparr>))" for f
    by (rule fsnode_create_result [OF set]) simp
  show ?thesis
  proof (cases dvp)
    case None
    then show ?thesis using init [of "new_fud flags feo None"] fsnode_create_result [OF assms(1)]
      by (simp add: fsnode_attach_def)
  next
    case (Some d)
    then obtain dv where "VTOFUD d w = Some dv" using staged_live [OF assms(1), of d] assms(2) by auto
    with Some show ?thesis
      using init [of "new_fud flags feo (Some (d, fv_nodeid dv))"] fsnode_create_result [OF assms(1)]
      by (simp add: fsnode_attach_def)
  qed
qed

lemma fsnode_get_result:
  assumes "steady V n w" and "set_option dvp \<subseteq> V"
  shows "steady_until V (vnode_result V n) (FSNodeGetOrCreateFileVNodeByID flags feo dvp w)"
proof (cases "IFTOVT (at_mode (eo_attr feo)) \<in> {VBAD, VSTR, VCPLX, VNON}")
  case True
  then show ?thesis using assms(1) by (simp add: FSNodeGetOrCreateFileVNodeByID_def)
next
  case False
  let ?go = "\<lambda>(p, found) w. case found of Some vn \<Rightarrow> fsnode_check feo vn w
    | None \<Rightarrow> upcall_bind (fsnode_attach flags feo dvp p w) (\<lambda>(err, vn) w.
              case vn of None \<Rightarrow> Done (err, None) w | Some vn \<Rightarrow> fsnode_check feo vn w)"
  have "steady_until V (vnode_result V n) (?go r t)" if r: "looked_up V n r t" for r t
  proof (cases r)
    case (Pair p found)
    show ?thesis
    proof (cases found)
      case (Some vn)
      with r Pair fsnode_check_result show ?thesis by simp
    next
      case None
      with r Pair have st: "staged V n (St_attach p) t" by simp
      have "steady_until V (vnode_result V n) (case r of (err, vn) \<Rightarrow>
          (case vn of None \<Rightarrow> Done (err, None) u | Some vn \<Rightarrow> fsnode_check feo vn u))"
        if "vnode_result V n r u" for r u
        using that fsnode_check_result by (cases r) (auto split: option.split)
      with fsnode_attach_result [OF st assms(2)] Pair None show ?thesis
        by (simp add: ensures_bind [OF fsnode_attach_result [OF st assms(2)]] split_def)
    qed
  qed
  moreover have "steady_until V (looked_up V n)
      (hnode_lookup lookup_rounds (lookup_start (w_dev w) (eo_nodeid feo) 0) w)"
    by (rule hnode_lookup_staged [OF start_lookup [OF assms(1)]])
  ultimately show ?thesis
    using False by (auto simp: FSNodeGetOrCreateFileVNodeByID_def intro!: ensures_bind)
qed

lemma fuse_vget_i_result:
  assumes "steady V n w" and "dvp \<in> V"
  shows "steady_until V (vnode_result V n) (fuse_vget_i flags feo cnp dvp w)"
proof -
  have "steady_until V (vnode_result V n) (FSNodeGetOrCreateFileVNodeByID flags feo (Some dvp) w)"
    by (rule fsnode_get_result [OF assms(1)]) (simp add: assms(2))
  then show ?thesis
    unfolding fuse_vget_i_def
    by (rule ensures_bind) (auto simp: Let_def vnode_result_def split: option.splits)
qed

section \<open>File handles\<close>

lemma set_fufh_steady [simp]: "staged V n st (set_fufh vp type f w) = staged V n st w"
  by (simp add: set_fufh_def)

lemma disappear_bind [steady_intros]:
  assumes "steady V n w" and "VTOFUD vp w \<noteq> None" and "\<And>a t. steady V n t \<Longrightarrow> steady_within b V Q (f a t)"
  shows "steady_within b V Q (upcall_bind (fuse_internal_vnode_disappear vp how w) f)"
  by (rule steady_bind [OF disappear_steady [OF assms(1,2)] assms(3)])

lemma fuse_filehandle_get_steady [steady_intros]:
  assumes "steady V n w" and "vp \<in> V"
    and "\<And>v. VTOFUD vp w = Some v \<Longrightarrow> type \<noteq> FUFH_INVALID \<and> \<not> FUFH_IS_VALID (fv_fufh v type)"
  shows "steady_within b V (\<lambda>_. steady V n) (fuse_filehandle_get vp ctx type mode w)"
  unfolding fuse_filehandle_get_def
  by (intro steady_intros) (use assms in \<open>auto dest: staged_live\<close>)

lemma fuse_filehandle_put_steady [steady_intros]:
  assumes "steady V n w" and "vp \<in> V"
    and "\<And>v. VTOFUD vp w = Some v \<Longrightarrow> type \<noteq> FUFH_INVALID \<and> \<not> FUFH_IS_VALID (fv_fufh v type)"
  shows "steady_within b V (\<lambda>_. steady V n) (fuse_filehandle_put vp ctx type fg w)"
  unfolding fuse_filehandle_put_def
  by (intro steady_intros) (use assms in \<open>auto dest: staged_live\<close>)

lemma preflight_steady [steady_intros]:
  assumes "steady V n w" and "vp \<in> V" and "\<And>e t. steady V n t \<Longrightarrow> steady_within b V Q (k e t)"
  shows "steady_within b V Q (preflight vp type w k)"
  unfolding preflight_def
  by (intro steady_intros) (use assms in \<open>auto\<close>)

end
