(* ===== verification/Fuse_Ops.thy ===== *)
theory Fuse_Ops
  imports Fuse_Node
begin

text \<open>
  The operations of \<open>fuse_internal.c\<close> that ask the daemon on behalf of the vnode operations: access,
  exchange, fsync, the extended times, removal, renaming and the creation of entries.
\<close>

section \<open>Access\<close>

abbreviation (input) FACCESS_DO_ACCESS :: u32 where "FACCESS_DO_ACCESS \<equiv> 0x2"
abbreviation (input) FACCESS_NOCHECKSPY :: u32 where "FACCESS_NOCHECKSPY \<equiv> 0x4"
abbreviation (input) FACCESS_FROM_VNOP :: u32 where "FACCESS_FROM_VNOP \<equiv> 0x8"

abbreviation (input) KAUTH_VNODE_LIST_DIRECTORY :: u32 where "KAUTH_VNODE_LIST_DIRECTORY \<equiv> 0x2"
abbreviation (input) KAUTH_VNODE_ADD_FILE :: u32 where "KAUTH_VNODE_ADD_FILE \<equiv> 0x4"
abbreviation (input) KAUTH_VNODE_EXECUTE :: u32 where "KAUTH_VNODE_EXECUTE \<equiv> 0x8"
abbreviation (input) KAUTH_VNODE_SEARCH :: u32 where "KAUTH_VNODE_SEARCH \<equiv> 0x8"
abbreviation (input) KAUTH_VNODE_APPEND_DATA :: u32 where "KAUTH_VNODE_APPEND_DATA \<equiv> 0x20"
abbreviation (input) KAUTH_VNODE_ADD_SUBDIRECTORY :: u32 where "KAUTH_VNODE_ADD_SUBDIRECTORY \<equiv> 0x20"
abbreviation (input) KAUTH_VNODE_DELETE_CHILD :: u32 where "KAUTH_VNODE_DELETE_CHILD \<equiv> 0x40"
abbreviation (input) KAUTH_VNODE_WRITE_ATTRIBUTES :: u32 where "KAUTH_VNODE_WRITE_ATTRIBUTES \<equiv> 0x100"
abbreviation (input) KAUTH_VNODE_READ_EXTATTRIBUTES :: u32 where
  "KAUTH_VNODE_READ_EXTATTRIBUTES \<equiv> 0x200"
abbreviation (input) KAUTH_VNODE_WRITE_EXTATTRIBUTES :: u32 where
  "KAUTH_VNODE_WRITE_EXTATTRIBUTES \<equiv> 0x400"
abbreviation (input) KAUTH_VNODE_WRITE_SECURITY :: u32 where "KAUTH_VNODE_WRITE_SECURITY \<equiv> 0x1000"

abbreviation (input) R_OK :: u32 where "R_OK \<equiv> 4"
abbreviation (input) W_OK :: u32 where "W_OK \<equiv> 2"
abbreviation (input) X_OK :: u32 where "X_OK \<equiv> 1"

text \<open>The permission bits the daemon is asked about for an action of the kernel.\<close>

definition access_mask :: "bool \<Rightarrow> u32 \<Rightarrow> u32" where
  "access_mask isdir action =
     (if isdir
      then (if flag_set action (KAUTH_VNODE_LIST_DIRECTORY OR KAUTH_VNODE_READ_EXTATTRIBUTES)
            then R_OK else 0) OR
           (if flag_set action (KAUTH_VNODE_ADD_FILE OR KAUTH_VNODE_ADD_SUBDIRECTORY OR
                                KAUTH_VNODE_DELETE_CHILD) then W_OK else 0) OR
           (if flag_set action KAUTH_VNODE_SEARCH then X_OK else 0)
      else (if flag_set action (KAUTH_VNODE_READ_DATA OR KAUTH_VNODE_READ_EXTATTRIBUTES)
            then R_OK else 0) OR
           (if flag_set action (KAUTH_VNODE_WRITE_DATA OR KAUTH_VNODE_APPEND_DATA)
            then W_OK else 0) OR
           (if flag_set action KAUTH_VNODE_EXECUTE then X_OK else 0)) OR
     (if flag_set action (KAUTH_VNODE_WRITE_ATTRIBUTES OR KAUTH_VNODE_WRITE_EXTATTRIBUTES OR
                          KAUTH_VNODE_WRITE_SECURITY) then W_OK else 0)"

text \<open>
  \<open>fuse_internal_access\<close>. The flag it adds to its parameter is of no use to its only caller and left
  out. A daemon without \<open>access\<close> is not asked again.
\<close>

definition fuse_internal_access ::
  "vnode \<Rightarrow> u32 \<Rightarrow> vfs_context \<Rightarrow> u32 \<Rightarrow> fuse_world \<Rightarrow> (fuse_world, int) upcall" where
  "fuse_internal_access vp action ctx facc_flags w =
     need (VTOFUD vp w) (\<lambda>v.
       let d = w_data w;
           default_error = (if flag_set facc_flags FACCESS_FROM_VNOP then ENOTSUP else 0)
       in if fuse_isdeferpermissions_mp d then Done 0 w
          else if \<not> fuse_implemented d (FSESS_NOIMPLBIT FUSE_ACCESS) then Done default_error w
          else if \<not> fv_isvroot v \<and> \<not> flag_set facc_flags FACCESS_NOCHECKSPY \<and>
                  \<not> flag_set (fd_dataflags d) FSESS_ALLOW_OTHER \<and>
                  fuse_match_cred (fd_daemoncred d) (ctx_ucred ctx) \<noteq> 0
          then Done EPERM w
          else if \<not> flag_set facc_flags FACCESS_DO_ACCESS then Done default_error w
          else ask_errno FUSE_ACCESS vp (b32 (access_mask (vnode_isdir v) action) @ bgap 4) (Some ctx) w
                 (\<lambda>err w.
                    if err = ENOSYS
                    then Done default_error
                           ((set_data (fuse_clear_implemented (FSESS_NOIMPLBIT FUSE_ACCESS)) w)
                              \<lparr>w_mnt := (w_mnt (set_data (fuse_clear_implemented
                                 (FSESS_NOIMPLBIT FUSE_ACCESS)) w))\<lparr>mnt_authopaque := False\<rparr>\<rparr>)
                    else if err = ENOENT
                    then upcall_bind (fuse_internal_vnode_disappear vp REVOKE_SOFT w)
                           (\<lambda>_. Done ENOENT)
                    else Done err w))"

lemma fuse_internal_access_steady [steady_intros]:
  assumes "steady V n w" and "vp \<in> V"
  shows "steady_within b V (\<lambda>_. steady V n) (fuse_internal_access vp action ctx fl w)"
  unfolding fuse_internal_access_def
  by (intro steady_intros) (use assms in \<open>auto dest: staged_live\<close>)

section \<open>Exchange\<close>

text \<open>The pages of a file are pushed and thrown away before it changes under them.\<close>

definition fuse_internal_exchange ::
  "vnode \<Rightarrow> u8 list \<Rightarrow> nat \<Rightarrow> vnode \<Rightarrow> u8 list \<Rightarrow> nat \<Rightarrow> u32 \<Rightarrow> vfs_context \<Rightarrow> fuse_world \<Rightarrow>
     (fuse_world, int) upcall" where
  "fuse_internal_exchange fvp fname flen tvp tname tlen options ctx w =
     need (VTOFUD fvp w) (\<lambda>ffud. need (VTOFUD tvp w) (\<lambda>tfud.
     need (do { fdvp \<leftarrow> fv_parentvp ffud; VTOFUD fdvp w }) (\<lambda>fdfud.
     need (do { tdvp \<leftarrow> fv_parentvp tfud; VTOFUD tdvp w }) (\<lambda>tdfud.
       let fdvp = the (fv_parentvp ffud); tdvp = the (fv_parentvp tfud);
           body = b64 (fv_nodeid fdfud) @ b64 (fv_nodeid tdfud) @ b64 (scast options) @
                  bname fname flen @ bname tname tlen;
           w1 = emit (Ef_ubc tvp (Ubc_msync (fv_filesize tfud)))
                  (emit (Ef_ubc fvp (Ubc_msync (fv_filesize ffud))) w)
       in ask_errno FUSE_EXCHANGE fvp body (Some ctx) w1 (\<lambda>err w.
            if err \<noteq> 0 then Done err w
            else
              let w2 = invalidate_attr fdvp w;
                  w3 = (if tdvp \<noteq> fdvp then invalidate_attr tdvp w2 else w2);
                  w4 = invalidate_attr tvp (invalidate_attr fvp w3);
                  w5 = emit (Ef_cache_purge tvp) (emit (Ef_cache_purge fvp) w4)
              in need (VTOFUD fvp w5) (\<lambda>ff. need (VTOFUD tvp w5) (\<lambda>tf.
                   let w6 = set_fud fvp (\<lambda>v. v\<lparr>fv_filesize := fv_filesize tf\<rparr>) w5;
                       w7 = set_fud tvp (\<lambda>v. v\<lparr>fv_filesize := fv_filesize ff\<rparr>) w6
                   in Done 0 (emit (Ef_kludge_exchange fvp tvp)
                        (emit (Ef_ubc tvp (Ubc_setsize (fv_filesize ff)))
                          (emit (Ef_ubc fvp (Ubc_setsize (fv_filesize tf))) w7))))))))))"

section \<open>Fsync\<close>

text \<open>
  \<open>fuse_internal_fsync\<close>: waiting for the daemon, or leaving the answer to the callback. When the
  daemon does not implement it the code looks the session up through a ticket that was dropped
  already; the session is that of the mount all the same.
\<close>

definition fuse_internal_fsync ::
  "vnode \<Rightarrow> vfs_context option \<Rightarrow> fuse_filehandle \<Rightarrow> bool \<Rightarrow> fuse_world \<Rightarrow> (fuse_world, int) upcall" where
  "fuse_internal_fsync vp ctx fufh foreground w =
     need (VTOFUD vp w) (\<lambda>v.
       let op = (if vnode_isdir v then FUSE_FSYNCDIR else FUSE_FSYNC);
           body = b64 (fh_id fufh) @ b32 1 @ bgap 4
       in if foreground
          then ask_errno op vp body ctx w (\<lambda>err w.
                 if err = ENOSYS
                 then Done err (set_data (fuse_clear_implemented (FSESS_NOIMPLBIT op)) w)
                 else Done err w)
          else Done 0 (emit (Ef_send \<lparr>rq_op = op, rq_nodeid = fv_nodeid v, rq_body = body, rq_ctx = ctx\<rparr>
                 (Some (Some Fsync_callback))) w))"

lemma fuse_internal_fsync_steady [steady_intros]:
  assumes "steady V n w" and "vp \<in> V"
  shows "steady_within b V (\<lambda>_. steady V n) (fuse_internal_fsync vp ctx f fg w)"
  unfolding fuse_internal_fsync_def
  by (intro steady_intros) (use assms in auto)

section \<open>The extended times\<close>

definition return_xtimes :: "timespec \<Rightarrow> timespec \<Rightarrow> vnode_attr \<Rightarrow> vnode_attr" where
  "return_xtimes bk cr out =
     VATTR_RETURN Va_create_time (\<lambda>a. a\<lparr>va_create_time := cr\<rparr>)
       (VATTR_RETURN Va_backup_time (\<lambda>a. a\<lparr>va_backup_time := bk\<rparr>) out)"

text \<open>
  \<open>fuse_internal_loadxtimes\<close>: the result is what the caller's attributes become; its errno is always
  0. Times that cannot be had are zero.
\<close>

definition fuse_internal_loadxtimes ::
  "vnode \<Rightarrow> vnode_attr \<Rightarrow> vfs_context \<Rightarrow> fuse_world \<Rightarrow> (fuse_world, vnode_attr) upcall" where
  "fuse_internal_loadxtimes vp out ctx w =
     need (VTOFUD vp w) (\<lambda>v.
       let d = w_data w; in_vap = fv_cached_attr v;
           fake = return_xtimes zero_time zero_time out
       in if \<not> flag_set (fd_dataflags d) FSESS_XTIMES then Done out w
          else if flag_set (fv_c_flag v) C_XTIMES_VALID
          then Done (return_xtimes (va_backup_time in_vap) (va_create_time in_vap) out) w
          else if \<not> fuse_implemented d (FSESS_NOIMPLBIT FUSE_GETXTIMES) then Done fake w
          else if fuse_isdeadfs d v \<and> fv_isvroot v then Done fake w
          else if \<not> flag_set (fd_dataflags d) FSESS_INITED \<and> fv_isvroot v then Done fake w
          else fdisp_simple_putget_vp FUSE_GETXTIMES vp ctx w (\<lambda>x w.
            if fr_err x \<noteq> 0 then Done fake w
            else
              let bk = \<lparr>tv_sec = get64 0 (fr_answ x), tv_nsec = ucast (get32 16 (fr_answ x))\<rparr>;
                  cr = \<lparr>tv_sec = get64 8 (fr_answ x), tv_nsec = ucast (get32 20 (fr_answ x))\<rparr>
              in fuse_drop (set_fud vp (\<lambda>v. v\<lparr>fv_cached_attr := return_xtimes bk cr (fv_cached_attr v),
                                          fv_c_flag := fv_c_flag v OR C_XTIMES_VALID\<rparr>) w)
                   (Done (return_xtimes bk cr out))))"

lemma fuse_internal_loadxtimes_steady [steady_intros]:
  assumes "steady V n w" and "vp \<in> V"
  shows "steady_within b V (\<lambda>_. steady V n) (fuse_internal_loadxtimes vp out ctx w)"
  unfolding fuse_internal_loadxtimes_def fdisp_simple_putget_vp_def
  by (intro steady_intros) (use assms in auto)

section \<open>Removal and renaming\<close>

text \<open>
  \<open>vnode_iterate\<close> with \<open>fuse_internal_remove_callback\<close>: every regular file of the mount with the
  link count of the removed one may be another name of it, and its attributes are given up.
\<close>

definition fuse_internal_remove_callback :: "u64 \<Rightarrow> fuse_vnode_data \<Rightarrow> fuse_vnode_data" where
  "fuse_internal_remove_callback target_nlink v =
     (if va_nlink (fv_cached_attr v) = target_nlink \<and> vnode_isreg v then fuse_invalidate_attr v else v)"

definition iterate_vnodes :: "(fuse_vnode_data \<Rightarrow> fuse_vnode_data) \<Rightarrow> fuse_world \<Rightarrow> fuse_world" where
  "iterate_vnodes f w = w\<lparr>w_fud := (\<lambda>p. map_option f (w_fud w p))\<rparr>"

definition fuse_internal_remove ::
  "vnode \<Rightarrow> vnode \<Rightarrow> componentname \<Rightarrow> fuse_opcode \<Rightarrow> vfs_context \<Rightarrow> fuse_world \<Rightarrow>
     (fuse_world, int) upcall" where
  "fuse_internal_remove dvp vp cnp op ctx w =
     need (VTOFUD vp w) (\<lambda>v.
       let target_nlink = va_nlink (fv_cached_attr v);
           need_invalidate = (target_nlink > 1 \<and> vnode_isreg v)
       in ask_errno op dvp (bname (cn_nameptr cnp) (cn_namelen cnp)) (Some ctx) w (\<lambda>err w.
            let w1 = invalidate_attr vp (invalidate_attr dvp w)
            in if need_invalidate \<and> err = 0
               then Call K_vfs_busy w1 (\<lambda>x w.
                      Done err (if kr_err x = 0
                                then iterate_vnodes (fuse_internal_remove_callback target_nlink) w
                                else w))
               else Done err w1))"

definition fuse_internal_rename ::
  "vnode \<Rightarrow> componentname \<Rightarrow> vnode \<Rightarrow> componentname \<Rightarrow> vfs_context \<Rightarrow> fuse_world \<Rightarrow>
     (fuse_world, int) upcall" where
  "fuse_internal_rename fdvp fcnp tdvp tcnp ctx w =
     need (VTOFUD tdvp w) (\<lambda>td.
       ask_errno FUSE_RENAME fdvp
         (b64 (fv_nodeid td) @ bname (cn_nameptr fcnp) (cn_namelen fcnp) @
          bname (cn_nameptr tcnp) (cn_namelen tcnp)) (Some ctx) w (\<lambda>err w.
         if err = 0
         then let w1 = invalidate_attr fdvp w
              in Done 0 (if tdvp \<noteq> fdvp then invalidate_attr tdvp w1 else w1)
         else Done err w))"

lemma iterate_vnodes_steady [simp]: "staged V n st (iterate_vnodes f w) = staged V n st w"
proof -
  have "VTOFUD vp (iterate_vnodes f w) = None \<longleftrightarrow> VTOFUD vp w = None" for vp
    by (cases "gh_fsnode (w_hash w) vp") (auto simp: VTOFUD_def iterate_vnodes_def)
  then show ?thesis
    by (simp add: staged_def live_def hash_stage_def hash_at_def) (simp add: iterate_vnodes_def)
qed

lemma fuse_internal_remove_steady [steady_intros]:
  assumes "steady V n w" and "vp \<in> V" and "dvp \<in> V"
  shows "steady_within b V (\<lambda>_. steady V n) (fuse_internal_remove dvp vp cnp op ctx w)"
  unfolding fuse_internal_remove_def
  by (intro steady_intros) (use assms in auto)

lemma fuse_internal_rename_steady [steady_intros]:
  assumes "steady V n w" and "fdvp \<in> V" and "tdvp \<in> V"
  shows "steady_within b V (\<lambda>_. steady V n) (fuse_internal_rename fdvp fcnp tdvp tcnp ctx w)"
  unfolding fuse_internal_rename_def
  by (intro steady_intros) (use assms in auto)


section \<open>Creating an entry\<close>

text \<open>\<open>cache_attrs\<close> on a vnode, with the time since boot.\<close>

definition cache_attrs_vp ::
  "vnode \<Rightarrow> u64 \<Rightarrow> u32 \<Rightarrow> fuse_attr \<Rightarrow> fuse_world \<Rightarrow> (fuse_world \<Rightarrow> (fuse_world, 'a) upcall) \<Rightarrow>
     (fuse_world, 'a) upcall" where
  "cache_attrs_vp vp valid valid_nsec fat w k =
     need (VTOFUD vp w) (\<lambda>v. Call K_uptime w (\<lambda>x w.
       k (set_fud vp (cache_attrs (w_mnt w) (kr_time x) valid valid_nsec fat) w)))"

text \<open>\<open>fuse_internal_forget_send\<close>: the message gives references on a node back and is not answered.\<close>

definition forget_send :: "vfs_context option \<Rightarrow> u64 \<Rightarrow> u64 \<Rightarrow> fuse_world \<Rightarrow> fuse_world" where
  "forget_send ctx nodeid nlookup =
     emit (Ef_send \<lparr>rq_op = FUSE_FORGET, rq_nodeid = nodeid, rq_body = b64 nlookup, rq_ctx = ctx\<rparr> None)"

text \<open>
  \<open>fuse_internal_newentry_core\<close>, from the waiting on: \<open>ask_vp\<close> makes the request of
  \<open>fuse_internal_newentry_makerequest\<close> for the directory. When no vnode can be made for the entry the
  ticket of the answer is lost: \<open>fuse_internal_forget_send\<close> starts with a dispatcher that has none.
\<close>

definition fuse_internal_newentry_core ::
  "vnode \<Rightarrow> componentname \<Rightarrow> fuse_opcode \<Rightarrow> body \<Rightarrow> vtype \<Rightarrow> vfs_context \<Rightarrow> fuse_world \<Rightarrow>
     (fuse_world, int \<times> vnode option) upcall" where
  "fuse_internal_newentry_core dvp cnp op body vtyp ctx w =
     ask_vp op dvp body (Some ctx) w (\<lambda>x w.
       if fr_err x \<noteq> 0 then Done (fr_err x, None) w
       else
         let feo = get_entry_out (fr_answ x); bad = fuse_internal_checkentry feo vtyp in
         if bad \<noteq> 0 then fuse_drop w (Done (bad, None))
         else upcall_bind (fuse_vget_i 0 feo cnp dvp w) (\<lambda>(err, vpp) w.
                case vpp of
                  None \<Rightarrow> Done (err, None) (forget_send (Some ctx) (eo_nodeid feo) 1 w)
                | Some vp \<Rightarrow>
                    cache_attrs_vp vp (eo_attr_valid feo) (eo_attr_valid_nsec feo) (eo_attr feo) w
                      (\<lambda>w. fuse_drop w (Done (0, Some vp)))))"

definition newentry_body :: "body \<Rightarrow> componentname \<Rightarrow> body" where
  "newentry_body buf cnp = buf @ bname (cn_nameptr cnp) (cn_namelen cnp)"

definition fuse_internal_newentry ::
  "vnode \<Rightarrow> componentname \<Rightarrow> fuse_opcode \<Rightarrow> body \<Rightarrow> vtype \<Rightarrow> vfs_context \<Rightarrow> fuse_world \<Rightarrow>
     (fuse_world, int \<times> vnode option) upcall" where
  "fuse_internal_newentry dvp cnp op buf vtyp ctx w =
     (if fuse_skip_apple_double_mp (w_data w) (Some (cn_nameptr cnp)) (int (cn_namelen cnp))
      then Done (EACCES, None) w
      else upcall_bind (fuse_internal_newentry_core dvp cnp op (newentry_body buf cnp) vtyp ctx w)
             (\<lambda>r w. Done r (invalidate_attr dvp w)))"

text \<open>
  Steady but for that case: an operation that ends with an error may leave one ticket with nobody.
\<close>

definition entry_result :: "vnode set \<Rightarrow> nat \<Rightarrow> int \<times> vnode option \<Rightarrow> fuse_world \<Rightarrow> bool" where
  "entry_result V n r t \<longleftrightarrow>
     (case r of (err, Some vp) \<Rightarrow> err = 0 \<and> steady V n t \<and> VTOFUD vp t \<noteq> None
              | (err, None) \<Rightarrow> err \<noteq> 0 \<and> (steady V n t \<or> steady V (Suc n) t))"

lemma entry_result_simps [simp]:
  "entry_result V n (err, Some vp) t \<longleftrightarrow> err = 0 \<and> steady V n t \<and> VTOFUD vp t \<noteq> None"
  "entry_result V n (err, None) t \<longleftrightarrow> err \<noteq> 0 \<and> (steady V n t \<or> steady V (Suc n) t)"
  by (simp_all add: entry_result_def)

lemma forget_send_steady [simp]: "staged V n st (forget_send ctx nid k w) = staged V n st w"
  by (simp add: forget_send_def)

lemma steady_vget:
  assumes "steady V n w" and "dvp \<in> V"
    and "\<And>err t. err \<noteq> 0 \<Longrightarrow> steady V n t \<Longrightarrow> steady_until V Q (f (err, None) t)"
    and "\<And>vp t. steady V n t \<Longrightarrow> VTOFUD vp t \<noteq> None \<Longrightarrow> steady_until V Q (f (0, Some vp) t)"
  shows "steady_until V Q (upcall_bind (fuse_vget_i flags feo cnp dvp w) f)"
proof (rule ensures_bind [OF fuse_vget_i_result [OF assms(1,2)]])
  fix r t
  assume "vnode_result V n r t"
  with assms(3,4) show "steady_until V Q (f r t)"
    by (cases r; cases "snd r") auto
qed

lemma steady_cache_attrs:
  assumes "staged V n st w" and "VTOFUD vp w \<noteq> None"
    and "\<And>t. staged V n st t \<Longrightarrow> VTOFUD vp t \<noteq> None \<Longrightarrow> ensures b R (kernel_rely V) Q (k t)"
  shows "ensures b R (kernel_rely V) Q (cache_attrs_vp vp valid nsec fat w k)"
  using assms by (auto simp: cache_attrs_vp_def ensures_need)

lemma newentry_core_result:
  assumes "steady V n w" and "dvp \<in> V"
  shows "steady_until V (entry_result V n) (fuse_internal_newentry_core dvp cnp op body vtyp ctx w)"
  unfolding fuse_internal_newentry_core_def
proof (rule steady_ask_vp [OF assms])
  fix v :: fuse_vnode_data and x t
  assume t: "steady V (Suc n) t"
  show "steady_until V (entry_result V n) (if fr_err x \<noteq> 0 then Done (fr_err x, None) t
       else let feo = get_entry_out (fr_answ x); bad = fuse_internal_checkentry feo vtyp in
         if bad \<noteq> 0 then fuse_drop t (Done (bad, None))
         else upcall_bind (fuse_vget_i 0 feo cnp dvp t) (\<lambda>(err, vpp) w.
                case vpp of
                  None \<Rightarrow> Done (err, None) (forget_send (Some ctx) (eo_nodeid feo) 1 w)
                | Some vp \<Rightarrow>
                    cache_attrs_vp vp (eo_attr_valid feo) (eo_attr_valid_nsec feo) (eo_attr feo) w
                      (\<lambda>w. fuse_drop w (Done (0, Some vp)))))" if "fr_err x = 0"
    using t assms(2) that
    by (auto simp: Let_def intro!: steady_drop steady_vget steady_cache_attrs)
qed simp

end
