(* ===== verification/Fuse_Names.thy ===== *)
theory Fuse_Names
  imports Fuse_Ops
begin

text \<open>
  The vnode operations on names (\<open>fuse_vnops.c\<close>): lookup, creation, removal and renaming of entries,
  links, and the end of a vnode. An operation gives its errno and, where it has one, the vnode it
  found or made.
\<close>

section \<open>Lookup\<close>

text \<open>
  What is looked up: a name in the directory, the directory itself, or its parent. For the last two
  the daemon is asked for the attributes of a vnode that is known, given with its data.
\<close>

datatype lookup_kind = Name_entry | Name_dot fuse_vnode_data | Name_dotdot vnode fuse_vnode_data

definition lookup_op :: "lookup_kind \<Rightarrow> fuse_opcode" where
  "lookup_op kind = (case kind of Name_entry \<Rightarrow> FUSE_LOOKUP | _ \<Rightarrow> FUSE_GETATTR)"

text \<open>
  The end of a lookup the daemon did not fail. An error gives the node back that was looked up, but
  not the ticket of the answer.
\<close>

definition lookup_out ::
  "lookup_kind \<Rightarrow> u64 \<Rightarrow> componentname \<Rightarrow> vfs_context \<Rightarrow> int \<times> vnode option \<Rightarrow> fuse_world \<Rightarrow>
     (fuse_world, int \<times> vnode option) upcall" where
  "lookup_out kind nodeid cnp ctx r w =
     (case r of
        (err, None) \<Rightarrow>
          Done (err, None) (if lookup_op kind = FUSE_LOOKUP then forget_send (Some ctx) nodeid 1 w else w)
      | (err, Some vp) \<Rightarrow>
          need (VTOFUD vp w) (\<lambda>v.
            if \<not> cn_islastcn cnp \<and> fv_vtype v \<noteq> VDIR \<and> fv_vtype v \<noteq> VLNK
            then fuse_drop (emit (Ef_vnode_put vp) w) (Done (ENOTDIR, None))
            else fuse_drop w (Done (0, Some vp))))"

definition vnode_get :: "vnode \<Rightarrow> fuse_world \<Rightarrow> (fuse_world, int \<times> vnode option) upcall" where
  "vnode_get vp w = Call (K_vnode_get vp) w (\<lambda>x.
     Done (if kr_err x = 0 then (0, Some vp) else (kr_err x, None)))"

text \<open>The vnode of a successful answer. Entries of \<open>GETATTR\<close> answers do not exist (\<open>feo\<close> is null).\<close>

definition lookup_vnode ::
  "lookup_kind \<Rightarrow> fuse_entry_out \<Rightarrow> vnode \<Rightarrow> componentname \<Rightarrow> bool \<Rightarrow> fuse_world \<Rightarrow>
     (fuse_world, int \<times> vnode option) upcall" where
  "lookup_vnode kind feo dvp cnp wantparent w =
     (let vget = (if lookup_op kind = FUSE_LOOKUP then fuse_vget_i 0 feo cnp dvp w
                  else Done (EINVAL, None) w)
      in if cn_nameiop cnp = NI_DELETE \<and> cn_islastcn cnp
         then (case kind of Name_dot v \<Rightarrow> vnode_get dvp w | _ \<Rightarrow> vget)
         else if cn_nameiop cnp = NI_RENAME \<and> cn_islastcn cnp \<and> wantparent
         then (case kind of Name_dot v \<Rightarrow> Done (EISDIR, None) w | _ \<Rightarrow> vget)
         else (case kind of
                 Name_dotdot pdp pv \<Rightarrow> vnode_get pdp w
               | Name_dot v \<Rightarrow> vnode_get dvp w
               | Name_entry \<Rightarrow> vget))"

text \<open>
  The attributes of the answer are cached, unless the vnode is wanted to delete or rename it. For the
  directory or its parent the code asks \<open>fuse_isnoubc\<close> about a null vnode, if that is a regular file.
\<close>

definition lookup_attrs ::
  "lookup_kind \<Rightarrow> u8 list \<Rightarrow> vnode \<Rightarrow> fuse_world \<Rightarrow> (fuse_world \<Rightarrow> (fuse_world, 'a) upcall) \<Rightarrow>
     (fuse_world, 'a) upcall" where
  "lookup_attrs kind answ vp w k =
     (case kind of
        Name_entry \<Rightarrow>
          let feo = get_entry_out answ in
          need (VTOFUD vp w) (\<lambda>v.
            cache_attrs_vp vp (eo_attr_valid feo) (eo_attr_valid_nsec feo) (eo_attr feo)
              (if vnode_isreg v \<and> fuse_isnoubc (w_data w) v
               then set_fud vp (\<lambda>v. v\<lparr>fv_filesize := at_size (eo_attr feo)\<rparr>) w else w) k)
      | Name_dot v \<Rightarrow>
          let fao = get_attr_out answ in
          if vnode_isreg v then Crash
          else cache_attrs_vp vp (ao_attr_valid fao) (ao_attr_valid_nsec fao) (ao_attr fao) w k
      | Name_dotdot pdp v \<Rightarrow>
          let fao = get_attr_out answ in
          if vnode_isreg v then Crash
          else cache_attrs_vp vp (ao_attr_valid fao) (ao_attr_valid_nsec fao) (ao_attr fao) w k)"

definition lookup_for_removal :: "componentname \<Rightarrow> bool \<Rightarrow> bool" where
  "lookup_for_removal cnp wantparent \<longleftrightarrow>
     cn_islastcn cnp \<and> (cn_nameiop cnp = NI_DELETE \<or> (cn_nameiop cnp = NI_RENAME \<and> wantparent))"

definition lookup_found ::
  "lookup_kind \<Rightarrow> u8 list \<Rightarrow> vnode \<Rightarrow> componentname \<Rightarrow> bool \<Rightarrow> vfs_context \<Rightarrow> fuse_world \<Rightarrow>
     (fuse_world, int \<times> vnode option) upcall" where
  "lookup_found kind answ dvp cnp wantparent ctx w =
     (let feo = get_entry_out answ;
          mode = (if lookup_op kind = FUSE_GETATTR then at_mode (ao_attr (get_attr_out answ))
                  else at_mode (eo_attr feo));
          nodeid = eo_nodeid feo
      in if mode AND S_IFMT = 0 then lookup_out kind nodeid cnp ctx (EIO, None) w
         else upcall_bind (lookup_vnode kind feo dvp cnp wantparent w) (\<lambda>r w.
           case r of
             (err, Some vp) \<Rightarrow>
               if lookup_for_removal cnp wantparent then lookup_out kind nodeid cnp ctx r w
               else lookup_attrs kind answ vp w (lookup_out kind nodeid cnp ctx r)
           | (err, None) \<Rightarrow> lookup_out kind nodeid cnp ctx r w))"

text \<open>
  Asking the daemon. A node number of 0 stands for a name that does not exist, that of the root is
  refused; in both cases the ticket of the answer stays where it is.
\<close>

definition lookup_calldaemon ::
  "lookup_kind \<Rightarrow> u64 \<Rightarrow> vnode \<Rightarrow> componentname \<Rightarrow> bool \<Rightarrow> vfs_context \<Rightarrow> fuse_world \<Rightarrow>
     (fuse_world, int \<times> vnode option) upcall" where
  "lookup_calldaemon kind nodeid dvp cnp wantparent ctx w =
     (let op = lookup_op kind;
          body = (if op = FUSE_LOOKUP then bname (cn_nameptr cnp) (cn_namelen cnp) else [])
      in ask \<lparr>rq_op = op, rq_nodeid = nodeid, rq_body = body, rq_ctx = Some ctx\<rparr> w (\<lambda>x w.
           let nid = eo_nodeid (get_entry_out (fr_answ x));
               refused = (if op = FUSE_LOOKUP \<and> fr_err x = 0
                          then if nid = FUSE_NULL_ID then ENOENT
                               else if nid = FUSE_ROOT_ID then EINVAL else 0 else 0);
               lookup_err = (if fr_err x \<noteq> 0 then fr_err x else refused);
               answ_stat = (if fr_err x = 0 \<and> refused = ENOENT then ENOENT else fr_answ_stat x)
           in if lookup_err \<noteq> 0 \<and> (answ_stat = 0 \<or> lookup_err \<noteq> ENOENT \<or> op \<noteq> FUSE_LOOKUP)
              then Done (lookup_err, None) w
              else if lookup_err \<noteq> 0
              then if (cn_nameiop cnp = NI_CREATE \<or> cn_nameiop cnp = NI_RENAME) \<and> cn_islastcn cnp
                   then Done (EJUSTRETURN, None) w
                   else Done (ENOENT, None)
                          (if fuse_isnegativevncache_mp (w_data w) \<and> cn_makeentry cnp \<and>
                              cn_nameiop cnp \<noteq> NI_CREATE
                           then emit (Ef_cache_enter dvp None (cn_name cnp)) w else w)
              else lookup_found kind (fr_answ x) dvp cnp wantparent ctx w))"

definition is_dot :: "componentname \<Rightarrow> bool" where
  "is_dot cnp \<longleftrightarrow> cn_namelen cnp = 1 \<and> take 1 (cn_nameptr cnp) = [0x2E]"

text \<open>A name is looked up in the name cache first: -1 is a hit, 0 a miss.\<close>

definition lookup_name ::
  "vnode \<Rightarrow> componentname \<Rightarrow> bool \<Rightarrow> vfs_context \<Rightarrow> fuse_world \<Rightarrow>
     (fuse_world, int \<times> vnode option) upcall" where
  "lookup_name dvp cnp wantparent ctx w =
     Call (K_cache_lookup dvp (cn_name cnp)) w (\<lambda>x w.
       need (VTOFUD dvp w) (\<lambda>dv.
         let miss = lookup_calldaemon Name_entry (fv_nodeid dv) dvp cnp wantparent ctx
         in if kr_err x = -1
            then need (kr_vnode x) (\<lambda>vp. need (VTOFUD vp w) (\<lambda>v.
                   if fuse_isnovncache (w_data w) v
                   then miss (emit (Ef_vnode_put vp) (emit (Ef_cache_purge vp) w))
                   else Done (0, Some vp) w))
            else if kr_err x = 0 then miss w
            else Done (kr_err x, None) w))"

definition fuse_vnop_lookup ::
  "vnode \<Rightarrow> componentname \<Rightarrow> bool \<Rightarrow> vfs_context \<Rightarrow> fuse_world \<Rightarrow>
     (fuse_world, int \<times> vnode option) upcall" where
  "fuse_vnop_lookup dvp cnp wantparent ctx w =
     need (VTOFUD dvp w) (\<lambda>dv.
       if fuse_isdeadfs (w_data w) dv then Done (ENOTDIR, None) w
       else if fuse_skip_apple_double_mp (w_data w) (Some (cn_nameptr cnp)) (int (cn_namelen cnp))
       then Done (ENOENT, None) w
       else if \<not> vnode_isdir dv then Done (ENOTDIR, None) w
       else if cn_islastcn cnp \<and> w_rdonly w \<and> cn_nameiop cnp \<noteq> NI_LOOKUP then Done (EROFS, None) w
       else if cn_namelen cnp > 255 then Done (ENAMETOOLONG, None) w
       else if cn_isdotdot cnp
       then need (fv_parentvp dv) (\<lambda>pdp. need (VTOFUD pdp w) (\<lambda>pv.
              lookup_calldaemon (Name_dotdot pdp pv) (fv_nodeid pv) dvp cnp wantparent ctx w))
       else if is_dot cnp
       then lookup_calldaemon (Name_dot dv) (fv_nodeid dv) dvp cnp wantparent ctx w
       else lookup_name dvp cnp wantparent ctx w)"

section \<open>Making entries\<close>

definition MAKEIMODE :: "vtype \<Rightarrow> u16 \<Rightarrow> u32" where
  "MAKEIMODE ty mode =
     (case ty of VNON \<Rightarrow> 0 | VREG \<Rightarrow> 0x8000 | VDIR \<Rightarrow> 0x4000 | VBLK \<Rightarrow> 0x6000 | VCHR \<Rightarrow> 0x2000
      | VLNK \<Rightarrow> 0xA000 | VSOCK \<Rightarrow> 0xC000 | VFIFO \<Rightarrow> 0x1000 | _ \<Rightarrow> 0xF000) OR ucast mode"

abbreviation (input) O_CREAT :: u32 where "O_CREAT \<equiv> 0x200"
abbreviation (input) NOTE_DELETE :: u32 where "NOTE_DELETE \<equiv> 0x1"
abbreviation (input) NOTE_LINK :: u32 where "NOTE_LINK \<equiv> 0x10"
abbreviation (input) NOTE_RENAME :: u32 where "NOTE_RENAME \<equiv> 0x20"

text \<open>
  The vnode of a created file. Without one the daemon is told to release the file (\<open>OFLAGS\<close> of the
  mode) or to forget the node, and the ticket of the answer is lost.
\<close>

abbreviation (input) OFLAGS :: "u32 \<Rightarrow> u32" where "OFLAGS fflags \<equiv> fflags - 1"

definition create_bringup ::
  "vnode \<Rightarrow> u32 \<Rightarrow> bool \<Rightarrow> u8 list \<Rightarrow> vfs_context \<Rightarrow> fuse_world \<Rightarrow> (fuse_world, int \<times> vnode option) upcall" where
  "create_bringup dvp mode gone_good_old answ ctx w =
     (let feo = get_entry_out answ; foo = get_open_out sizeof_entry_out answ;
          bad = fuse_internal_checkentry feo VREG
      in if bad \<noteq> 0 then fuse_drop w (Done (bad, None))
         else upcall_bind (FSNodeGetOrCreateFileVNodeByID (if gone_good_old then 0 else FN_CREATING)
                feo (Some dvp) w) (\<lambda>(err, vpp) w.
           case vpp of
             None \<Rightarrow>
               if gone_good_old
               then Done (err, None) (forget_send (Some ctx) (eo_nodeid feo) 1 w)
               else Done (err, None) (emit (Ef_send \<lparr>rq_op = FUSE_RELEASE, rq_nodeid = eo_nodeid feo,
                      rq_body = b64 (oo_fh foo) @ b32 (OFLAGS mode) @ bgap 4 @ bgap 8,
                      rq_ctx = Some ctx\<rparr> (Some (Some Forget_callback))) w)
           | Some vp \<Rightarrow>
               let w1 = (if gone_good_old then w
                         else set_fufh vp FUFH_RDWR (\<lambda>f. f\<lparr>fh_id := oo_fh foo,
                                open_flags := oo_open_flags foo, open_count := 1\<rparr>) w)
               in fuse_drop (emit (Ef_cache_purge_negatives dvp) w1)
                    (\<lambda>w. Done (0, Some vp) (emit (Ef_knote dvp NOTE_WRITE) w))))"

definition create_good_old ::
  "vnode \<Rightarrow> componentname \<Rightarrow> u32 \<Rightarrow> u64 \<Rightarrow> vfs_context \<Rightarrow> fuse_world \<Rightarrow>
     (fuse_world, int \<times> vnode option) upcall" where
  "create_good_old dvp cnp mode parent_nodeid ctx w =
     ask \<lparr>rq_op = FUSE_MKNOD, rq_nodeid = parent_nodeid,
          rq_body = newentry_body (b32 mode @ b32 0) cnp, rq_ctx = Some ctx\<rparr> w (\<lambda>x w.
       if fr_err x \<noteq> 0 then Done (fr_err x, None) w
       else create_bringup dvp mode True (fr_answ x) ctx w)"

definition fuse_vnop_create ::
  "vnode \<Rightarrow> componentname \<Rightarrow> vnode_attr \<Rightarrow> vfs_context \<Rightarrow> fuse_world \<Rightarrow>
     (fuse_world, int \<times> vnode option) upcall" where
  "fuse_vnop_create dvp cnp vap ctx w =
     need (VTOFUD dvp w) (\<lambda>dv.
       let mode = MAKEIMODE (va_type vap) (va_mode vap) in
       if fuse_isdeadfs_fs (w_data w) then Crash
       else if fuse_blanket_deny (w_data w) dv ctx then Done (EPERM, None) w
       else if fuse_skip_apple_double_mp (w_data w) (Some (cn_nameptr cnp)) (int (cn_namelen cnp))
       then Done (EPERM, None) w
       else if \<not> fuse_implemented (w_data w) (FSESS_NOIMPLBIT FUSE_CREATE) \<or> va_type vap \<noteq> VREG
       then create_good_old dvp cnp mode (fv_nodeid dv) ctx w
       else ask \<lparr>rq_op = FUSE_CREATE, rq_nodeid = fv_nodeid dv,
                 rq_body = newentry_body (b32 (O_CREAT OR O_RDWR) @ b32 mode) cnp,
                 rq_ctx = Some ctx\<rparr> w (\<lambda>x w.
              if fr_err x = ENOSYS
              then create_good_old dvp cnp mode (fv_nodeid dv) ctx
                     (set_data (fuse_clear_implemented (FSESS_NOIMPLBIT FUSE_CREATE)) w)
              else if fr_err x \<noteq> 0 then Done (fr_err x, None) w
              else create_bringup dvp mode False (fr_answ x) ctx w))"

definition fuse_vnop_mkdir ::
  "vnode \<Rightarrow> componentname \<Rightarrow> vnode_attr \<Rightarrow> vfs_context \<Rightarrow> fuse_world \<Rightarrow>
     (fuse_world, int \<times> vnode option) upcall" where
  "fuse_vnop_mkdir dvp cnp vap ctx w =
     need (VTOFUD dvp w) (\<lambda>dv.
       if fuse_isdeadfs_fs (w_data w) then Crash
       else if fuse_blanket_deny (w_data w) dv ctx then Done (EPERM, None) w
       else upcall_bind (fuse_internal_newentry dvp cnp FUSE_MKDIR
              (b32 (MAKEIMODE (va_type vap) (va_mode vap)) @ bgap 4) VDIR ctx w) (\<lambda>r w.
              Done r (if fst r = 0
                      then emit (Ef_knote dvp (NOTE_WRITE OR NOTE_LINK)) (invalidate_attr dvp w)
                      else w)))"

definition fuse_vnop_mknod ::
  "vnode \<Rightarrow> componentname \<Rightarrow> vnode_attr \<Rightarrow> vfs_context \<Rightarrow> fuse_world \<Rightarrow>
     (fuse_world, int \<times> vnode option) upcall" where
  "fuse_vnop_mknod dvp cnp vap ctx w =
     need (VTOFUD dvp w) (\<lambda>dv.
       if fuse_isdeadfs_fs (w_data w) then Crash
       else if fuse_blanket_deny (w_data w) dv ctx then Done (EPERM, None) w
       else upcall_bind (fuse_internal_newentry dvp cnp FUSE_MKNOD
              (b32 (MAKEIMODE (va_type vap) (va_mode vap)) @ b32 (va_rdev vap)) (va_type vap) ctx w)
              (\<lambda>r w. Done r (if fst r = 0
                            then emit (Ef_knote dvp NOTE_WRITE) (invalidate_attr dvp w) else w)))"

text \<open>The target of a symbolic link follows its name; both end with a null.\<close>

definition fuse_vnop_symlink ::
  "vnode \<Rightarrow> componentname \<Rightarrow> u8 list \<Rightarrow> vfs_context \<Rightarrow> fuse_world \<Rightarrow>
     (fuse_world, int \<times> vnode option) upcall" where
  "fuse_vnop_symlink dvp cnp target ctx w =
     need (VTOFUD dvp w) (\<lambda>dv.
       if fuse_isdeadfs_fs (w_data w) then Crash
       else if fuse_blanket_deny (w_data w) dv ctx then Done (EPERM, None) w
       else upcall_bind (fuse_internal_newentry_core dvp cnp FUSE_SYMLINK
              (bname (cn_nameptr cnp) (cn_namelen cnp) @ bname target (length target)) VLNK ctx w)
              (\<lambda>r w. Done r (if fst r = 0
                            then emit (Ef_knote dvp NOTE_WRITE) (invalidate_attr dvp w) else w)))"

abbreviation (input) FUSE_LINK_MAX :: u64 where "FUSE_LINK_MAX \<equiv> 32767"

definition fuse_vnop_link ::
  "vnode \<Rightarrow> vnode \<Rightarrow> bool \<Rightarrow> componentname \<Rightarrow> vfs_context \<Rightarrow> fuse_world \<Rightarrow> (fuse_world, int) upcall" where
  "fuse_vnop_link vp tdvp same_mount cnp ctx w =
     need (VTOFUD vp w) (\<lambda>v.
       if fuse_isdeadfs_fs (w_data w) then Crash
       else if \<not> same_mount then Done EXDEV w
       else if va_nlink (fv_cached_attr v) \<ge> FUSE_LINK_MAX then Done EMLINK w
       else if fuse_blanket_deny (w_data w) v ctx then Done EPERM w
       else ask_vp FUSE_LINK tdvp (newentry_body (b64 (fv_nodeid v)) cnp) (Some ctx) w (\<lambda>x w.
              if fr_err x \<noteq> 0 then Done (fr_err x) w
              else
                let err = fuse_internal_checkentry (get_entry_out (fr_answ x)) (fv_vtype v) in
                fuse_drop w (\<lambda>w.
                  let w1 = invalidate_attr vp (invalidate_attr tdvp w)
                  in if err = 0
                     then Done 0 (set_fud vp (\<lambda>v. v\<lparr>fv_nlookup := fv_nlookup v + 1\<rparr>)
                            (emit (Ef_knote tdvp NOTE_WRITE) (emit (Ef_knote vp NOTE_LINK) w1)))
                     else Done err w1)))"

section \<open>Removing and renaming entries\<close>

definition fuse_vnop_remove ::
  "vnode \<Rightarrow> vnode \<Rightarrow> componentname \<Rightarrow> bool \<Rightarrow> vfs_context \<Rightarrow> fuse_world \<Rightarrow> (fuse_world, int) upcall" where
  "fuse_vnop_remove dvp vp cnp nodeletebusy ctx w =
     need (VTOFUD vp w) (\<lambda>v.
       let delete = (\<lambda>w. upcall_bind
             (fuse_internal_remove dvp vp cnp FUSE_UNLINK ctx (emit (Ef_cache_purge vp) w)) (\<lambda>err w.
               Done err (if err = 0
                         then invalidate_attr dvp (emit (Ef_cache_purge vp)
                                (emit (Ef_knote dvp NOTE_WRITE) (emit (Ef_knote vp NOTE_DELETE) w)))
                         else w)))
       in if fuse_isdeadfs_fs (w_data w) then Crash
          else if fuse_blanket_deny (w_data w) v ctx then Done ENOENT w
          else if vnode_isdir v then Done EPERM w
          else if nodeletebusy
          then Call (K_vnode_isinuse vp 0) w (\<lambda>x w. if kr_err x \<noteq> 0 then Done EBUSY w else delete w)
          else delete w)"

definition fuse_vnop_rmdir ::
  "vnode \<Rightarrow> vnode \<Rightarrow> componentname \<Rightarrow> vfs_context \<Rightarrow> fuse_world \<Rightarrow> (fuse_world, int) upcall" where
  "fuse_vnop_rmdir dvp vp cnp ctx w =
     need (VTOFUD vp w) (\<lambda>v.
       if fuse_isdeadfs_fs (w_data w) then Crash
       else if fuse_blanket_deny (w_data w) v ctx then Done ENOENT w
       else if gh_fsnode (w_hash w) vp = gh_fsnode (w_hash w) dvp then Done EINVAL w
       else upcall_bind
              (fuse_internal_remove dvp vp cnp FUSE_RMDIR ctx (emit (Ef_cache_purge vp) w)) (\<lambda>err w.
                Done err (if err = 0
                          then emit (Ef_knote vp NOTE_DELETE) (emit (Ef_knote dvp (NOTE_WRITE OR NOTE_LINK))
                                 (invalidate_attr dvp w))
                          else w)))"

text \<open>What follows the daemon's answer to a rename; \<open>tvp\<close> is the entry that was replaced, if any.\<close>

definition rename_done ::
  "vnode \<Rightarrow> vnode \<Rightarrow> vnode \<Rightarrow> vnode option \<Rightarrow> int \<Rightarrow> fuse_world \<Rightarrow> fuse_world" where
  "rename_done fdvp fvp tdvp tvp err w =
     (let w1 = (if err = 0
                then let w' = invalidate_attr fdvp (emit (Ef_knote fdvp NOTE_WRITE) w)
                     in if tdvp \<noteq> fdvp then emit (Ef_knote tdvp NOTE_WRITE) (invalidate_attr tdvp w')
                        else w'
                else w);
          w2 = (case tvp of
                  None \<Rightarrow> w1
                | Some t \<Rightarrow> if t \<noteq> fvp then emit (Ef_knote t NOTE_DELETE) (emit (Ef_cache_purge t) w1)
                            else w1);
          isdir = (\<lambda>vp. case VTOFUD vp w2 of None \<Rightarrow> False | Some v \<Rightarrow> vnode_isdir v);
          w3 = (if isdir fvp
                then emit (Ef_cache_purge fdvp)
                       (case tvp of
                          None \<Rightarrow> w2
                        | Some t \<Rightarrow> if isdir t then emit (Ef_cache_purge tdvp) w2 else w2)
                else w2)
      in if err = 0 then emit (Ef_knote fvp NOTE_RENAME) w3 else w3)"

definition fuse_vnop_rename ::
  "vnode \<Rightarrow> vnode \<Rightarrow> componentname \<Rightarrow> vnode \<Rightarrow> vnode option \<Rightarrow> componentname \<Rightarrow> vfs_context \<Rightarrow>
     fuse_world \<Rightarrow> (fuse_world, int) upcall" where
  "fuse_vnop_rename fdvp fvp fcnp tdvp tvp tcnp ctx w =
     need (VTOFUD fdvp w) (\<lambda>fd.
       if fuse_isdeadfs_fs (w_data w) then Crash
       else if fuse_blanket_deny (w_data w) fd ctx then Done ENOENT w
       else upcall_bind (fuse_internal_rename fdvp fcnp tdvp tcnp ctx (emit (Ef_cache_purge fvp) w))
              (\<lambda>err w. need (VTOFUD fvp w) (\<lambda>fv. Done err (rename_done fdvp fvp tdvp tvp err w))))"

text \<open>\<open>vnode_getname\<close> gives the name of a vnode, or none (an errno that is not 0 here).\<close>

definition fuse_vnop_exchange ::
  "vnode \<Rightarrow> vnode \<Rightarrow> bool \<Rightarrow> u32 \<Rightarrow> vfs_context \<Rightarrow> fuse_world \<Rightarrow> (fuse_world, int) upcall" where
  "fuse_vnop_exchange fvp tvp same_mount options ctx w =
     need (VTOFUD fvp w) (\<lambda>fv.
       if \<not> same_mount then Done EXDEV w
       else if \<not> fuse_implemented (w_data w) (FSESS_NOIMPLBIT FUSE_EXCHANGE) then Done ENOTSUP w
       else if fuse_isnovncache (w_data w) fv then Done ENOTSUP w
       else if fvp = tvp then Done EINVAL w
       else need (VTOFUD tvp w) (\<lambda>tv.
         if \<not> vnode_isreg fv \<or> \<not> vnode_isreg tv then Done EINVAL w
         else if fuse_isdeadfs_fs (w_data w) then Crash
         else Call (K_vnode_getname fvp) w (\<lambda>x w. if kr_err x \<noteq> 0 then Done EIO w else
              Call (K_vnode_getname tvp) w (\<lambda>y w. if kr_err y \<noteq> 0 then Done EIO w else
                let fname = kr_bytes x; tname = kr_bytes y;
                    hidden = (\<lambda>n. length n > 2 \<and> take 2 n = [0x2E, 0x5F])
                in if hidden fname \<or> hidden tname then Done EINVAL w
                   else upcall_bind (fuse_internal_exchange fvp fname (length fname) tvp tname
                          (length tname) options ctx w) (\<lambda>err w.
                     if err = ENOSYS
                     then Done ENOTSUP (set_data (fuse_clear_implemented (FSESS_NOIMPLBIT FUSE_EXCHANGE)) w)
                     else Done err (if err = 0
                       then emit (Ef_knote tvp NOTE_ATTRIB) (emit (Ef_knote fvp NOTE_ATTRIB) w) else w))))))"

section \<open>Symbolic links\<close>

text \<open>
  The bytes \<open>uiomove\<close> gives the caller are logged. A target that starts with a slash is prefixed with
  the mount point on volumes with \<open>jail_symlinks\<close>; of an empty answer the code looks at a byte that
  the daemon did not send.
\<close>

definition uiomove_out ::
  "u8 list \<Rightarrow> fuse_world \<Rightarrow> (int \<Rightarrow> fuse_world \<Rightarrow> (fuse_world, 'a) upcall) \<Rightarrow> (fuse_world, 'a) upcall" where
  "uiomove_out bs w k = Call (K_uiomove bs) w (\<lambda>x. k (kr_err x))"

definition fuse_vnop_readlink ::
  "u8 list \<Rightarrow> u8 \<Rightarrow> vnode \<Rightarrow> vfs_context \<Rightarrow> fuse_world \<Rightarrow> (fuse_world, int) upcall" where
  "fuse_vnop_readlink mntonname stale vp ctx w =
     need (VTOFUD vp w) (\<lambda>v.
       if fuse_isdeadfs (w_data w) v then Done EBADF w
       else if fuse_blanket_deny (w_data w) v ctx then Done ENOENT w
       else if \<not> vnode_islnk v then Done EINVAL w
       else fdisp_simple_putget_vp FUSE_READLINK vp ctx w (\<lambda>x w.
         if fr_err x \<noteq> 0 then Done (fr_err x) w
         else
           let first = (case fr_answ x of [] \<Rightarrow> stale | b # bs \<Rightarrow> b);
               finish = (\<lambda>err w. fuse_drop w (\<lambda>w. Done err (invalidate_attr vp w)));
               target = (\<lambda>err w. if err = 0 then uiomove_out (fr_answ x) w finish else finish err w)
           in if first = 0x2F \<and> flag_set (fd_dataflags (w_data w)) FSESS_JAIL_SYMLINKS
              then uiomove_out mntonname w target
              else target 0 w))"

section \<open>The end of a vnode\<close>

text \<open>
  The handles that are still open are closed with the daemon. In \<open>fuse_vnop_reclaim\<close> the two kinds of
  unmount differ in what they log only.
\<close>

definition fufh_types :: "fufh_type list" where
  "fufh_types = [FUFH_RDONLY, FUFH_WRONLY, FUFH_RDWR]"

fun release_handles ::
  "fufh_type list \<Rightarrow> vnode \<Rightarrow> vfs_context \<Rightarrow> fuse_world \<Rightarrow> (fuse_world, unit) upcall" where
  "release_handles [] vp ctx w = Done () w"
| "release_handles (t # ts) vp ctx w =
     need (VTOFUD vp w) (\<lambda>v.
       if FUFH_IS_VALID (fv_fufh v t)
       then upcall_bind (fuse_filehandle_put vp (Some ctx) t True (set_fufh vp t FUFH_USE_RESET w))
              (\<lambda>err. release_handles ts vp ctx)
       else release_handles ts vp ctx w)"

definition fuse_vnop_inactive :: "vnode \<Rightarrow> vfs_context \<Rightarrow> fuse_world \<Rightarrow> (fuse_world, int) upcall" where
  "fuse_vnop_inactive vp ctx w = upcall_bind (release_handles fufh_types vp ctx w) (\<lambda>_. Done 0)"

definition reclaim_detach :: "vnode \<Rightarrow> fuse_world \<Rightarrow> (fuse_world, int) upcall" where
  "reclaim_detach vp w =
     need (HNodeFromVNode vp (w_hash w)) (\<lambda>hn.
     need (HNodeDetachVNode hn vp (w_hash w)) (\<lambda>(scrub, h).
       if scrub
       then need (HNodeScrubDone hn h) (\<lambda>h1.
              Done 0 (w\<lparr>w_hash := h1, w_fud := (w_fud w)(hn := None)\<rparr>))
       else Done 0 (w\<lparr>w_hash := h\<rparr>)))"

definition fuse_vnop_reclaim :: "vnode \<Rightarrow> vfs_context \<Rightarrow> fuse_world \<Rightarrow> (fuse_world, int) upcall" where
  "fuse_vnop_reclaim vp ctx w =
     need (VTOFUD vp w) (\<lambda>_.
     upcall_bind (release_handles fufh_types vp ctx w) (\<lambda>_ w.
       need (VTOFUD vp w) (\<lambda>v.
         let w1 = (if \<not> fuse_isdeadfs (w_data w) v \<and> fv_nlookup v \<noteq> 0
                   then forget_send (Some ctx) (fv_nodeid v) (fv_nlookup v) w else w)
         in reclaim_detach vp (emit (Ef_cache_purge vp) w1))))"

definition fuse_vnop_revoke :: "vnode \<Rightarrow> vfs_context \<Rightarrow> fuse_world \<Rightarrow> (fuse_world, int) upcall" where
  "fuse_vnop_revoke vp ctx w =
     need (VTOFUD vp w) (\<lambda>v.
       if fuse_blanket_deny (w_data w) v ctx then Done ENOENT w
       else Done 0 (fuse_internal_revoke vp 1 w))"

section \<open>The operations are steady\<close>

lemma exchange_steady [steady_intros]:
  assumes "steady V n w" and "fvp \<in> V" and "tvp \<in> V"
    and "\<And>vp v. vp \<in> {fvp, tvp} \<Longrightarrow> VTOFUD vp w = Some v \<Longrightarrow> \<exists>d\<in>V. fv_parentvp v = Some d"
  shows "steady_within b V (\<lambda>_. steady V n) (fuse_internal_exchange fvp fname flen tvp tname tlen options ctx w)"
proof -
  obtain ff tf where f: "VTOFUD fvp w = Some ff" and t: "VTOFUD tvp w = Some tf"
    using staged_live [OF assms(1,2)] staged_live [OF assms(1,3)] by blast
  obtain fd td where fd: "fv_parentvp ff = Some fd" "fd \<in> V" and td: "fv_parentvp tf = Some td" "td \<in> V"
    using assms(4) [of fvp, OF _ f] assms(4) [of tvp, OF _ t] by auto
  obtain fdv tdv where "VTOFUD fd w = Some fdv" "VTOFUD td w = Some tdv"
    using staged_live [OF assms(1) fd(2)] staged_live [OF assms(1) td(2)] by blast
  with f t fd td show ?thesis
    unfolding fuse_internal_exchange_def
    by (simp add: Let_def)
      (rule steady_ask_errno, use assms in \<open>auto intro!: steady_intros\<close>)
qed

lemma remove_steady:
  assumes "steady V n w" and "vp \<in> V" and "dvp \<in> V" and "\<not> fuse_isdeadfs_fs (w_data w)"
  shows "steady_within b V (\<lambda>_. steady V n) (fuse_vnop_remove dvp vp cnp nb ctx w)"
  unfolding fuse_vnop_remove_def
  by (intro steady_intros) (use assms in \<open>auto intro!: steady_intros\<close>)

lemma rmdir_steady:
  assumes "steady V n w" and "vp \<in> V" and "dvp \<in> V" and "\<not> fuse_isdeadfs_fs (w_data w)"
  shows "steady_within b V (\<lambda>_. steady V n) (fuse_vnop_rmdir dvp vp cnp ctx w)"
  unfolding fuse_vnop_rmdir_def
  by (intro steady_intros) (use assms in auto)

lemma rename_done_steady [simp]:
  "staged V n st (rename_done fdvp fvp tdvp tvp err w) = staged V n st w"
  by (simp add: rename_done_def Let_def split: option.split)

lemma rename_steady:
  assumes "steady V n w" and "fvp \<in> V" and "fdvp \<in> V" and "tdvp \<in> V" and "\<not> fuse_isdeadfs_fs (w_data w)"
  shows "steady_within b V (\<lambda>_. steady V n) (fuse_vnop_rename fdvp fvp fcnp tdvp tvp tcnp ctx w)"
  unfolding fuse_vnop_rename_def
  by (intro steady_intros) (use assms in auto)

lemma uiomove_out_steady [steady_intros]:
  assumes "steady V n w" and "\<And>e t. steady V n t \<Longrightarrow> steady_within b V Q (k e t)"
  shows "steady_within b V Q (uiomove_out bs w k)"
  unfolding uiomove_out_def by (rule steady_call [OF assms(1)]) (simp_all add: assms(2))

lemma readlink_steady:
  assumes "steady V n w" and "vp \<in> V"
  shows "steady_within b V (\<lambda>_. steady V n) (fuse_vnop_readlink mnt stale vp ctx w)"
  unfolding fuse_vnop_readlink_def fdisp_simple_putget_vp_def
  by (intro steady_intros) (use assms in \<open>auto intro!: steady_intros\<close>)

lemma FUFH_reset: "\<not> FUFH_IS_VALID (FUFH_USE_RESET f)"
  by (simp add: FUFH_IS_VALID_def FUFH_USE_RESET_def)

lemma VTOFUD_set_fufh:
  "VTOFUD vp (set_fufh vp t f w) =
     map_option (\<lambda>v. v\<lparr>fv_fufh := (fv_fufh v)(t := f (fv_fufh v t))\<rparr>) (VTOFUD vp w)"
  by (simp add: set_fufh_def)

lemma release_handles_steady [steady_intros]:
  assumes "vp \<in> V" and "steady V n w" and "FUFH_INVALID \<notin> set ts"
  shows "steady_within b V (\<lambda>_. steady V n) (release_handles ts vp ctx w)"
  using assms(2,3)
proof (induction ts arbitrary: w)
  case Nil
  then show ?case by simp
next
  case (Cons t ts)
  have put: "steady_within b V (\<lambda>_. steady V n) (fuse_filehandle_put vp (Some ctx) t True (set_fufh vp t FUFH_USE_RESET w))"
    by (rule fuse_filehandle_put_steady)
      (use Cons.prems assms(1) in \<open>auto simp: VTOFUD_set_fufh FUFH_reset\<close>)
  show ?case
    using Cons.prems assms(1)
    by (auto intro!: steady_need steady_bind [OF put] Cons.IH)
qed

lemma inactive_steady:
  assumes "steady V n w" and "vp \<in> V"
  shows "steady_within b V (\<lambda>_. steady V n) (fuse_vnop_inactive vp ctx w)"
  unfolding fuse_vnop_inactive_def
  by (intro steady_intros) (use assms in \<open>auto simp: fufh_types_def\<close>)

text \<open>Reclaiming gives the vnode up, and its node with the last one.\<close>

lemma reclaim_detach_steady:
  assumes "steady V n w" and "vp \<in> V"
  shows "ensures c R K (\<lambda>a. steady (V - {vp}) n) (reclaim_detach vp w)"
proof -
  obtain s where s: "hash_at s w" "hs_look s 0 = None"
    using assms(1) by (auto simp: staged_def hash_stage_def)
  then have inv: "hash_inv s" and eq: "hs_h s = w_hash w" by (simp_all add: hash_at_def)
  obtain p where p: "gh_fsnode (w_hash w) vp = Some p"
    using staged_live [OF assms] by (auto simp: VTOFUD_Some)
  obtain b h where h: "HNodeDetachVNode p vp (w_hash w) = Some (b, h)"
    "hash_inv (after_release p s (b, h))"
    using reclaim_ok [OF inv, of vp p] p eq by auto
  have eff: "(\<forall>q. gh_nodes h q = None \<longleftrightarrow> gh_nodes (w_hash w) q = None) \<and>
      gh_fsnode h = (gh_fsnode (w_hash w))(vp := None)"
    using h(1) by (auto simp: HNodeDetachVNode_def HNodeForkVNodeDecrement_def Let_def
        bind_eq_Some_conv split: if_splits)
  let ?s = "after_release p s (b, h)"
  have held: "held ?s q \<longleftrightarrow> held s q" for q by (simp add: held_def after_release_def)
  show ?thesis
  proof (cases b)
    case False
    have "hash_at ?s (w\<lparr>w_hash := h\<rparr>)"
      using s(1) h(2) eff held by (auto simp: hash_at_def after_release_def)
    moreover have "live (V - {vp}) (w\<lparr>w_hash := h\<rparr>)"
      using assms eff by (auto simp: staged_def live_def VTOFUD_def)
    ultimately have "steady (V - {vp}) n (w\<lparr>w_hash := h\<rparr>)"
      using assms(1) s(2) by (auto simp: staged_def hash_stage_def after_release_def)
    then show ?thesis using h(1) False p by (simp add: reclaim_detach_def HNodeFromVNode_def)
  next
    case True
    have "p \<in> set (hs_scrub ?s)" using True by (simp add: after_release_def)
    from scrub_ok [OF h(2) this] obtain h1 where h1: "HNodeScrubDone p h = Some h1"
      "hash_inv (?s\<lparr>hs_h := h1, hs_scrub := remove1 p (hs_scrub ?s)\<rparr>)"
      by (auto simp: after_release_def)
    let ?s1 = "?s\<lparr>hs_h := h1, hs_scrub := remove1 p (hs_scrub ?s)\<rparr>"
    let ?w1 = "w\<lparr>w_hash := h1, w_fud := (w_fud w)(p := None)\<rparr>"
    have eff1: "gh_nodes h1 = (gh_nodes h)(p := None)" "gh_fsnode h1 = gh_fsnode h"
      using h1(1) by (auto simp: HNodeScrubDone_def bind_eq_Some_conv split: if_splits)
    have none: "gh_nodes h1 p = None" using eff1 by simp
    have "vnodes_inv (gh_nodes h1) (gh_fsnode h1)" using hash_invD(3) [OF h1(2)] by simp
    then have off: "vn \<noteq> vp \<Longrightarrow> gh_fsnode (w_hash w) vn \<noteq> Some p" for vn
      using vnodes_inv_iff [of "gh_nodes h1" "gh_fsnode h1" vn p] eff eff1 none by auto
    have "held ?s1 q \<longleftrightarrow> held s q" for q by (simp add: held_def after_release_def)
    then have "hash_at ?s1 ?w1"
      using s(1) h1(2) eff eff1 off by (auto simp: hash_at_def split: if_splits)
    moreover have "live (V - {vp}) ?w1"
      using assms eff eff1 off by (fastforce simp: staged_def live_def VTOFUD_def split: bind_splits)
    ultimately have "steady (V - {vp}) n ?w1"
      using assms(1) s(2) by (auto simp: staged_def hash_stage_def after_release_def)
    then show ?thesis using h(1) h1(1) True p by (simp add: reclaim_detach_def HNodeFromVNode_def)
  qed
qed


lemma reclaim_steady:
  assumes "steady V n w" and "vp \<in> V"
  shows "steady_within b V (\<lambda>_. steady (V - {vp}) n) (fuse_vnop_reclaim vp ctx w)"
  unfolding fuse_vnop_reclaim_def
proof (rule steady_need [OF assms], rule steady_bind)
  show "steady_within b V (\<lambda>_. steady V n) (release_handles fufh_types vp ctx w)"
    by (rule release_handles_steady [OF assms(2,1)]) (simp add: fufh_types_def)
next
  fix a t
  assume t: "steady V n t"
  show "steady_within b V (\<lambda>_. steady (V - {vp}) n) (need (VTOFUD vp t) (\<lambda>v.
         let w1 = (if \<not> fuse_isdeadfs (w_data t) v \<and> fv_nlookup v \<noteq> 0
                   then forget_send (Some ctx) (fv_nodeid v) (fv_nlookup v) t else t)
         in reclaim_detach vp (emit (Ef_cache_purge vp) w1)))"
    by (rule steady_need [OF t assms(2)])
      (use t assms(2) reclaim_detach_steady in \<open>auto simp: Let_def\<close>)
qed

subsection \<open>Operations that give a vnode\<close>

text \<open>
  The vnode an operation gives need not be one it has been given; what is known of it at the end of a
  request is that it was there.
\<close>

lemma entry_result_steady: "steady V n t \<Longrightarrow> err \<noteq> 0 \<Longrightarrow> entry_result V n (err, None) t"
  by simp

lemma newentry_result:
  assumes "steady V n w" and "dvp \<in> V"
  shows "steady_until V (entry_result V n) (fuse_internal_newentry dvp cnp op buf ty ctx w)"
proof -
  have "steady_until V (entry_result V n)
      (upcall_bind (fuse_internal_newentry_core dvp cnp op (newentry_body buf cnp) ty ctx w)
             (\<lambda>r w. Done r (invalidate_attr dvp w)))"
    by (rule ensures_bind [OF newentry_core_result [OF assms]])
      (auto simp: entry_result_def invalidate_attr_def split: option.splits)
  with assms(1) show ?thesis by (simp add: fuse_internal_newentry_def)
qed

lemma entry_result_changes [simp]:
  "entry_result V n r (emit e w) = entry_result V n r w"
  "entry_result V n r (invalidate_attr vp w) = entry_result V n r w"
  by (auto simp: entry_result_def invalidate_attr_def split: prod.split option.split)

lemma mkdir_result:
  assumes "steady V n w" and "dvp \<in> V" and "\<not> fuse_isdeadfs_fs (w_data w)"
  shows "steady_until V (entry_result V n) (fuse_vnop_mkdir dvp cnp vap ctx w)"
  unfolding fuse_vnop_mkdir_def
  by (intro steady_intros ensures_bind [OF newentry_result]) (use assms in auto)

lemma mknod_result:
  assumes "steady V n w" and "dvp \<in> V" and "\<not> fuse_isdeadfs_fs (w_data w)"
  shows "steady_until V (entry_result V n) (fuse_vnop_mknod dvp cnp vap ctx w)"
  unfolding fuse_vnop_mknod_def
  by (intro steady_intros ensures_bind [OF newentry_result]) (use assms in auto)

lemma symlink_result:
  assumes "steady V n w" and "dvp \<in> V" and "\<not> fuse_isdeadfs_fs (w_data w)"
  shows "steady_until V (entry_result V n) (fuse_vnop_symlink dvp cnp target ctx w)"
  unfolding fuse_vnop_symlink_def
  by (intro steady_intros ensures_bind [OF newentry_core_result]) (use assms in auto)

lemma link_steady:
  assumes "steady V n w" and "vp \<in> V" and "tdvp \<in> V" and "\<not> fuse_isdeadfs_fs (w_data w)"
  shows "steady_within b V (\<lambda>_. steady V n) (fuse_vnop_link vp tdvp sm cnp ctx w)"
  unfolding fuse_vnop_link_def
  by (intro steady_intros) (use assms in \<open>auto simp: Let_def intro!: steady_intros\<close>)

lemma steady_fsnode_get:
  assumes "steady V n w" and "set_option dvp \<subseteq> V"
    and "\<And>err t. err \<noteq> 0 \<Longrightarrow> steady V n t \<Longrightarrow> steady_until V Q (f (err, None) t)"
    and "\<And>vp t. steady V n t \<Longrightarrow> VTOFUD vp t \<noteq> None \<Longrightarrow> steady_until V Q (f (0, Some vp) t)"
  shows "steady_until V Q (upcall_bind (FSNodeGetOrCreateFileVNodeByID flags feo dvp w) f)"
proof (rule ensures_bind [OF fsnode_get_result [OF assms(1,2)]])
  fix r t
  assume "vnode_result V n r t"
  with assms(3,4) show "steady_until V Q (f r t)"
    by (cases r; cases "snd r") auto
qed

lemma create_bringup_result:
  assumes "steady V (Suc n) w" and "dvp \<in> V"
  shows "steady_until V (entry_result V n) (create_bringup dvp mode gone answ ctx w)"
  unfolding create_bringup_def
  using assms
  by (auto simp: Let_def VTOFUD_set_fufh intro!: steady_drop steady_fsnode_get)

lemma create_good_old_result:
  assumes "steady V n w" and "dvp \<in> V"
  shows "steady_until V (entry_result V n) (create_good_old dvp cnp mode nid ctx w)"
  unfolding create_good_old_def
  by (rule steady_ask [OF assms(1)]) (use assms(2) in \<open>auto intro: create_bringup_result\<close>)

lemma create_result:
  assumes "steady V n w" and "dvp \<in> V" and "\<not> fuse_isdeadfs_fs (w_data w)"
  shows "steady_until V (entry_result V n) (fuse_vnop_create dvp cnp vap ctx w)"
  unfolding fuse_vnop_create_def
  by (intro steady_intros create_good_old_result create_bringup_result) (use assms in auto)

lemma lookup_out_result:
  assumes "\<And>vp. snd r = Some vp \<Longrightarrow> steady V (Suc n) w \<and> VTOFUD vp w \<noteq> None"
    and "snd r = None \<Longrightarrow> fst r \<noteq> 0 \<and> steady V (Suc n) w"
  shows "steady_until V (entry_result V n) (lookup_out kind nid cnp ctx r w)"
  using assms
  by (cases r; cases "snd r")
    (auto simp: lookup_out_def intro!: steady_drop)

lemma lookup_attrs_steady:
  assumes "staged V n st w" and "VTOFUD vp w \<noteq> None"
    and "\<And>v. kind = Name_dot v \<Longrightarrow> vnode_isdir v"
    and "\<And>d v. kind = Name_dotdot d v \<Longrightarrow> vnode_isdir v"
    and "\<And>t. staged V n st t \<Longrightarrow> VTOFUD vp t \<noteq> None \<Longrightarrow> ensures b R (kernel_rely V) Q (k t)"
  shows "ensures b R (kernel_rely V) Q (lookup_attrs kind answ vp w k)"
proof (cases kind)
  case Name_entry
  obtain v where v: "VTOFUD vp w = Some v" using assms(2) by auto
  show ?thesis unfolding lookup_attrs_def Name_entry lookup_kind.case Let_def v need_simps
    by (rule steady_cache_attrs) (use assms v in auto)
next
  case (Name_dot v)
  then have "\<not> vnode_isreg v" using assms(3) by (simp add: vnode_isdir_def vnode_isreg_def)
  then show ?thesis using assms unfolding lookup_attrs_def Name_dot
    by (auto simp: Let_def intro!: steady_cache_attrs)
next
  case (Name_dotdot d v)
  then have "\<not> vnode_isreg v" using assms(4) by (simp add: vnode_isdir_def vnode_isreg_def)
  then show ?thesis using assms unfolding lookup_attrs_def Name_dotdot
    by (auto simp: Let_def intro!: steady_cache_attrs)
qed

text \<open>The vnodes a lookup is about: the directory, and its parent for the name of two dots.\<close>

definition lookup_knows :: "vnode set \<Rightarrow> vnode \<Rightarrow> lookup_kind \<Rightarrow> bool" where
  "lookup_knows V dvp kind \<longleftrightarrow> dvp \<in> V \<and>
     (case kind of Name_entry \<Rightarrow> True | Name_dot v \<Rightarrow> vnode_isdir v
      | Name_dotdot d v \<Rightarrow> d \<in> V \<and> vnode_isdir v)"

lemma vnode_get_result:
  assumes "steady V n w" and "vp \<in> V"
  shows "steady_until V (vnode_result V n) (vnode_get vp w)"
  unfolding vnode_get_def by (rule steady_call [OF assms(1)]) (use assms(2) staged_live in auto)

lemma lookup_vnode_result:
  assumes "steady V n w" and "lookup_knows V dvp kind"
  shows "steady_until V (vnode_result V n) (lookup_vnode kind feo dvp cnp wp w)"
proof -
  have vget: "steady_until V (vnode_result V n) (fuse_vget_i 0 feo cnp dvp w)"
    by (rule fuse_vget_i_result [OF assms(1)]) (use assms(2) in \<open>simp add: lookup_knows_def\<close>)
  show ?thesis
    using assms vnode_get_result [OF assms(1)] vget
    by (auto simp: lookup_vnode_def lookup_knows_def lookup_op_def Let_def split: lookup_kind.splits)
qed

lemma lookup_found_result:
  assumes "steady V (Suc n) w" and "lookup_knows V dvp kind"
  shows "steady_until V (entry_result V n) (lookup_found kind answ dvp cnp wp ctx w)"
proof -
  let ?nid = "eo_nodeid (get_entry_out answ)"
  have "steady_until V (entry_result V n) (case r of
             (err, Some vp) \<Rightarrow>
               if lookup_for_removal cnp wp then lookup_out kind ?nid cnp ctx r t
               else lookup_attrs kind answ vp t (lookup_out kind ?nid cnp ctx r)
           | (err, None) \<Rightarrow> lookup_out kind ?nid cnp ctx r t)"
    if "vnode_result V (Suc n) r t" for r t
    using that assms(2)
    by (cases r; cases "snd r")
      (auto simp: lookup_knows_def intro!: lookup_out_result lookup_attrs_steady)
  then have "steady_until V (entry_result V n)
      (upcall_bind (lookup_vnode kind (get_entry_out answ) dvp cnp wp w) (\<lambda>r w.
           case r of
             (err, Some vp) \<Rightarrow>
               if lookup_for_removal cnp wp then lookup_out kind ?nid cnp ctx r w
               else lookup_attrs kind answ vp w (lookup_out kind ?nid cnp ctx r)
           | (err, None) \<Rightarrow> lookup_out kind ?nid cnp ctx r w))"
    by (rule ensures_bind [OF lookup_vnode_result [OF assms]])
  then show ?thesis
    using assms(1) by (auto simp: lookup_found_def Let_def intro!: lookup_out_result)
qed

lemma lookup_calldaemon_result:
  assumes "steady V n w" and "lookup_knows V dvp kind"
  shows "steady_until V (entry_result V n) (lookup_calldaemon kind nid dvp cnp wp ctx w)"
  unfolding lookup_calldaemon_def Let_def
  by (rule steady_ask [OF assms(1)])
    (use assms(2) in \<open>auto intro!: lookup_found_result\<close>)

lemma lookup_name_result:
  assumes "steady V n w" and "dvp \<in> V"
  shows "steady_until V (entry_result V n) (lookup_name dvp cnp wp ctx w)"
proof -
  have miss: "steady_until V (entry_result V n) (lookup_calldaemon Name_entry nid dvp cnp wp ctx t)"
    if "steady V n t" for nid t
    by (rule lookup_calldaemon_result [OF that]) (simp add: lookup_knows_def assms(2))
  show ?thesis
    using assms staged_live [OF keepsD [OF _ assms(1)] assms(2)]
    by (fastforce simp: lookup_name_def ensures_need Let_def intro!: miss dest: keepsD)
qed

lemma lookup_result:
  assumes "steady V n w" and "dvp \<in> V"
    and "\<And>dv. VTOFUD dvp w = Some dv \<Longrightarrow> cn_isdotdot cnp \<Longrightarrow>
           \<exists>p pv. fv_parentvp dv = Some p \<and> p \<in> V \<and> VTOFUD p w = Some pv \<and> vnode_isdir pv"
  shows "steady_until V (entry_result V n) (fuse_vnop_lookup dvp cnp wp ctx w)"
proof -
  obtain dv where dv: "VTOFUD dvp w = Some dv" using staged_live [OF assms(1,2)] by blast
  show ?thesis
    using assms(1,2) assms(3) [OF dv] dv lookup_name_result [OF assms(1,2)]
    by (auto simp: fuse_vnop_lookup_def lookup_knows_def intro!: lookup_calldaemon_result)
qed

end
