(* ===== verification/Fuse_Attrs.thy ===== *)
theory Fuse_Attrs
  imports Fuse_Ops
begin

text \<open>
  The vnode operations on attributes (\<open>fuse_vnops.c\<close>): access, getattr and setattr, the extended
  attributes, pathconf and the file system controls.
\<close>

section \<open>Access\<close>

abbreviation (input) FN_ACCESS_NOOP :: u32 where "FN_ACCESS_NOOP \<equiv> 0x01"

definition fuse_vnop_access :: "vnode \<Rightarrow> u32 \<Rightarrow> vfs_context \<Rightarrow> fuse_world \<Rightarrow> (fuse_world, int) upcall" where
  "fuse_vnop_access vp action ctx w =
     need (VTOFUD vp w) (\<lambda>v.
       let d = w_data w in
       if fuse_isdeadfs d v then Done (if fv_isvroot v then 0 else EBADF) w
       else if \<not> flag_set (fd_dataflags d) FSESS_INITED
       then Done (if fv_isvroot v \<and> (fuse_vfs_context_issuser ctx \<or>
                     fuse_match_cred (fd_daemoncred d) (ctx_ucred ctx) = 0) then 0 else EBADF) w
       else if vnode_islnk v then Done 0 w
       else if flag_set (fv_flag v) FN_ACCESS_NOOP
       then fuse_internal_access vp action ctx FACCESS_FROM_VNOP
              (set_fud vp (\<lambda>v. v\<lparr>fv_flag := fv_flag v AND NOT FN_ACCESS_NOOP\<rparr>) w)
       else fuse_internal_access vp action ctx (FACCESS_DO_ACCESS OR FACCESS_FROM_VNOP) w)"

section \<open>Getting attributes\<close>

text \<open>\<open>fuse_timespec_cmp(t, u, <=)\<close>, with signed seconds and nanoseconds.\<close>

definition timespec_le :: "timespec \<Rightarrow> timespec \<Rightarrow> bool" where
  "timespec_le t u \<longleftrightarrow> (if tv_sec t = tv_sec u then tv_nsec t \<le>s tv_nsec u else tv_sec t \<le>s tv_sec u)"

text \<open>
  \<open>fuse_internal_attr_loadvap\<close> on a vnode: its effects in their order, the extended times if it asks
  for them, and the notification.
\<close>

definition attr_loadvap ::
  "vnode \<Rightarrow> vnode_attr \<Rightarrow> vfs_context \<Rightarrow> fuse_world \<Rightarrow> (fuse_world, vnode_attr) upcall" where
  "attr_loadvap vp out ctx w =
     need (VTOFUD vp w) (\<lambda>v.
       let r = fuse_internal_attr_loadvap (w_mnt w) False v out;
           w1 = fold (\<lambda>c. emit (Ef_ubc vp c)) (lv_ubc r) (set_fud vp (\<lambda>_. lv_node r) w);
           hint = (\<lambda>w. if lv_hint r \<noteq> 0 then emit (Ef_knote vp (lv_hint r)) w else w)
       in if lv_loadxtimes r
          then upcall_bind (fuse_internal_loadxtimes vp (lv_out r) ctx w1) (\<lambda>out w. Done out (hint w))
          else Done (lv_out r) (hint w1))"

text \<open>What is told of a root the daemon does not answer for.\<close>

definition fake_attr :: "fuse_data \<Rightarrow> fuse_vnode_data \<Rightarrow> vnode_attr" where
  "fake_attr d v =
     VATTR_RETURN Va_mode (\<lambda>a. a\<lparr>va_mode := 0x1C0\<rparr>)
       (VATTR_RETURN Va_gid (\<lambda>a. a\<lparr>va_gid := cr_gid (fd_daemoncred d)\<rparr>)
         (VATTR_RETURN Va_uid (\<lambda>a. a\<lparr>va_uid := cr_uid (fd_daemoncred d)\<rparr>)
           (VATTR_RETURN Va_type (\<lambda>a. a\<lparr>va_type := fv_vtype v\<rparr>) zero_attr)))"

text \<open>
  The answer of the daemon. An answer without a file type is refused, and its ticket is lost. A vnode
  whose type has changed is thrown away.
\<close>

definition getattr_answer ::
  "vnode \<Rightarrow> vnode_attr \<Rightarrow> vfs_context \<Rightarrow> u8 list \<Rightarrow> fuse_world \<Rightarrow> (fuse_world, int \<times> vnode_attr) upcall" where
  "getattr_answer vp vap ctx answ w =
     (let fao = get_attr_out answ in
      if at_mode (ao_attr fao) AND S_IFMT = 0 then Done (EIO, vap) w
      else cache_attrs_vp vp (ao_attr_valid fao) (ao_attr_valid_nsec fao) (ao_attr fao) w (\<lambda>w.
        upcall_bind (attr_loadvap vp vap ctx
            (set_fud vp (\<lambda>v. v\<lparr>fv_c_flag := fv_c_flag v AND NOT C_XTIMES_VALID\<rparr>) w)) (\<lambda>vap1 w.
          need (VTOFUD vp w) (\<lambda>v.
            let w1 = (if vnode_isreg v \<and> fuse_isnoubc (w_data w) v
                      then set_fud vp (\<lambda>v. v\<lparr>fv_filesize := at_size (ao_attr fao)\<rparr>) w else w)
            in fuse_drop w1 (\<lambda>w.
                 if fv_vtype v \<noteq> va_type vap1 \<and> \<not> (fv_vtype v = VNON \<and> va_type vap1 \<noteq> VNON)
                 then upcall_bind (fuse_internal_vnode_disappear vp REVOKE_SOFT w)
                        (\<lambda>_. Done (EIO, vap1))
                 else Done (0, vap1) w)))))"

text \<open>
  \<open>fuse_vnop_getattr\<close> into attributes other than the vnode's cached ones: the attributes are those of
  the result.
\<close>

definition fuse_vnop_getattr ::
  "vnode \<Rightarrow> vnode_attr \<Rightarrow> vfs_context \<Rightarrow> fuse_world \<Rightarrow> (fuse_world, int \<times> vnode_attr) upcall" where
  "fuse_vnop_getattr vp vap ctx w =
     need (VTOFUD vp w) (\<lambda>v.
       if fuse_isdeadfs (w_data w) v
       then Done (if fv_isvroot v then (0, fake_attr (w_data w) v) else (EBADF, vap)) w
       else if (\<not> fv_isvroot v \<or> \<not> fuse_vfs_context_issuser ctx) \<and> fuse_blanket_deny (w_data w) v ctx
       then Done (ENOENT, vap) w
       else Call K_uptime w (\<lambda>now w.
         if timespec_le (kr_time now) (fv_attr_valid v)
         then upcall_bind (attr_loadvap vp vap ctx w) (\<lambda>vap1. Done (0, vap1))
         else if \<not> flag_set (fd_dataflags (w_data w)) FSESS_INITED
         then if \<not> fv_isvroot v then Done (ENOTCONN, vap) (set_data fdata_set_dead w)
              else Done (0, fake_attr (w_data w) v) w
         else fdisp_simple_putget_vp FUSE_GETATTR vp ctx w (\<lambda>x w.
           if fr_err x \<noteq> 0
           then if fr_err x = ENOTCONN \<and> fv_isvroot v then Done (0, fake_attr (w_data w) v) w
                else if fr_err x = ENOENT
                then upcall_bind (fuse_internal_vnode_disappear vp REVOKE_SOFT w)
                       (\<lambda>_. Done (ENOENT, vap))
                else Done (fr_err x, vap) w
           else getattr_answer vp vap ctx (fr_answ x) w)))"

section \<open>Setting attributes\<close>

text \<open>
  A request that turns out to be unnecessary or refused is made and dropped without the daemon seeing
  it. \<open>junk\<close> is what its buffer held: the fields that are not set keep it.
\<close>

definition setattr_finish :: "vnode \<Rightarrow> bool \<Rightarrow> u64 \<Rightarrow> int \<Rightarrow> fuse_world \<Rightarrow> fuse_world" where
  "setattr_finish vp sizechanged newsize err w =
     (let w1 = (if err = 0 \<and> sizechanged
                then emit (Ef_ubc vp (Ubc_setsize newsize))
                       (set_fud vp (\<lambda>v. v\<lparr>fv_filesize := newsize\<rparr>) w)
                else w)
      in if err = 0 then emit (Ef_knote vp NOTE_ATTRIB) w1 else w1)"

text \<open>The attributes the caller gave come back marked with what the volume supports.\<close>

definition setattr_answer ::
  "vnode \<Rightarrow> fuse_setattr_in \<Rightarrow> bool \<Rightarrow> u64 \<Rightarrow> u8 list \<Rightarrow> fuse_world \<Rightarrow> (fuse_world, int) upcall" where
  "setattr_answer vp fsai sizechanged newsize answ w =
     (let fao = get_attr_out answ; vtyp = IFTOVT (at_mode (ao_attr fao)) in
      need (VTOFUD vp w) (\<lambda>v.
        if fv_vtype v \<noteq> vtyp \<and> \<not> (fv_vtype v = VNON \<and> vtyp \<noteq> VNON)
        then upcall_bind (fuse_internal_vnode_disappear vp REVOKE_SOFT w) (\<lambda>_ w.
               fuse_drop w (Done EAGAIN))
        else if sizechanged
        then fuse_drop (invalidate_attr vp w) (\<lambda>w. Done 0 (setattr_finish vp sizechanged newsize 0 w))
        else cache_attrs_vp vp (ao_attr_valid fao) (ao_attr_valid_nsec fao) (ao_attr fao) w (\<lambda>w.
          fuse_drop (if flag_set (fsai_valid fsai) FATTR_BKUPTIME \<or> flag_set (fsai_valid fsai) FATTR_CRTIME
                     then set_fud vp (\<lambda>v. v\<lparr>fv_c_flag := fv_c_flag v AND NOT C_XTIMES_VALID\<rparr>) w
                     else w)
            (\<lambda>w. Done 0 (setattr_finish vp sizechanged newsize 0 w)))))"

definition fuse_vnop_setattr ::
  "fuse_setattr_in \<Rightarrow> vnode \<Rightarrow> vnode_attr \<Rightarrow> vfs_context \<Rightarrow> fuse_world \<Rightarrow>
     (fuse_world, int \<times> vnode_attr) upcall" where
  "fuse_vnop_setattr junk vp vap ctx w =
     need (VTOFUD vp w) (\<lambda>v.
       if fuse_isdeadfs (w_data w) v then Done (EBADF, vap) w
       else if fuse_blanket_deny (w_data w) v ctx then Done (ENOENT, vap) w
       else case fuse_internal_attr_vat2fsai (w_data w) (Some v) vap junk of
         (sizechanged, fsai, vap1, newsize) \<Rightarrow>
           if fsai_valid fsai = 0 then Done (0, vap1) (setattr_finish vp sizechanged newsize 0 w)
           else if flag_set (fsai_valid fsai) FATTR_SIZE \<and> fv_vtype v = VDIR then Done (EISDIR, vap1) w
           else if w_rdonly w \<and> (flag_set (fsai_valid fsai) (NOT FATTR_SIZE) \<or> fv_vtype v = VREG)
           then Done (EROFS, vap1) w
           else ask_vp FUSE_SETATTR vp (setattr_body fsai) (Some ctx) w (\<lambda>x w.
             if fr_err x \<noteq> 0 then Done (fr_err x, vap1) (invalidate_attr vp w)
             else upcall_bind (setattr_answer vp fsai sizechanged newsize (fr_answ x) w)
                    (\<lambda>err. Done (err, vap1))))"

section \<open>Extended attributes\<close>

text \<open>
  The tests all these operations begin with (a request for much data also marks its ticket to be freed
  rather than reused); \<open>name\<close> is the memory of the attribute's name. The result
  is an errno, 0 to go on.
\<close>

definition xattr_name_bad :: "u8 list option \<Rightarrow> bool" where
  "xattr_name_bad name \<longleftrightarrow> (case name of None \<Rightarrow> True | Some mem \<Rightarrow> take 1 mem = [0])"

definition xattr_check ::
  "fuse_world \<Rightarrow> fuse_vnode_data \<Rightarrow> vfs_context \<Rightarrow> u8 list option \<Rightarrow> fuse_opcode \<Rightarrow> int" where
  "xattr_check w v ctx name op =
     (if fuse_isdeadfs (w_data w) v then EBADF
      else if fuse_blanket_deny (w_data w) v ctx then ENOENT
      else if op \<noteq> FUSE_LISTXATTR \<and> xattr_name_bad name then EINVAL
      else if op \<noteq> FUSE_LISTXATTR \<and> fuse_skip_apple_xattr_mp (w_data w) name then EPERM
      else if flag_set (fd_dataflags (w_data w)) FSESS_AUTO_XATTR then ENOTSUP
      else if \<not> fuse_implemented (w_data w) (FSESS_NOIMPLBIT op) then ENOTSUP
      else 0)"

text \<open>A name up to its null (\<open>strlen\<close>).\<close>

definition c_string :: "u8 list \<Rightarrow> u8 list" where
  "c_string mem = takeWhile (\<lambda>b. b \<noteq> 0) mem"

text \<open>
  The answer to a request for an attribute or the list of attributes: without a \<open>uio\<close> the size the
  daemon names, with one the bytes, if they fit. The audit lets every length through; of an answer that
  is too short for a size the code reads on in the buffer (\<open>stale\<close>). The result is the errno and the
  size stored for the caller.
\<close>

definition xattr_answer ::
  "u8 list \<Rightarrow> nat option \<Rightarrow> u8 list \<Rightarrow> fuse_world \<Rightarrow> (fuse_world, int \<times> nat option) upcall" where
  "xattr_answer stale resid answ w =
     (case resid of
        Some n \<Rightarrow>
          if length answ > n then fuse_drop w (Done (ERANGE, Some (length answ)))
          else Call (K_uiomove answ) w (\<lambda>x w. fuse_drop w (Done (kr_err x, Some (length answ))))
      | None \<Rightarrow> fuse_drop w (Done (0, Some (unat (get32 0 (answ @ stale))))))"

definition xattr_failed ::
  "fuse_opcode \<Rightarrow> int \<Rightarrow> fuse_world \<Rightarrow> (fuse_world, int \<times> nat option) upcall" where
  "xattr_failed op err w =
     (if err = ENOSYS
      then Done (ENOTSUP, None) (set_data (fuse_clear_implemented (FSESS_NOIMPLBIT op)) w)
      else Done (err, None) w)"

text \<open>\<open>uio\<close> is what is left to move and the offset, of a caller that wants the value.\<close>

definition fuse_vnop_getxattr ::
  "u8 list \<Rightarrow> vnode \<Rightarrow> u8 list option \<Rightarrow> (nat \<times> u64) option \<Rightarrow> vfs_context \<Rightarrow> fuse_world \<Rightarrow>
     (fuse_world, int \<times> nat option) upcall" where
  "fuse_vnop_getxattr stale vp name uio ctx w =
     need (VTOFUD vp w) (\<lambda>v.
       let bad = xattr_check w v ctx name FUSE_GETXATTR in
       if bad \<noteq> 0 then Done (bad, None) w
       else need name (\<lambda>mem.
         let resid = map_option fst uio;
             offset = (case uio of None \<Rightarrow> 0 | Some (n, off) \<Rightarrow> off);
             body = b32 (of_nat (case resid of None \<Rightarrow> 0 | Some n \<Rightarrow> n)) @ bgap 4 @ b32 (ucast offset) @
                    bgap 4 @ bname (c_string mem) (length (c_string mem))
         in ask_vp FUSE_GETXATTR vp body (Some ctx) w (\<lambda>x w.
              if fr_err x \<noteq> 0 then xattr_failed FUSE_GETXATTR (fr_err x) w
              else xattr_answer stale resid (fr_answ x) w)))"

definition fuse_vnop_listxattr ::
  "u8 list \<Rightarrow> vnode \<Rightarrow> nat option \<Rightarrow> vfs_context \<Rightarrow> fuse_world \<Rightarrow>
     (fuse_world, int \<times> nat option) upcall" where
  "fuse_vnop_listxattr stale vp resid ctx w =
     need (VTOFUD vp w) (\<lambda>v.
       let bad = xattr_check w v ctx None FUSE_LISTXATTR in
       if bad \<noteq> 0 then Done (bad, None) w
       else
         let body = b32 (of_nat (case resid of None \<Rightarrow> 0 | Some n \<Rightarrow> n)) @ bgap 4 @ bgap 8
         in ask_vp FUSE_LISTXATTR vp body (Some ctx) w (\<lambda>x w.
              if fr_err x \<noteq> 0 then xattr_failed FUSE_LISTXATTR (fr_err x) w
              else xattr_answer stale resid (fr_answ x) w))"

abbreviation (input) C_TOUCH_CHGTIME :: u32 where "C_TOUCH_CHGTIME \<equiv> 0x20000"

definition touch_chgtime :: "vnode \<Rightarrow> fuse_world \<Rightarrow> fuse_world" where
  "touch_chgtime vp = set_fud vp (\<lambda>v. v\<lparr>fv_c_flag := fv_c_flag v OR C_TOUCH_CHGTIME\<rparr>)"

definition fuse_vnop_removexattr ::
  "vnode \<Rightarrow> u8 list option \<Rightarrow> vfs_context \<Rightarrow> fuse_world \<Rightarrow> (fuse_world, int) upcall" where
  "fuse_vnop_removexattr vp name ctx w =
     need (VTOFUD vp w) (\<lambda>v.
       let bad = xattr_check w v ctx name FUSE_REMOVEXATTR in
       if bad \<noteq> 0 then Done bad w
       else need name (\<lambda>mem.
         ask_errno FUSE_REMOVEXATTR vp (bname (c_string mem) (length (c_string mem))) (Some ctx) w
           (\<lambda>err w.
              if err = 0
              then Done 0 (emit (Ef_knote vp NOTE_ATTRIB) (invalidate_attr vp (touch_chgtime vp w)))
              else if err = ENOSYS
              then Done ENOTSUP (set_data (fuse_clear_implemented (FSESS_NOIMPLBIT FUSE_REMOVEXATTR)) w)
              else Done err w)))"

text \<open>
  The value is copied into the request before it is sent; \<open>K_uiomove_in\<close> gives the bytes. When that
  fails the ticket of the request, which is nobody's yet, is left alone: it is counted as held by the
  operation, which never gives it back. \<open>iov_err\<close> is whether the caller's \<open>uio\<close> could not be saved to
  be used again by the fallback of the kernel; allocating the request succeeds.
\<close>

definition fuse_vnop_setxattr ::
  "vnode \<Rightarrow> u8 list option \<Rightarrow> nat \<Rightarrow> u64 \<Rightarrow> u32 \<Rightarrow> bool \<Rightarrow> vfs_context \<Rightarrow> fuse_world \<Rightarrow>
     (fuse_world, int) upcall" where
  "fuse_vnop_setxattr vp name attrsize offset options iov_err ctx w =
     need (VTOFUD vp w) (\<lambda>v.
       let bad = xattr_check w v ctx name FUSE_SETXATTR in
       if bad \<noteq> 0 then Done bad w
       else if attrsize > unat (fd_userkernel_bufsize (w_data w)) then Done E2BIG w
       else need name (\<lambda>mem.
         Call (K_uiomove_in attrsize) w (\<lambda>u w.
           if kr_err u \<noteq> 0
           then Done (if kr_err u = ENOSYS \<or> kr_err u = ENOTSUP then if iov_err then EAGAIN else ENOTSUP
                      else kr_err u)
                  ((if kr_err u = ENOSYS
                    then set_data (fuse_clear_implemented (FSESS_NOIMPLBIT FUSE_SETXATTR)) w else w)
                     \<lparr>w_held := w_held w + 1\<rparr>)
           else
             let body = b32 (of_nat attrsize) @ b32 options @ b32 (ucast offset) @ bgap 4 @
                        bname (c_string mem) (length (c_string mem)) @ map Some (kr_bytes u)
             in ask_errno FUSE_SETXATTR vp body (Some ctx) w (\<lambda>err w.
                  if err = 0
                  then Done 0 (touch_chgtime vp (emit (Ef_knote vp NOTE_ATTRIB) (invalidate_attr vp w)))
                  else if err = ENOSYS
                  then Done (if iov_err then EAGAIN else ENOTSUP)
                         (set_data (fuse_clear_implemented (FSESS_NOIMPLBIT FUSE_SETXATTR)) w)
                  else if err = ENOTSUP then Done (if iov_err then EAGAIN else ENOTSUP) w
                  else Done err w))))"

section \<open>Controls\<close>

definition fuse_setextendedsecurity :: "fuse_mount \<Rightarrow> int \<Rightarrow> int \<times> fuse_mount" where
  "fuse_setextendedsecurity m state =
     (let d = mnt_data m in
      if state = 1
      then if flag_set (fd_dataflags d) FSESS_NO_VNCACHE \<or> flag_set (fd_dataflags d) FSESS_DEFER_PERMISSIONS
           then (EINVAL, m)
           else (0, m\<lparr>mnt_data := d\<lparr>fd_dataflags := fd_dataflags d OR
                         (FSESS_EXTENDED_SECURITY OR FSESS_DEFAULT_PERMISSIONS)\<rparr>,
                      mnt_authopaque := False, mnt_authopaqueaccess := False,
                      mnt_extendedsecurity := True\<rparr>)
      else if state = 0
      then (0, m\<lparr>mnt_data := d\<lparr>fd_dataflags := fd_dataflags d AND NOT FSESS_EXTENDED_SECURITY\<rparr>,
                 mnt_extendedsecurity := False\<rparr>)
      else (EINVAL, m))"

text \<open>\<open>ioctl_apply\<close> is what it does after the call of \<open>ubc_msync\<close>, in which the kernel may use the volume.\<close>

definition ioctl_apply ::
  "vnode \<Rightarrow> fuse_avfi_ioctl option \<Rightarrow> int \<Rightarrow> fuse_world \<Rightarrow> (fuse_world, int) upcall" where
  "ioctl_apply vp avfi msync w =
     need (VTOFUD vp w) (\<lambda>v.
       let r = fuse_internal_ioctl_avfi (\<lambda>_. msync) v avfi;
           w1 = set_fud vp (\<lambda>_. ar_node r) w;
           w2 = (case ar_setsize r of None \<Rightarrow> w1 | Some n \<Rightarrow> emit (Ef_ubc vp (Ubc_setsize n)) w1);
           w3 = (if ar_purged r then emit (Ef_cache_purge vp) w2 else w2)
       in Done (ar_ret r) (if ar_hint r \<noteq> 0 then emit (Ef_knote vp (ar_hint r)) w3 else w3))"

definition ioctl_avfi ::
  "vnode \<Rightarrow> fuse_avfi_ioctl option \<Rightarrow> fuse_world \<Rightarrow> (fuse_world, int) upcall" where
  "ioctl_avfi vp avfi w =
     (case avfi of
        None \<Rightarrow> Done EINVAL w
      | Some a \<Rightarrow>
          if \<not> flag_set (avfi_cmd a) FUSE_AVFI_MARKGONE \<and> flag_set (avfi_cmd a) FUSE_AVFI_UBC
          then Call (K_ubc_msync vp 0 (avfi_ubc_flags a AND UBC_FLAGS)) w
                 (\<lambda>x. ioctl_apply vp avfi (kr_err x))
          else ioctl_apply vp avfi 0 w)"

datatype ioctl_command =
    FSCTLSETACLSTATE "int option" | FSCTLALTERVNODEFORINODE "fuse_avfi_ioctl option" | Other_command

text \<open>
  \<open>FSCTLSETACLSTATE\<close> is refused to a process that is not root and \<open>fuse_match_cred\<close> gives 0 for, that
  is to the daemon's own user.
\<close>

definition fuse_vnop_ioctl ::
  "vnode \<Rightarrow> ioctl_command \<Rightarrow> vfs_context \<Rightarrow> fuse_world \<Rightarrow> (fuse_world, int) upcall" where
  "fuse_vnop_ioctl vp cmd ctx w =
     need (VTOFUD vp w) (\<lambda>v.
       if fuse_isdeadfs (w_data w) v then Done EBADF w
       else case cmd of
         FSCTLSETACLSTATE data \<Rightarrow>
           (case data of
              None \<Rightarrow> Done EINVAL w
            | Some state \<Rightarrow>
                if \<not> fuse_vfs_context_issuser ctx \<and>
                   \<not> fuse_match_cred (fd_daemoncred (w_data w)) (ctx_ucred ctx) \<noteq> 0
                then Done EPERM w
                else (case fuse_setextendedsecurity (w_mnt w) state of
                        (err, m) \<Rightarrow> Done err (w\<lparr>w_mnt := m\<rparr>)))
       | FSCTLALTERVNODEFORINODE avfi \<Rightarrow>
           if \<not> fv_isvroot v then Done EINVAL w else ioctl_avfi vp avfi w
       | Other_command \<Rightarrow> Done EINVAL w)"

text \<open>The limits the volume reports: the numbers of \<open>_PC_LINK_MAX\<close> and of the other names asked about.\<close>

fun pathconf_value :: "int \<Rightarrow> int option" where
  "pathconf_value name =
     (if name = 1 then Some 32767 else if name = 4 then Some 255 else if name = 5 then Some 1024
      else if name = 6 then Some 512 else if name = 7 then Some 1 else if name = 8 then Some 0
      else if name = 10 then Some 255 else if name = 11 then Some 1 else if name = 12 then Some 1
      else None)"

definition fuse_vnop_pathconf ::
  "vnode \<Rightarrow> int \<Rightarrow> vfs_context \<Rightarrow> fuse_world \<Rightarrow> (fuse_world, int \<times> int option) upcall" where
  "fuse_vnop_pathconf vp name ctx w =
     need (VTOFUD vp w) (\<lambda>v.
       if fuse_isdeadfs (w_data w) v then Done (EBADF, None) w
       else if fuse_blanket_deny (w_data w) v ctx then Done (ENOENT, None) w
       else case pathconf_value name of
              None \<Rightarrow> Done (EINVAL, None) w
            | Some n \<Rightarrow> Done (0, Some n) w)"

section \<open>The operations are steady\<close>

lemma fold_ubc_staged [simp]:
  "staged V n st (fold (\<lambda>c. emit (Ef_ubc vp c)) cs w) = staged V n st w"
  by (induction cs arbitrary: w) simp_all

lemma vnop_access_steady:
  assumes "steady V n w" and "vp \<in> V"
  shows "steady_within b V (\<lambda>_. steady V n) (fuse_vnop_access vp action ctx w)"
  unfolding fuse_vnop_access_def
  by (intro steady_intros) (use assms in auto)

lemma attr_loadvap_steady [steady_intros]:
  assumes "steady V n w" and "vp \<in> V"
  shows "steady_within b V (\<lambda>_. steady V n) (attr_loadvap vp out ctx w)"
  unfolding attr_loadvap_def
  by (intro steady_intros) (use assms in auto)

text \<open>Getting attributes leaves a ticket with nobody when the answer has no file type.\<close>

definition attr_result :: "vnode set \<Rightarrow> nat \<Rightarrow> int \<times> vnode_attr \<Rightarrow> fuse_world \<Rightarrow> bool" where
  "attr_result V n r t \<longleftrightarrow> steady V n t \<or> (fst r = EIO \<and> steady V (Suc n) t)"

lemma attr_resultI [intro]: "steady V n t \<Longrightarrow> attr_result V n r t"
  by (simp add: attr_result_def)

lemma steady_cache_attrs_vp [steady_intros]:
  assumes "staged V n st w" and "vp \<in> V" and "\<And>t. staged V n st t \<Longrightarrow> ensures b R (kernel_rely V) Q (k t)"
  shows "ensures b R (kernel_rely V) Q (cache_attrs_vp vp valid nsec fat w k)"
  by (rule steady_cache_attrs [OF assms(1)]) (use assms(1,2) staged_live in \<open>auto intro: assms(3)\<close>)

lemma steady_VTOFUD: "staged V n st w \<Longrightarrow> vp \<in> V \<Longrightarrow> VTOFUD vp w \<noteq> None"
  by (auto dest: staged_live)

lemma disappear_finish:
  assumes "steady V n w" and "vp \<in> V" and "\<And>t. steady V n t \<Longrightarrow> steady_within b V Q (f t)"
  shows "steady_within b V Q (upcall_bind (fuse_internal_vnode_disappear vp how w) (\<lambda>_. f))"
  by (rule disappear_bind [OF assms(1) steady_VTOFUD [OF assms(1,2)]]) (rule assms(3))

lemma getattr_answer_result:
  assumes "steady V (Suc n) w" and "vp \<in> V"
  shows "steady_within b V (attr_result V n) (getattr_answer vp vap ctx answ w)"
  unfolding getattr_answer_def
  by (intro steady_intros disappear_finish)
    (use assms in \<open>auto simp: attr_result_def intro!: steady_VTOFUD\<close>)

lemma getattr_result:
  assumes "steady V n w" and "vp \<in> V"
  shows "steady_within b V (attr_result V n) (fuse_vnop_getattr vp vap ctx w)"
  unfolding fuse_vnop_getattr_def fdisp_simple_putget_vp_def
  by (intro steady_intros getattr_answer_result disappear_finish)
    (use assms in \<open>auto intro!: steady_VTOFUD\<close>)

lemma setattr_finish_staged [simp]: "staged V n st (setattr_finish vp ch sz err w) = staged V n st w"
  by (simp add: setattr_finish_def Let_def)

lemma setattr_answer_steady [steady_intros]:
  assumes "steady V (Suc n) w" and "vp \<in> V"
  shows "steady_within b V (\<lambda>_. steady V n) (setattr_answer vp fsai ch sz answ w)"
  unfolding setattr_answer_def
  by (intro steady_intros disappear_finish) (use assms in \<open>auto intro!: steady_VTOFUD\<close>)

lemma setattr_steady:
  assumes "steady V n w" and "vp \<in> V"
  shows "steady_within b V (\<lambda>_. steady V n) (fuse_vnop_setattr junk vp vap ctx w)"
  unfolding fuse_vnop_setattr_def
  by (intro steady_intros) (use assms in auto)

section \<open>Extended attributes among other threads\<close>

lemma xattr_answer_steady [steady_intros]:
  assumes "steady V (Suc n) w"
  shows "steady_within b V (\<lambda>_. steady V n) (xattr_answer stale resid answ w)"
  unfolding xattr_answer_def
  by (intro steady_intros) (use assms in auto)

lemma xattr_failed_steady [steady_intros]:
  assumes "steady V n w" shows "steady_within b V (\<lambda>_. steady V n) (xattr_failed op err w)"
  unfolding xattr_failed_def
  by (intro steady_intros) (use assms in auto)

lemma steady_name:
  assumes "xattr_check w v ctx name op = 0" and "op \<noteq> FUSE_LISTXATTR"
    and "\<And>mem. name = Some mem \<Longrightarrow> ensures b R K Q (f mem)"
  shows "ensures b R K Q (need name f)"
  using assms by (cases name) (auto simp: xattr_check_def xattr_name_bad_def split: if_splits)

lemma getxattr_steady:
  assumes "steady V n w" and "vp \<in> V"
  shows "steady_within b V (\<lambda>_. steady V n) (fuse_vnop_getxattr stale vp name uio ctx w)"
  unfolding fuse_vnop_getxattr_def
  by (intro steady_intros steady_name [where op = FUSE_GETXATTR]) (use assms in auto)

lemma listxattr_steady:
  assumes "steady V n w" and "vp \<in> V"
  shows "steady_within b V (\<lambda>_. steady V n) (fuse_vnop_listxattr stale vp resid ctx w)"
  unfolding fuse_vnop_listxattr_def
  by (intro steady_intros) (use assms in auto)

lemma touch_chgtime_staged [simp]: "staged V n st (touch_chgtime vp w) = staged V n st w"
  by (simp add: touch_chgtime_def)

lemma removexattr_steady:
  assumes "steady V n w" and "vp \<in> V"
  shows "steady_within b V (\<lambda>_. steady V n) (fuse_vnop_removexattr vp name ctx w)"
  unfolding fuse_vnop_removexattr_def
  by (intro steady_intros steady_name [where op = FUSE_REMOVEXATTR]) (use assms in auto)

text \<open>Setting an attribute whose value cannot be read leaves a ticket with nobody.\<close>

definition error_leaks :: "vnode set \<Rightarrow> nat \<Rightarrow> int \<Rightarrow> fuse_world \<Rightarrow> bool" where
  "error_leaks V n err t \<longleftrightarrow> steady V n t \<or> (err \<noteq> 0 \<and> steady V (Suc n) t)"

lemma staged_held_Suc [simp]:
  "staged V n st w \<Longrightarrow> staged V (Suc n) st (w\<lparr>w_held := Suc (w_held w)\<rparr>)"
  by (simp add: staged_def hash_stage_def)

lemma staged_held_set_data [simp]:
  "staged V n st w \<Longrightarrow> staged V (Suc n) st (set_data g w\<lparr>w_held := Suc (w_held w)\<rparr>)"
  using staged_held_Suc [of V n st "set_data g w"] by (simp add: set_data_def)

lemma setxattr_result:
  assumes "steady V n w" and "vp \<in> V"
  shows "steady_within b V (error_leaks V n) (fuse_vnop_setxattr vp name sz off opt iov_err ctx w)"
  unfolding fuse_vnop_setxattr_def
  by (intro steady_intros steady_name [where op = FUSE_SETXATTR])
    (use assms in \<open>auto simp: error_leaks_def\<close>)

section \<open>Controls among other threads\<close>

lemma ioctl_apply_steady [steady_intros]:
  assumes "steady V n w" and "vp \<in> V"
  shows "steady_within b V (\<lambda>_. steady V n) (ioctl_apply vp avfi e w)"
  unfolding ioctl_apply_def
  by (intro steady_intros) (use assms in \<open>auto split: option.split\<close>)

lemma ioctl_avfi_steady [steady_intros]:
  assumes "steady V n w" and "vp \<in> V"
  shows "steady_within b V (\<lambda>_. steady V n) (ioctl_avfi vp avfi w)"
  unfolding ioctl_avfi_def
  by (intro steady_intros) (use assms in auto)

lemma ioctl_steady:
  assumes "steady V n w" and "vp \<in> V"
  shows "steady_within b V (\<lambda>_. steady V n) (fuse_vnop_ioctl vp cmd ctx w)"
  unfolding fuse_vnop_ioctl_def
  by (cases cmd; simp only: ioctl_command.case; intro steady_intros) (use assms in auto)

lemma pathconf_steady:
  assumes "steady V n w" and "vp \<in> V"
  shows "steady_within b V (\<lambda>_. steady V n) (fuse_vnop_pathconf vp name ctx w)"
  unfolding fuse_vnop_pathconf_def
  by (intro steady_intros) (use assms in auto)

end
