(* ===== verification/Fuse_Locked.thy ===== *)
theory Fuse_Locked
  imports Fuse_Attrs
begin

text \<open>
  Operations under the lock of their vnode. \<open>nodelocked_vnop\<close> (\<open>fuse_biglock_vnops.h\<close>) takes the
  vnode's lock for the whole of an operation, waits included: what the others leave alone is more than
  between operations in general. The laws of such an invariant are a locale, so that the loops of
  reading and writing are proved once for both cases.
\<close>

section \<open>Invariants that outlast a wait\<close>

named_theorems kept_intros \<open>rules for operations that keep an invariant\<close>

lemmas ensures_rules = ensures_Done ensures_if ensures_Let ensures_option ensures_pair
declare ensures_rules [kept_intros]

locale kept_invariant =
  fixes R :: "fuse_world daemon_contract" and K :: "fuse_world contract"
    and V :: "vnode set" and I :: "nat \<Rightarrow> fuse_world \<Rightarrow> bool"
  assumes over_ask: "I n w \<Longrightarrow> R r w x t \<Longrightarrow> I n t"
    and over_call: "I n w \<Longrightarrow> waits_idle c \<Longrightarrow> K c w y t \<Longrightarrow> I n t"
    and over_uptime: "K K_uptime w y t \<Longrightarrow> t = w"
    and audited: "R r w x t \<Longrightarrow> fr_err x = 0 \<Longrightarrow> answer_audited (w_data t) r x"
    and take_ticket: "I n w \<Longrightarrow> I (Suc n) (w\<lparr>w_held := w_held w + 1\<rparr>)"
    and drop_ticket: "I (Suc n) w \<Longrightarrow> w_held w \<noteq> 0 \<and> I n (w\<lparr>w_held := w_held w - 1\<rparr>)"
    and present: "I n w \<Longrightarrow> vp \<in> V \<Longrightarrow> VTOFUD vp w \<noteq> None"
begin

lemma kept_need [kept_intros]:
  assumes "I n w" and "vp \<in> V" and "\<And>v. VTOFUD vp w = Some v \<Longrightarrow> ensures b R K Q (f v)"
  shows "ensures b R K Q (need (VTOFUD vp w) f)"
  using present [OF assms(1,2)] assms(3) by (auto simp: ensures_need)

lemma kept_ask [kept_intros]:
  assumes "I n w"
    and "\<And>x t. fr_err x = 0 \<Longrightarrow> answer_audited (w_data t) r x \<Longrightarrow> I (Suc n) t \<Longrightarrow> ensures b R K Q (k x t)"
    and "\<And>x t. fr_err x \<noteq> 0 \<Longrightarrow> I n t \<Longrightarrow> ensures b R K Q (k x t)"
  shows "ensures b R K Q (ask r w k)"
proof -
  have "ensures b R K Q (k x (if fr_err x = 0 then t\<lparr>w_held := w_held t + 1\<rparr> else t))"
    if r: "R r w x t" for x t
  proof -
    have t: "I n t" by (rule over_ask [OF assms(1) r])
    show ?thesis
      using assms(3) [OF _ t, of x] assms(2) [of x, OF _ _ take_ticket [OF t]] audited [OF r] by simp
  qed
  then show ?thesis by (simp add: ask_def)
qed

lemma kept_drop [kept_intros]:
  assumes "I (Suc n) w" and "\<And>t. I n t \<Longrightarrow> w_data t = w_data w \<Longrightarrow> ensures b R K Q (k t)"
  shows "ensures b R K Q (fuse_drop w k)"
  using drop_ticket [OF assms(1)] by (auto simp: fuse_drop_def intro: assms(2))

lemma kept_call [kept_intros]:
  assumes "I n w" and "waits_idle c" and "\<And>x t. I n t \<Longrightarrow> ensures b R K Q (k x t)"
  shows "ensures b R K Q (Call c w k)"
  using assms over_call by auto

lemma kept_uptime [kept_intros]:
  assumes "I n w" and "\<And>x. ensures b R K Q (k x w)"
  shows "ensures b R K Q (Call K_uptime w k)"
  using assms over_uptime by auto

lemma kept_ask_vp [kept_intros]:
  assumes "I n w" and "vp \<in> V"
    and "\<And>(v :: fuse_vnode_data) x t. fr_err x = 0 \<Longrightarrow> answer_audited (w_data t)
           \<lparr>rq_op = op, rq_nodeid = fv_nodeid v, rq_body = body, rq_ctx = ctx\<rparr> x \<Longrightarrow>
           I (Suc n) t \<Longrightarrow> ensures b R K Q (k x t)"
    and "\<And>x t. fr_err x \<noteq> 0 \<Longrightarrow> I n t \<Longrightarrow> ensures b R K Q (k x t)"
  shows "ensures b R K Q (ask_vp op vp body ctx w k)"
  unfolding ask_vp_def
proof (rule kept_need [OF assms(1,2)])
  fix v :: fuse_vnode_data
  show "ensures b R K Q (ask \<lparr>rq_op = op, rq_nodeid = fv_nodeid v, rq_body = body, rq_ctx = ctx\<rparr> w k)"
    by (rule kept_ask [OF assms(1)]) (rule assms(3) assms(4); assumption)+
qed

lemma kept_ask_errno [kept_intros]:
  assumes "I n w" and "vp \<in> V" and "\<And>e t. I n t \<Longrightarrow> ensures b R K Q (k e t)"
  shows "ensures b R K Q (ask_errno op vp body ctx w k)"
  unfolding ask_errno_def
  by (rule kept_ask_vp [OF assms(1,2)]) (auto intro: assms(3) kept_drop)

text \<open>The request of a loop, with the ticket of the last round.\<close>

lemma kept_reask [kept_intros]:
  assumes "I (if first then n else Suc n) w"
    and "\<And>x t. fr_err x = 0 \<Longrightarrow> answer_audited (w_data t) r x \<Longrightarrow> I (Suc n) t \<Longrightarrow> ensures b R K Q (k x t)"
    and "\<And>x t. fr_err x \<noteq> 0 \<Longrightarrow> I n t \<Longrightarrow> ensures b R K Q (k x t)"
  shows "ensures b R K Q (reask first r w k)"
  unfolding reask_def using assms by (auto intro!: kept_ask kept_drop)

end

section \<open>The two invariants\<close>

lemma staged_take [simp]:
  "staged V n st w \<Longrightarrow> staged V (Suc n) st (w\<lparr>w_held := w_held w + 1\<rparr>)"
  by (simp add: staged_def hash_stage_def)

lemma staged_drop:
  "staged V (Suc n) st w \<Longrightarrow> w_held w \<noteq> 0 \<and> staged V n st (w\<lparr>w_held := w_held w - 1\<rparr>)"
  by (simp add: staged_def hash_stage_def)

interpretation unlocked: kept_invariant "world_rely V" "kernel_rely V" V "steady V"
  by unfold_locales
    (auto simp: world_rely_def staged_take [simplified] dest: keepsD kernel_rely_idle staged_live staged_drop)

text \<open>
  Under the lock of a vnode the others do not open or close its handles either.
\<close>

definition handles_of :: "vnode \<Rightarrow> fuse_world \<Rightarrow> (fufh_type \<Rightarrow> fuse_filehandle) option" where
  "handles_of vp w = map_option fv_fufh (VTOFUD vp w)"

definition handles_kept :: "vnode \<Rightarrow> fuse_world \<Rightarrow> fuse_world \<Rightarrow> bool" where
  "handles_kept vp w t \<longleftrightarrow> (handles_of vp w \<noteq> None \<longrightarrow> handles_of vp t = handles_of vp w)"

definition locked_rely :: "vnode \<Rightarrow> vnode set \<Rightarrow> fuse_world daemon_contract" where
  "locked_rely vp V r w x t \<longleftrightarrow> world_rely V r w x t \<and> handles_kept vp w t"

definition locked_kernel :: "vnode \<Rightarrow> vnode set \<Rightarrow> fuse_world contract" where
  "locked_kernel vp V c w x t \<longleftrightarrow> kernel_rely V c w x t \<and> handles_kept vp w t"

definition locked :: "vnode \<Rightarrow> vnode set \<Rightarrow> (fufh_type \<Rightarrow> fuse_filehandle) \<Rightarrow> nat \<Rightarrow> fuse_world \<Rightarrow> bool" where
  "locked vp V H n w \<longleftrightarrow> steady V n w \<and> handles_of vp w = Some H"

lemma handles_simps [simp]:
  "handles_of vp (set_data g w) = handles_of vp w" "handles_of vp (emit e w) = handles_of vp w"
  "handles_of vp (invalidate_attr vq w) = handles_of vp w"
  "handles_of vp (w\<lparr>w_held := h\<rparr>) = handles_of vp w" "handles_of vp (w\<lparr>w_mnt := m\<rparr>) = handles_of vp w"
  "handles_of vp (set_fufh vp type f w) =
     map_option (\<lambda>H. H(type := f (H type))) (handles_of vp w)"
proof -
  have "VTOFUD vp (set_fud vq fuse_invalidate_attr w) =
      (if gh_fsnode (w_hash w) vq \<noteq> None \<and> gh_fsnode (w_hash w) vp = gh_fsnode (w_hash w) vq
       then map_option fuse_invalidate_attr (VTOFUD vp w) else VTOFUD vp w)"
    by (cases "gh_fsnode (w_hash w) vq"; cases "gh_fsnode (w_hash w) vp")
      (auto simp: VTOFUD_def set_fud_def)
  then show "handles_of vp (invalidate_attr vq w) = handles_of vp w"
    by (auto simp: handles_of_def invalidate_attr_def fuse_invalidate_attr_def option.map_comp comp_def)
  show "handles_of vp (w\<lparr>w_mnt := m\<rparr>) = handles_of vp w"
    by (simp add: handles_of_def VTOFUD_def)
  show "handles_of vp (set_fufh vp type f w) = map_option (\<lambda>H. H(type := f (H type))) (handles_of vp w)"
    by (simp add: handles_of_def set_fufh_def option.map_comp comp_def)
qed (simp_all add: handles_of_def)

lemma locked_simps [simp]:
  "locked vp V H n (set_data g w) = locked vp V H n w" "locked vp V H n (emit e w) = locked vp V H n w"
  "locked vp V H n (invalidate_attr vq w) = locked vp V H n w"
  "locked vp V H n (w\<lparr>w_mnt := m\<rparr>) = locked vp V H n w"
  by (simp_all add: locked_def)

interpretation nodelocked: kept_invariant "locked_rely vp V" "locked_kernel vp V" V "locked vp V H"
  for vp V H
  by unfold_locales
    (auto simp: locked_def locked_rely_def locked_kernel_def handles_kept_def world_rely_def
        staged_take [simplified] dest: keepsD kernel_rely_idle staged_live staged_drop)

interpretation quiet_locked: upcall_environment "quiet_environment daemon fresh other"
    "locked_rely vp V" "locked_kernel vp V"
  for daemon fresh other vp V
  by unfold_locales
    (use quiet_kernel_rely in \<open>auto simp: quiet_environment_def locked_rely_def locked_kernel_def handles_kept_def
        quiet_daemon_def quiet_kernel_def world_rely_def split: kcall.splits option.splits\<close>)

section \<open>File handles under the lock of the vnode\<close>

lemma disappear_locked:
  assumes "locked vp V H n w" and "vp \<in> V" and "\<And>t. locked vp V H n t \<Longrightarrow> ensures b (locked_rely vp V) (locked_kernel vp V) Q (f t)"
  shows "ensures b (locked_rely vp V) (locked_kernel vp V) Q
    (upcall_bind (fuse_internal_vnode_disappear vp how w) (\<lambda>_. f))"
proof -
  have r: "locked vp V H n (fuse_internal_revoke vp how (emit (Ef_cache_purge vp) w))"
    using assms(1) by (auto simp: locked_def fuse_internal_revoke_def Let_def handles_of_def option.map_comp comp_def)
  show ?thesis
    unfolding fuse_internal_vnode_disappear_def Let_def
    by (simp del: upcall_bind_if add: if_distrib [of "\<lambda>p. upcall_bind p f" for f])
      (intro kept_intros conjI impI, use assms r in \<open>auto intro!: kept_intros\<close>)
qed

definition handle_got ::
  "vnode \<Rightarrow> vnode set \<Rightarrow> (fufh_type \<Rightarrow> fuse_filehandle) \<Rightarrow> fufh_type \<Rightarrow> nat \<Rightarrow> int \<Rightarrow> fuse_world \<Rightarrow> bool" where
  "handle_got vp V H type n err t \<longleftrightarrow>
     (if err = 0 then \<exists>g. open_count g = 1 \<and> locked vp V (H(type := g)) n t else locked vp V H n t)"

lemma locked_handle:
  "locked vp V H n w \<Longrightarrow> VTOFUD vp w = Some v \<Longrightarrow> fv_fufh v = H"
  by (simp add: locked_def handles_of_def)

lemma locked_set_fufh:
  "locked vp V H n w \<Longrightarrow> locked vp V (H(type := f (H type))) n (set_fufh vp type f w)"
  by (simp add: locked_def)

lemma filehandle_get_locked:
  assumes "locked vp V H n w" and "vp \<in> V" and "type \<noteq> FUFH_INVALID" and "\<not> FUFH_IS_VALID (H type)"
  shows "ensures b (locked_rely vp V) (locked_kernel vp V) (handle_got vp V H type n)
    (fuse_filehandle_get vp ctx type mode w)"
proof -
  have opened: "ensures b (locked_rely vp V) (locked_kernel vp V) (handle_got vp V H type n)
      (fuse_drop (set_fufh vp type (\<lambda>_. \<lparr>fh_id = fh, open_count = 1, open_flags = fl,
         fuse_open_flags = ffl, aux_count = 0\<rparr>) t) (Done 0))" if "locked vp V H (Suc n) t" for t fh fl ffl
    by (rule nodelocked.kept_drop [OF locked_set_fufh [OF that]]) (force simp: handle_got_def)
  have gone: "ensures b (locked_rely vp V) (locked_kernel vp V) (handle_got vp V H type n)
      (upcall_bind (fuse_internal_vnode_disappear vp REVOKE_SOFT (emit (Ef_cache_purge vp) t)) (\<lambda>_. Done ENOENT))"
    if "locked vp V H n t" for t
    by (rule disappear_locked [OF _ assms(2)]) (use that in \<open>simp_all add: handle_got_def\<close>)
  obtain v where v: "VTOFUD vp w = Some v" "fv_fufh v = H"
    using assms(1) by (auto simp: locked_def handles_of_def)
  show ?thesis
    using v assms(3,4)
    by (simp add: fuse_filehandle_get_def Let_def del: fun_upd_apply)
      (intro conjI impI; rule nodelocked.kept_ask_vp [OF assms(1,2)];
        use opened gone in \<open>simp add: handle_got_def Let_def del: fun_upd_apply\<close>)
qed

lemma filehandle_put_locked:
  assumes "locked vp V H n w" and "vp \<in> V" and "type \<noteq> FUFH_INVALID" and "\<not> FUFH_IS_VALID (H type)"
  shows "ensures b (locked_rely vp V) (locked_kernel vp V) (\<lambda>_. locked vp V H n)
    (fuse_filehandle_put vp ctx type fg w)"
  unfolding fuse_filehandle_put_def
  by (intro kept_intros) (use assms locked_handle [OF assms(1)] in auto)

end
