(* ===== verification/Fuse_Readdir.thy ===== *)
theory Fuse_Readdir
  imports Fuse_Locked
begin

text \<open>
  Reading a directory: \<open>fuse_internal_readdir\<close>, \<open>fuse_internal_readdir_processdata\<close> and
  \<open>fuse_vnop_readdir\<close>. The daemon packs its entries as \<open>struct fuse_dirent\<close>; each is cooked into a
  \<open>struct dirent\<close> in a vector of its own and moved to the caller.
\<close>

section \<open>The caller's memory\<close>

text \<open>
  A \<open>uio\<close>: the bytes still to be moved, the offset in the file, what was moved to the caller, and what
  the caller has to give. \<open>uio_setresid\<close> and \<open>uio_setoffset\<close> change the first two only.
\<close>

record uio =
  uio_resid :: nat
  uio_offset :: u64
  uio_out :: "u8 list"
  uio_in :: "u8 list"

definition uio_moved :: "u8 list \<Rightarrow> uio \<Rightarrow> uio" where
  "uio_moved bs u =
     (let m = take (uio_resid u) bs
      in u\<lparr>uio_resid := uio_resid u - length m, uio_offset := uio_offset u + of_nat (length m),
           uio_out := uio_out u @ m\<rparr>)"

section \<open>Directory entries\<close>

record fuse_dirent =
  fde_ino :: u64
  fde_off :: u64
  fde_namelen :: u32
  fde_type :: u32

definition get_dirent :: "u8 list \<Rightarrow> fuse_dirent" where
  "get_dirent buf =
     \<lparr>fde_ino = get64 0 buf, fde_off = get64 8 buf, fde_namelen = get32 16 buf, fde_type = get32 20 buf\<rparr>"

abbreviation (input) FUSE_NAME_OFFSET :: nat where "FUSE_NAME_OFFSET \<equiv> 24"
abbreviation (input) FUSE_MAXNAMLEN :: nat where "FUSE_MAXNAMLEN \<equiv> 255"

definition FUSE_DIRENT_ALIGN :: "nat \<Rightarrow> nat" where
  "FUSE_DIRENT_ALIGN x = (x + 7) div 8 * 8"

definition FUSE_DIRENT_SIZE :: "nat \<Rightarrow> nat" where
  "FUSE_DIRENT_SIZE namelen = FUSE_DIRENT_ALIGN (FUSE_NAME_OFFSET + namelen)"

text \<open>\<open>struct dirent\<close> has 264 bytes, of which the name takes 256.\<close>

definition GENERIC_DIRSIZ :: "nat \<Rightarrow> nat" where
  "GENERIC_DIRSIZ namelen = (264 - (FUSE_MAXNAMLEN + 1)) + (namelen + 1 + 3) div 4 * 4"

text \<open>
  The head of a cooked entry: the inode cut to 32 bits, the length of the record, the type and the
  length of the name. An entry that is to be hidden becomes a whiteout.
\<close>

definition cooked_head :: "fuse_data \<Rightarrow> u8 list \<Rightarrow> u8 list" where
  "cooked_head d buf =
     (let de = get_dirent buf; n = unat (fde_namelen de);
          hide = fuse_skip_apple_double_mp d (Some (drop FUSE_NAME_OFFSET buf)) (int n)
      in le_enc 4 (if hide then 0 else ucast (fde_ino de) :: u32) @
         le_enc 2 (of_nat (GENERIC_DIRSIZ n) :: 16 word) @
         [if hide then 14 else ucast (fde_type de), ucast (fde_namelen de)])"

text \<open>The entry is put into the vector; its final null goes to the byte after the record.\<close>

definition cook_dirent :: "kenv \<Rightarrow> fuse_data \<Rightarrow> u8 list \<Rightarrow> fuse_iov \<Rightarrow> fuse_iov option" where
  "cook_dirent E d buf iov =
     (let n = unat (fde_namelen (get_dirent buf)); avail = GENERIC_DIRSIZ n
      in do {
        iov1 \<leftarrow> fiov_refresh E iov;
        iov2 \<leftarrow> fiov_adjust E iov1 avail;
        if avail \<ge> length (iov_base iov2) then None
        else Some (iov2\<lparr>iov_base := put_bytes avail [0]
                     (put_bytes 8 (take n (drop FUSE_NAME_OFFSET buf))
                       (put_bytes 0 (cooked_head d buf) (iov_base iov2)))\<rparr>)
      })"

section \<open>Processing an answer\<close>

text \<open>
  \<open>fuse_internal_readdir_processdata\<close> from the entry at the start of \<open>buf\<close> on; \<open>first\<close> is whether none
  was processed yet, \<open>k\<close> how many were. The result is the errno (-1 for an end that is none), the
  number of entries, the vector and the \<open>uio\<close>.
\<close>

function readdir_processdata ::
  "kenv \<Rightarrow> bool \<Rightarrow> nat \<Rightarrow> u8 list \<Rightarrow> fuse_iov \<Rightarrow> uio \<Rightarrow> fuse_world \<Rightarrow>
     (fuse_world, int \<times> nat \<times> fuse_iov \<times> uio) upcall" where
  "readdir_processdata E first k buf iov u w =
     (let de = get_dirent buf; n = unat (fde_namelen de); freclen = FUSE_DIRENT_SIZE n
      in if length buf < FUSE_NAME_OFFSET then Done (-1, k, iov, u) w
         else if length buf < freclen then Done (if first then -1 else 0, k, iov, u) w
         else if n = 0 then Done (EINVAL, k, iov, u) w
         else if n > FUSE_MAXNAMLEN then Done (EIO, k, iov, u) w
         else if GENERIC_DIRSIZ n > uio_resid u then Done (-1, k, iov, u) w
         else need (cook_dirent E (w_data w) buf iov) (\<lambda>iov1.
           Call (K_uiomove (fiov_bytes iov1)) w (\<lambda>x w.
             if kr_err x \<noteq> 0 then Done (kr_err x, k, iov1, u) w
             else readdir_processdata E False (k + 1) (drop freclen buf) iov1
                    ((uio_moved (fiov_bytes iov1) u)\<lparr>uio_offset := fde_off de\<rparr>) w)))"
  by pat_completeness auto

termination
  by (relation "measure (\<lambda>(E, first, k, buf, iov, u, w). length buf)")
    (auto simp: FUSE_DIRENT_SIZE_def FUSE_DIRENT_ALIGN_def)

declare readdir_processdata.simps [simp del]

text \<open>
  The loop over the answers. \<open>fuel\<close> bounds its rounds: every one but the last moves an entry, so that
  the bytes to be moved are enough. \<open>nd\<close> is the number stored for the caller, if any.
\<close>

fun readdir_rounds ::
  "nat \<Rightarrow> kenv \<Rightarrow> bool \<Rightarrow> vnode \<Rightarrow> vfs_context \<Rightarrow> fuse_iov \<Rightarrow> uio \<Rightarrow> nat option \<Rightarrow> fuse_world \<Rightarrow>
     (fuse_world, int \<times> uio \<times> nat option) upcall" where
  "readdir_rounds 0 E first vp ctx iov u nd w = Stuck w"
| "readdir_rounds (Suc fuel) E first vp ctx iov u nd w =
     (if uio_resid u = 0 then fuse_drop w (Done (0, u, nd))
      else need (VTOFUD vp w) (\<lambda>v.
        let body = b64 (fh_id (fv_fufh v FUFH_RDONLY)) @ b64 (uio_offset u) @
                   b32 (min (of_nat (uio_resid u)) (fd_iosize (w_data w))) @ bgap 4
        in reask first \<lparr>rq_op = FUSE_READDIR, rq_nodeid = fv_nodeid v, rq_body = body, rq_ctx = Some ctx\<rparr> w
             (\<lambda>x w.
               if fr_err x \<noteq> 0 then Done (if fr_err x = -1 then 0 else fr_err x, u, nd) w
               else upcall_bind (readdir_processdata E True 0 (fr_answ x) iov u w) (\<lambda>(err, k, iov, u) w.
                 let nd = (if err = 0 then Some k else nd) in
                 if err \<noteq> 0 then fuse_drop w (Done (if err = -1 then 0 else err, u, nd))
                 else readdir_rounds fuel E False vp ctx iov u nd w))))"

definition fuse_internal_readdir ::
  "kenv \<Rightarrow> vnode \<Rightarrow> vfs_context \<Rightarrow> fuse_iov \<Rightarrow> uio \<Rightarrow> fuse_world \<Rightarrow>
     (fuse_world, int \<times> uio \<times> nat option) upcall" where
  "fuse_internal_readdir E vp ctx iov u w =
     (if uio_resid u = 0 then Done (0, u, None) w
      else readdir_rounds (uio_resid u + 1) E True vp ctx iov u None w)"

text \<open>
  The vnode operation; \<open>special\<close> is whether the caller wants seek offsets or extended entries. A handle
  that was opened for the purpose is closed again.
\<close>

abbreviation (input) DIRCOOKEDSIZE :: nat where "DIRCOOKEDSIZE \<equiv> 280"

definition readdir_opened ::
  "kenv \<Rightarrow> bool \<Rightarrow> vnode \<Rightarrow> vfs_context \<Rightarrow> uio \<Rightarrow> fuse_world \<Rightarrow>
     (fuse_world, int \<times> uio \<times> nat option) upcall" where
  "readdir_opened E freefufh vp ctx u w =
     need (fiov_init E DIRCOOKEDSIZE) (\<lambda>iov.
       upcall_bind (fuse_internal_readdir E vp ctx iov u w) (\<lambda>r w.
         if freefufh
         then upcall_bind (fuse_filehandle_put vp (Some ctx) FUFH_RDONLY True
                (set_fufh vp FUFH_RDONLY FUFH_USE_DEC w)) (\<lambda>_ w. Done r (invalidate_attr vp w))
         else Done r (invalidate_attr vp w)))"

definition fuse_vnop_readdir ::
  "kenv \<Rightarrow> vnode \<Rightarrow> bool \<Rightarrow> nat \<Rightarrow> uio \<Rightarrow> vfs_context \<Rightarrow> fuse_world \<Rightarrow>
     (fuse_world, int \<times> uio \<times> nat option) upcall" where
  "fuse_vnop_readdir E vp special iovcnt u ctx w =
     need (VTOFUD vp w) (\<lambda>v.
       if fuse_isdeadfs (w_data w) v then Done (EBADF, u, None) w
       else if fuse_blanket_deny (w_data w) v ctx then Done (EPERM, u, None) w
       else if special then Done (EINVAL, u, None) w
       else if iovcnt > 1 \<or> uio_resid u < 24 then Done (EINVAL, u, None) w
       else if FUFH_IS_VALID (fv_fufh v FUFH_RDONLY) then readdir_opened E False vp ctx u w
       else upcall_bind (fuse_filehandle_get vp (Some ctx) FUFH_RDONLY 0 w) (\<lambda>err w.
              if err \<noteq> 0 then Done (err, u, None) w else readdir_opened E True vp ctx u w))"

section \<open>What the caller gets\<close>

text \<open>
  The record of an entry, and a vector that has room for every record: it is not given back while a
  directory is read, and beyond its length it is empty.
\<close>

definition dirent_record :: "fuse_data \<Rightarrow> u8 list \<Rightarrow> u8 list" where
  "dirent_record d buf =
     (let n = unat (fde_namelen (get_dirent buf)); name = take n (drop FUSE_NAME_OFFSET buf)
      in cooked_head d buf @ name @ replicate (GENERIC_DIRSIZ n - 8 - n) 0)"

definition roomy :: "kenv \<Rightarrow> fuse_iov \<Rightarrow> bool" where
  "roomy E iov \<longleftrightarrow>
     length (iov_base iov) = iov_allocated_size iov \<and> DIRCOOKEDSIZE \<le> iov_allocated_size iov \<and>
     iov_allocated_size iov \<le> fuse_iov_permanent_bufsize E \<and> iov_len iov \<le> iov_allocated_size iov \<and>
     drop (iov_len iov) (iov_base iov) = replicate (iov_allocated_size iov - iov_len iov) 0"

lemma GENERIC_DIRSIZ_bounds: "n \<le> 255 \<Longrightarrow> n + 8 < GENERIC_DIRSIZ n \<and> GENERIC_DIRSIZ n \<le> 264"
proof -
  assume n: "n \<le> 255"
  then have "(n + 4) div 4 \<le> 64" by (simp add: div_le_mono [of "n + 4" 259 4, simplified])
  moreover have "n < (n + 4) div 4 * 4" using div_mult_mod_eq [of "n + 4" 4] by (simp add: add.commute)
  ultimately show ?thesis by (simp add: GENERIC_DIRSIZ_def add.commute)
qed

lemma length_cooked_head [simp]: "length (cooked_head d buf) = 8"
  by (simp add: cooked_head_def Let_def)

lemma fiov_adjust_roomy:
  assumes "iov_allocated_size iov \<le> fuse_iov_permanent_bufsize E" and "sz \<le> iov_allocated_size iov"
  shows "fiov_adjust E iov sz = Some (iov\<lparr>iov_len := sz\<rparr>)"
  using assms by (simp add: fiov_adjust_def fiov_reallocs_def fiov_wants_shrink_def fiov_credit_after_def)

lemma put_zeros:
  assumes "drop n bs = replicate (k - n) 0" and "length bs = k" and "n \<le> k"
  shows "put_bytes 0 (replicate n 0) bs = replicate k 0"
  using assms by (simp add: put_bytes_def flip: replicate_add)

lemma cook_dirent_roomy:
  assumes "roomy E iov" and "n = unat (fde_namelen (get_dirent buf))" and "n \<le> FUSE_MAXNAMLEN"
    and "FUSE_NAME_OFFSET + n \<le> length buf"
  shows "\<exists>iov1. cook_dirent E d buf iov = Some iov1 \<and> roomy E iov1 \<and> fiov_bytes iov1 = dirent_record d buf"
proof -
  define k where "k = iov_allocated_size iov"
  define name where "name = take n (drop FUSE_NAME_OFFSET buf)"
  have name: "length name = n" using assms(4) by (simp add: name_def)
  have size: "n + 8 < GENERIC_DIRSIZ n" "GENERIC_DIRSIZ n \<le> 264"
    using GENERIC_DIRSIZ_bounds [OF assms(3)] by auto
  have k: "280 \<le> k" using assms(1) by (simp add: roomy_def k_def)
  have zero: "put_bytes 0 (replicate (iov_len iov) 0) (iov_base iov) = replicate k 0"
    using assms(1) by (simp add: roomy_def k_def put_zeros)
  have base: "put_bytes (GENERIC_DIRSIZ n) [0] (put_bytes 8 name (put_bytes 0 (cooked_head d buf) (replicate k 0))) =
      cooked_head d buf @ name @ replicate (k - 8 - n) 0"
    using size k name
    by (simp add: put_bytes_def min_def flip: replicate_Suc replicate_append_same)
      (use size k in \<open>simp flip: replicate_add replicate_Suc\<close>, auto)
  have "cook_dirent E d buf iov = Some (iov\<lparr>iov_len := GENERIC_DIRSIZ n,
      iov_base := cooked_head d buf @ name @ replicate (k - 8 - n) 0\<rparr>)"
    using assms(1) size k
    by (simp add: cook_dirent_def Let_def fiov_refresh_def zero roomy_def fiov_adjust_roomy k_def
        flip: assms(2) name_def) (use base in \<open>simp add: k_def\<close>)
  moreover have "roomy E (iov\<lparr>iov_len := GENERIC_DIRSIZ n,
      iov_base := cooked_head d buf @ name @ replicate (k - 8 - n) 0\<rparr>)"
    using assms(1) size k name by (simp add: roomy_def k_def)
  moreover have "take (GENERIC_DIRSIZ n) (cooked_head d buf @ name @ replicate (k - 8 - n) 0) = dirent_record d buf"
    using size k name by (simp add: dirent_record_def Let_def name_def flip: assms(2))
  ultimately show ?thesis by (simp add: fiov_bytes_def)
qed

section \<open>Reading among other threads\<close>

definition dirents_moved :: "(fuse_world \<Rightarrow> bool) \<Rightarrow> kenv \<Rightarrow> bool \<Rightarrow> uio \<Rightarrow> int \<times> nat \<times> fuse_iov \<times> uio \<Rightarrow> fuse_world \<Rightarrow> bool" where
  "dirents_moved P E first u r t \<longleftrightarrow>
     (case r of (err, k, iov, u1) \<Rightarrow>
        P t \<and> roomy E iov \<and> uio_resid u1 \<le> uio_resid u \<and>
        (err = 0 \<longrightarrow> first \<longrightarrow> uio_resid u1 < uio_resid u))"

lemma GENERIC_DIRSIZ_pos [simp]: "0 < GENERIC_DIRSIZ n"
  by (simp add: GENERIC_DIRSIZ_def)

lemma uio_moved_resid [simp]: "uio_resid (uio_moved bs u) = uio_resid u - length bs"
  by (simp add: uio_moved_def Let_def)

lemma length_dirent_record:
  assumes "n = unat (fde_namelen (get_dirent buf))" and "n \<le> 255" and "24 + n \<le> length buf"
  shows "length (dirent_record d buf) = GENERIC_DIRSIZ n"
  using assms GENERIC_DIRSIZ_bounds [of n] by (simp add: dirent_record_def Let_def)

text \<open>One step, for an entry that is whole, well named and fits.\<close>

definition dirent_fits :: "u8 list \<Rightarrow> uio \<Rightarrow> bool" where
  "dirent_fits buf u \<longleftrightarrow>
     (let n = unat (fde_namelen (get_dirent buf))
      in FUSE_NAME_OFFSET \<le> length buf \<and> FUSE_DIRENT_SIZE n \<le> length buf \<and> n \<noteq> 0 \<and> n \<le> FUSE_MAXNAMLEN \<and>
         GENERIC_DIRSIZ n \<le> uio_resid u)"

lemma readdir_processdata_step:
  assumes "dirent_fits buf u" and "cook_dirent E (w_data w) buf iov = Some iov1"
  shows "readdir_processdata E first k buf iov u w =
     Call (K_uiomove (fiov_bytes iov1)) w (\<lambda>x w.
       if kr_err x \<noteq> 0 then Done (kr_err x, k, iov1, u) w
       else readdir_processdata E False (k + 1)
              (drop (FUSE_DIRENT_SIZE (unat (fde_namelen (get_dirent buf)))) buf) iov1
              ((uio_moved (fiov_bytes iov1) u)\<lparr>uio_offset := fde_off (get_dirent buf)\<rparr>) w)"
  using assms by (subst readdir_processdata.simps) (simp add: Let_def dirent_fits_def not_less)

lemma readdir_processdata_end:
  "\<not> dirent_fits buf u \<Longrightarrow>
   \<exists>err. readdir_processdata E first k buf iov u w = Done (err, k, iov, u) w \<and> (first \<longrightarrow> err \<noteq> 0)"
  by (subst readdir_processdata.simps) (auto simp: dirent_fits_def Let_def)

lemma dirent_fitsD:
  assumes "dirent_fits buf u" and "n = unat (fde_namelen (get_dirent buf))"
  shows "FUSE_NAME_OFFSET + n \<le> length buf \<and> n \<le> FUSE_MAXNAMLEN \<and> GENERIC_DIRSIZ n \<le> uio_resid u"
  using assms by (auto simp: dirent_fits_def Let_def FUSE_DIRENT_SIZE_def FUSE_DIRENT_ALIGN_def)

context kept_invariant
begin

lemma readdir_processdata_kept:
  assumes "I n w" and "roomy E iov"
  shows "ensures b R K (dirents_moved (I n) E first u) (readdir_processdata E first k buf iov u w)"
  using assms
proof (induction E first k buf iov u w rule: readdir_processdata.induct)
  case (1 E first k buf iov u w)
  define nl where "nl = unat (fde_namelen (get_dirent buf))"
  show ?case
  proof (cases "dirent_fits buf u")
    case False
    with readdir_processdata_end [OF False, of E first k iov w] 1(2,3) show ?thesis
      by (auto simp: dirents_moved_def)
  next
    case True
    note fits = dirent_fitsD [OF True nl_def]
    obtain iov1 where iov1: "cook_dirent E (w_data w) buf iov = Some iov1" "roomy E iov1"
        "fiov_bytes iov1 = dirent_record (w_data w) buf"
      using cook_dirent_roomy [OF 1(3) nl_def] fits by auto
    have len: "length (fiov_bytes iov1) = GENERIC_DIRSIZ nl"
      using iov1(3) length_dirent_record [OF nl_def] fits by auto
    define u1 where "u1 = (uio_moved (fiov_bytes iov1) u)\<lparr>uio_offset := fde_off (get_dirent buf)\<rparr>"
    have rest: "ensures b R K (dirents_moved (I n) E first u)
        (readdir_processdata E False (k + 1) (drop (FUSE_DIRENT_SIZE nl) buf) iov1 u1 t)"
      if t: "I n t" and e: "\<not> kr_err x \<noteq> 0" for t and x :: kret
    proof (rule ensures_mono)
      show "ensures b R K (dirents_moved (I n) E False u1)
          (readdir_processdata E False (k + 1) (drop (FUSE_DIRENT_SIZE nl) buf) iov1 u1 t)"
        unfolding nl_def u1_def by (rule 1(1) [OF refl refl refl _ _ _ _ _ e t iov1(2)])
          (use True in \<open>simp_all add: dirent_fits_def Let_def not_less\<close>)
    qed (use len fits in \<open>auto simp: dirents_moved_def u1_def less_le_trans [OF GENERIC_DIRSIZ_pos]
          split: prod.splits intro: le_less_trans\<close>)
    have failed: "dirents_moved (I n) E first u (e, k, iov1, u) t" if "I n t" and "e \<noteq> 0" for t and e :: int
      using that iov1(2) by (simp add: dirents_moved_def)
    show ?thesis
      unfolding readdir_processdata_step [OF True iov1(1)]
      by (rule kept_call [OF 1(2)]) (use failed rest in \<open>auto simp: nl_def u1_def\<close>)
  qed
qed


lemma readdir_rounds_kept:
  assumes "I (if first then n else Suc n) w" and "roomy E iov" and "vp \<in> V" and "uio_resid u < fuel"
    and "first \<Longrightarrow> uio_resid u \<noteq> 0"
  shows "ensures b R K (\<lambda>_. I n) (readdir_rounds fuel E first vp ctx iov u nd w)"
  using assms
proof (induction fuel arbitrary: first iov u nd w)
  case (Suc fuel)
  have processed: "ensures b R K (\<lambda>_. I n) (upcall_bind (readdir_processdata E True 0 answ iov u t)
      (\<lambda>(err, k, iov, u) w.
         let nd = (if err = 0 then Some k else nd) in
         if err \<noteq> 0 then fuse_drop w (Done (if err = -1 then 0 else err, u, nd))
         else readdir_rounds fuel E False vp ctx iov u nd w))" if "I (Suc n) t" for t answ
  proof (rule ensures_bind [OF readdir_processdata_kept [OF that Suc.prems(2)]])
    fix r t1
    assume "dirents_moved (I (Suc n)) E True u r t1"
    then show "ensures b R K (\<lambda>_. I n) ((\<lambda>(err, k, iov, u) w.
         let nd = (if err = 0 then Some k else nd) in
         if err \<noteq> 0 then fuse_drop w (Done (if err = -1 then 0 else err, u, nd))
         else readdir_rounds fuel E False vp ctx iov u nd w) r t1)"
      using Suc.prems(3,4)
      by (cases r) (auto simp: dirents_moved_def Let_def intro!: kept_drop Suc.IH)
  qed
  show ?case
  proof (cases "uio_resid u = 0")
    case True
    with Suc.prems have "I (Suc n) w" by (cases first) simp_all
    with True show ?thesis by (auto intro!: kept_drop)
  next
    case False
    then show ?thesis
      using Suc.prems processed
      by (auto simp: Let_def intro!: kept_need kept_reask split: if_splits)
  qed
qed simp

lemma fuse_internal_readdir_kept [kept_intros]:
  assumes "I n w" and "roomy E iov" and "vp \<in> V"
  shows "ensures b R K (\<lambda>_. I n) (fuse_internal_readdir E vp ctx iov u w)"
proof (cases "uio_resid u = 0")
  case False
  show ?thesis
    unfolding fuse_internal_readdir_def if_not_P [OF False]
    by (rule readdir_rounds_kept) (use False assms in simp_all)
qed (simp add: fuse_internal_readdir_def assms)

end

section \<open>The vnode operation\<close>

lemma fiov_init_roomy:
  assumes "ke_malloc_ok E DIRCOOKEDSIZE" and "DIRCOOKEDSIZE \<le> fuse_iov_permanent_bufsize E"
  shows "\<exists>iov. fiov_init E DIRCOOKEDSIZE = Some iov \<and> roomy E iov"
  using assms by (simp add: fiov_init_def FU_AT_LEAST_def FUSE_OSMalloc_def roomy_def)

lemma readdir_opened_locked:
  assumes "locked vp V H n w" and "vp \<in> V"
    and "ke_malloc_ok E DIRCOOKEDSIZE" and "DIRCOOKEDSIZE \<le> fuse_iov_permanent_bufsize E"
    and "freefufh \<Longrightarrow> open_count (H FUFH_RDONLY) = 1"
  shows "ensures b (locked_rely vp V) (locked_kernel vp V) (\<lambda>_. steady V n) (readdir_opened E freefufh vp ctx u w)"
proof -
  obtain iov where iov: "fiov_init E DIRCOOKEDSIZE = Some iov" "roomy E iov"
    using fiov_init_roomy [OF assms(3,4)] by blast
  have close: "ensures b (locked_rely vp V) (locked_kernel vp V) (\<lambda>_. steady V n)
      (upcall_bind (fuse_filehandle_put vp (Some ctx) FUFH_RDONLY True
        (set_fufh vp FUFH_RDONLY FUFH_USE_DEC t)) (\<lambda>_ w. Done r (invalidate_attr vp w)))"
    if "locked vp V H n t" and "freefufh" for t and r :: "int \<times> uio \<times> nat option"
  proof (rule ensures_bind)
    show "ensures b (locked_rely vp V) (locked_kernel vp V)
        (\<lambda>_. locked vp V (H(FUFH_RDONLY := FUFH_USE_DEC (H FUFH_RDONLY))) n)
        (fuse_filehandle_put vp (Some ctx) FUFH_RDONLY True (set_fufh vp FUFH_RDONLY FUFH_USE_DEC t))"
      by (rule filehandle_put_locked [OF locked_set_fufh [OF that(1)] assms(2)])
        (use assms(5) that(2) in \<open>simp_all add: FUFH_IS_VALID_def FUFH_USE_DEC_def\<close>)
  qed (simp add: locked_def)
  show ?thesis
    unfolding readdir_opened_def iov(1) need_simps
    by (rule ensures_bind [OF nodelocked.fuse_internal_readdir_kept [OF assms(1) iov(2) assms(2)]])
      (use close in \<open>auto simp: locked_def\<close>)
qed

lemma vnop_readdir_locked:
  assumes "locked vp V H n w" and "vp \<in> V"
    and "ke_malloc_ok E DIRCOOKEDSIZE" and "DIRCOOKEDSIZE \<le> fuse_iov_permanent_bufsize E"
  shows "ensures b (locked_rely vp V) (locked_kernel vp V) (\<lambda>_. steady V n)
    (fuse_vnop_readdir E vp special iovcnt u ctx w)"
proof -
  have s: "steady V n w" using assms(1) by (simp add: locked_def)
  have get: "ensures b (locked_rely vp V) (locked_kernel vp V) (\<lambda>_. steady V n)
      (upcall_bind (fuse_filehandle_get vp (Some ctx) FUFH_RDONLY 0 w) (\<lambda>err w.
        if err \<noteq> 0 then Done (err, u, None) w else readdir_opened E True vp ctx u w))"
    if "\<not> FUFH_IS_VALID (H FUFH_RDONLY)"
  proof (rule ensures_bind [OF filehandle_get_locked [OF assms(1,2) _ that]])
    fix err t
    assume "handle_got vp V H FUFH_RDONLY n err t"
    then show "ensures b (locked_rely vp V) (locked_kernel vp V) (\<lambda>_. steady V n)
        (if err \<noteq> 0 then Done (err, u, None) t else readdir_opened E True vp ctx u t)"
      using assms(2,3,4)
      by (auto simp: handle_got_def locked_def [of _ _ H] intro!: readdir_opened_locked split: if_splits)
  qed simp
  show ?thesis
    unfolding fuse_vnop_readdir_def
    by (rule nodelocked.kept_need [OF assms(1,2)])
      (use assms s get locked_handle [OF assms(1)] in \<open>auto intro!: readdir_opened_locked\<close>)
qed

section \<open>From the daemon's entries to the caller's\<close>

text \<open>
  What the daemon packs and what the caller expects, in terms of an entry and its name; the padding is
  zero on both sides.
\<close>

definition packed_dirent :: "fuse_dirent \<times> u8 list \<Rightarrow> u8 list" where
  "packed_dirent = (\<lambda>(de, name).
     le_enc 8 (fde_ino de) @ le_enc 8 (fde_off de) @ le_enc 4 (of_nat (length name) :: u32) @
     le_enc 4 (fde_type de) @ name @
     replicate (FUSE_DIRENT_SIZE (length name) - FUSE_NAME_OFFSET - length name) 0)"

definition hidden_name :: "fuse_data \<Rightarrow> u8 list \<Rightarrow> bool" where
  "hidden_name d name \<longleftrightarrow>
     flag_set (fd_dataflags d) FSESS_NO_APPLEDOUBLE \<and> length name > 2 \<and>
     (name @ [0] = DS_STORE \<or> take 2 name = [0x2E, 0x5F])"

definition kernel_dirent :: "fuse_data \<Rightarrow> fuse_dirent \<times> u8 list \<Rightarrow> u8 list" where
  "kernel_dirent d = (\<lambda>(de, name).
     le_enc 4 (if hidden_name d name then 0 else ucast (fde_ino de) :: u32) @
     le_enc 2 (of_nat (GENERIC_DIRSIZ (length name)) :: 16 word) @
     [if hidden_name d name then 14 else ucast (fde_type de), of_nat (length name)] @ name @
     replicate (GENERIC_DIRSIZ (length name) - 8 - length name) 0)"

definition good_name :: "fuse_dirent \<times> u8 list \<Rightarrow> bool" where
  "good_name = (\<lambda>(de, name). 0 < length name \<and> length name \<le> FUSE_MAXNAMLEN)"

lemma FUSE_DIRENT_SIZE_bounds: "24 + n \<le> FUSE_DIRENT_SIZE n"
  by (simp add: FUSE_DIRENT_SIZE_def FUSE_DIRENT_ALIGN_def)

lemma length_packed_dirent: "length (packed_dirent (de, name)) = FUSE_DIRENT_SIZE (length name)"
  using FUSE_DIRENT_SIZE_bounds [of "length name"] by (simp add: packed_dirent_def)

lemma get_packed_dirent:
  "get_dirent (packed_dirent (de, name) @ rest) = de\<lparr>fde_namelen := of_nat (length name)\<rparr>"
  by (simp add: get_dirent_def packed_dirent_def)

lemma unat_namelen: "good_name (de, name) \<Longrightarrow> unat (of_nat (length name) :: u32) = length name"
  by (simp add: good_name_def unat_of_nat)

lemma drop_packed_dirent:
  "drop FUSE_NAME_OFFSET (packed_dirent (de, name) @ rest) =
   name @ replicate (FUSE_DIRENT_SIZE (length name) - FUSE_NAME_OFFSET - length name) 0 @ rest"
  by (simp add: packed_dirent_def)

lemma DS_STORE_length: "length DS_STORE = 10"
  by (simp add: DS_STORE_def)

lemma take_DS_STORE:
  assumes "length name = 9"
  shows "take 10 (name @ replicate (FUSE_DIRENT_SIZE (length name) - FUSE_NAME_OFFSET - length name) 0 @ rest) =
    name @ [0]"
proof -
  have "FUSE_DIRENT_SIZE (length name) - FUSE_NAME_OFFSET - length name = Suc 6"
    using assms by (simp add: FUSE_DIRENT_SIZE_def FUSE_DIRENT_ALIGN_def)
  then show ?thesis using assms by simp
qed

lemma skip_packed_dirent:
  assumes "drop FUSE_NAME_OFFSET buf =
      name @ replicate (FUSE_DIRENT_SIZE (length name) - FUSE_NAME_OFFSET - length name) 0 @ rest"
  shows "fuse_skip_apple_double_mp d (Some (drop FUSE_NAME_OFFSET buf)) (int (length name)) = hidden_name d name"
proof -
  have "length name = 9" if "name @ [0] = DS_STORE"
    using DS_STORE_length arg_cong [OF that, of length] by simp
  moreover have "take 2 (name @ ys) = take 2 name" if "length name > 2" for ys
    using that by simp
  ultimately show ?thesis
    unfolding assms fuse_skip_apple_double_mp_def hidden_name_def
    using take_DS_STORE [of name rest] by (cases "length name = 9") auto
qed

lemma ucast_namelen:
  assumes "n \<le> FUSE_MAXNAMLEN" shows "ucast (of_nat n :: u32) = (of_nat n :: u8)"
  using assms by (simp add: unsigned_of_nat take_bit_nat_eq_self)

lemma dirent_record_packed:
  assumes "good_name (de, name)"
  shows "dirent_record d (packed_dirent (de, name) @ rest) = kernel_dirent d (de, name)"
proof -
  define buf where "buf = packed_dirent (de, name) @ rest"
  have head: "get_dirent buf = de\<lparr>fde_namelen := of_nat (length name)\<rparr>"
    by (simp add: buf_def get_packed_dirent)
  have name: "drop FUSE_NAME_OFFSET buf =
      name @ replicate (FUSE_DIRENT_SIZE (length name) - FUSE_NAME_OFFSET - length name) 0 @ rest"
    unfolding buf_def by (rule drop_packed_dirent)
  have fields: "fde_namelen (get_dirent buf) = of_nat (length name)" "fde_ino (get_dirent buf) = fde_ino de"
      "fde_type (get_dirent buf) = fde_type de"
    by (simp_all add: head)
  have cooked: "cooked_head d buf =
      le_enc 4 (if hidden_name d name then 0 else ucast (fde_ino de) :: u32) @
      le_enc 2 (of_nat (GENERIC_DIRSIZ (length name)) :: 16 word) @
      [if hidden_name d name then 14 else ucast (fde_type de), of_nat (length name)]"
    unfolding cooked_head_def Let_def fields unat_namelen [OF assms] skip_packed_dirent [OF name]
    using ucast_namelen [of "length name"] assms by (simp add: good_name_def)
  show ?thesis
    unfolding buf_def [symmetric] dirent_record_def Let_def fields name cooked kernel_dirent_def
      unat_namelen [OF assms]
    by simp
qed

lemma length_kernel_dirent:
  assumes "good_name (de, name)"
  shows "length (kernel_dirent d (de, name)) = GENERIC_DIRSIZ (length name)"
  using GENERIC_DIRSIZ_bounds [of "length name"] assms by (auto simp: kernel_dirent_def good_name_def)


text \<open>
  Entries packed the way the daemon packs them, with names of 1 to 255 bytes and room for all their
  records, reach the caller in their order.
\<close>

lemma processdata_moves:
  assumes "roomy E iov" and "\<And>e. e \<in> set es \<Longrightarrow> good_name e"
    and "(\<Sum>e\<leftarrow>es. GENERIC_DIRSIZ (length (snd e))) \<le> uio_resid u"
    and "\<And>s bs. ev_kernel Ev s (K_uiomove bs) = (copied bs, s)" and "\<And>bs. kr_err (copied bs) = 0"
  shows "\<exists>iov1. run_upcall Ev (readdir_processdata E first k (concat (map packed_dirent es)) iov u w) =
    Some ((-1, k + length es, iov1,
      u\<lparr>uio_resid := uio_resid u - (\<Sum>e\<leftarrow>es. GENERIC_DIRSIZ (length (snd e))),
        uio_offset := (if es = [] then uio_offset u else fde_off (fst (last es))),
        uio_out := uio_out u @ concat (map (kernel_dirent (w_data w)) es)\<rparr>), w)"
  using assms(1-3)
proof (induction es arbitrary: first k iov u)
  case Nil
  then show ?case by (subst readdir_processdata.simps) (simp add: Let_def)
next
  case (Cons e es)
  obtain de name where e: "e = (de, name)" by (cases e)
  define buf where "buf = packed_dirent (de, name) @ concat (map packed_dirent es)"
  have good: "good_name (de, name)" using Cons.prems(2) [of e] e by simp
  have n: "unat (fde_namelen (get_dirent buf)) = length name"
    by (simp add: buf_def get_packed_dirent unat_namelen [OF good])
  have off: "fde_off (get_dirent buf) = fde_off de" by (simp add: buf_def get_packed_dirent)
  have size: "FUSE_DIRENT_SIZE (length name) \<le> length buf" "FUSE_NAME_OFFSET + length name \<le> length buf"
    using FUSE_DIRENT_SIZE_bounds [of "length name"] by (simp_all add: buf_def length_packed_dirent)
  have fits: "dirent_fits buf u"
    using Cons.prems(3) size good by (simp add: dirent_fits_def n Let_def e good_name_def)
  obtain iov1 where iov1: "cook_dirent E (w_data w) buf iov = Some iov1" "roomy E iov1"
      "fiov_bytes iov1 = kernel_dirent (w_data w) (de, name)"
    using cook_dirent_roomy [OF Cons.prems(1) n [symmetric] _ size(2), of "w_data w"] good
    by (auto simp: good_name_def buf_def dirent_record_packed [OF good])
  define u1 where "u1 = (uio_moved (fiov_bytes iov1) u)\<lparr>uio_offset := fde_off de\<rparr>"
  have len: "length (fiov_bytes iov1) = GENERIC_DIRSIZ (length name)"
    by (simp add: iov1(3) length_kernel_dirent [OF good])
  have u1: "uio_resid u1 = uio_resid u - GENERIC_DIRSIZ (length name)" "uio_offset u1 = fde_off de"
      "uio_out u1 = uio_out u @ kernel_dirent (w_data w) (de, name)" "uio_in u1 = uio_in u"
    using len Cons.prems(3) iov1(3) by (simp_all add: u1_def e uio_moved_def Let_def)
  have room: "(\<Sum>e\<leftarrow>es. GENERIC_DIRSIZ (length (snd e))) \<le> uio_resid u1" and names: "\<And>e. e \<in> set es \<Longrightarrow> good_name e"
    using Cons.prems(2,3) u1(1) by (simp_all add: e)
  obtain iov2 where "run_upcall Ev (readdir_processdata E False (k + 1) (concat (map packed_dirent es)) iov1 u1 w) =
    Some ((-1, k + 1 + length es, iov2,
      u1\<lparr>uio_resid := uio_resid u1 - (\<Sum>e\<leftarrow>es. GENERIC_DIRSIZ (length (snd e))),
        uio_offset := (if es = [] then uio_offset u1 else fde_off (fst (last es))),
        uio_out := uio_out u1 @ concat (map (kernel_dirent (w_data w)) es)\<rparr>), w)"
    using Cons.IH [OF iov1(2) names room, of False "k + 1"] by blast
  then have "run_upcall Ev (readdir_processdata E first k buf iov u w) =
    Some ((-1, k + 1 + length es, iov2,
      u1\<lparr>uio_resid := uio_resid u1 - (\<Sum>e\<leftarrow>es. GENERIC_DIRSIZ (length (snd e))),
        uio_offset := (if es = [] then uio_offset u1 else fde_off (fst (last es))),
        uio_out := uio_out u1 @ concat (map (kernel_dirent (w_data w)) es)\<rparr>), w)"
    unfolding readdir_processdata_step [OF fits iov1(1)] n off
    by (simp add: assms(4,5) buf_def length_packed_dirent flip: u1_def)
  then show ?case using u1 by (auto simp: e buf_def)
qed

end
