(* ===== verification/Fuse_Open.thy ===== *)
theory Fuse_Open
  imports Fuse_Readdir Fuse_Names
begin

text \<open>
  Opening, closing, mapping and syncing a file (\<open>fuse_vnops.c\<close>). A vnode has one handle per kind of
  access, counted by those who use it; the daemon is asked when the first opens and the last closes it.
\<close>

section \<open>Open\<close>

abbreviation (input) FOPEN_DIRECT_IO :: u32 where "FOPEN_DIRECT_IO \<equiv> 0x1"
abbreviation (input) FOPEN_PURGE_ATTR :: u32 where "FOPEN_PURGE_ATTR \<equiv> 0x40000000"
abbreviation (input) FOPEN_PURGE_UBC :: u32 where "FOPEN_PURGE_UBC \<equiv> 0x80000000"

definition clear_open_flags :: "vnode \<Rightarrow> fufh_type \<Rightarrow> u32 \<Rightarrow> fuse_world \<Rightarrow> fuse_world" where
  "clear_open_flags vp type m =
     set_fufh vp type (\<lambda>f. f\<lparr>fuse_open_flags := fuse_open_flags f AND NOT m\<rparr>)"

text \<open>\<open>ubc_msync\<close> of all of a file is \<open>Ef_ubc_flush\<close>.\<close>

definition open_direct :: "vnode \<Rightarrow> fuse_world \<Rightarrow> fuse_world" where
  "open_direct vp w =
     (let w1 = emit (Ef_setnoreadahead vp) (emit (Ef_setnocache vp) (emit (Ef_ubc_flush vp) w));
          w2 = w1\<lparr>w_mnt := fuse_clearnosyncwrites_mp (w_mnt w1)\<rparr>
      in set_fud vp (\<lambda>v. v\<lparr>fv_flag := fv_flag v OR FN_DIRECT_IO\<rparr>) w2)"

definition open_finish :: "vnode \<Rightarrow> u32 \<Rightarrow> fuse_world \<Rightarrow> (fuse_world, int) upcall" where
  "open_finish vp hint w =
     need (VTOFUD vp w) (\<lambda>v.
       let w1 = (if hint \<noteq> 0 then emit (Ef_knote vp hint) w else w);
           w2 = (if fuse_isnoreadahead (w_data w) v then emit (Ef_setnoreadahead vp) w1 else w1)
       in Done 0 (if fuse_isnoubc (w_data w) v then emit (Ef_setnocache vp) w2 else w2))"

text \<open>The size of a file whose attributes the daemon wants to be asked for again.\<close>

definition open_new_size :: "vnode \<Rightarrow> fufh_type \<Rightarrow> u64 \<Rightarrow> fuse_world \<Rightarrow> (fuse_world, int) upcall" where
  "open_new_size vp type newsize w =
     need (VTOFUD vp w) (\<lambda>v.
       let hint = NOTE_WRITE OR NOTE_ATTRIB OR (if fv_filesize v <s newsize then NOTE_EXTEND else 0);
           w1 = emit (Ef_ubc vp (Ubc_setsize newsize))
                  (set_fud vp (\<lambda>v. v\<lparr>fv_filesize := newsize\<rparr>) w)
       in fuse_drop w1 (\<lambda>w. open_finish vp hint (clear_open_flags vp type FOPEN_PURGE_ATTR w)))"

definition open_purged :: "vnode \<Rightarrow> fufh_type \<Rightarrow> vfs_context \<Rightarrow> fuse_world \<Rightarrow> (fuse_world, int) upcall" where
  "open_purged vp type ctx w =
     (let same = open_finish vp (NOTE_WRITE OR NOTE_ATTRIB) \<circ> clear_open_flags vp type FOPEN_PURGE_ATTR
      in fdisp_simple_putget_vp FUSE_GETATTR vp ctx (invalidate_attr vp w) (\<lambda>x w.
           let fao = get_attr_out (fr_answ x) in
           if fr_err x \<noteq> 0 then same w
           else if at_mode (ao_attr fao) AND S_IFMT = 0 then fuse_drop w same
           else cache_attrs_vp vp (ao_attr_valid fao) (ao_attr_valid_nsec fao) (ao_attr fao) w
                  (open_new_size vp type (at_size (ao_attr fao)))))"

definition open_ok :: "vnode \<Rightarrow> fufh_type \<Rightarrow> vfs_context \<Rightarrow> fuse_world \<Rightarrow> (fuse_world, int) upcall" where
  "open_ok vp type ctx w =
     need (VTOFUD vp w) (\<lambda>v.
       let flags = fuse_open_flags (fv_fufh v type) in
       if flag_set flags FOPEN_DIRECT_IO \<or> fuse_isdirectio (w_data w) v then Done 0 (open_direct vp w)
       else if flag_set flags FOPEN_PURGE_UBC
       then let w1 = clear_open_flags vp type FOPEN_PURGE_UBC (emit (Ef_ubc_flush vp) w)
            in if flag_set flags FOPEN_PURGE_ATTR then open_purged vp type ctx w1
               else open_finish vp NOTE_WRITE w1
       else open_finish vp 0 w)"

definition open_handle ::
  "vnode \<Rightarrow> fufh_type \<Rightarrow> u32 \<Rightarrow> vfs_context \<Rightarrow> fuse_world \<Rightarrow> (fuse_world, int) upcall" where
  "open_handle vp type mode ctx w =
     need (VTOFUD vp w) (\<lambda>v.
       if FUFH_IS_VALID (fv_fufh v type) then open_ok vp type ctx (set_fufh vp type FUFH_USE_INC w)
       else upcall_bind (fuse_filehandle_get vp (Some ctx) type mode w) (\<lambda>err w.
              if err \<noteq> 0 then Done err (if err = ENOENT then emit (Ef_cache_purge vp) w else w)
              else open_ok vp type ctx w))"

text \<open>
  The handle \<open>fuse_vnop_create\<close> stashed moves to the slot it was opened for; the count of the stash is
  cleared first, since both may be the same.
\<close>

definition take_stashed :: "vnode \<Rightarrow> fufh_type \<Rightarrow> fuse_vnode_data \<Rightarrow> fuse_world \<Rightarrow> fuse_world" where
  "take_stashed vp type v w =
     (let rw = fv_fufh v FUFH_RDWR;
          w1 = set_fufh vp type (\<lambda>f. f\<lparr>open_flags := open_flags rw, fh_id := fh_id rw\<rparr>) w;
          w2 = set_fufh vp FUFH_RDWR (\<lambda>f. f\<lparr>open_count := 0\<rparr>) w1;
          w3 = set_fufh vp type (\<lambda>f. f\<lparr>open_count := 1\<rparr>) w2
      in emit (Ef_wakeup_creator vp) (set_fud vp (\<lambda>v. v\<lparr>fv_flag := fv_flag v AND NOT FN_CREATING\<rparr>) w3))"

text \<open>\<open>creator\<close> is whether the caller is the thread that created the node; the others wait for it.\<close>

definition fuse_vnop_open ::
  "bool \<Rightarrow> vnode \<Rightarrow> u32 \<Rightarrow> vfs_context \<Rightarrow> fuse_world \<Rightarrow> (fuse_world, int) upcall" where
  "fuse_vnop_open creator vp mode ctx w =
     need (VTOFUD vp w) (\<lambda>v.
       if fuse_isdeadfs (w_data w) v then Done ENXIO w
       else if fv_vtype v = VFIFO then Done EPERM w
       else if fuse_blanket_deny (w_data w) v ctx then Done ENOENT w
       else need (if vnode_isdir v then Some FUFH_RDONLY else fuse_filehandle_xlate_from_fflags mode)
         (\<lambda>type.
           if \<not> vnode_isdir v \<and> flag_set (fv_flag v) FN_CREATING
           then if creator then open_ok vp type ctx (take_stashed vp type v w)
                else Call K_msleep w (\<lambda>x w.
                  if kr_err x \<noteq> 0 then Done (kr_err x) w else open_handle vp type mode ctx w)
           else open_handle vp type mode ctx w))"

section \<open>Close\<close>

abbreviation (input) IO_NDELAY :: u32 where "IO_NDELAY \<equiv> 0x10"

definition close_last ::
  "vnode \<Rightarrow> fufh_type \<Rightarrow> int \<Rightarrow> vfs_context \<Rightarrow> fuse_world \<Rightarrow> (fuse_world, int) upcall" where
  "close_last vp type err ctx w =
     (let w1 = set_fufh vp type FUFH_USE_DEC w
      in need (VTOFUD vp w1) (\<lambda>v.
           if FUFH_IS_VALID (fv_fufh v type) then Done err w1
           else upcall_bind (fuse_filehandle_put vp (Some ctx) type True w1) (\<lambda>_. Done err)))"

definition close_flush ::
  "vnode \<Rightarrow> fufh_type \<Rightarrow> vfs_context \<Rightarrow> fuse_world \<Rightarrow> (fuse_world, int) upcall" where
  "close_flush vp type ctx w =
     need (VTOFUD vp w) (\<lambda>v.
       if fuse_implemented (w_data w) (FSESS_NOIMPLBIT FUSE_FLUSH)
       then ask_errno FUSE_FLUSH vp (b64 (fh_id (fv_fufh v type)) @ b32 0 @ b32 0 @ b64 0) (Some ctx) w
              (\<lambda>err w.
                if err = ENOSYS
                then close_last vp type 0 ctx (set_data (fuse_clear_implemented (FSESS_NOIMPLBIT FUSE_FLUSH)) w)
                else close_last vp type err ctx w)
       else close_last vp type 0 ctx w)"

definition fuse_vnop_close ::
  "vnode \<Rightarrow> u32 \<Rightarrow> vfs_context \<Rightarrow> fuse_world \<Rightarrow> (fuse_world, int) upcall" where
  "fuse_vnop_close vp fflag ctx w =
     need (VTOFUD vp w) (\<lambda>v.
       if fuse_isdeadfs (w_data w) v then Done 0 w
       else if fflag = IO_NDELAY then Done 0 w
       else need (if vnode_isdir v then Some FUFH_RDONLY else fuse_filehandle_xlate_from_fflags fflag)
         (\<lambda>type.
           if \<not> FUFH_IS_VALID (fv_fufh v type) then Done 0 w
           else if vnode_isdir v then close_last vp type 0 ctx w
           else Call (K_vnode_hasdirtyblks vp) w (\<lambda>x w. need (VTOFUD vp w) (\<lambda>v.
             close_flush vp type ctx
               (if kr_err x \<noteq> 0 \<and> \<not> fuse_isnosynconclose (w_data w) v
                then emit (Ef_cluster_push vp) w else w)))))"

section \<open>Mapping\<close>

text \<open>
  \<open>retry\<close> is what is done when the handle may not be opened for writing; there is one retry, with a
  handle for reading. \<open>deleted\<close> is whether the check before opening found the file gone.
\<close>

definition mmap_fail ::
  "(bool \<Rightarrow> fuse_world \<Rightarrow> (fuse_world, int) upcall) option \<Rightarrow> fufh_type \<Rightarrow> int \<Rightarrow> bool \<Rightarrow> fuse_world \<Rightarrow>
     (fuse_world, int) upcall" where
  "mmap_fail retry type err deleted w =
     (case retry of
        None \<Rightarrow> Done EPERM w
      | Some again \<Rightarrow>
          if err = EACCES \<and> (type = FUFH_RDWR \<or> type = FUFH_WRONLY) then again deleted w else Done EPERM w)"

definition mmap_get ::
  "(bool \<Rightarrow> fuse_world \<Rightarrow> (fuse_world, int) upcall) option \<Rightarrow> vnode \<Rightarrow> fufh_type \<Rightarrow> int \<Rightarrow> bool \<Rightarrow>
     vfs_context \<Rightarrow> fuse_world \<Rightarrow> (fuse_world, int) upcall" where
  "mmap_get retry vp type err deleted ctx w =
     (if err \<noteq> 0 then mmap_fail retry type err deleted w
      else upcall_bind (fuse_filehandle_get vp (Some ctx) type 0 w) (\<lambda>err w.
             if err \<noteq> 0 then mmap_fail retry type err deleted w else Done 0 w))"

definition mmap_try ::
  "(bool \<Rightarrow> fuse_world \<Rightarrow> (fuse_world, int) upcall) option \<Rightarrow> vnode \<Rightarrow> fufh_type \<Rightarrow> bool \<Rightarrow>
     vfs_context \<Rightarrow> fuse_world \<Rightarrow> (fuse_world, int) upcall" where
  "mmap_try retry vp type deleted ctx w =
     need (VTOFUD vp w) (\<lambda>v.
       if FUFH_IS_VALID (fv_fufh v type) then Done 0 (set_fufh vp type FUFH_USE_INC w)
       else if deleted then mmap_get retry vp type 0 True ctx w
       else preflight vp type w (\<lambda>err w.
              if err = ENOENT then mmap_get retry vp type 0 True ctx w
              else mmap_get retry vp type err False ctx w))"

definition fuse_vnop_mmap ::
  "vnode \<Rightarrow> u32 \<Rightarrow> vfs_context \<Rightarrow> fuse_world \<Rightarrow> (fuse_world, int) upcall" where
  "fuse_vnop_mmap vp fflags ctx w =
     need (VTOFUD vp w) (\<lambda>v.
       let type = fuse_filehandle_xlate_from_mmap fflags in
       if fuse_isdeadfs_fs (w_data w) then Crash
       else if fuse_isdirectio (w_data w) v then Done EPERM w
       else if fuse_blanket_deny (w_data w) v ctx then Done ENOENT w
       else if type = FUFH_INVALID then Done 0 w
       else mmap_try (Some (\<lambda>deleted. mmap_try None vp FUFH_RDONLY deleted ctx)) vp type False ctx w)"

definition fuse_vnop_mnomap :: "vnode \<Rightarrow> fuse_world \<Rightarrow> (fuse_world, int) upcall" where
  "fuse_vnop_mnomap vp w =
     need (VTOFUD vp w) (\<lambda>v.
       if fuse_isdeadfs (w_data w) v then Done 0 w
       else if fuse_isdirectio (w_data w) v then Done ENODEV w
       else Done 0 w)"

section \<open>Fsync\<close>

fun fsync_handles ::
  "fufh_type list \<Rightarrow> vnode \<Rightarrow> vfs_context \<Rightarrow> int \<Rightarrow> fuse_world \<Rightarrow> (fuse_world, int) upcall" where
  "fsync_handles [] vp ctx err w = Done err w"
| "fsync_handles (t # ts) vp ctx err w =
     need (VTOFUD vp w) (\<lambda>v.
       if FUFH_IS_VALID (fv_fufh v t)
       then upcall_bind (fuse_internal_fsync vp (Some ctx) (fv_fufh v t) True w) (\<lambda>e w.
              fsync_handles ts vp ctx (if e \<noteq> 0 then e else err) w)
       else fsync_handles ts vp ctx err w)"

definition fuse_vnop_fsync :: "vnode \<Rightarrow> vfs_context \<Rightarrow> fuse_world \<Rightarrow> (fuse_world, int) upcall" where
  "fuse_vnop_fsync vp ctx w =
     need (VTOFUD vp w) (\<lambda>v.
       let op = (if vnode_isdir v then FUSE_FSYNCDIR else FUSE_FSYNC);
           finish = (\<lambda>err w. Done (if err = ENOSYS \<and> \<not> fuse_isnosyncwrites_mp (w_data w) then 0 else err) w);
           w1 = emit (Ef_cluster_push vp) w
       in if fuse_isdeadfs (w_data w) v then Done 0 w
          else if \<not> fuse_implemented (w_data w) (FSESS_NOIMPLBIT op) then finish ENOSYS w1
          else upcall_bind (fsync_handles fufh_types vp ctx 0 w1) finish)"

end
