(* ===== verification/Fuse_Io.thy ===== *)
theory Fuse_Io
  imports Fuse_Open "HOL-Library.Signed_Division"
begin

text \<open>
  Reading, writing and paging (\<open>fuse_vnops.c\<close>, the strategy routines of \<open>fuse_internal.c\<close>). A file
  that is cached goes through the cluster layer of the kernel, which comes back to \<open>fuse_vnop_strategy\<close>
  for what is not in memory; one that is not is read and written by the caller's own requests.
\<close>

section \<open>Blocks\<close>

text \<open>The division of two signed 64-bit numbers; by zero it traps.\<close>

definition div_off :: "u64 \<Rightarrow> u32 \<Rightarrow> u64 option" where
  "div_off a b = (if b = 0 then None else Some (word_of_int (signed_divide (sint a) (uint b))))"

definition fuse_vnop_blktooff :: "vnode \<Rightarrow> u64 \<Rightarrow> fuse_world \<Rightarrow> (fuse_world, int \<times> u64 option) upcall" where
  "fuse_vnop_blktooff vp lblkno w =
     need (VTOFUD vp w) (\<lambda>v.
       if fuse_isdeadfs (w_data w) v then Done (EIO, None) w
       else Done (0, Some (lblkno * ucast (fd_blocksize (w_data w)))) w)"

definition fuse_vnop_offtoblk :: "vnode \<Rightarrow> u64 \<Rightarrow> fuse_world \<Rightarrow> (fuse_world, int \<times> u64 option) upcall" where
  "fuse_vnop_offtoblk vp off w =
     need (VTOFUD vp w) (\<lambda>v.
       if fuse_isdeadfs (w_data w) v then Done (EIO, None) w
       else need (div_off off (fd_blocksize (w_data w))) (\<lambda>blk. Done (0, Some blk) w))"

text \<open>The block and the bytes that follow in it, when the caller wants to know.\<close>

definition fuse_vnop_blockmap ::
  "vnode \<Rightarrow> u64 \<Rightarrow> u64 \<Rightarrow> bool \<Rightarrow> fuse_world \<Rightarrow> (fuse_world, int \<times> (u64 \<times> u64) option) upcall" where
  "fuse_vnop_blockmap vp foffset sz wanted w =
     need (VTOFUD vp w) (\<lambda>v.
       if fuse_isdeadfs (w_data w) v then Done (EIO, None) w
       else if vnode_isdir v then Done (ENOTSUP, None) w
       else if \<not> wanted then Done (0, None) w
       else need (div_off foffset (fd_blocksize (w_data w))) (\<lambda>bpn.
         let contiguous = fv_filesize v - bpn * ucast (fd_blocksize (w_data w))
         in Done (0, Some (bpn, if sz <s contiguous then sz else contiguous)) w))"

section \<open>Paging\<close>

abbreviation (input) UPL_NOCOMMIT :: u32 where "UPL_NOCOMMIT \<equiv> 0x2"

definition page_refused :: "vnode \<Rightarrow> u32 \<Rightarrow> fuse_world \<Rightarrow> (fuse_world, int) upcall" where
  "page_refused vp flags w = Done ENOTSUP (if flag_set flags UPL_NOCOMMIT then w else emit (Ef_upl_abort vp) w)"

definition fuse_vnop_pagein ::
  "vnode \<Rightarrow> u64 \<Rightarrow> nat \<Rightarrow> u32 \<Rightarrow> fuse_world \<Rightarrow> (fuse_world, int) upcall" where
  "fuse_vnop_pagein vp foffset sz flags w =
     need (VTOFUD vp w) (\<lambda>v.
       if fuse_isdeadfs (w_data w) v \<or> fuse_isdirectio (w_data w) v then page_refused vp flags w
       else Call (K_cluster_pagein vp foffset sz (fv_filesize v) flags) w (\<lambda>x. Done (kr_err x)))"

definition fuse_vnop_pageout ::
  "vnode \<Rightarrow> u64 \<Rightarrow> nat \<Rightarrow> u32 \<Rightarrow> fuse_world \<Rightarrow> (fuse_world, int) upcall" where
  "fuse_vnop_pageout vp foffset sz flags w =
     need (VTOFUD vp w) (\<lambda>v.
       if fuse_isdeadfs (w_data w) v \<or> fuse_isdirectio (w_data w) v then page_refused vp flags w
       else Call (K_cluster_pageout vp foffset sz (fv_filesize v) flags) w (\<lambda>x. Done (kr_err x)))"

section \<open>Reading\<close>

abbreviation (input) IO_UNIT :: u32 where "IO_UNIT \<equiv> 0x1"
abbreviation (input) IO_APPEND :: u32 where "IO_APPEND \<equiv> 0x2"
abbreviation (input) IO_SYNC :: u32 where "IO_SYNC \<equiv> 0x4"
abbreviation (input) IO_HEADZEROFILL :: u32 where "IO_HEADZEROFILL \<equiv> 0x80"
abbreviation (input) IO_NOCACHE :: u32 where "IO_NOCACHE \<equiv> 0x800"

text \<open>The handle of a kind, or else the one for reading and writing, if either is open.\<close>

definition usable_handle :: "fuse_vnode_data \<Rightarrow> fufh_type \<Rightarrow> fufh_type option" where
  "usable_handle v type =
     (if FUFH_IS_VALID (fv_fufh v type) then Some type
      else if FUFH_IS_VALID (fv_fufh v FUFH_RDWR) then Some FUFH_RDWR else None)"

text \<open>What one request moves: \<open>min\<close> of the kernel is one of 32-bit numbers.\<close>

definition io_chunk :: "nat \<Rightarrow> fuse_world \<Rightarrow> u32" where
  "io_chunk n w = min (of_nat n) (fd_iosize (w_data w))"

text \<open>\<open>fuse_read_in\<close>, and the part of \<open>fuse_write_in\<close> before the data: the flags are not written.\<close>

definition transfer_body :: "fuse_filehandle \<Rightarrow> u64 \<Rightarrow> u32 \<Rightarrow> body" where
  "transfer_body f off sz = b64 (fh_id f) @ b64 off @ b32 sz @ bgap 4"

text \<open>
  The loop of direct reading; each round but the last moves something, unless the size of an I/O is
  zero. \<open>fuel\<close> is the rounds it may take.
\<close>

fun read_direct ::
  "nat \<Rightarrow> bool \<Rightarrow> fufh_type \<Rightarrow> vnode \<Rightarrow> vfs_context \<Rightarrow> uio \<Rightarrow> fuse_world \<Rightarrow>
     (fuse_world, int \<times> uio) upcall" where
  "read_direct 0 first type vp ctx u w = Stuck w"
| "read_direct (Suc fuel) first type vp ctx u w =
     (if uio_resid u = 0 then fuse_drop w (Done (0, u))
      else need (VTOFUD vp w) (\<lambda>v.
        let sz = io_chunk (uio_resid u) w
        in reask first \<lparr>rq_op = FUSE_READ, rq_nodeid = fv_nodeid v,
                        rq_body = transfer_body (fv_fufh v type) (uio_offset u) sz, rq_ctx = Some ctx\<rparr> w
             (\<lambda>x w.
               if fr_err x \<noteq> 0 then Done (fr_err x, u) w
               else Call (K_uiomove (take (unat sz) (fr_answ x))) w (\<lambda>m w.
                 let u1 = uio_moved (take (unat sz) (fr_answ x)) u in
                 if kr_err m \<noteq> 0 then fuse_drop w (Done (if kr_err m = -1 then 0 else kr_err m, u))
                 else if length (fr_answ x) < unat sz then fuse_drop w (Done (0, u1))
                 else read_direct fuel False type vp ctx u1 w))))"

definition fuse_vnop_read ::
  "vnode \<Rightarrow> u32 \<Rightarrow> uio \<Rightarrow> vfs_context \<Rightarrow> fuse_world \<Rightarrow> (fuse_world, int \<times> uio) upcall" where
  "fuse_vnop_read vp ioflag u ctx w =
     need (VTOFUD vp w) (\<lambda>v.
       if fuse_isdeadfs (w_data w) v then Done (if fv_vtype v \<noteq> VCHR then EIO else 0, u) w
       else if \<not> vnode_isreg v then Done (if vnode_isdir v then EISDIR else EPERM, u) w
       else if uio_resid u = 0 then Done (0, u) w
       else if uio_offset u <s 0 then Done (EINVAL, u) w
       else if \<not> fuse_isdirectio (w_data w) v
       then Call (K_cluster_read vp (fv_filesize v)
                    (if fuse_isnoubc (w_data w) v then ioflag OR IO_NOCACHE else ioflag)) w
              (\<lambda>x. Done (kr_err x, uio_moved (kr_bytes x) u))
       else (case usable_handle v FUFH_RDONLY of
               None \<Rightarrow> Done (EIO, u) w
             | Some type \<Rightarrow> read_direct (uio_resid u + 1) True type vp ctx u w))"

section \<open>Writing\<close>

text \<open>
  Bytes taken from the caller: beyond what it has to give they are the kernel's. A short write is put
  back in the count and the offset only.
\<close>

definition uio_taken :: "nat \<Rightarrow> uio \<Rightarrow> uio" where
  "uio_taken n u =
     u\<lparr>uio_resid := uio_resid u - n, uio_offset := uio_offset u + of_nat n, uio_in := drop n (uio_in u)\<rparr>"

definition uio_put_back :: "nat \<Rightarrow> uio \<Rightarrow> uio" where
  "uio_put_back n u = u\<lparr>uio_resid := uio_resid u + n, uio_offset := uio_offset u - of_nat n\<rparr>"

text \<open>
  The loop of direct writing. When the bytes cannot be had, the ticket is the one of the last round, if
  there was one, or one that was not used yet.
\<close>

fun write_direct ::
  "nat \<Rightarrow> bool \<Rightarrow> fufh_type \<Rightarrow> vnode \<Rightarrow> vfs_context \<Rightarrow> uio \<Rightarrow> fuse_world \<Rightarrow>
     (fuse_world, int \<times> uio) upcall" where
  "write_direct 0 first type vp ctx u w = Stuck w"
| "write_direct (Suc fuel) first type vp ctx u w =
     (if uio_resid u = 0 then fuse_drop (invalidate_attr vp w) (Done (0, u))
      else
        let sz = io_chunk (uio_resid u) w; n = unat sz
        in Call (K_uiomove_in n) w (\<lambda>m w.
             let bs = take n (uio_in u @ kr_bytes m); u1 = uio_taken n u in
             if kr_err m \<noteq> 0
             then if first then Done (kr_err m, u) w else fuse_drop w (Done (kr_err m, u))
             else need (VTOFUD vp w) (\<lambda>v.
               reask first \<lparr>rq_op = FUSE_WRITE, rq_nodeid = fv_nodeid v,
                            rq_body = transfer_body (fv_fufh v type) (uio_offset u) sz @ map Some bs,
                            rq_ctx = Some ctx\<rparr> w
                 (\<lambda>x w.
                   let got = get32 0 (fr_answ x) in
                   if fr_err x \<noteq> 0 then Done (fr_err x, u1) w
                   else if sz < got then fuse_drop w (Done (EINVAL, u1))
                   else write_direct fuel False type vp ctx (uio_put_back (n - unat got) u1) w))))"

definition write_lflag :: "fuse_world \<Rightarrow> fuse_vnode_data \<Rightarrow> u32 \<Rightarrow> u32" where
  "write_lflag w v ioflag =
     (ioflag AND (IO_SYNC OR IO_NOCACHE)) OR
     (if fuse_isnoubc (w_data w) v then IO_SYNC OR IO_NOCACHE
      else if mnt_synchronous (w_mnt w) then IO_SYNC else 0)"

text \<open>After the cluster layer has written: the size is what was written, or the old one.\<close>

definition write_sized :: "vnode \<Rightarrow> u64 \<Rightarrow> u64 \<Rightarrow> fuse_world \<Rightarrow> fuse_world" where
  "write_sized vp orig off w =
     invalidate_attr vp
       (if orig <s off
        then emit (Ef_knote vp (NOTE_WRITE OR NOTE_EXTEND)) (emit (Ef_ubc vp (Ubc_setsize off))
               (set_fud vp (\<lambda>v. v\<lparr>fv_filesize := off\<rparr>) w))
        else emit (Ef_knote vp NOTE_WRITE) (set_fud vp (\<lambda>v. v\<lparr>fv_filesize := orig\<rparr>) w))"

definition write_cached ::
  "vnode \<Rightarrow> fuse_vnode_data \<Rightarrow> u32 \<Rightarrow> uio \<Rightarrow> fuse_world \<Rightarrow> (fuse_world, int \<times> uio) upcall" where
  "write_cached vp v ioflag u w =
     (let orig = fv_filesize v;
          off = (if flag_set ioflag IO_APPEND then orig else uio_offset u);
          u1 = u\<lparr>uio_offset := off\<rparr>;
          fin = off + of_nat (uio_resid u);
          newsize = (if orig <s fin then fin else orig);
          w1 = (if orig <s fin then set_fud vp (\<lambda>v. v\<lparr>fv_filesize := newsize\<rparr>) w else w);
          hole = orig <s off;
          lflag = write_lflag w v ioflag OR (if hole then IO_HEADZEROFILL else 0)
      in if off <s 0 then Done (EFBIG, u1) w
         else Call (K_cluster_write vp orig newsize (if hole then orig else 0) 0 lflag) w1 (\<lambda>x w.
           let u2 = uio_taken (kr_count x) u1 in
           if kr_err x = 0 then Done (0, u2) (write_sized vp orig (uio_offset u2) w)
           else if flag_set ioflag IO_UNIT
           then Done (kr_err x, u2\<lparr>uio_offset := uio_offset u, uio_resid := uio_resid u\<rparr>) w
           else Done (if uio_resid u2 \<noteq> uio_resid u then 0 else kr_err x, u2) w))"

definition fuse_vnop_write ::
  "nat \<Rightarrow> vnode \<Rightarrow> u32 \<Rightarrow> uio \<Rightarrow> vfs_context \<Rightarrow> fuse_world \<Rightarrow> (fuse_world, int \<times> uio) upcall" where
  "fuse_vnop_write rounds vp ioflag u ctx w =
     need (VTOFUD vp w) (\<lambda>v.
       if fuse_isdeadfs (w_data w) v then Done (EIO, u) w
       else if \<not> vnode_isreg v then Done (if vnode_isdir v then EISDIR else EPERM, u) w
       else if uio_resid u = 0 then Done (0, u) w
       else if uio_offset u <s 0 then Done (EINVAL, u) w
       else if fuse_isdirectio (w_data w) v
       then (case usable_handle v FUFH_WRONLY of
               None \<Rightarrow> Done (EIO, u) w
             | Some type \<Rightarrow> write_direct rounds True type vp ctx u w)
       else write_cached vp v ioflag u w)"

section \<open>Strategy\<close>

text \<open>
  A buffer of the kernel's I/O: the flags \<open>B_READ\<close> and \<open>B_CLUSTER\<close>, whether it has a \<open>upl\<close>, its
  block numbers, counts and error, how often it was given back by \<open>buf_biodone\<close>, and its memory.
\<close>

record buf =
  b_read :: bool
  b_cluster :: bool
  b_upl :: bool
  b_blkno :: u64
  b_lblkno :: u64
  b_count :: u32
  b_resid :: u32
  b_error :: int
  b_done :: nat
  b_data :: "u8 list"

definition buf_biodone :: "buf \<Rightarrow> buf" where
  "buf_biodone b = b\<lparr>b_done := b_done b + 1\<rparr>"

definition buf_fail :: "int \<Rightarrow> buf \<Rightarrow> buf" where
  "buf_fail e b = buf_biodone (b\<lparr>b_error := e\<rparr>)"

definition buf_clear :: "buf \<Rightarrow> buf" where
  "buf_clear b = b\<lparr>b_data := put_bytes 0 (replicate (unat (b_count b)) 0) (b_data b), b_resid := 0\<rparr>"

text \<open>Writing to the memory of a buffer, and reading from it; out of its bounds is a crash.\<close>

definition buf_put :: "nat \<Rightarrow> u8 list \<Rightarrow> buf \<Rightarrow> buf option" where
  "buf_put pos bs b =
     (if pos + length bs \<le> length (b_data b) then Some (b\<lparr>b_data := put_bytes pos bs (b_data b)\<rparr>) else None)"

definition buf_get :: "nat \<Rightarrow> nat \<Rightarrow> buf \<Rightarrow> u8 list option" where
  "buf_get pos n b = (if pos + n \<le> length (b_data b) then Some (get_bytes pos n (b_data b)) else None)"

text \<open>The answer to a read goes to the buffer; an empty one is the end of the file.\<close>

fun strategy_read ::
  "nat \<Rightarrow> bool \<Rightarrow> fufh_type \<Rightarrow> vnode \<Rightarrow> nat \<Rightarrow> u64 \<Rightarrow> buf \<Rightarrow> fuse_world \<Rightarrow>
     (fuse_world, int \<times> buf) upcall" where
  "strategy_read 0 first type vp pos off b w = Stuck w"
| "strategy_read (Suc fuel) first type vp pos off b w =
     (if b_resid b = 0 then fuse_drop w (Done (0, b))
      else need (VTOFUD vp w) (\<lambda>v.
        let sz = io_chunk (unat (b_resid b)) w;
            op = (if vnode_isdir v then FUSE_READDIR else FUSE_READ)
        in reask first \<lparr>rq_op = op, rq_nodeid = fv_nodeid v,
                        rq_body = transfer_body (fv_fufh v type) off sz, rq_ctx = None\<rparr> w
             (\<lambda>x w.
               let n = length (fr_answ x) in
               if fr_err x \<noteq> 0 then Done (fr_err x, b) w
               else if n = 0
               then need (buf_put pos (replicate (unat (b_resid b)) 0) b) (\<lambda>b1.
                      fuse_drop w (Done (0, b1\<lparr>b_resid := 0\<rparr>)))
               else need (buf_put pos (fr_answ x) b) (\<lambda>b1.
                      strategy_read fuel False type vp (pos + n) (off + of_nat n)
                        (b1\<lparr>b_resid := b_resid b - of_nat n\<rparr>) w))))"

fun strategy_write ::
  "nat \<Rightarrow> bool \<Rightarrow> fufh_type \<Rightarrow> vnode \<Rightarrow> nat \<Rightarrow> nat \<Rightarrow> u64 \<Rightarrow> buf \<Rightarrow> fuse_world \<Rightarrow>
     (fuse_world, int \<times> buf) upcall" where
  "strategy_write 0 first type vp pos left off b w = Stuck w"
| "strategy_write (Suc fuel) first type vp pos left off b w =
     (if left = 0 then fuse_drop w (Done (0, b))
      else need (VTOFUD vp w) (\<lambda>v.
        let sz = io_chunk left w
        in need (buf_get pos (unat sz) b) (\<lambda>bs.
             reask first \<lparr>rq_op = FUSE_WRITE, rq_nodeid = fv_nodeid v,
                          rq_body = transfer_body (fv_fufh v type) off sz @ map Some bs, rq_ctx = None\<rparr> w
               (\<lambda>x w.
                 let got = get32 0 (fr_answ x) in
                 if fr_err x \<noteq> 0 then Done (fr_err x, b) w
                 else if sz < got then fuse_drop w (Done (EINVAL, b))
                 else strategy_write fuel False type vp (pos + unat got) (left - unat got) (off + ucast got)
                        (b\<lparr>b_resid := b_resid b - got\<rparr>) w))))"

definition strategy_out :: "int \<times> buf \<Rightarrow> fuse_world \<Rightarrow> (fuse_world, int \<times> buf) upcall" where
  "strategy_out r = Done (fst r, if fst r \<noteq> 0 then buf_fail (fst r) (snd r) else buf_biodone (snd r))"

definition strategy_io ::
  "nat \<Rightarrow> fufh_type \<Rightarrow> vnode \<Rightarrow> buf \<Rightarrow> fuse_world \<Rightarrow> (fuse_world, int \<times> buf) upcall" where
  "strategy_io rounds type vp b w =
     need (VTOFUD vp w) (\<lambda>v.
       let b1 = b\<lparr>b_resid := b_count b\<rparr>;
           off = b_blkno b * ucast (fd_blocksize (w_data w));
           filesize = fv_filesize v
       in if b_count b = 0 then Done (0, b) w
          else if b_read b
          then if filesize <=s off
               then Done (0, if off \<noteq> filesize then buf_fail EINVAL b1 else buf_biodone b1) w
               else
                 let b2 = (if filesize <s off + ucast (b_count b)
                           then b1\<lparr>b_count := ucast (filesize - off)\<rparr> else b1)
                 in Call K_buf_map w (\<lambda>x w.
                      if kr_err x \<noteq> 0 then Done (EFAULT, b2) w
                      else upcall_bind (strategy_read (unat (b_count b) + 1) True type vp 0 off b2 w) strategy_out)
          else Call K_buf_map w (\<lambda>x w.
                 if kr_err x \<noteq> 0 then Done (EFAULT, b) w
                 else upcall_bind (strategy_write rounds True type vp 0 (unat (b_count b)) off b1 w) strategy_out))"

text \<open>A handle that is missing is opened on nobody's behalf, without the check.\<close>

definition strategy_handle ::
  "nat \<Rightarrow> vnode \<Rightarrow> buf \<Rightarrow> fuse_world \<Rightarrow> (fuse_world, int \<times> buf) upcall" where
  "strategy_handle rounds vp b w =
     need (VTOFUD vp w) (\<lambda>v.
       case usable_handle v (if b_read b then FUFH_RDONLY else FUFH_WRONLY) of
         Some type \<Rightarrow> strategy_io rounds type vp b w
       | None \<Rightarrow>
           let type = (if b_read b then FUFH_RDONLY else FUFH_RDWR)
           in upcall_bind (fuse_filehandle_get vp None type 0 w) (\<lambda>err w.
                if err \<noteq> 0 then Done (EIO, buf_fail EIO b) w
                else strategy_io rounds type vp b (set_fufh vp type FUFH_AUX_INC w)))"

definition fuse_internal_strategy ::
  "nat \<Rightarrow> vnode \<Rightarrow> buf \<Rightarrow> fuse_world \<Rightarrow> (fuse_world, int \<times> buf) upcall" where
  "fuse_internal_strategy rounds vp b w =
     need (VTOFUD vp w) (\<lambda>v.
       if \<not> (vnode_isreg v \<or> vnode_isdir v) then Done (ENOTSUP, b) w
       else if flag_set (fv_flag v) FN_CREATING
       then Call K_msleep w (\<lambda>_. strategy_handle rounds vp b)
       else strategy_handle rounds vp b w)"

definition fuse_internal_strategy_buf ::
  "nat \<Rightarrow> vnode \<Rightarrow> buf \<Rightarrow> fuse_world \<Rightarrow> (fuse_world, int \<times> buf) upcall" where
  "fuse_internal_strategy_buf rounds vp b w =
     need (VTOFUD vp w) (\<lambda>v.
       if fv_vtype v = VCHR \<or> fv_vtype v = VBLK then Crash
       else if b_cluster b then fuse_internal_strategy rounds vp b w
       else if b_upl b then Call K_cluster_bp w (\<lambda>x. Done (kr_err x, b))
       else if b_blkno b = b_lblkno b
       then need (div_off (b_lblkno b * ucast (fd_blocksize (w_data w))) (fd_blocksize (w_data w))) (\<lambda>blkno.
              let b1 = b\<lparr>b_blkno := blkno\<rparr>
              in if blkno = -1 then Done (0, buf_biodone (buf_clear b1)) w
                 else fuse_internal_strategy rounds vp b1 w)
       else if b_blkno b = -1 then Done (0, buf_biodone b) w
       else fuse_internal_strategy rounds vp b w)"

definition fuse_vnop_strategy ::
  "nat \<Rightarrow> vnode option \<Rightarrow> buf \<Rightarrow> fuse_world \<Rightarrow> (fuse_world, int \<times> buf) upcall" where
  "fuse_vnop_strategy rounds vpp b w =
     (case vpp of
        None \<Rightarrow> Done (EIO, buf_fail EIO b) w
      | Some vp \<Rightarrow> need (VTOFUD vp w) (\<lambda>v.
          if fuse_isdeadfs (w_data w) v then Done (EIO, buf_fail EIO b) w
          else fuse_internal_strategy_buf rounds vp b w))"

section \<open>Bounds and rounds\<close>

lemma requested_transfer [simp]:
  "requested_size \<lparr>rq_op = op, rq_nodeid = nid, rq_body = transfer_body f off sz @ ys, rq_ctx = ctx\<rparr> = unat sz"
  "requested_size \<lparr>rq_op = op, rq_nodeid = nid, rq_body = transfer_body f off sz, rq_ctx = ctx\<rparr> = unat sz"
  by (simp_all add: requested_size_def transfer_body_def b64_def b32_def comp_def)

text \<open>An answer to a read is not longer than what was asked for.\<close>

lemma read_answer_fits:
  assumes "answer_audited d \<lparr>rq_op = op, rq_nodeid = nid, rq_body = transfer_body f off sz, rq_ctx = ctx\<rparr> x"
    and "op = FUSE_READ \<or> op = FUSE_READDIR"
  shows "length (fr_answ x) \<le> unat sz"
  using assms by (auto simp: answer_audited_def)

lemma unat_less_count: "k \<le> unat w \<Longrightarrow> unat (w - of_nat k) = unat w - k" for w :: u32
proof -
  assume k: "k \<le> unat w"
  then have "unat (of_nat k :: u32) = k"
    using unsigned_less [of w, where ?'a = nat] by (intro unat_of_nat32) simp
  with k show ?thesis by (simp add: unat_sub word_le_nat_alt)
qed

lemma io_chunk_le: "unat (io_chunk n w) \<le> n"
proof -
  have "unat (of_nat n :: u32) \<le> n" by (simp add: unsigned_of_nat)
  moreover have "unat (io_chunk n w) \<le> unat (of_nat n :: u32)"
    by (simp add: io_chunk_def flip: word_le_nat_alt)
  ultimately show ?thesis by simp
qed

lemma io_chunk_pos:
  assumes "0 < n" and "n < 2 ^ 32" and "fd_iosize (w_data w) \<noteq> 0"
  shows "0 < unat (io_chunk n w)"
proof -
  have "(of_nat n :: u32) \<noteq> 0" using assms(1,2) unat_of_nat32 [OF assms(2)] by (metis less_irrefl unat_0)
  with assms(3) show ?thesis by (simp add: io_chunk_def min_def unat_gt_0)
qed

text \<open>
  Reading moves what it takes off the count, and no more; \<open>paced\<close> is when it also ends: the size of an
  I/O is not zero, and the rounds are enough.
\<close>

definition uio_accounts :: "uio \<Rightarrow> uio \<Rightarrow> bool" where
  "uio_accounts u u1 \<longleftrightarrow>
     uio_resid u1 \<le> uio_resid u \<and> length (uio_out u1) = length (uio_out u) + (uio_resid u - uio_resid u1)"

lemma uio_accounts_refl [simp]: "uio_accounts u u"
  by (simp add: uio_accounts_def)

lemma uio_accounts_moved: "uio_accounts (uio_moved bs u) u1 \<Longrightarrow> uio_accounts u u1"
  by (auto simp: uio_accounts_def uio_moved_def Let_def)

lemma uio_accounts_moved_self [simp]: "uio_accounts u (uio_moved bs u)"
  by (auto simp: uio_accounts_def uio_moved_def Let_def)

definition paced :: "(nat \<Rightarrow> fuse_world \<Rightarrow> bool) \<Rightarrow> nat \<Rightarrow> nat \<Rightarrow> bool" where
  "paced I fuel left \<longleftrightarrow> left < fuel \<and> left < 2 ^ 32 \<and> (\<forall>n w. I n w \<longrightarrow> fd_iosize (w_data w) \<noteq> 0)"

lemma paced_0 [simp]: "\<not> paced I 0 left"
  by (simp add: paced_def)

lemma paced_step:
  "paced I (Suc fuel) left \<Longrightarrow> I n w \<Longrightarrow> left \<noteq> 0 \<Longrightarrow> k = unat (io_chunk left w) \<Longrightarrow> paced I fuel (left - k)"
  using io_chunk_pos [of left w] by (auto simp: paced_def)

context kept_invariant
begin

lemma read_direct_kept:
  assumes "I (if first then n else Suc n) w" and "vp \<in> V" and "b \<or> paced I fuel (uio_resid u)"
    and "first \<Longrightarrow> uio_resid u \<noteq> 0"
  shows "ensures b R K (\<lambda>r t. I n t \<and> uio_accounts u (snd r)) (read_direct fuel first type vp ctx u w)"
  using assms
proof (induction fuel arbitrary: first u w)
  case (Suc fuel)
  show ?case
  proof (cases "uio_resid u = 0")
    case True
    with Suc.prems have "I (Suc n) w" by (cases first) simp_all
    with True show ?thesis by (auto intro!: kept_drop)
  next
    case False
    define sz where "sz = io_chunk (uio_resid u) w"
    have moved: "ensures b R K (\<lambda>r t. I n t \<and> uio_accounts u (snd r))
        (Call (K_uiomove (take (unat sz) answ)) t (\<lambda>m w.
           let u1 = uio_moved (take (unat sz) answ) u in
           if kr_err m \<noteq> 0 then fuse_drop w (Done (if kr_err m = -1 then 0 else kr_err m, u))
           else if length answ < unat sz then fuse_drop w (Done (0, u1))
           else read_direct fuel False type vp ctx u1 w))" if "I (Suc n) t" for t answ
    proof (rule kept_call [OF that])
      fix m :: kret and t1
      assume t1: "I (Suc n) t1"
      let ?u1 = "uio_moved (take (unat sz) answ) u"
      have "ensures b R K (\<lambda>r t. I n t \<and> uio_accounts u (snd r)) (read_direct fuel False type vp ctx ?u1 t1)"
        if "\<not> length answ < unat sz"
      proof (rule ensures_mono [OF Suc.IH])
        show "b \<or> paced I fuel (uio_resid ?u1)"
          using Suc.prems(1,3) that False paced_step [of I fuel "uio_resid u" _ w "unat sz"]
          by (auto simp: sz_def)
      qed (use t1 Suc.prems(2) uio_accounts_moved in auto)
      then show "ensures b R K (\<lambda>r t. I n t \<and> uio_accounts u (snd r)) (let u1 = ?u1 in
           if kr_err m \<noteq> 0 then fuse_drop t1 (Done (if kr_err m = -1 then 0 else kr_err m, u))
           else if length answ < unat sz then fuse_drop t1 (Done (0, u1))
           else read_direct fuel False type vp ctx u1 t1)"
        using t1 by (auto simp: Let_def intro!: kept_drop)
    qed simp
    show ?thesis
      unfolding read_direct.simps if_not_P [OF False]
      by (rule kept_need [OF Suc.prems(1,2)], unfold Let_def sz_def [symmetric], rule kept_reask [OF Suc.prems(1)])
        (use moved in \<open>simp_all add: Let_def del: ensures.simps(3)\<close>)
  qed
qed simp

lemma write_direct_kept:
  assumes "I (if first then n else Suc n) w" and "vp \<in> V" and "first \<Longrightarrow> uio_resid u \<noteq> 0"
    and inval: "\<And>m t. I m t \<Longrightarrow> I m (invalidate_attr vp t)"
  shows "conforms R K (\<lambda>_. I n) (write_direct fuel first type vp ctx u w)"
  using assms(1-3)
proof (induction fuel arbitrary: first u w)
  case (Suc fuel)
  show ?case
  proof (cases "uio_resid u = 0")
    case True
    with Suc.prems have "I (Suc n) w" by (cases first) simp_all
    with True show ?thesis by (auto intro!: kept_drop inval)
  next
    case False
    have rest: "conforms R K (\<lambda>_. I n) (write_direct fuel False type vp ctx u2 t)" if "I (Suc n) t" for t u2
      using that Suc.IH [of False] Suc.prems(2) by simp
    show ?thesis
      unfolding write_direct.simps if_not_P [OF False] Let_def
      by (rule kept_call [OF Suc.prems(1)])
        (use Suc.prems(1,2) rest in \<open>auto intro!: kept_need kept_reask kept_drop split: if_splits\<close>)
  qed
qed simp

lemma strategy_read_kept:
  assumes "I (if first then n else Suc n) w" and "vp \<in> V" and "unat (b_resid bf) < fuel"
    and "pos + unat (b_resid bf) \<le> length (b_data bf)" and "first \<Longrightarrow> b_resid bf \<noteq> 0"
  shows "ensures b R K (\<lambda>r t. I n t \<and> length (b_data (snd r)) = length (b_data bf) \<and> b_done (snd r) = b_done bf)
    (strategy_read fuel first type vp pos off bf w)"
  using assms
proof (induction fuel arbitrary: first pos off bf w)
  case (Suc fuel)
  show ?case
  proof (cases "b_resid bf = 0")
    case True
    with Suc.prems have "I (Suc n) w" by (cases first) simp_all
    with True show ?thesis by (auto intro!: kept_drop)
  next
    case False
    then have some: "0 < unat (b_resid bf)" by (simp add: unat_gt_0)
    have put: "\<exists>b1. buf_put pos bs bf = Some b1 \<and> length (b_data b1) = length (b_data bf) \<and>
        b_done b1 = b_done bf \<and> b_resid b1 = b_resid bf" if "length bs \<le> unat (b_resid bf)" for bs
      using Suc.prems(4) that by (simp add: buf_put_def)
    define sz where "sz = io_chunk (unat (b_resid bf)) w"
    have sz: "unat sz \<le> unat (b_resid bf)" using io_chunk_le by (simp add: sz_def)
    let ?Q = "\<lambda>r t. I n t \<and> length (b_data (snd r)) = length (b_data bf) \<and> b_done (snd r) = b_done bf"
    have answered: "ensures b R K ?Q
        (if length answ = 0 then need (buf_put pos (replicate (unat (b_resid bf)) 0) bf) (\<lambda>b1.
           fuse_drop t (Done (0, b1\<lparr>b_resid := 0\<rparr>)))
         else need (buf_put pos answ bf) (\<lambda>b1.
           strategy_read fuel False type vp (pos + length answ) (off + of_nat (length answ))
             (b1\<lparr>b_resid := b_resid bf - of_nat (length answ)\<rparr>) t))"
      if t: "I (Suc n) t" and k: "length answ \<le> unat sz" for t answ
    proof (cases "length answ = 0")
      case True
      then show ?thesis using put [of "replicate (unat (b_resid bf)) 0"] t by (auto intro!: kept_drop)
    next
      case False
      obtain b1 where b1: "buf_put pos answ bf = Some b1" "length (b_data b1) = length (b_data bf)" "b_done b1 = b_done bf"
        using put [of answ] k sz by auto
      have fewer: "unat (b_resid bf) - length answ < fuel" using False Suc.prems(3) some by arith
      have "ensures b R K ?Q (strategy_read fuel False type vp (pos + length answ) (off + of_nat (length answ))
             (b1\<lparr>b_resid := b_resid bf - of_nat (length answ)\<rparr>) t)"
        by (rule ensures_mono [OF Suc.IH])
          (use t k sz b1 fewer unat_less_count [of "length answ" "b_resid bf"] Suc.prems(2-4) in auto)
      with False b1 show ?thesis by simp
    qed
    show ?thesis
      unfolding strategy_read.simps if_not_P [OF \<open>b_resid bf \<noteq> 0\<close>]
      by (rule kept_need [OF Suc.prems(1,2)], unfold Let_def sz_def [symmetric], rule kept_reask [OF Suc.prems(1)])
        (use answered read_answer_fits in \<open>auto simp del: length_0_conv\<close>)
  qed
qed simp

lemma strategy_write_kept:
  assumes "I (if first then n else Suc n) w" and "vp \<in> V" and "pos + left \<le> length (b_data bf)"
    and "first \<Longrightarrow> left \<noteq> 0"
  shows "conforms R K (\<lambda>r t. I n t \<and> length (b_data (snd r)) = length (b_data bf) \<and> b_done (snd r) = b_done bf)
    (strategy_write fuel first type vp pos left off bf w)"
  using assms
proof (induction fuel arbitrary: first pos left off bf w)
  case (Suc fuel)
  show ?case
  proof (cases "left = 0")
    case True
    with Suc.prems have "I (Suc n) w" by (cases first) simp_all
    with True show ?thesis by (auto intro!: kept_drop)
  next
    case False
    define sz where "sz = io_chunk left w"
    have sz: "unat sz \<le> left" using io_chunk_le by (simp add: sz_def)
    have rest: "conforms R K (\<lambda>r t. I n t \<and> length (b_data (snd r)) = length (b_data bf) \<and> b_done (snd r) = b_done bf)
        (strategy_write fuel False type vp (pos + unat got) (left - unat got) (off + ucast got)
          (bf\<lparr>b_resid := b_resid bf - got\<rparr>) t)" if "I (Suc n) t" and "\<not> sz < got" for t and got :: u32
    proof (rule ensures_mono [OF Suc.IH])
      have "unat got \<le> left" using that(2) sz by (simp add: not_less word_le_nat_alt)
      then show "pos + unat got + (left - unat got) \<le> length (b_data (bf\<lparr>b_resid := b_resid bf - got\<rparr>))"
        using Suc.prems(3) by simp
    qed (use that Suc.prems(2) in auto)
    obtain bs where bs: "buf_get pos (unat sz) bf = Some bs"
      using Suc.prems(3) sz by (simp add: buf_get_def)
    show ?thesis
      unfolding strategy_write.simps if_not_P [OF False]
      by (rule kept_need [OF Suc.prems(1,2)], unfold Let_def sz_def [symmetric] bs need_simps,
          rule kept_reask [OF Suc.prems(1)])
        (use rest in \<open>auto intro!: kept_drop\<close>)
  qed
qed simp

end

section \<open>The operations among other threads\<close>

declare read_direct.simps(2) [simp del] write_direct.simps(2) [simp del]
  strategy_read.simps(2) [simp del] strategy_write.simps(2) [simp del]

context kept_invariant
begin

lemma vnop_read_kept:
  assumes "I n w" and "vp \<in> V" and "b \<or> paced I (Suc (uio_resid u)) (uio_resid u)"
  shows "ensures b R K (\<lambda>r t. I n t \<and> uio_accounts u (snd r)) (fuse_vnop_read vp ioflag u ctx w)"
  unfolding fuse_vnop_read_def
proof (rule kept_need [OF assms(1,2)], goal_cases)
  case (1 v)
  have direct: "ensures b R K (\<lambda>r t. I n t \<and> uio_accounts u (snd r)) (read_direct (uio_resid u + 1) True type vp ctx u w)"
    if "uio_resid u \<noteq> 0" for type
    by (rule read_direct_kept) (use assms that in auto)
  have cached: "ensures b R K (\<lambda>r t. I n t \<and> uio_accounts u (snd r))
      (Call (K_cluster_read vp size fl) w (\<lambda>x. Done (kr_err x, uio_moved (kr_bytes x) u)))" for size fl
    by (rule kept_call [OF assms(1)]) simp_all
  show ?case
    using assms(1) direct cached by (auto simp del: ensures.simps(3) split: option.split)
qed

end

lemma write_sized_steady [simp]: "staged V n st (write_sized vp orig off w) = staged V n st w"
  by (simp add: write_sized_def)

lemma vnop_write_steady:
  assumes "steady V n w" and "vp \<in> V"
  shows "steady_op V n (fuse_vnop_write rounds vp ioflag u ctx w)"
  unfolding fuse_vnop_write_def
proof (rule steady_need [OF assms], goal_cases)
  case (1 v)
  have direct: "steady_op V n (write_direct rounds True type vp ctx u w)" if "uio_resid u \<noteq> 0" for type
    by (rule unlocked.write_direct_kept) (use assms that in auto)
  have cached: "steady_op V n (write_cached vp v ioflag u w)"
    unfolding write_cached_def Let_def
    by (intro steady_intros) (use assms in auto)
  show ?case
    using assms direct cached by (auto split: option.split)
qed

text \<open>
  A buffer that comes back has its memory as long as it was, and has been given back once, unless the
  I/O was not started.
\<close>

definition buf_settled :: "buf \<Rightarrow> int \<times> buf \<Rightarrow> bool" where
  "buf_settled b r \<longleftrightarrow>
     length (b_data (snd r)) = length (b_data b) \<and>
     (b_done (snd r) = b_done b + 1 \<or>
      b_done (snd r) = b_done b \<and> (fst r \<in> {ENOTSUP, EFAULT} \<or> b_count b = 0 \<or> b_upl b))"

lemma buf_settled_simps [simp]:
  "buf_settled bf (e, buf_fail e2 (bf\<lparr>b_resid := k\<rparr>))" "buf_settled bf (e, buf_biodone (bf\<lparr>b_resid := k\<rparr>))"
  "buf_settled bf (e, buf_fail e2 bf)" "buf_settled bf (e, buf_biodone bf)"
  "buf_settled bf (EFAULT, bf)" "buf_settled bf (EFAULT, bf\<lparr>b_resid := k\<rparr>)"
  "buf_settled bf (EFAULT, bf\<lparr>b_resid := k, b_count := c\<rparr>)" "buf_settled bf (ENOTSUP, bf)"
  "b_upl bf \<Longrightarrow> buf_settled bf (e, bf)" "b_count bf = 0 \<Longrightarrow> buf_settled bf (e, bf)"
  by (simp_all add: buf_settled_def buf_fail_def buf_biodone_def)

lemma strategy_io_steady:
  assumes "steady V n w" and "vp \<in> V" and "unat (b_count bf) \<le> length (b_data bf)"
  shows "steady_within (\<not> b_read bf) V (\<lambda>r t. steady V n t \<and> buf_settled bf r) (strategy_io rounds type vp bf w)"
proof (cases "b_count bf = 0")
  case True
  obtain v where "VTOFUD vp w = Some v" using assms by (auto dest: staged_live)
  with True assms(1) show ?thesis by (simp add: strategy_io_def Let_def buf_settled_def)
next
  case False
  have out: "ensures b R K (\<lambda>r t. steady V n t \<and> buf_settled bf r) (strategy_out r t)"
    if "steady V n t \<and> length (b_data (snd r)) = length (b_data bf) \<and> b_done (snd r) = b_done bf"
    for b R K r t
    using that by (auto simp: strategy_out_def buf_settled_def buf_fail_def buf_biodone_def)
  have rd: "steady_within False V (\<lambda>r t. steady V n t \<and> buf_settled bf r)
      (upcall_bind (strategy_read (Suc (unat (b_count bf))) True type vp 0 off b2 t) strategy_out)"
    if "steady V n t" and "b_resid b2 = b_count bf" and "b_data b2 = b_data bf" and "b_done b2 = b_done bf"
    for t off b2
    by (rule ensures_bind [OF unlocked.strategy_read_kept out])
      (use that assms False in auto)
  have wr: "steady_within True V (\<lambda>r t. steady V n t \<and> buf_settled bf r)
      (upcall_bind (strategy_write rounds True type vp 0 (unat (b_count bf)) off (bf\<lparr>b_resid := b_count bf\<rparr>) t) strategy_out)"
    if "steady V n t" for t off
    by (rule ensures_bind [OF unlocked.strategy_write_kept out])
      (use that assms False in \<open>auto simp: unat_eq_0\<close>)
  show ?thesis
    unfolding strategy_io_def Let_def
  proof (rule steady_need [OF assms(1,2)], goal_cases)
    case (1 v)
    show ?case
    proof (cases "b_read bf")
      case True
      show ?thesis
        using True False assms(1)
        by (auto simp del: ensures.simps(3)
            intro!: steady_call rd)
    next
      case rf: False
      show ?thesis
        using rf False assms(1)
        by (auto simp del: ensures.simps(3) intro!: steady_call wr)
    qed
  qed
qed

lemma usable_handle_None:
  "usable_handle v type = None \<Longrightarrow> \<not> FUFH_IS_VALID (fv_fufh v type) \<and> \<not> FUFH_IS_VALID (fv_fufh v FUFH_RDWR)"
  by (simp add: usable_handle_def split: if_splits)

lemma strategy_handle_steady:
  assumes "steady V n w" and "vp \<in> V" and "unat (b_count bf) \<le> length (b_data bf)"
  shows "steady_within (\<not> b_read bf) V (\<lambda>r t. steady V n t \<and> buf_settled bf r) (strategy_handle rounds vp bf w)"
  unfolding strategy_handle_def
proof (rule steady_need [OF assms(1,2)], goal_cases)
  case (1 v)
  let ?type = "if b_read bf then FUFH_RDONLY else FUFH_RDWR"
  show ?case
  proof (cases "usable_handle v (if b_read bf then FUFH_RDONLY else FUFH_WRONLY)")
    case None
    then have "?type \<noteq> FUFH_INVALID \<and> \<not> FUFH_IS_VALID (fv_fufh v ?type)"
      by (auto dest: usable_handle_None)
    with 1 have get: "steady_within (\<not> b_read bf) V (\<lambda>_. steady V n) (fuse_filehandle_get vp None ?type 0 w)"
      by (intro fuse_filehandle_get_steady [OF assms(1,2)]) simp
    show ?thesis
      unfolding None option.case Let_def
      by (rule steady_bind [OF get], rule ensures_if)
        (simp, rule strategy_io_steady, use assms in simp_all)
  qed (simp add: strategy_io_steady assms)
qed

lemma internal_strategy_steady:
  assumes "steady V n w" and "vp \<in> V" and "unat (b_count bf) \<le> length (b_data bf)"
  shows "steady_within (\<not> b_read bf) V (\<lambda>r t. steady V n t \<and> buf_settled bf r) (fuse_internal_strategy rounds vp bf w)"
  unfolding fuse_internal_strategy_def
  by (rule steady_need [OF assms(1,2)])
    (use assms in \<open>auto simp del: ensures.simps(3) intro!: steady_call strategy_handle_steady\<close>)

lemma buf_settled_fields [simp]:
  "buf_settled (bf\<lparr>b_blkno := k\<rparr>) r = buf_settled bf r"
  "unat (b_count bf) \<le> length (b_data bf) \<Longrightarrow> buf_settled bf (e, buf_biodone (buf_clear (bf\<lparr>b_blkno := k\<rparr>)))"
  by (simp_all add: buf_settled_def buf_biodone_def buf_clear_def)

lemma vnop_strategy_steady:
  assumes "steady V n w" and "vp \<in> V" and "unat (b_count bf) \<le> length (b_data bf)"
    and "fd_blocksize (w_data w) \<noteq> 0"
    and "\<And>v. VTOFUD vp w = Some v \<Longrightarrow> fv_vtype v \<noteq> VCHR \<and> fv_vtype v \<noteq> VBLK"
  shows "steady_within (\<not> b_read bf) V (\<lambda>r t. steady V n t \<and> buf_settled bf r) (fuse_vnop_strategy rounds (Some vp) bf w)"
proof -
  obtain v where v: "VTOFUD vp w = Some v" using assms(1,2) by (auto dest: staged_live)
  have go: "steady_within (\<not> b_read bf) V (\<lambda>r t. steady V n t \<and> buf_settled bf r) (fuse_internal_strategy rounds vp bf w)"
    by (rule internal_strategy_steady [OF assms(1-3)])
  have at: "steady_within (\<not> b_read bf) V (\<lambda>r t. steady V n t \<and> buf_settled bf r)
      (fuse_internal_strategy rounds vp (bf\<lparr>b_blkno := k\<rparr>) w)" for k
    using internal_strategy_steady [OF assms(1,2), of "bf\<lparr>b_blkno := k\<rparr>" rounds] assms(3) by simp
  show ?thesis
    using assms v go at
    by (auto simp: fuse_vnop_strategy_def fuse_internal_strategy_buf_def Let_def div_off_def
        simp del: ensures.simps(3) intro!: steady_call)
qed

end
