(* ===== verification/Fuse_Example.thy ===== *)
theory Fuse_Example
  imports Fuse_Locked Fuse_Internal_Props
begin

text \<open>
  A mount with a root directory and a file, as the witnesses use it: the node hash is the one that two
  lookups leave behind which nobody else interferes with.
\<close>

definition example_events :: "hash_event list" where
  "example_events =
     [Hv_lookup 1 0 1 0, Hv_iterate 1 100, Hv_iterate 1 101, Hv_attached 100 5,
      Hv_lookup 1 0 7 0, Hv_iterate 1 101, Hv_iterate 1 102, Hv_attached 101 6]"

definition example_hsys :: hsys where
  "example_hsys = the (run_events hash_step (hash_init 3) example_events)"

lemma example_hash:
  "events_ok hash_ok hash_step (hash_init 3) example_events"
  "run_events hash_step (hash_init 3) example_events \<noteq> None"
  "hs_look example_hsys = Map.empty" "hs_att example_hsys = Map.empty" "hs_scrub example_hsys = []"
  "gh_fsnode (hs_h example_hsys) = [5 \<mapsto> 100, 6 \<mapsto> 101]"
  "\<forall>q\<ge>102. gh_nodes (hs_h example_hsys) q = None"
  by (simp_all add: example_events_def example_hsys_def hash_eval)

lemma example_hash_inv: "hash_inv example_hsys"
  using nodehash.run_defined [OF hash_inv_init example_hash(1)] by (auto simp: example_hsys_def)

text \<open>The root is vnode 5, the file in it vnode 6; \<open>d\<close> is the session, \<open>f\<close> what is to be changed in the file.\<close>

definition example_mount :: "fuse_data \<Rightarrow> fuse_mount" where
  "example_mount d = \<lparr>mnt_data = d, mnt_synchronous = False, mnt_async = False, mnt_authopaque = False,
     mnt_authopaqueaccess = False, mnt_extendedsecurity = False, mnt_local = False, mnt_fsid = 9\<rparr>"

definition example_root :: fuse_vnode_data where
  "example_root = example_vnode\<lparr>fv_nodeid := 1, fv_vtype := VDIR, fv_isvroot := True, fv_flag := FN_IS_ROOT,
     fv_parentvp := Some 5\<rparr>"

definition example_file :: fuse_vnode_data where
  "example_file = example_vnode\<lparr>fv_nodeid := 7, fv_parentvp := Some 5\<rparr>"

definition example_session :: fuse_data where
  "example_session = (fdata_alloc example_daemon 9)\<lparr>fd_mount_state := FM_MOUNTED, fd_blocksize := 4096,
     fd_iosize := 4, fd_libabi_major := 7, fd_libabi_minor := 8, fd_userkernel_bufsize := 65536\<rparr>"

definition example_world :: "fuse_data \<Rightarrow> fuse_vnode_data \<Rightarrow> fuse_world" where
  "example_world d f =
     \<lparr>w_mnt = example_mount d, w_rdonly = False, w_isforce = False, w_hash = hs_h example_hsys, w_brk = 102,
      w_dev = 0, w_fud = [100 \<mapsto> example_root, 101 \<mapsto> f], w_held = 0, w_log = []\<rparr>"

lemma example_session_simps [simp]:
  "fd_dataflags example_session = 0" "fd_iosize example_session = 4" "fd_blocksize example_session = 4096"
  "fd_noimplflags example_session = 0" "fd_daemoncred example_session = example_daemon"
  "fd_userkernel_bufsize example_session = 65536" "fd_mount_state example_session = FM_MOUNTED"
  "mnt_data (example_mount d) = d" "mnt_synchronous (example_mount d) = False" "mnt_authopaque (example_mount d) = False"
  by (simp_all add: example_session_def fdata_alloc_def example_mount_def)

lemma example_file_simps [simp]:
  "fv_flag example_file = 0" "fv_vtype example_file = VREG" "fv_fufh example_file = (\<lambda>t. example_handle)"
  "fv_nodeid example_file = 7" "fv_isvroot example_file = False" "fv_filesize example_file = 0"
  "fv_flag example_root = FN_IS_ROOT" "fv_vtype example_root = VDIR" "fv_nodeid example_root = 1"
  "fv_fufh example_root = (\<lambda>t. example_handle)" "open_count example_handle = 0" "fh_id example_handle = 0"
  by (simp_all add: example_file_def example_root_def example_vnode_def example_handle_def)

lemma example_world_simps [simp]:
  "w_data (example_world d f) = d" "w_held (example_world d f) = 0" "w_log (example_world d f) = []"
  "VTOFUD 5 (example_world d f) = Some example_root" "VTOFUD 6 (example_world d f) = Some f"
  "w_mnt (example_world d f) = example_mount d"
  by (simp_all add: example_world_def example_mount_def VTOFUD_def example_hash)

lemma example_steady: "steady {5, 6} 0 (example_world d f)"
proof -
  have "hash_at example_hsys (example_world d f)"
    using example_hash(7) by (auto simp: hash_at_def example_world_def example_hash example_hash_inv held_def
        split: if_splits) (auto simp: example_hsys_def example_events_def hash_eval split: if_splits)
  then show ?thesis
    by (auto simp: staged_def live_def hash_stage_def example_hash)
qed

lemma example_locked: "locked 6 {5, 6} (fv_fufh f) 0 (example_world d f)"
  by (simp add: locked_def example_steady handles_of_def)

end
