(* ===== verification/Fuse_Data.thy ===== *)
theory Fuse_Data
  imports Fuse_Io Fuse_Example
begin

text \<open>
  What reading and writing mean for the contents of a file: the daemon keeps a file, and the bytes that
  reach the caller, or the file after its requests, are those of one read or write of the abstract file,
  however the transfer was cut into requests.
\<close>

section \<open>The abstract file\<close>

definition file_read :: "u8 list \<Rightarrow> nat \<Rightarrow> nat \<Rightarrow> u8 list" where
  "file_read F off n = take n (drop off F)"

definition file_write :: "u8 list \<Rightarrow> nat \<Rightarrow> u8 list \<Rightarrow> u8 list" where
  "file_write F off bs = take off F @ replicate (off - length F) 0 @ bs @ drop (off + length bs) F"

lemma file_read_split:
  "k \<le> n \<Longrightarrow> file_read F off k @ file_read F (off + k) (n - k) = file_read F off n"
  using take_add [of k "n - k" "drop off F"] by (simp add: file_read_def add.commute)

lemma file_read_short: "length (file_read F off k) < k \<Longrightarrow> k \<le> n \<Longrightarrow> file_read F off n = file_read F off k"
  by (simp add: file_read_def)

lemma file_write_Nil: "off \<le> length F \<Longrightarrow> file_write F off [] = F"
  by (simp add: file_write_def)

lemma file_write_append:
  "file_write (file_write F off xs) (off + length xs) ys = file_write F off (xs @ ys)"
proof (cases "off \<le> length F")
  case True
  then show ?thesis by (simp add: file_write_def ac_simps)
next
  case False
  then show ?thesis by (simp add: file_write_def)
qed

text \<open>The bytes of a request, and the offset and data of a read or write.\<close>

definition body_bytes :: "request \<Rightarrow> u8 list" where
  "body_bytes r = map (\<lambda>b. case b of None \<Rightarrow> 0 | Some x \<Rightarrow> x) (rq_body r)"

definition request_off :: "request \<Rightarrow> nat" where "request_off r = unat (get64 8 (body_bytes r))"
definition request_data :: "request \<Rightarrow> u8 list" where "request_data r = drop 24 (body_bytes r)"

lemma request_transfer [simp]:
  "request_off \<lparr>rq_op = op, rq_nodeid = nid, rq_body = transfer_body f off sz @ ys, rq_ctx = ctx\<rparr> = unat off"
  "request_off \<lparr>rq_op = op, rq_nodeid = nid, rq_body = transfer_body f off sz, rq_ctx = ctx\<rparr> = unat off"
  "request_data \<lparr>rq_op = op, rq_nodeid = nid, rq_body = transfer_body f off sz @ map Some bs, rq_ctx = ctx\<rparr> = bs"
  by (simp_all add: request_off_def request_data_def body_bytes_def transfer_body_def b64_def b32_def bgap_def comp_def)

text \<open>A daemon that serves the file, and the file a daemon has after writes it accepted the start of.\<close>

definition serves :: "(request \<Rightarrow> fdisp_result) \<Rightarrow> u8 list \<Rightarrow> bool" where
  "serves D F \<longleftrightarrow> (\<forall>r. rq_op r = FUSE_READ \<longrightarrow>
     fr_err (D r) = 0 \<and> fr_answ (D r) = file_read F (request_off r) (requested_size r))"

definition accepted :: "(request \<Rightarrow> fdisp_result) \<Rightarrow> request \<Rightarrow> nat" where
  "accepted D r = unat (get32 0 (fr_answ (D r)))"

definition replay :: "(request \<Rightarrow> fdisp_result) \<Rightarrow> request list \<Rightarrow> u8 list \<Rightarrow> u8 list" where
  "replay D rs F = foldl (\<lambda>F r. file_write F (request_off r) (take (accepted D r) (request_data r))) F rs"

text \<open>Every write is answered well, and some of it accepted; or all of it.\<close>

definition accepts_some :: "(request \<Rightarrow> fdisp_result) \<Rightarrow> bool" where
  "accepts_some D \<longleftrightarrow> (\<forall>r. rq_op r = FUSE_WRITE \<longrightarrow> fr_err (D r) = 0 \<and>
     length (fr_answ (D r)) = sizeof_write_out \<and>
     accepted D r \<le> requested_size r \<and> (0 < requested_size r \<longrightarrow> 0 < accepted D r))"

definition accepts_all :: "(request \<Rightarrow> fdisp_result) \<Rightarrow> bool" where
  "accepts_all D \<longleftrightarrow> (\<forall>r. rq_op r = FUSE_WRITE \<longrightarrow> fr_err (D r) = 0 \<and>
     length (fr_answ (D r)) = sizeof_write_out \<and> accepted D r = requested_size r)"

definition smooth :: "(kcall \<Rightarrow> kret) \<Rightarrow> bool" where
  "smooth other \<longleftrightarrow> (\<forall>bs. kr_err (other (K_uiomove bs)) = 0) \<and> (\<forall>n. kr_err (other (K_uiomove_in n)) = 0) \<and>
     kr_err (other K_buf_map) = 0"

section \<open>Reading\<close>

lemma uio_moved_append:
  "length xs \<le> uio_resid u \<Longrightarrow> uio_moved ys (uio_moved xs u) = uio_moved (xs @ ys) u"
  by (simp add: uio_moved_def Let_def algebra_simps)

lemma uio_moved_Nil [simp]: "uio_moved [] u = u"
  by (simp add: uio_moved_def)

lemma servesD:
  assumes "serves D F" and "rq_op r = FUSE_READ"
  shows "fr_err (D r) = 0" "fr_answ (D r) = file_read F (request_off r) (requested_size r)"
    "quiet_daemon D w r = (D r, w)"
proof -
  show "fr_err (D r) = 0" and answ: "fr_answ (D r) = file_read F (request_off r) (requested_size r)"
    using assms by (simp_all add: serves_def)
  then show "quiet_daemon D w r = (D r, w)"
    using assms(2) by (simp add: quiet_daemon_def answer_audited_def file_read_def)
qed

text \<open>The environment steps of a direct read or write.\<close>

lemma quiet_uiomove [simp]:
  "quiet_kernel fresh other w (K_uiomove bs) = (other (K_uiomove bs), w)"
  "quiet_kernel fresh other w (K_uiomove_in n) = (other (K_uiomove_in n), w)"
  "quiet_kernel fresh other w K_buf_map = (other K_buf_map, w)"
  by (simp_all add: quiet_kernel_def)

lemma quiet_environment_simps [simp]:
  "ev_daemon (quiet_environment D fresh other) = quiet_daemon D"
  "ev_kernel (quiet_environment D fresh other) = quiet_kernel fresh other"
  by (simp_all add: quiet_environment_def)

lemma held_at_first:
  "reask first r (w\<lparr>w_held := if first then h else Suc h\<rparr>) k = ask r (w\<lparr>w_held := h\<rparr>) k"
  by (simp add: reask_def fuse_drop_def)

lemma unat_off_add: "unat off + k < 2 ^ 63 \<Longrightarrow> unat (off + of_nat k) = unat off + k" for off :: u64
  by (simp add: unat_word_ariths unsigned_of_nat take_bit_nat_eq_self)

lemma io_chunk_held [simp]: "io_chunk n (w\<lparr>w_held := h\<rparr>) = io_chunk n w"
  by (simp add: io_chunk_def)

lemma read_direct_run:
  assumes "serves D F" and "smooth other" and "VTOFUD vp w = Some v" and "fd_iosize (w_data w) \<noteq> 0"
    and "uio_resid u < fuel" and "uio_resid u < 2 ^ 32" and "unat (uio_offset u) + uio_resid u < 2 ^ 63"
    and "first \<Longrightarrow> uio_resid u \<noteq> 0"
  shows "run_upcall (quiet_environment D fresh other)
      (read_direct fuel first type vp ctx u (w\<lparr>w_held := if first then h else Suc h\<rparr>)) =
    Some ((0, uio_moved (file_read F (unat (uio_offset u)) (uio_resid u)) u), w\<lparr>w_held := h\<rparr>)"
  using assms(5-)
proof (induction fuel arbitrary: first u)
  case (Suc fuel)
  show ?case
  proof (cases "uio_resid u = 0")
    case True
    with Suc.prems have "\<not> first" by blast
    with True show ?thesis by (simp add: read_direct.simps(2) fuse_drop_def file_read_def)
  next
    case False
    define sz where "sz = io_chunk (uio_resid u) w"
    define bs where "bs = file_read F (unat (uio_offset u)) (unat sz)"
    have sz: "0 < unat sz" "unat sz \<le> uio_resid u"
      using io_chunk_pos [of "uio_resid u" w] io_chunk_le False Suc.prems assms(4) by (simp_all add: sz_def)
    have bs: "length bs \<le> unat sz" by (simp add: bs_def file_read_def)
    let ?r = "\<lparr>rq_op = FUSE_READ, rq_nodeid = fv_nodeid v,
               rq_body = transfer_body (fv_fufh v type) (uio_offset u) sz, rq_ctx = Some ctx\<rparr>"
    have r: "fr_err (D ?r) = 0" "fr_answ (D ?r) = bs" "quiet_daemon D t ?r = (D ?r, t)" for t
      using servesD [OF assms(1), of ?r] by (simp_all add: bs_def)
    have step: "run_upcall (quiet_environment D fresh other)
        (read_direct (Suc fuel) first type vp ctx u (w\<lparr>w_held := if first then h else Suc h\<rparr>)) =
      (if length bs < unat sz then Some ((0, uio_moved bs u), w\<lparr>w_held := h\<rparr>)
       else run_upcall (quiet_environment D fresh other)
         (read_direct fuel False type vp ctx (uio_moved bs u) (w\<lparr>w_held := Suc h\<rparr>)))"
      using False assms(2,3) bs
      by (simp add: read_direct.simps(2) Let_def held_at_first ask_def r fuse_drop_def smooth_def flip: sz_def)
    show ?thesis
    proof (cases "length bs < unat sz")
      case True
      then have "file_read F (unat (uio_offset u)) (uio_resid u) = bs"
        unfolding bs_def by (rule file_read_short) (rule sz(2))
      with step True show ?thesis by simp
    next
      case full: False
      then have len: "length bs = unat sz" using bs by simp
      have off: "unat (uio_offset (uio_moved bs u)) = unat (uio_offset u) + unat sz"
        using unat_off_add [of "uio_offset u" "unat sz"] Suc.prems sz len by (simp add: uio_moved_def)
      have "run_upcall (quiet_environment D fresh other)
         (read_direct fuel False type vp ctx (uio_moved bs u) (w\<lparr>w_held := if False then h else Suc h\<rparr>)) =
        Some ((0, uio_moved (file_read F (unat (uio_offset (uio_moved bs u))) (uio_resid (uio_moved bs u)))
                 (uio_moved bs u)), w\<lparr>w_held := h\<rparr>)"
        by (rule Suc.IH) (use Suc.prems sz len off in simp_all)
      then show ?thesis
        using step full off len sz file_read_split [OF sz(2), of F "unat (uio_offset u)"]
        by (simp add: uio_moved_append flip: bs_def)
    qed
  qed
qed simp

lemma off_nonneg:
  fixes off :: u64
  assumes "unat off < 2 ^ 63"
  shows "\<not> off <s 0"
proof -
  have "uint off < 2 ^ 63" using assms by (simp add: nat_less_iff flip: nat_uint_eq)
  then have "\<not> bit (uint off) 63" by (simp add: bit_iff_odd)
  then show ?thesis by (simp add: word_sless_alt sint_uint signed_take_bit_eq_if_positive)
qed

lemma vnop_read_run:
  assumes "serves D F" and "smooth other" and "VTOFUD vp w = Some v" and "fd_iosize (w_data w) \<noteq> 0"
    and "uio_resid u < 2 ^ 32" and "unat (uio_offset u) + uio_resid u < 2 ^ 63"
    and "\<not> fuse_isdeadfs (w_data w) v" and "vnode_isreg v" and "fuse_isdirectio (w_data w) v"
    and "usable_handle v FUFH_RDONLY \<noteq> None"
  shows "run_upcall (quiet_environment D fresh other) (fuse_vnop_read vp ioflag u ctx w) =
    Some ((0, uio_moved (file_read F (unat (uio_offset u)) (uio_resid u)) u), w)"
proof -
  obtain type where type: "usable_handle v FUFH_RDONLY = Some type" using assms(10) by blast
  have pos: "\<not> uio_offset u <s 0"
    by (rule off_nonneg) (use assms(6) in simp)
  have same: "w\<lparr>w_held := w_held w\<rparr> = w" by simp
  show ?thesis
  proof (cases "uio_resid u = 0")
    case True
    then show ?thesis using assms by (simp add: fuse_vnop_read_def file_read_def)
  next
    case False
    have "run_upcall (quiet_environment D fresh other) (read_direct (uio_resid u + 1) True type vp ctx u w) =
      Some ((0, uio_moved (file_read F (unat (uio_offset u)) (uio_resid u)) u), w)"
      using read_direct_run [OF assms(1-4), of u "uio_resid u + 1" True fresh type ctx "w_held w"] False assms(5,6)
      by simp
    with False pos type assms show ?thesis
      by (simp add: fuse_vnop_read_def del: read_direct.simps)
  qed
qed

section \<open>Writing\<close>

lemma length_file_write: "off + length bs \<le> length (file_write F off bs)"
  by (simp add: file_write_def)

lemma acceptsD:
  assumes "accepts_some D" and "rq_op r = FUSE_WRITE"
  shows "fr_err (D r) = 0" "quiet_daemon D w r = (D r, w)" "accepted D r \<le> requested_size r"
    "0 < requested_size r \<Longrightarrow> 0 < accepted D r"
proof -
  show "fr_err (D r) = 0" "accepted D r \<le> requested_size r" "0 < requested_size r \<Longrightarrow> 0 < accepted D r"
    using assms by (simp_all add: accepts_some_def)
  have "length (fr_answ (D r)) = sizeof_write_out" using assms by (simp add: accepts_some_def)
  then show "quiet_daemon D w r = (D r, w)"
    using assms(2) by (simp add: quiet_daemon_def answer_audited_def)
qed

lemma accepts_all_some: "accepts_all D \<Longrightarrow> accepts_some D"
  by (simp add: accepts_all_def accepts_some_def)

lemma replay_Cons:
  "replay D (r # rs) F = replay D rs (file_write F (request_off r) (take (accepted D r) (request_data r)))"
  by (simp add: replay_def)

lemma replay_Nil [simp]: "replay D [] F = F"
  by (simp add: replay_def)

text \<open>The rest of a write goes behind what was accepted of it.\<close>

lemma file_write_rest:
  "file_write (file_write F off (take k bs)) (off + k) (drop k bs) = file_write F off bs" if "k \<le> length bs"
  using file_write_append [of F off "take k bs" "drop k bs"] that by (auto simp: min_def split: if_splits)

text \<open>What a run does: its result, and what the daemon's file becomes.\<close>

definition writes_file ::
  "(request \<Rightarrow> fdisp_result) \<Rightarrow> 's environment \<Rightarrow> ('s, 'a) upcall \<Rightarrow> u8 list \<Rightarrow> nat \<Rightarrow> u8 list \<Rightarrow> 'a \<times> 's \<Rightarrow> bool" where
  "writes_file D E p F off bs r \<longleftrightarrow> run_upcall E p = Some r \<and> replay D (requests_of E p) F = file_write F off bs"

lemma writes_fileI:
  assumes "writes_file D E q (file_write F off (take k bs)) (off + k) (drop k bs) r"
    and "run_upcall E p = run_upcall E q" and "requests_of E p = a # requests_of E q"
    and "request_off a = off" and "take (accepted D a) (request_data a) = take k bs" and "k \<le> length bs"
  shows "writes_file D E p F off bs r"
  using assms by (simp add: writes_file_def replay_Cons file_write_rest)

lemma strategy_write_run:
  assumes "accepts_some D" and "VTOFUD vp w = Some v" and "fd_iosize (w_data w) \<noteq> 0"
    and "left < fuel" and "left < 2 ^ 32" and "unat off + left < 2 ^ 63" and "first \<Longrightarrow> left \<noteq> 0"
    and "pos + left \<le> length (b_data b)" and "\<not> first \<Longrightarrow> unat off \<le> length F"
  shows "writes_file D (quiet_environment D fresh other)
      (strategy_write fuel first type vp pos left off b (w\<lparr>w_held := if first then h else Suc h\<rparr>))
      F (unat off) (get_bytes pos left (b_data b))
      ((0, b\<lparr>b_resid := b_resid b - of_nat left\<rparr>), w\<lparr>w_held := h\<rparr>)"
  using assms(4-)
proof (induction fuel arbitrary: first pos left off b F)
  case (Suc fuel)
  show ?case
  proof (cases "left = 0")
    case True
    with Suc.prems have "\<not> first" by blast
    with True Suc.prems(6) show ?thesis
      by (simp add: writes_file_def strategy_write.simps(2) fuse_drop_def get_bytes_def file_write_Nil)
  next
    case False
    define sz where "sz = io_chunk left w"
    define bs where "bs = get_bytes pos left (b_data b)"
    let ?r = "\<lparr>rq_op = FUSE_WRITE, rq_nodeid = fv_nodeid v, rq_body =
       transfer_body (fv_fufh v type) off sz @ map Some (get_bytes pos (unat sz) (b_data b)), rq_ctx = None\<rparr>"
    define g where "g = get32 0 (fr_answ (D ?r))"
    have g: "accepted D ?r = unat g" by (simp add: g_def accepted_def)
    have sz: "0 < unat sz" "unat sz \<le> left"
      using io_chunk_pos [of left w] io_chunk_le False Suc.prems assms(3) by (simp_all add: sz_def)
    have k: "0 < unat g" "unat g \<le> unat sz" using acceptsD(3,4) [OF assms(1), of ?r] sz(1) by (simp_all add: g)
    then have le: "\<not> sz < g" by (simp add: not_less word_le_nat_alt)
    let ?p = "strategy_write (Suc fuel) first type vp pos left off b (w\<lparr>w_held := if first then h else Suc h\<rparr>)"
    let ?q = "strategy_write fuel False type vp (pos + unat g) (left - unat g) (off + ucast g)
        (b\<lparr>b_resid := b_resid b - g\<rparr>) (w\<lparr>w_held := if False then h else Suc h\<rparr>)"
    let ?E = "quiet_environment D fresh other"
    have bs: "length bs = left" "get_bytes (pos + unat g) (left - unat g) (b_data b) = drop (unat g) bs"
        "take (unat g) (get_bytes pos (unat sz) (b_data b)) = take (unat g) bs"
      using Suc.prems(5) k sz by (auto simp: bs_def get_bytes_def drop_take add.commute min_def)
    have step: "run_upcall ?E ?p = run_upcall ?E ?q" "requests_of ?E ?p = ?r # requests_of ?E ?q"
      using False assms(2) Suc.prems(5) sz(2) acceptsD(1,2) [OF assms(1), of ?r] le
      by (simp_all add: strategy_write.simps(2) Let_def held_at_first ask_def buf_get_def flip: sz_def g_def)
    have off: "unat (off + ucast g) = unat off + unat g"
      using unat_off_add [of off "unat g"] Suc.prems(3) k sz by simp
    have resid: "b_resid b - g - of_nat (left - unat g) = b_resid b - of_nat left"
      using k sz by (simp add: of_nat_diff)
    have "writes_file D ?E ?q (file_write F (unat off) (take (unat g) bs)) (unat off + unat g) (drop (unat g) bs)
        ((0, b\<lparr>b_resid := b_resid b - of_nat left\<rparr>), w\<lparr>w_held := h\<rparr>)"
      using Suc.IH [of "left - unat g" "off + ucast g" False "pos + unat g" "b\<lparr>b_resid := b_resid b - g\<rparr>"
          "file_write F (unat off) (take (unat g) bs)"] Suc.prems k sz off bs resid
        length_file_write [of "unat off" "take (unat g) bs" F]
      by simp
    then show ?thesis
      unfolding bs_def [symmetric]
      by (rule writes_fileI [OF _ step]) (use bs k sz g in simp_all)
  qed
qed simp

lemma uio_taken_add: "uio_taken k (uio_taken j u) = uio_taken (j + k) u"
  by (simp add: uio_taken_def add.commute add.left_commute)

lemma uio_put_back_0 [simp]: "uio_put_back 0 u = u"
  by (simp add: uio_put_back_def)

lemma invalidate_held: "(invalidate_attr vp (w\<lparr>w_held := k\<rparr>))\<lparr>w_held := h\<rparr> = invalidate_attr vp (w\<lparr>w_held := h\<rparr>)"
  "w_held (invalidate_attr vp w) = w_held w"
  by (simp_all add: invalidate_attr_def set_fud_def split: option.split)

lemma write_direct_run:
  assumes "accepts_all D" and "smooth other" and "VTOFUD vp w = Some v" and "fd_iosize (w_data w) \<noteq> 0"
    and "uio_resid u < fuel" and "uio_resid u < 2 ^ 32" and "unat (uio_offset u) + uio_resid u < 2 ^ 63"
    and "first \<Longrightarrow> uio_resid u \<noteq> 0" and "uio_resid u \<le> length (uio_in u)"
    and "\<not> first \<Longrightarrow> unat (uio_offset u) \<le> length F"
  shows "writes_file D (quiet_environment D fresh other)
      (write_direct fuel first type vp ctx u (w\<lparr>w_held := if first then h else Suc h\<rparr>))
      F (unat (uio_offset u)) (take (uio_resid u) (uio_in u))
      ((0, uio_taken (uio_resid u) u), invalidate_attr vp (w\<lparr>w_held := h\<rparr>))"
  using assms(5-)
proof (induction fuel arbitrary: first u F)
  case (Suc fuel)
  show ?case
  proof (cases "uio_resid u = 0")
    case True
    with Suc.prems have "\<not> first" by blast
    with True Suc.prems(6) show ?thesis
      by (simp add: writes_file_def write_direct.simps(2) fuse_drop_def file_write_Nil invalidate_held uio_taken_def)
  next
    case False
    define sz where "sz = io_chunk (uio_resid u) w"
    define n where "n = unat sz"
    have sz: "0 < n" "n \<le> uio_resid u"
      using io_chunk_pos [of "uio_resid u" w] io_chunk_le False Suc.prems assms(4) by (simp_all add: sz_def n_def)
    let ?r = "\<lparr>rq_op = FUSE_WRITE, rq_nodeid = fv_nodeid v, rq_body =
       transfer_body (fv_fufh v type) (uio_offset u) sz @ map Some (take n (uio_in u)), rq_ctx = Some ctx\<rparr>"
    have all: "accepted D ?r = n" using assms(1) by (simp add: accepts_all_def n_def)
    then have got: "get32 0 (fr_answ (D ?r)) = sz" unfolding accepted_def n_def by (rule unsigned_word_eqI)
    let ?p = "write_direct (Suc fuel) first type vp ctx u (w\<lparr>w_held := if first then h else Suc h\<rparr>)"
    let ?q = "write_direct fuel False type vp ctx (uio_taken n u) (w\<lparr>w_held := if False then h else Suc h\<rparr>)"
    let ?E = "quiet_environment D fresh other"
    have step: "run_upcall ?E ?p = run_upcall ?E ?q" "requests_of ?E ?p = ?r # requests_of ?E ?q"
      using False assms(2,3) Suc.prems(5) sz(2) acceptsD(1,2) [OF accepts_all_some [OF assms(1)], of ?r] got
      by (simp_all add: write_direct.simps(2) Let_def held_at_first ask_def smooth_def n_def [symmetric] flip: sz_def)
    have off: "unat (uio_offset (uio_taken n u)) = unat (uio_offset u) + n"
      using unat_off_add [of "uio_offset u" n] Suc.prems(3) sz by (simp add: uio_taken_def)
    let ?bs = "take (uio_resid u) (uio_in u)"
    have "writes_file D ?E ?q (file_write F (unat (uio_offset u)) (take n ?bs)) (unat (uio_offset (uio_taken n u)))
        (take (uio_resid (uio_taken n u)) (uio_in (uio_taken n u)))
        ((0, uio_taken (uio_resid (uio_taken n u)) (uio_taken n u)), invalidate_attr vp (w\<lparr>w_held := h\<rparr>))"
      by (rule Suc.IH)
        (use Suc.prems sz off length_file_write [of "unat (uio_offset u)" "take n ?bs" F] in
          \<open>auto simp: uio_taken_def [of n] min_def split: if_splits\<close>)
    then have "writes_file D ?E ?q (file_write F (unat (uio_offset u)) (take n ?bs)) (unat (uio_offset u) + n)
        (drop n ?bs) ((0, uio_taken (uio_resid u) u), invalidate_attr vp (w\<lparr>w_held := h\<rparr>))"
      using sz off by (simp add: uio_taken_add drop_take) (simp add: uio_taken_def)
    then show ?thesis
      by (rule writes_fileI [OF _ step]) (use sz all Suc.prems(5) in \<open>simp_all add: min_def\<close>)
  qed
qed simp

section \<open>Reading into a buffer\<close>

definition zero_filled :: "nat \<Rightarrow> u8 list \<Rightarrow> u8 list" where
  "zero_filled n bs = bs @ replicate (n - length bs) 0"

lemma put_bytes_append:
  assumes "pos + length xs + length ys \<le> length data"
  shows "put_bytes (pos + length xs) ys (put_bytes pos xs data) = put_bytes pos (xs @ ys) data"
  using assms by (simp add: put_bytes_def ac_simps)

lemma strategy_read_run:
  assumes "serves D F" and "VTOFUD vp w = Some v" and "\<not> vnode_isdir v" and "fd_iosize (w_data w) \<noteq> 0"
    and "unat (b_resid b) < fuel" and "unat off + unat (b_resid b) < 2 ^ 63" and "first \<Longrightarrow> b_resid b \<noteq> 0"
    and "pos + unat (b_resid b) \<le> length (b_data b)"
  shows "run_upcall (quiet_environment D fresh other)
      (strategy_read fuel first type vp pos off b (w\<lparr>w_held := if first then h else Suc h\<rparr>)) =
    Some ((0, b\<lparr>b_resid := 0, b_data := put_bytes pos (zero_filled (unat (b_resid b))
       (file_read F (unat off) (unat (b_resid b)))) (b_data b)\<rparr>), w\<lparr>w_held := h\<rparr>)"
  using assms(5-)
proof (induction fuel arbitrary: first pos off b)
  case (Suc fuel)
  show ?case
  proof (cases "b_resid b = 0")
    case True
    with Suc.prems have "\<not> first" by blast
    with True Suc.prems(4) show ?thesis
      by (simp add: strategy_read.simps(2) fuse_drop_def zero_filled_def file_read_def put_bytes_def)
  next
    case False
    define n where "n = unat (b_resid b)"
    have n: "0 < n" using False by (simp add: n_def unat_gt_0)
    define sz where "sz = io_chunk n w"
    have sz: "0 < unat sz" "unat sz \<le> n"
      using io_chunk_pos [of n w] io_chunk_le n assms(4) unsigned_less [of "b_resid b", where ?'a = nat]
      by (simp_all add: sz_def n_def)
    define bs where "bs = file_read F (unat off) (unat sz)"
    let ?r = "\<lparr>rq_op = FUSE_READ, rq_nodeid = fv_nodeid v,
               rq_body = transfer_body (fv_fufh v type) off sz, rq_ctx = None\<rparr>"
    have r: "fr_err (D ?r) = 0" "fr_answ (D ?r) = bs" "quiet_daemon D t ?r = (D ?r, t)" for t
      using servesD [OF assms(1), of ?r] by (simp_all add: bs_def)
    define k where "k = length bs"
    have k: "k \<le> unat sz" by (simp add: k_def bs_def file_read_def)
    let ?p = "strategy_read (Suc fuel) first type vp pos off b (w\<lparr>w_held := if first then h else Suc h\<rparr>)"
    let ?E = "quiet_environment D fresh other"
    show ?thesis
    proof (cases "k = 0")
      case True
      then have "file_read F (unat off) n = []" using sz by (auto simp: k_def bs_def file_read_def)
      with True False Suc.prems(4) assms(2,3) r show ?thesis
        by (simp add: strategy_read.simps(2) Let_def held_at_first ask_def buf_put_def fuse_drop_def zero_filled_def
            k_def flip: n_def sz_def)
    next
      case some: False
      let ?b = "b\<lparr>b_data := put_bytes pos bs (b_data b), b_resid := b_resid b - of_nat k\<rparr>"
      have left: "unat (b_resid b - of_nat k) = n - k"
        using unat_less_count [of k "b_resid b"] k sz by (simp add: n_def)
      have off: "unat (off + of_nat k) = unat off + k"
        using unat_off_add [of off k] Suc.prems(2) k sz by (simp add: n_def)
      have step: "run_upcall ?E ?p = run_upcall ?E (strategy_read fuel False type vp (pos + k) (off + of_nat k) ?b
          (w\<lparr>w_held := if False then h else Suc h\<rparr>))"
        using some False Suc.prems(4) assms(2,3) r k sz
        by (simp add: strategy_read.simps(2) Let_def held_at_first ask_def buf_put_def k_def flip: n_def sz_def)
      have split: "bs @ file_read F (unat off + k) (n - k) = file_read F (unat off) n"
      proof -
        have "file_read F (unat off) k = bs" by (simp add: k_def bs_def file_read_def min_def)
        then show ?thesis using file_read_split [of k n F "unat off"] k sz by simp
      qed
      have fits: "pos + k + (n - k) \<le> length (b_data b)" using Suc.prems(4) k sz by (simp add: n_def)
      have "length (zero_filled (n - k) (file_read F (unat off + k) (n - k))) = n - k"
        by (simp add: zero_filled_def file_read_def)
      then have put: "put_bytes (pos + k) (zero_filled (n - k) (file_read F (unat off + k) (n - k))) (put_bytes pos bs (b_data b)) =
          put_bytes pos (zero_filled n (file_read F (unat off) n)) (b_data b)"
        using put_bytes_append [of pos bs _ "b_data b"] fits split
        by (simp add: k_def zero_filled_def flip: split)
      have len: "length (put_bytes pos bs (b_data b)) = length (b_data b)" using fits by (simp add: k_def)
      have fewer: "n - k < fuel" "unat off + k + (n - k) < 2 ^ 63"
        using some n Suc.prems(1,2) k sz unfolding n_def [symmetric] by linarith+
      show ?thesis
        unfolding step using fewer len Suc.IH [of ?b "off + of_nat k" False "pos + k"] Suc.prems left off put fits
        by (simp flip: n_def)
    qed
  qed
qed simp

section \<open>The data path\<close>

text \<open>
  When an operation goes to the daemon directly: a regular file of a mount that is alive, opened for the
  kind of access, and bounds that do not overflow.
\<close>

definition direct_ready :: "vnode \<Rightarrow> fufh_type \<Rightarrow> uio \<Rightarrow> fuse_world \<Rightarrow> bool" where
  "direct_ready vp type u w \<longleftrightarrow>
     (case VTOFUD vp w of None \<Rightarrow> False
      | Some v \<Rightarrow> \<not> fuse_isdeadfs (w_data w) v \<and> vnode_isreg v \<and> fuse_isdirectio (w_data w) v \<and>
          usable_handle v type \<noteq> None) \<and>
     fd_iosize (w_data w) \<noteq> 0 \<and> uio_resid u < 2 ^ 32 \<and> unat (uio_offset u) + uio_resid u < 2 ^ 63"

definition buf_offset :: "buf \<Rightarrow> fuse_world \<Rightarrow> u64" where
  "buf_offset b w = b_blkno b * ucast (fd_blocksize (w_data w))"

definition strategy_ready :: "vnode \<Rightarrow> buf \<Rightarrow> fuse_world \<Rightarrow> bool" where
  "strategy_ready vp b w \<longleftrightarrow>
     (case VTOFUD vp w of None \<Rightarrow> False
      | Some v \<Rightarrow> \<not> fuse_isdeadfs (w_data w) v \<and> vnode_isreg v \<and> \<not> flag_set (fv_flag v) FN_CREATING \<and>
          usable_handle v (if b_read b then FUFH_RDONLY else FUFH_WRONLY) \<noteq> None \<and>
          (b_read b \<longrightarrow> \<not> fv_filesize v <=s buf_offset b w)) \<and>
     fd_iosize (w_data w) \<noteq> 0 \<and> b_cluster b \<and> b_count b \<noteq> 0 \<and> unat (b_count b) \<le> length (b_data b) \<and>
     unat (buf_offset b w) + unat (b_count b) < 2 ^ 63"

definition file_daemon :: "u8 list \<Rightarrow> request \<Rightarrow> fdisp_result" where
  "file_daemon F r = \<lparr>fr_err = 0, fr_answ_stat = 0, fr_answ =
     (if rq_op r = FUSE_READ then file_read F (request_off r) (requested_size r)
      else le_enc 4 (of_nat (requested_size r) :: u32) @ replicate 4 0)\<rparr>"

definition quiet_answers :: "kcall \<Rightarrow> kret" where
  "quiet_answers c = \<lparr>kr_err = 0, kr_vnode = None, kr_time = zero_time, kr_count = 0, kr_bytes = []\<rparr>"

lemma file_daemon_serves [simp]: "serves (file_daemon F) F"
  by (simp add: serves_def file_daemon_def)

lemma file_daemon_accepts [simp]: "accepts_all (file_daemon F)"
  by (simp add: accepts_all_def accepted_def file_daemon_def requested_size_def sizeof_write_out_def)

lemma quiet_answers_smooth [simp]: "smooth quiet_answers"
  by (simp add: smooth_def quiet_answers_def)

definition example_io_file :: fuse_vnode_data where
  "example_io_file = example_file\<lparr>fv_flag := FN_DIRECT_IO, fv_filesize := 10,
     fv_fufh := (\<lambda>t. example_handle\<lparr>open_count := 1, fh_id := 3\<rparr>)\<rparr>"

abbreviation (input) example_io_world :: fuse_world where
  "example_io_world \<equiv> example_world example_session example_io_file"

lemmas example_io_defs = direct_ready_def strategy_ready_def buf_offset_def example_io_file_def
  fuse_isdeadfs_def fuse_isdeadfs_mp_def fuse_isdirectio_def vnode_isreg_def usable_handle_def FUFH_IS_VALID_def
  flag_set_def

text \<open>
  C10: Reading a file directly, in however many requests it takes, gives the caller the bytes of the
  file the daemon serves from the offset on, as many as were asked for and are there, and leaves the
  state of the mount as it was: no request's ticket is kept.
\<close>

theorem direct_read_refines:
  assumes "direct_ready vp FUFH_RDONLY u w" and "serves D F" and "smooth other"
  shows "run_upcall (quiet_environment D fresh other) (fuse_vnop_read vp ioflag u ctx w) =
    Some ((0, uio_moved (file_read F (unat (uio_offset u)) (uio_resid u)) u), w)"
  using assms by (auto simp: direct_ready_def split: option.splits intro!: vnop_read_run)

theorem direct_read_refines_witness:
  "run_upcall (quiet_environment (file_daemon [0, 1, 2, 3, 4, 5, 6, 7, 8, 9]) (\<lambda>w. 9) quiet_answers)
     (fuse_vnop_read 6 0 \<lparr>uio_resid = 9, uio_offset = 3, uio_out = [], uio_in = []\<rparr> example_stranger example_io_world) =
   Some ((0, \<lparr>uio_resid = 2, uio_offset = 10, uio_out = [3, 4, 5, 6, 7, 8, 9], uio_in = []\<rparr>), example_io_world)"
  using direct_read_refines [of 6 "\<lparr>uio_resid = 9, uio_offset = 3, uio_out = [], uio_in = []\<rparr>" example_io_world
      "file_daemon [0, 1, 2, 3, 4, 5, 6, 7, 8, 9]" "[0, 1, 2, 3, 4, 5, 6, 7, 8, 9]" quiet_answers
      "\<lambda>w. 9" 0 example_stranger]
  by (simp add: example_io_defs file_read_def uio_moved_def)

lemma vnop_write_run:
  assumes "direct_ready vp FUFH_WRONLY u w" and "accepts_all D" and "smooth other"
    and "uio_resid u \<le> length (uio_in u)" and "uio_resid u < rounds" and "uio_resid u \<noteq> 0"
  shows "writes_file D (quiet_environment D fresh other) (fuse_vnop_write rounds vp ioflag u ctx w) F
    (unat (uio_offset u)) (take (uio_resid u) (uio_in u)) ((0, uio_taken (uio_resid u) u), invalidate_attr vp w)"
proof -
  obtain v type where v: "VTOFUD vp w = Some v" "\<not> fuse_isdeadfs (w_data w) v" "vnode_isreg v"
      "fuse_isdirectio (w_data w) v" "usable_handle v FUFH_WRONLY = Some type" "fd_iosize (w_data w) \<noteq> 0"
      "uio_resid u < 2 ^ 32" "unat (uio_offset u) + uio_resid u < 2 ^ 63"
    using assms(1) by (auto simp: direct_ready_def split: option.splits)
  have pos: "\<not> uio_offset u <s 0" by (rule off_nonneg) (use v(8) in simp)
  have "writes_file D (quiet_environment D fresh other) (write_direct rounds True type vp ctx u w) F
      (unat (uio_offset u)) (take (uio_resid u) (uio_in u)) ((0, uio_taken (uio_resid u) u), invalidate_attr vp w)"
    using write_direct_run [OF assms(2,3) v(1,6), of u rounds True F fresh type ctx "w_held w"] assms v(7,8) by simp
  then show ?thesis
    using v pos assms(6) by (simp add: fuse_vnop_write_def del: write_direct.simps)
qed

text \<open>
  C11: Writing a file directly through a daemon that takes all it is given makes its file the one that
  the single write of the caller's bytes at the offset makes, in however many requests; the caller's
  count and offset have moved by all of them and the cached attributes are given up.
\<close>

theorem direct_write_refines:
  assumes "direct_ready vp FUFH_WRONLY u w" and "accepts_all D" and "smooth other"
    and "uio_resid u \<le> length (uio_in u)" and "uio_resid u < rounds" and "uio_resid u \<noteq> 0"
  shows "run_upcall (quiet_environment D fresh other) (fuse_vnop_write rounds vp ioflag u ctx w) =
      Some ((0, uio_taken (uio_resid u) u), invalidate_attr vp w) \<and>
    replay D (requests_of (quiet_environment D fresh other) (fuse_vnop_write rounds vp ioflag u ctx w)) F =
      file_write F (unat (uio_offset u)) (take (uio_resid u) (uio_in u))"
  using vnop_write_run [OF assms] by (simp add: writes_file_def)

theorem direct_write_refines_witness:
  "replay (file_daemon []) (requests_of (quiet_environment (file_daemon []) (\<lambda>w. 9) quiet_answers)
     (fuse_vnop_write 9 6 0 \<lparr>uio_resid = 6, uio_offset = 3, uio_out = [], uio_in = [7, 7, 7, 8, 8, 8]\<rparr>
        example_stranger example_io_world)) [1, 2] = [1, 2, 0, 7, 7, 7, 8, 8, 8]"
  using direct_write_refines [of 6 "\<lparr>uio_resid = 6, uio_offset = 3, uio_out = [], uio_in = [7, 7, 7, 8, 8, 8]\<rparr>"
      example_io_world "file_daemon []" quiet_answers 9 "\<lambda>w. 9" 0 example_stranger "[1, 2]"]
  by (simp add: example_io_defs file_write_def)

lemma requests_of_bind:
  "requests_of E (upcall_bind p f) =
     requests_of E p @ (case run_upcall E p of None \<Rightarrow> [] | Some (a, s) \<Rightarrow> requests_of E (f a s))"
  by (induction p rule: upcall_induct) (auto split: prod.split)

lemma strategy_to_io:
  assumes "strategy_ready vp b w"
  shows "\<exists>v type. VTOFUD vp w = Some v \<and> vnode_isreg v \<and> fuse_vnop_strategy rounds (Some vp) b w = strategy_io rounds type vp b w \<and>
    (b_read b \<longrightarrow> \<not> fv_filesize v <=s buf_offset b w)"
  using assms
  by (auto simp: strategy_ready_def fuse_vnop_strategy_def fuse_internal_strategy_buf_def fuse_internal_strategy_def
      strategy_handle_def vnode_isreg_def split: option.splits)

text \<open>
  C12: Paging in: the buffer the strategy routine gives back holds the bytes of the file the daemon
  serves from the buffer's block on, and zeros where the file has ended; its count is cut to the size
  the kernel knows of the file, nothing is left to be read, and the buffer is given back once.
\<close>

theorem strategy_read_refines:
  assumes "strategy_ready vp b w" and "b_read b" and "serves D F" and "smooth other" and "VTOFUD vp w = Some v"
  shows "run_upcall (quiet_environment D fresh other) (fuse_vnop_strategy rounds (Some vp) b w) =
    Some ((0, buf_biodone (b\<lparr>b_resid := 0,
      b_count := if fv_filesize v <s buf_offset b w + ucast (b_count b)
                 then ucast (fv_filesize v - buf_offset b w) else b_count b,
      b_data := put_bytes 0 (zero_filled (unat (b_count b))
        (file_read F (unat (buf_offset b w)) (unat (b_count b)))) (b_data b)\<rparr>)), w)"
proof -
  obtain type where io: "fuse_vnop_strategy rounds (Some vp) b w = strategy_io rounds type vp b w"
      "\<not> fv_filesize v <=s buf_offset b w" "vnode_isreg v"
    using strategy_to_io [OF assms(1)] assms(2,5) by fastforce
  have r: "fd_iosize (w_data w) \<noteq> 0" "b_count b \<noteq> 0" "unat (b_count b) \<le> length (b_data b)"
      "unat (buf_offset b w) + unat (b_count b) < 2 ^ 63"
    using assms(1) by (simp_all add: strategy_ready_def)
  have nd: "\<not> vnode_isdir v" using io(3) by (simp add: vnode_isreg_def vnode_isdir_def)
  define b2 where "b2 = (if fv_filesize v <s buf_offset b w + ucast (b_count b)
      then b\<lparr>b_resid := b_count b, b_count := ucast (fv_filesize v - buf_offset b w)\<rparr>
      else b\<lparr>b_resid := b_count b\<rparr>)"
  have b2: "b_resid b2 = b_count b" "b_data b2 = b_data b" by (simp_all add: b2_def)
  have "run_upcall (quiet_environment D fresh other)
      (strategy_read (unat (b_count b) + 1) True type vp 0 (buf_offset b w) b2 w) =
    Some ((0, b2\<lparr>b_resid := 0, b_data := put_bytes 0 (zero_filled (unat (b_count b))
        (file_read F (unat (buf_offset b w)) (unat (b_count b)))) (b_data b)\<rparr>), w)"
    using strategy_read_run [OF assms(3,5) nd r(1), of b2 "unat (b_count b) + 1" "buf_offset b w" True 0 fresh other
        type "w_held w"] r b2
    by simp
  then show ?thesis
    using assms(2,4,5) io(1,2) r(2)
    by (simp add: strategy_io_def Let_def run_upcall_bind smooth_def strategy_out_def buf_biodone_def b2_def
        flip: buf_offset_def)
qed

definition example_buf :: "bool \<Rightarrow> buf" where
  "example_buf rd = \<lparr>b_read = rd, b_cluster = True, b_upl = False, b_blkno = 0, b_lblkno = 0, b_count = 6,
     b_resid = 0, b_error = 0, b_done = 0, b_data = [9, 9, 9, 9, 9, 9, 9, 9]\<rparr>"

theorem strategy_read_refines_witness:
  "run_upcall (quiet_environment (file_daemon [5, 4, 3, 2, 1]) (\<lambda>w. 9) quiet_answers)
     (fuse_vnop_strategy 1 (Some 6) (example_buf True) example_io_world) =
   Some ((0, (example_buf True)\<lparr>b_done := 1, b_data := [5, 4, 3, 2, 1, 0, 9, 9]\<rparr>), example_io_world)"
  using strategy_read_refines [of 6 "example_buf True" example_io_world "file_daemon [5, 4, 3, 2, 1]" "[5, 4, 3, 2, 1]"
      quiet_answers example_io_file "\<lambda>w. 9" 1]
  by (simp add: example_io_defs example_buf_def file_read_def zero_filled_def put_bytes_def buf_biodone_def
      word_sle_eq)

text \<open>
  C13: Paging out: a daemon that takes some of each write, as much as it likes, ends with the file the
  single write of the buffer at its block makes; the buffer comes back once, with nothing left to be
  written, and the operation ends.
\<close>

theorem strategy_write_refines:
  assumes "strategy_ready vp b w" and "\<not> b_read b" and "accepts_some D" and "smooth other"
    and "unat (b_count b) < rounds"
  shows "run_upcall (quiet_environment D fresh other) (fuse_vnop_strategy rounds (Some vp) b w) =
      Some ((0, buf_biodone (b\<lparr>b_resid := 0\<rparr>)), w) \<and>
    replay D (requests_of (quiet_environment D fresh other) (fuse_vnop_strategy rounds (Some vp) b w)) F =
      file_write F (unat (buf_offset b w)) (take (unat (b_count b)) (b_data b))"
proof -
  obtain v type where io: "VTOFUD vp w = Some v" "fuse_vnop_strategy rounds (Some vp) b w = strategy_io rounds type vp b w"
    using strategy_to_io [OF assms(1)] by blast
  have r: "fd_iosize (w_data w) \<noteq> 0" "b_count b \<noteq> 0" "unat (b_count b) \<le> length (b_data b)"
      "unat (buf_offset b w) + unat (b_count b) < 2 ^ 63"
    using assms(1) by (simp_all add: strategy_ready_def)
  have "writes_file D (quiet_environment D fresh other)
      (strategy_write rounds True type vp 0 (unat (b_count b)) (buf_offset b w) (b\<lparr>b_resid := b_count b\<rparr>) w) F
      (unat (buf_offset b w)) (get_bytes 0 (unat (b_count b)) (b_data b)) ((0, b\<lparr>b_resid := 0\<rparr>), w)"
    using strategy_write_run [OF assms(3) io(1) r(1), of "unat (b_count b)" rounds "buf_offset b w" True 0
        "b\<lparr>b_resid := b_count b\<rparr>" F fresh other type "w_held w"] r assms(5)
      unsigned_less [of "b_count b", where ?'a = nat]
    by (simp add: unat_eq_0)
  then show ?thesis
    using assms(2,4) io r(2)
    by (simp add: writes_file_def strategy_io_def Let_def run_upcall_bind requests_of_bind smooth_def strategy_out_def
        get_bytes_def flip: buf_offset_def)
qed

text \<open>A daemon that takes at most two bytes of a write.\<close>

definition stingy_daemon :: "request \<Rightarrow> fdisp_result" where
  "stingy_daemon r = \<lparr>fr_err = 0, fr_answ_stat = 0,
     fr_answ = le_enc 4 (min 2 (of_nat (requested_size r)) :: u32) @ replicate 4 0\<rparr>"

lemma stingy_daemon_accepts: "accepts_some stingy_daemon"
  by (simp add: accepts_some_def accepted_def stingy_daemon_def sizeof_write_out_def requested_size_def min_def
      word_le_nat_alt unat_gt_0)

theorem strategy_write_refines_witness:
  "replay stingy_daemon (requests_of (quiet_environment stingy_daemon (\<lambda>w. 9) quiet_answers)
     (fuse_vnop_strategy 7 (Some 6) ((example_buf False)\<lparr>b_data := [1, 2, 3, 4, 5, 6]\<rparr>) example_io_world)) [8, 8, 8, 8, 8, 8, 8] =
   [1, 2, 3, 4, 5, 6, 8]"
  using strategy_write_refines [of 6 "(example_buf False)\<lparr>b_data := [1, 2, 3, 4, 5, 6]\<rparr>" example_io_world stingy_daemon
      quiet_answers 7 "\<lambda>w. 9" "[8, 8, 8, 8, 8, 8, 8]"] stingy_daemon_accepts
  by (simp add: example_io_defs example_buf_def file_write_def)

section \<open>Short writes\<close>

text \<open>A daemon that answers every write well and takes nothing of it.\<close>

definition takes_nothing :: "(request \<Rightarrow> fdisp_result) \<Rightarrow> bool" where
  "takes_nothing D \<longleftrightarrow> (\<forall>r. rq_op r = FUSE_WRITE \<longrightarrow> fr_err (D r) = 0 \<and>
     length (fr_answ (D r)) = sizeof_write_out \<and> get32 0 (fr_answ (D r)) = 0)"

lemma takes_nothingD:
  assumes "takes_nothing D" and "rq_op r = FUSE_WRITE"
  shows "fr_err (D r) = 0" "get32 0 (fr_answ (D r)) = 0" "quiet_daemon D w r = (D r, w)"
  using assms by (simp_all add: takes_nothing_def quiet_daemon_def answer_audited_def)

lemma strategy_write_stuck:
  assumes "takes_nothing D" and "VTOFUD vp w = Some v" and "left \<noteq> 0" and "pos + left \<le> length (b_data b)"
  shows "run_upcall (quiet_environment D fresh other)
      (strategy_write fuel first type vp pos left off b (w\<lparr>w_held := if first then h else Suc h\<rparr>)) = None \<and>
    length (requests_of (quiet_environment D fresh other)
      (strategy_write fuel first type vp pos left off b (w\<lparr>w_held := if first then h else Suc h\<rparr>))) = fuel"
  using assms(3,4)
proof (induction fuel arbitrary: first b)
  case (Suc fuel)
  define sz where "sz = io_chunk left w"
  have sz: "unat sz \<le> left" using io_chunk_le by (simp add: sz_def)
  show ?case
    using Suc.IH [of b False] Suc.prems assms(2) sz takes_nothingD [OF assms(1)]
    by (simp add: strategy_write.simps(2) Let_def held_at_first ask_def buf_get_def flip: sz_def)
qed simp

text \<open>
  C21: A daemon that answers a page-out with a count of zero keeps the writing thread busy for ever:
  whatever number of rounds the loop is given, it uses them all, each with a request, and has not ended.
\<close>

theorem empty_writes_never_end:
  assumes "strategy_ready vp b w" and "\<not> b_read b" and "takes_nothing D" and "smooth other"
  shows "run_upcall (quiet_environment D fresh other) (fuse_vnop_strategy rounds (Some vp) b w) = None \<and>
    length (requests_of (quiet_environment D fresh other) (fuse_vnop_strategy rounds (Some vp) b w)) = rounds"
proof -
  obtain v type where io: "VTOFUD vp w = Some v" "fuse_vnop_strategy rounds (Some vp) b w = strategy_io rounds type vp b w"
    using strategy_to_io [OF assms(1)] by blast
  have r: "b_count b \<noteq> 0" "unat (b_count b) \<le> length (b_data b)"
    using assms(1) by (simp_all add: strategy_ready_def)
  note stuck = strategy_write_stuck [OF assms(3) io(1), of "unat (b_count b)" 0 "b\<lparr>b_resid := b_count b\<rparr>" fresh other
      rounds True type "buf_offset b w" "w_held w"]
  show ?thesis
    using stuck assms(2,4) io r
    by (simp add: strategy_io_def Let_def run_upcall_bind requests_of_bind smooth_def unat_eq_0 flip: buf_offset_def)
qed

definition lazy_daemon :: "request \<Rightarrow> fdisp_result" where
  "lazy_daemon r = \<lparr>fr_err = 0, fr_answ_stat = 0, fr_answ = [0, 0, 0, 0, 0, 0, 0, 0]\<rparr>"

lemma lazy_daemon_takes_nothing: "takes_nothing lazy_daemon"
  by (simp add: takes_nothing_def lazy_daemon_def sizeof_write_out_def get32_def get_bytes_def)

theorem empty_writes_never_end_witness:
  "\<forall>rounds. run_upcall (quiet_environment lazy_daemon (\<lambda>w. 9) quiet_answers)
     (fuse_vnop_strategy rounds (Some 6) (example_buf False) example_io_world) = None"
  using empty_writes_never_end [of 6 "example_buf False" example_io_world lazy_daemon quiet_answers "\<lambda>w. 9"]
    lazy_daemon_takes_nothing
  by (simp add: example_io_defs example_buf_def)

text \<open>
  C20: When the daemon takes only part of the first request of a direct write, the bytes it left are not
  sent again: the next request is for the offset behind what was taken, but carries the caller's bytes
  from behind the whole request on.
\<close>

theorem short_write_skips:
  assumes "direct_ready vp FUFH_WRONLY u w" and "smooth other" and "\<forall>n. kr_bytes (other (K_uiomove_in n)) = []"
    and "n = unat (io_chunk (uio_resid u) w)" and "0 < a" and "a < n"
    and "\<forall>r. rq_op r = FUSE_WRITE \<longrightarrow> fr_err (D r) = 0 \<and> length (fr_answ (D r)) = sizeof_write_out"
    and "\<forall>r. rq_op r = FUSE_WRITE \<and> request_off r = unat (uio_offset u) \<longrightarrow> accepted D r = a"
  shows "\<exists>r1 r2 rs. requests_of (quiet_environment D fresh other)
        (fuse_vnop_write (Suc (Suc rounds)) vp ioflag u ctx w) = r1 # r2 # rs \<and>
     request_off r1 = unat (uio_offset u) \<and> request_data r1 = take n (uio_in u) \<and> accepted D r1 = a \<and>
     request_off r2 = unat (uio_offset u) + a \<and>
     request_data r2 = take (unat (io_chunk (uio_resid u - a) w)) (drop n (uio_in u))"
proof -
  obtain v type where v: "VTOFUD vp w = Some v" "\<not> fuse_isdeadfs (w_data w) v" "vnode_isreg v"
      "fuse_isdirectio (w_data w) v" "usable_handle v FUFH_WRONLY = Some type"
      "unat (uio_offset u) + uio_resid u < 2 ^ 63"
    using assms(1) by (auto simp: direct_ready_def split: option.splits)
  have pos: "\<not> uio_offset u <s 0" by (rule off_nonneg) (use v(6) in simp)
  have n: "n \<le> uio_resid u" using io_chunk_le assms(4) by simp
  define u2 where "u2 = uio_put_back (n - a) (uio_taken n u)"
  have u2: "uio_resid u2 = uio_resid u - a" "uio_in u2 = drop n (uio_in u)"
      "uio_offset u2 = uio_offset u + of_nat a"
    using assms(6) n by (simp_all add: u2_def uio_put_back_def uio_taken_def of_nat_diff)
  have off: "unat (uio_offset u2) = unat (uio_offset u) + a"
    using unat_off_add [of "uio_offset u" a] u2(3) v(6) n assms(6) by simp
  let ?E = "quiet_environment D fresh other"
  let ?sz = "io_chunk (uio_resid u) w"
  let ?r1 = "\<lparr>rq_op = FUSE_WRITE, rq_nodeid = fv_nodeid v, rq_body = transfer_body (fv_fufh v type) (uio_offset u) ?sz
      @ map Some (take n (uio_in u)), rq_ctx = Some ctx\<rparr>"
  let ?sz2 = "io_chunk (uio_resid u2) w"
  let ?r2 = "\<lparr>rq_op = FUSE_WRITE, rq_nodeid = fv_nodeid v, rq_body = transfer_body (fv_fufh v type) (uio_offset u2) ?sz2
      @ map Some (take (unat ?sz2) (uio_in u2)), rq_ctx = Some ctx\<rparr>"
  have acc: "accepted D ?r1 = a" using assms(8) by simp
  then have le: "\<not> ?sz < get32 0 (fr_answ (D ?r1))"
    using assms(4,6) by (simp add: not_less word_le_nat_alt accepted_def)
  have quiet: "quiet_daemon D t r = (D r, t)" "fr_err (D r) = 0" if "rq_op r = FUSE_WRITE" for t r
    using assms(7) that by (simp_all add: quiet_daemon_def answer_audited_def)
  have "requests_of ?E (write_direct (Suc (Suc rounds)) True type vp ctx u w) =
      ?r1 # requests_of ?E (write_direct (Suc rounds) False type vp ctx u2 (w\<lparr>w_held := Suc (w_held w)\<rparr>))"
    using v(1) n assms(2,3,5,6) quiet acc le
    by (simp add: write_direct.simps(2) Let_def reask_def ask_def smooth_def accepted_def u2_def flip: assms(4))
  moreover obtain rs where "requests_of ?E (write_direct (Suc rounds) False type vp ctx u2 (w\<lparr>w_held := Suc (w_held w)\<rparr>)) = ?r2 # rs"
    using v(1) n assms(2,3,5,6) quiet u2(1)
    by (simp add: write_direct.simps(2) Let_def reask_def ask_def fuse_drop_def smooth_def)
  ultimately have "requests_of ?E (fuse_vnop_write (Suc (Suc rounds)) vp ioflag u ctx w) = ?r1 # ?r2 # rs"
    using v pos n assms(5,6) by (simp add: fuse_vnop_write_def)
  with acc off u2 show ?thesis by (intro exI [of _ ?r1] exI [of _ ?r2] exI [of _ rs]) simp
qed

text \<open>A daemon that takes two bytes of the first request and all of the others.\<close>

definition late_daemon :: "request \<Rightarrow> fdisp_result" where
  "late_daemon r = \<lparr>fr_err = 0, fr_answ_stat = 0, fr_answ = le_enc 4
     (if request_off r = 0 then 2 else of_nat (requested_size r) :: u32) @ replicate 4 0\<rparr>"

theorem short_write_skips_witness:
  "\<exists>r1 r2 rs. requests_of (quiet_environment late_daemon (\<lambda>w. 9) quiet_answers)
        (fuse_vnop_write 9 6 0 \<lparr>uio_resid = 6, uio_offset = 0, uio_out = [], uio_in = [1, 2, 3, 4, 5, 6]\<rparr>
          example_stranger example_io_world) = r1 # r2 # rs \<and>
     request_data r1 = [1, 2, 3, 4] \<and> accepted late_daemon r1 = 2 \<and> request_off r2 = 2 \<and> request_data r2 = [5, 6]"
  using short_write_skips [of 6 "\<lparr>uio_resid = 6, uio_offset = 0, uio_out = [], uio_in = [1, 2, 3, 4, 5, 6]\<rparr>"
      example_io_world quiet_answers 4 2 late_daemon "\<lambda>w. 9" 7 0 example_stranger]
  by (fastforce simp: example_io_defs io_chunk_def quiet_answers_def late_daemon_def accepted_def sizeof_write_out_def)

end
