(* ===== verification/Fuse_Locking.thy ===== *)
theory Fuse_Locking
  imports Fuse_Example "HOL-Library.Extended_Nat"
begin

text \<open>
  The node locks (\<open>fuse_locking.c\<close>), which the wrappers of \<open>fuse_biglock_vnops.c\<close> take around the
  vnode operations: a lock for readers and a writer per node, taken one by one, in pairs, or four at a
  time in an order that is to avoid deadlocks.
\<close>

section \<open>Locks\<close>

type_synonym thread = nat

datatype rw_lock = Rw_free | Rw_shared nat | Rw_exclusive thread
datatype lock_owner = Ow_none | Ow_shared | Ow_thread thread
datatype fusefslocktype = FUSEFS_SHARED_LOCK | FUSEFS_EXCLUSIVE_LOCK | FUSEFS_FORCE_LOCK

abbreviation (input) C_NEED_DVNODE_PUT :: u32 where "C_NEED_DVNODE_PUT \<equiv> 0x2"
abbreviation (input) C_NOEXISTS :: u32 where "C_NOEXISTS \<equiv> 0x20"
abbreviation (input) C_NEED_DATA_SETSIZE :: u32 where "C_NEED_DATA_SETSIZE \<equiv> 0x1000"

text \<open>
  A node is its address, 0 is the null pointer. \<open>lx_vp\<close> is the vnode of a node; \<open>lx_log\<close> what unlocking
  tells the kernel.
\<close>

record lock_state =
  lx_nodes :: "hnp \<rightharpoonup> fuse_vnode_data"
  lx_vp :: "hnp \<Rightarrow> vnode option"
  lx_lock :: "hnp \<Rightarrow> rw_lock"
  lx_owner :: "hnp \<Rightarrow> lock_owner"
  lx_truncate :: "hnp \<Rightarrow> rw_lock"
  lx_log :: "effect list"

text \<open>Taking a lock, if it can be had; releasing one, if it is held.\<close>

definition rw_take :: "bool \<Rightarrow> thread \<Rightarrow> rw_lock \<Rightarrow> rw_lock option" where
  "rw_take shared t l =
     (case l of
        Rw_free \<Rightarrow> Some (if shared then Rw_shared 1 else Rw_exclusive t)
      | Rw_shared n \<Rightarrow> if shared then Some (Rw_shared (n + 1)) else None
      | Rw_exclusive _ \<Rightarrow> None)"

definition rw_done :: "rw_lock \<Rightarrow> rw_lock option" where
  "rw_done l =
     (case l of
        Rw_free \<Rightarrow> None
      | Rw_shared n \<Rightarrow> Some (if n \<le> 1 then Rw_free else Rw_shared (n - 1))
      | Rw_exclusive _ \<Rightarrow> Some Rw_free)"

text \<open>An operation returns, waits for the lock of a node with what it holds, or crashes.\<close>

datatype lock_result = Lr_ret int lock_state | Lr_waits hnp lock_state | Lr_crash

definition fusefs_unlock :: "hnp \<Rightarrow> lock_state \<Rightarrow> lock_state option" where
  "fusefs_unlock cp s =
     (case lx_nodes s cp of
        None \<Rightarrow> None
      | Some n \<Rightarrow>
          let flags = fv_c_flag n;
              vp = (if flag_set flags (C_NEED_DVNODE_PUT OR C_NEED_DATA_SETSIZE) then lx_vp s cp else None);
              post = (case vp of None \<Rightarrow> []
                      | Some vn \<Rightarrow> (if flag_set flags C_NEED_DATA_SETSIZE then [Ef_ubc vn (Ubc_setsize 0)] else []) @
                                    (if flag_set flags C_NEED_DVNODE_PUT then [Ef_vnode_put vn] else []))
          in map_option (\<lambda>l. s\<lparr>lx_nodes := (lx_nodes s)(cp \<mapsto> n\<lparr>fv_c_flag := flags AND NOT (C_NEED_DVNODE_PUT OR C_NEED_DATA_SETSIZE)\<rparr>),
                                lx_lock := (lx_lock s)(cp := l), lx_owner := (lx_owner s)(cp := Ow_none),
                                lx_log := lx_log s @ post\<rparr>) (rw_done (lx_lock s cp)))"

definition fusefs_lock :: "thread \<Rightarrow> hnp \<Rightarrow> fusefslocktype \<Rightarrow> lock_state \<Rightarrow> lock_result" where
  "fusefs_lock t cp locktype s =
     (case lx_nodes s cp of
        None \<Rightarrow> Lr_crash
      | Some n \<Rightarrow>
          let shared = (locktype = FUSEFS_SHARED_LOCK)
          in case rw_take shared t (lx_lock s cp) of
               None \<Rightarrow> Lr_waits cp s
             | Some l \<Rightarrow>
                 let s1 = s\<lparr>lx_lock := (lx_lock s)(cp := l),
                            lx_owner := (lx_owner s)(cp := if shared then Ow_shared else Ow_thread t)\<rparr>
                 in if locktype \<noteq> FUSEFS_FORCE_LOCK \<and> flag_set (fv_c_flag n) C_NOEXISTS
                    then (case fusefs_unlock cp s1 of None \<Rightarrow> Lr_crash | Some s2 \<Rightarrow> Lr_ret ENOENT s2)
                    else Lr_ret 0 s1)"

section \<open>Two locks\<close>

text \<open>A directory goes before an entry of it that is named second; otherwise the addresses decide.\<close>

definition lockpair_order :: "hnp \<Rightarrow> hnp \<Rightarrow> (hnp \<rightharpoonup> fuse_vnode_data) \<Rightarrow> (hnp \<times> hnp) option" where
  "lockpair_order cp1 cp2 nodes =
     (case (nodes cp1, nodes cp2) of
        (Some n1, Some n2) \<Rightarrow>
          Some (if fv_vtype n1 = VDIR \<and> fv_nodeid n1 = fv_parent_nodeid n2 then (cp1, cp2)
                else if cp1 < cp2 then (cp1, cp2) else (cp2, cp1))
      | _ \<Rightarrow> None)"

fun unlock_list :: "hnp list \<Rightarrow> lock_state \<Rightarrow> lock_state option" where
  "unlock_list [] s = Some s"
| "unlock_list (cp # cps) s = (case fusefs_unlock cp s of None \<Rightarrow> None | Some s1 \<Rightarrow> unlock_list cps s1)"

text \<open>Null pointers are passed over; when a node is gone the locks got before are released, last first.\<close>

fun lock_list :: "thread \<Rightarrow> fusefslocktype \<Rightarrow> hnp list \<Rightarrow> hnp list \<Rightarrow> lock_state \<Rightarrow> lock_result" where
  "lock_list t locktype got [] s = Lr_ret 0 s"
| "lock_list t locktype got (cp # cps) s =
     (if cp = 0 then lock_list t locktype got cps s
      else case fusefs_lock t cp locktype s of
             Lr_ret e s1 \<Rightarrow>
               if e \<noteq> 0 then (case unlock_list got s1 of None \<Rightarrow> Lr_crash | Some s2 \<Rightarrow> Lr_ret e s2)
               else lock_list t locktype (cp # got) cps s1
           | r \<Rightarrow> r)"

definition fusefs_lockpair :: "thread \<Rightarrow> hnp \<Rightarrow> hnp \<Rightarrow> fusefslocktype \<Rightarrow> lock_state \<Rightarrow> lock_result" where
  "fusefs_lockpair t cp1 cp2 locktype s =
     (if cp1 = cp2 then fusefs_lock t cp1 locktype s
      else case lockpair_order cp1 cp2 (lx_nodes s) of
             None \<Rightarrow> Lr_crash
           | Some (c1, c2) \<Rightarrow> lock_list t locktype [] [c1, c2] s)"

definition fusefs_unlockpair :: "hnp \<Rightarrow> hnp \<Rightarrow> lock_state \<Rightarrow> lock_state option" where
  "fusefs_unlockpair cp1 cp2 s = unlock_list (if cp2 \<noteq> cp1 then [cp1, cp2] else [cp1]) s"

section \<open>Four locks\<close>

abbreviation (input) node_sentinel :: hnp where "node_sentinel \<equiv> 0xFFFFFFFF"

definition fusefs_isordered :: "(hnp \<rightharpoonup> fuse_vnode_data) \<Rightarrow> hnp \<Rightarrow> hnp \<Rightarrow> bool option" where
  "fusefs_isordered nodes cp1 cp2 =
     (if cp1 = cp2 then Some False
      else if cp1 = 0 \<or> cp2 = node_sentinel then Some True
      else if cp2 = 0 \<or> cp1 = node_sentinel then Some False
      else case (nodes cp1, nodes cp2) of
             (Some n1, Some n2) \<Rightarrow>
               Some (if fv_nodeid n1 = fv_parent_nodeid n2 then True
                     else if fv_nodeid n2 = fv_parent_nodeid n1 then False
                     else cp1 < cp2)
           | _ \<Rightarrow> None)"

text \<open>
  Merging two ordered pairs, each with the sentinel behind it, into the list of locks to take; a node
  that comes twice in a row is taken once. Reading behind the sentinel would be out of bounds.
\<close>

definition add_node :: "hnp \<Rightarrow> hnp list \<Rightarrow> hnp list" where
  "add_node cp cps = (if cps = [] \<or> cp \<noteq> last cps then cps @ [cp] else cps)"

fun merge_nodes :: "(hnp \<rightharpoonup> fuse_vnode_data) \<Rightarrow> hnp list \<Rightarrow> hnp list \<Rightarrow> hnp list \<Rightarrow> hnp list option" where
  "merge_nodes nodes (a # as) (b # bs) out =
     (if as = [] \<and> bs = [] then Some out
      else case fusefs_isordered nodes a b of
             None \<Rightarrow> None
           | Some o1 \<Rightarrow> if o1 then merge_nodes nodes as (b # bs) (add_node a out)
                        else merge_nodes nodes (a # as) bs (add_node b out))"
| "merge_nodes nodes _ _ out = None"

definition ordered_pair :: "(hnp \<rightharpoonup> fuse_vnode_data) \<Rightarrow> hnp \<Rightarrow> hnp \<Rightarrow> hnp list option" where
  "ordered_pair nodes cp1 cp2 =
     map_option (\<lambda>o1. if o1 then [cp1, cp2, node_sentinel] else [cp2, cp1, node_sentinel])
       (fusefs_isordered nodes cp1 cp2)"

definition lockfour_list :: "(hnp \<rightharpoonup> fuse_vnode_data) \<Rightarrow> hnp \<Rightarrow> hnp \<Rightarrow> hnp \<Rightarrow> hnp \<Rightarrow> hnp list option" where
  "lockfour_list nodes cp1 cp2 cp3 cp4 =
     do { a \<leftarrow> ordered_pair nodes cp1 cp2; b \<leftarrow> ordered_pair nodes cp3 cp4; merge_nodes nodes a b [] }"

definition fusefs_lockfour ::
  "thread \<Rightarrow> hnp \<Rightarrow> hnp \<Rightarrow> hnp \<Rightarrow> hnp \<Rightarrow> fusefslocktype \<Rightarrow> lock_state \<Rightarrow> lock_result" where
  "fusefs_lockfour t cp1 cp2 cp3 cp4 locktype s =
     (case lockfour_list (lx_nodes s) cp1 cp2 cp3 cp4 of
        None \<Rightarrow> Lr_crash
      | Some cps \<Rightarrow> lock_list t locktype [] cps s)"

text \<open>Each node that is not null is unlocked when it comes first.\<close>

definition fusefs_unlockfour :: "hnp \<Rightarrow> hnp \<Rightarrow> hnp \<Rightarrow> hnp \<Rightarrow> lock_state \<Rightarrow> lock_state option" where
  "fusefs_unlockfour cp1 cp2 cp3 cp4 s =
     unlock_list (foldl (\<lambda>l cp. if cp \<noteq> 0 \<and> cp \<notin> set l then l @ [cp] else l) [] [cp1, cp2, cp3, cp4]) s"

section \<open>The lock against truncation\<close>

definition fusefs_lock_truncate :: "thread \<Rightarrow> hnp \<Rightarrow> bool \<Rightarrow> lock_state \<Rightarrow> lock_result" where
  "fusefs_lock_truncate t cp shared s =
     (if lx_owner s cp = Ow_thread t then Lr_crash
      else case rw_take shared t (lx_truncate s cp) of
             None \<Rightarrow> Lr_waits cp s
           | Some l \<Rightarrow> Lr_ret 0 (s\<lparr>lx_truncate := (lx_truncate s)(cp := l)\<rparr>))"

definition fusefs_unlock_truncate :: "hnp \<Rightarrow> lock_state \<Rightarrow> lock_state option" where
  "fusefs_unlock_truncate cp s =
     map_option (\<lambda>l. s\<lparr>lx_truncate := (lx_truncate s)(cp := l)\<rparr>) (rw_done (lx_truncate s cp))"

section \<open>The recursive lock\<close>

text \<open>A mutex, the thread that has it (0 for none) and how often it has taken it.\<close>

record recursive_lock =
  rl_mutex :: "thread option"
  rl_thread :: thread
  rl_count :: u32

datatype recursive_result = Rl_ret recursive_lock | Rl_waits | Rl_crash

definition fusefs_recursive_lock_lock :: "thread \<Rightarrow> recursive_lock \<Rightarrow> recursive_result" where
  "fusefs_recursive_lock_lock t l =
     (if rl_thread l = t then Rl_ret (l\<lparr>rl_count := rl_count l + 1\<rparr>)
      else if rl_mutex l \<noteq> None then Rl_waits
      else if rl_thread l \<noteq> 0 \<or> rl_count l \<noteq> 0 then Rl_crash
      else Rl_ret \<lparr>rl_mutex = Some t, rl_thread = t, rl_count = 1\<rparr>)"

definition fusefs_recursive_lock_unlock :: "thread \<Rightarrow> recursive_lock \<Rightarrow> recursive_result" where
  "fusefs_recursive_lock_unlock t l =
     (if rl_thread l \<noteq> t then Rl_crash
      else if rl_count l = 0 then Rl_crash
      else let n = rl_count l - 1
           in Rl_ret (if n = 0 then \<lparr>rl_mutex = None, rl_thread = 0, rl_count = 0\<rparr> else l\<lparr>rl_count := n\<rparr>))"

section \<open>All or none\<close>

text \<open>What taking and releasing a lock do to the locks, and that they keep the nodes.\<close>

lemma fusefs_unlock_held:
  assumes "lx_nodes s cp \<noteq> None" and "lx_lock s cp = Rw_exclusive t"
  shows "\<exists>s1. fusefs_unlock cp s = Some s1 \<and> lx_lock s1 = (lx_lock s)(cp := Rw_free) \<and> dom (lx_nodes s1) = dom (lx_nodes s)"
  using assms by (auto simp: fusefs_unlock_def rw_done_def Let_def)

lemma fusefs_lock_cases:
  assumes "lx_nodes s cp \<noteq> None" and "locktype \<noteq> FUSEFS_SHARED_LOCK"
  shows "(lx_lock s cp = Rw_free \<and>
      (\<exists>e s1. fusefs_lock t cp locktype s = Lr_ret e s1 \<and> dom (lx_nodes s1) = dom (lx_nodes s) \<and>
        lx_lock s1 = (if e = 0 then (lx_lock s)(cp := Rw_exclusive t) else lx_lock s))) \<or>
    (lx_lock s cp \<noteq> Rw_free \<and> fusefs_lock t cp locktype s = Lr_waits cp s)"
proof (cases "lx_lock s cp = Rw_free")
  case False
  with assms show ?thesis by (auto simp: fusefs_lock_def rw_take_def split: rw_lock.split)
next
  case True
  obtain n where n: "lx_nodes s cp = Some n" using assms(1) by blast
  let ?s1 = "s\<lparr>lx_lock := (lx_lock s)(cp := Rw_exclusive t), lx_owner := (lx_owner s)(cp := Ow_thread t)\<rparr>"
  obtain s2 where "fusefs_unlock cp ?s1 = Some s2" "lx_lock s2 = (lx_lock ?s1)(cp := Rw_free)"
      "dom (lx_nodes s2) = dom (lx_nodes s)"
    using fusefs_unlock_held [of ?s1 cp t] n by auto
  with True n assms(2) show ?thesis
    by (auto simp: fusefs_lock_def rw_take_def Let_def fun_upd_idem)
qed

definition held_by :: "thread \<Rightarrow> hnp list \<Rightarrow> lock_state \<Rightarrow> bool" where
  "held_by t got s \<longleftrightarrow> distinct got \<and> (\<forall>p\<in>set got. lx_lock s p = Rw_exclusive t \<and> lx_nodes s p \<noteq> None)"

lemma unlock_list_held:
  "held_by t got s \<Longrightarrow> \<exists>s1. unlock_list got s = Some s1 \<and> dom (lx_nodes s1) = dom (lx_nodes s) \<and>
     lx_lock s1 = (\<lambda>p. if p \<in> set got then Rw_free else lx_lock s p)"
proof (induction got arbitrary: s)
  case (Cons cp cps)
  obtain s1 where s1: "fusefs_unlock cp s = Some s1" "lx_lock s1 = (lx_lock s)(cp := Rw_free)"
      "dom (lx_nodes s1) = dom (lx_nodes s)"
    using fusefs_unlock_held [of s cp t] Cons.prems by (auto simp: held_by_def)
  have "lx_nodes s1 p \<noteq> None \<longleftrightarrow> lx_nodes s p \<noteq> None" for p using s1(3) by (auto simp: dom_def set_eq_iff)
  then have "held_by t cps s1" using Cons.prems s1(2) by (auto simp: held_by_def)
  from Cons.IH [OF this] s1 show ?case by (auto simp: fun_eq_iff)
qed simp



lemma set_add_node [simp]: "set (add_node a out) = insert a (set out)"
  by (auto simp: add_node_def)

lemma merge_nodes_set:
  assumes "merge_nodes nodes (xs @ [node_sentinel]) (ys @ [node_sentinel]) out = Some r"
    and "node_sentinel \<notin> set xs \<union> set ys"
  shows "set r = set out \<union> set xs \<union> set ys"
  using assms
proof (induction nodes "xs @ [node_sentinel]" "ys @ [node_sentinel]" out arbitrary: xs ys rule: merge_nodes.induct)
  case (1 nodes a as b bs out)
  note ih = 1(1,2) and hyp = 1(3-)
  show ?case
  proof (cases xs)
    case xs: Nil
    show ?thesis
    proof (cases ys)
      case Nil
      with xs hyp show ?thesis by simp
    next
      case (Cons y ys')
      with xs hyp ih show ?thesis by (auto simp: fusefs_isordered_def)
    qed
  next
    case xs: (Cons x xs')
    show ?thesis
      using xs hyp ih by (cases ys) (auto simp: fusefs_isordered_def split: option.splits if_splits)
  qed
qed auto

lemma lockfour_list_set:
  assumes "lockfour_list nodes cp1 cp2 cp3 cp4 = Some cps" and "node_sentinel \<notin> {cp1, cp2, cp3, cp4}"
  shows "set cps = {cp1, cp2, cp3, cp4}"
proof -
  obtain a b where ab: "ordered_pair nodes cp1 cp2 = Some a" "ordered_pair nodes cp3 cp4 = Some b"
      "merge_nodes nodes a b [] = Some cps"
    using assms(1) by (auto simp: lockfour_list_def split: bind_splits)
  obtain xs where "a = xs @ [node_sentinel]" "set xs = {cp1, cp2}"
    using that [of "[cp1, cp2]"] that [of "[cp2, cp1]"] ab(1)
    by (auto simp: ordered_pair_def insert_commute split: if_splits)
  moreover obtain ys where "b = ys @ [node_sentinel]" "set ys = {cp3, cp4}"
    using that [of "[cp3, cp4]"] that [of "[cp4, cp3]"] ab(2)
    by (auto simp: ordered_pair_def insert_commute split: if_splits)
  ultimately show ?thesis using merge_nodes_set [of nodes xs ys "[]" cps] ab(3) assms(2) by auto
qed

lemma unlockfour_held:
  assumes "\<And>p. p \<in> {cp1, cp2, cp3, cp4} - {0} \<Longrightarrow> lx_lock s p = Rw_exclusive t \<and> lx_nodes s p \<noteq> None"
  shows "\<exists>s1. fusefs_unlockfour cp1 cp2 cp3 cp4 s = Some s1 \<and>
    lx_lock s1 = (\<lambda>p. if p \<in> {cp1, cp2, cp3, cp4} - {0} then Rw_free else lx_lock s p)"
proof -
  let ?l = "foldl (\<lambda>l cp. if cp \<noteq> 0 \<and> cp \<notin> set l then l @ [cp] else l) [] [cp1, cp2, cp3, cp4]"
  have l: "distinct ?l" "set ?l = {cp1, cp2, cp3, cp4} - {0}" by auto
  then have "held_by t ?l s" using assms by (auto simp: held_by_def simp del: foldl.simps)
  from unlock_list_held [OF this] l(2) show ?thesis
    unfolding fusefs_unlockfour_def by (auto simp del: foldl.simps)
qed


text \<open>A directory and an entry of it whose address is lower.\<close>

definition example_node :: "u64 \<Rightarrow> u64 \<Rightarrow> vtype \<Rightarrow> fuse_vnode_data" where
  "example_node nid parent t = example_vnode\<lparr>fv_nodeid := nid, fv_parent_nodeid := parent, fv_vtype := t\<rparr>"

lemma example_node_simps [simp]:
  "fv_nodeid (example_node nid parent t) = nid" "fv_parent_nodeid (example_node nid parent t) = parent"
  "fv_vtype (example_node nid parent t) = t" "fv_c_flag (example_node nid parent t) = 0"
  by (simp_all add: example_node_def example_vnode_def)

definition example_locks :: "(hnp \<rightharpoonup> fuse_vnode_data) \<Rightarrow> lock_state" where
  "example_locks nodes = \<lparr>lx_nodes = nodes, lx_vp = \<lambda>_. None, lx_lock = \<lambda>_. Rw_free,
     lx_owner = \<lambda>_. Ow_none, lx_truncate = \<lambda>_. Rw_free, lx_log = []\<rparr>"

lemmas lock_eval = example_locks_def fusefs_lockfour_def lockfour_list_def ordered_pair_def fusefs_isordered_def
  add_node_def fusefs_lock_def rw_take_def Let_def


section \<open>The wrappers\<close>

text \<open>
  The vnode operations the kernel calls, with the vnodes they are given, and the locks their wrapper
  takes before the operation runs: only the big lock of the mount, or before it the locks of a node, of
  two, or of four nodes. \<open>fud\<close> gives the node of a vnode.
\<close>

datatype vnop =
    Vn_access vnode | Vn_blktooff vnode | Vn_blockmap vnode | Vn_close vnode | Vn_create vnode
  | Vn_exchange vnode vnode | Vn_fsync vnode | Vn_getattr vnode | Vn_getxattr vnode | Vn_inactive vnode
  | Vn_ioctl vnode | Vn_kqfilt_add vnode | Vn_kqfilt_remove vnode | Vn_link vnode vnode | Vn_listxattr vnode
  | Vn_lookup vnode | Vn_mkdir vnode | Vn_mknod vnode | Vn_mmap vnode | Vn_mnomap vnode | Vn_offtoblk vnode
  | Vn_open vnode | Vn_pagein vnode | Vn_pageout vnode | Vn_pathconf vnode | Vn_read vnode | Vn_readdir vnode
  | Vn_readlink vnode | Vn_reclaim vnode | Vn_remove vnode vnode | Vn_removexattr vnode
  | Vn_rename vnode vnode vnode "vnode option" | Vn_revoke vnode | Vn_rmdir vnode vnode
  | Vn_setattr vnode | Vn_setxattr vnode | Vn_strategy vnode | Vn_symlink vnode | Vn_write vnode

datatype wrapper = W_big | W_node hnp | W_pair hnp hnp | W_quad hnp hnp hnp hnp

text \<open>\<open>Vn_link\<close>, \<open>Vn_remove\<close> and \<open>Vn_rmdir\<close> name the directory first, \<open>Vn_rename\<close> fdvp, fvp, tdvp and tvp.\<close>

fun fuse_biglock_vnop :: "(vnode \<Rightarrow> hnp) \<Rightarrow> vnop \<Rightarrow> wrapper" where
  "fuse_biglock_vnop fud (Vn_access vp) = W_node (fud vp)"
| "fuse_biglock_vnop fud (Vn_blktooff vp) = W_big"
| "fuse_biglock_vnop fud (Vn_blockmap vp) = W_big"
| "fuse_biglock_vnop fud (Vn_close vp) = W_node (fud vp)"
| "fuse_biglock_vnop fud (Vn_create dvp) = W_node (fud dvp)"
| "fuse_biglock_vnop fud (Vn_exchange fvp tvp) = W_pair (fud fvp) (fud tvp)"
| "fuse_biglock_vnop fud (Vn_fsync vp) = W_node (fud vp)"
| "fuse_biglock_vnop fud (Vn_getattr vp) = W_node (fud vp)"
| "fuse_biglock_vnop fud (Vn_getxattr vp) = W_node (fud vp)"
| "fuse_biglock_vnop fud (Vn_inactive vp) = W_node (fud vp)"
| "fuse_biglock_vnop fud (Vn_ioctl vp) = W_node (fud vp)"
| "fuse_biglock_vnop fud (Vn_kqfilt_add vp) = W_node (fud vp)"
| "fuse_biglock_vnop fud (Vn_kqfilt_remove vp) = W_node (fud vp)"
| "fuse_biglock_vnop fud (Vn_link tdvp vp) = W_node (fud vp)"
| "fuse_biglock_vnop fud (Vn_listxattr vp) = W_node (fud vp)"
| "fuse_biglock_vnop fud (Vn_lookup dvp) = W_node (fud dvp)"
| "fuse_biglock_vnop fud (Vn_mkdir dvp) = W_node (fud dvp)"
| "fuse_biglock_vnop fud (Vn_mknod dvp) = W_node (fud dvp)"
| "fuse_biglock_vnop fud (Vn_mmap vp) = W_node (fud vp)"
| "fuse_biglock_vnop fud (Vn_mnomap vp) = W_node (fud vp)"
| "fuse_biglock_vnop fud (Vn_offtoblk vp) = W_big"
| "fuse_biglock_vnop fud (Vn_open vp) = W_node (fud vp)"
| "fuse_biglock_vnop fud (Vn_pagein vp) = W_big"
| "fuse_biglock_vnop fud (Vn_pageout vp) = W_big"
| "fuse_biglock_vnop fud (Vn_pathconf vp) = W_node (fud vp)"
| "fuse_biglock_vnop fud (Vn_read vp) = W_node (fud vp)"
| "fuse_biglock_vnop fud (Vn_readdir vp) = W_node (fud vp)"
| "fuse_biglock_vnop fud (Vn_readlink vp) = W_node (fud vp)"
| "fuse_biglock_vnop fud (Vn_reclaim vp) = W_big"
| "fuse_biglock_vnop fud (Vn_remove dvp vp) = W_node (fud vp)"
| "fuse_biglock_vnop fud (Vn_removexattr vp) = W_node (fud vp)"
| "fuse_biglock_vnop fud (Vn_rename fdvp fvp tdvp tvp) =
     W_quad (fud tdvp) (fud fdvp) (fud fvp) (case tvp of None \<Rightarrow> 0 | Some vp \<Rightarrow> fud vp)"
| "fuse_biglock_vnop fud (Vn_revoke vp) = W_big"
| "fuse_biglock_vnop fud (Vn_rmdir dvp vp) = W_node (fud vp)"
| "fuse_biglock_vnop fud (Vn_setattr vp) = W_node (fud vp)"
| "fuse_biglock_vnop fud (Vn_setxattr vp) = W_node (fud vp)"
| "fuse_biglock_vnop fud (Vn_strategy vp) = W_big"
| "fuse_biglock_vnop fud (Vn_symlink dvp) = W_node (fud dvp)"
| "fuse_biglock_vnop fud (Vn_write vp) = W_node (fud vp)"

text \<open>The locks of the nodes that a wrapper takes and gives back around the operation.\<close>

definition wrapper_lock :: "thread \<Rightarrow> wrapper \<Rightarrow> lock_state \<Rightarrow> lock_result" where
  "wrapper_lock t w s =
     (case w of
        W_big \<Rightarrow> Lr_ret 0 s
      | W_node p \<Rightarrow> fusefs_lock t p FUSEFS_EXCLUSIVE_LOCK s
      | W_pair p q \<Rightarrow> fusefs_lockpair t p q FUSEFS_EXCLUSIVE_LOCK s
      | W_quad p q a b \<Rightarrow> fusefs_lockfour t p q a b FUSEFS_EXCLUSIVE_LOCK s)"

definition wrapper_unlock :: "wrapper \<Rightarrow> lock_state \<Rightarrow> lock_state option" where
  "wrapper_unlock w s =
     (case w of
        W_big \<Rightarrow> Some s
      | W_node p \<Rightarrow> fusefs_unlock p s
      | W_pair p q \<Rightarrow> fusefs_unlockpair p q s
      | W_quad p q a b \<Rightarrow> fusefs_unlockfour p q a b s)"

section \<open>Threads that lock\<close>

text \<open>
  A thread is outside, takes the locks of its wrapper one after the other (those it has, last first,
  and those to come), or has them and the big lock and runs the operation. The big lock is a mutex; an
  operation that runs is taken to return.
\<close>

datatype lock_task = Idle | Locking wrapper "hnp list" "hnp list" | Running wrapper

record lock_config =
  lc_locks :: lock_state
  lc_big :: "thread option"
  lc_task :: "thread \<Rightarrow> lock_task"

definition wrapper_list :: "(hnp \<rightharpoonup> fuse_vnode_data) \<Rightarrow> wrapper \<Rightarrow> hnp list option" where
  "wrapper_list nodes w =
     (case w of
        W_big \<Rightarrow> Some []
      | W_node p \<Rightarrow> Some [p]
      | W_pair p q \<Rightarrow> if p = q then Some [p] else map_option (\<lambda>(a, b). [a, b]) (lockpair_order p q nodes)
      | W_quad p q a b \<Rightarrow> lockfour_list nodes p q a b)"

lemma wrapper_lock_list:
  "w \<noteq> W_node 0 \<Longrightarrow> w \<noteq> W_pair 0 0 \<Longrightarrow> wrapper_lock t w s =
     (case wrapper_list (lx_nodes s) w of None \<Rightarrow> Lr_crash | Some cps \<Rightarrow> lock_list t FUSEFS_EXCLUSIVE_LOCK [] cps s)"
  by (auto simp: wrapper_lock_def wrapper_list_def fusefs_lockpair_def fusefs_lockfour_def
      split: wrapper.splits option.splits lock_result.splits)

inductive lock_step :: "lock_config \<Rightarrow> lock_config \<Rightarrow> bool" where
  pass_null: "lc_task c t = Locking w got (0 # cps) \<Longrightarrow>
    lock_step c (c\<lparr>lc_task := (lc_task c)(t := Locking w got cps)\<rparr>)"
| take_node: "lc_task c t = Locking w got (p # cps) \<Longrightarrow> p \<noteq> 0 \<Longrightarrow>
    fusefs_lock t p FUSEFS_EXCLUSIVE_LOCK (lc_locks c) = Lr_ret 0 s1 \<Longrightarrow>
    lock_step c (c\<lparr>lc_locks := s1, lc_task := (lc_task c)(t := Locking w (p # got) cps)\<rparr>)"
| node_gone: "lc_task c t = Locking w got (p # cps) \<Longrightarrow> p \<noteq> 0 \<Longrightarrow>
    fusefs_lock t p FUSEFS_EXCLUSIVE_LOCK (lc_locks c) = Lr_ret e s1 \<Longrightarrow> e \<noteq> 0 \<Longrightarrow>
    unlock_list got s1 = Some s2 \<Longrightarrow>
    lock_step c (c\<lparr>lc_locks := s2, lc_task := (lc_task c)(t := Idle)\<rparr>)"
| take_big: "lc_task c t = Locking w got [] \<Longrightarrow> lc_big c = None \<Longrightarrow>
    lock_step c (c\<lparr>lc_big := Some t, lc_task := (lc_task c)(t := Running w)\<rparr>)"
| give_back: "lc_task c t = Running w \<Longrightarrow> wrapper_unlock w (lc_locks c) = Some s1 \<Longrightarrow>
    lock_step c (c\<lparr>lc_locks := s1, lc_big := None, lc_task := (lc_task c)(t := Idle)\<rparr>)"

text \<open>The operations are called on nodes that exist; the kernel exchanges the data of files only.\<close>

definition wrapper_ok :: "(hnp \<rightharpoonup> fuse_vnode_data) \<Rightarrow> wrapper \<Rightarrow> bool" where
  "wrapper_ok nodes w \<longleftrightarrow>
     (case w of
        W_big \<Rightarrow> True
      | W_node p \<Rightarrow> p \<in> dom nodes
      | W_pair p q \<Rightarrow> (\<exists>n m. nodes p = Some n \<and> nodes q = Some m \<and> fv_vtype n \<noteq> VDIR \<and> fv_vtype m \<noteq> VDIR)
      | W_quad p q a b \<Rightarrow> {p, q, a, b} - {0} \<subseteq> dom nodes)"

inductive lock_begin :: "lock_config \<Rightarrow> lock_config \<Rightarrow> bool" where
  "lc_task c t = Idle \<Longrightarrow> wrapper_ok (lx_nodes (lc_locks c)) w \<Longrightarrow>
    wrapper_list (lx_nodes (lc_locks c)) w = Some cps \<Longrightarrow>
    lock_begin c (c\<lparr>lc_task := (lc_task c)(t := Locking w [] cps)\<rparr>)"

definition all_idle :: "lock_state \<Rightarrow> lock_config" where
  "all_idle s = \<lparr>lc_locks = s, lc_big = None, lc_task = \<lambda>_. Idle\<rparr>"

subsection \<open>The order of the locks\<close>

text \<open>
  \<open>rank_agrees r nodes\<close> says that \<open>fusefs_isordered\<close> orders the nodes by the number \<open>r\<close>. Where a
  directory has a higher address than an entry, or the parents form a chain against the addresses,
  there need not be such a number.
\<close>

definition rank_agrees :: "(hnp \<Rightarrow> nat) \<Rightarrow> (hnp \<rightharpoonup> fuse_vnode_data) \<Rightarrow> bool" where
  "rank_agrees r nodes \<longleftrightarrow> nodes 0 = None \<and> nodes node_sentinel = None \<and>
     (\<forall>p q n m. nodes p = Some n \<longrightarrow> nodes q = Some m \<longrightarrow> p \<noteq> q \<longrightarrow>
        fusefs_isordered nodes p q = Some (r p < r q) \<and>
        (fv_nodeid n = fv_parent_nodeid m \<longrightarrow> fv_vtype n = VDIR))"

definition node_keys :: "lock_state \<Rightarrow> hnp \<rightharpoonup> u64 \<times> u64 \<times> vtype" where
  "node_keys s p = map_option (\<lambda>n. (fv_nodeid n, fv_parent_nodeid n, fv_vtype n)) (lx_nodes s p)"

lemma unlock_keys: "fusefs_unlock p s = Some s1 \<Longrightarrow> node_keys s1 = node_keys s"
  by (auto simp: fusefs_unlock_def node_keys_def Let_def fun_eq_iff split: option.splits)

lemma unlock_list_keys: "unlock_list cps s = Some s1 \<Longrightarrow> node_keys s1 = node_keys s"
  by (induction cps arbitrary: s) (auto dest: unlock_keys split: option.splits)

lemma lock_keys:
  assumes "fusefs_lock t p ty s = Lr_ret e s1"
  shows "node_keys s1 = node_keys s"
proof -
  have "node_keys (s\<lparr>lx_lock := l, lx_owner := ow\<rparr>) = node_keys s" for l ow
    by (simp add: node_keys_def fun_eq_iff)
  with assms show ?thesis
    by (auto simp: fusefs_lock_def Let_def dest!: unlock_keys split: option.splits if_splits)
qed

lemma wrapper_unlock_keys: "wrapper_unlock w s = Some s1 \<Longrightarrow> node_keys s1 = node_keys s"
  by (auto simp: wrapper_unlock_def fusefs_unlockpair_def fusefs_unlockfour_def simp del: foldl.simps
      dest!: unlock_keys unlock_list_keys split: wrapper.splits)

lemma dom_keys: "dom (node_keys s) = dom (lx_nodes s)"
  by (auto simp: node_keys_def)

lemma keys_dom: "node_keys s1 = node_keys s \<Longrightarrow> dom (lx_nodes s1) = dom (lx_nodes s)"
  by (metis dom_keys)

lemma ordered_keys:
  "fusefs_isordered (lx_nodes s) p q =
     (if p = q then Some False else if p = 0 \<or> q = node_sentinel then Some True
      else if q = 0 \<or> p = node_sentinel then Some False
      else case (node_keys s p, node_keys s q) of
             (Some (i, a, _), Some (j, b, _)) \<Rightarrow> Some (if i = b then True else if j = a then False else p < q)
           | _ \<Rightarrow> None)"
  by (auto simp: fusefs_isordered_def node_keys_def split: option.splits)

lemma rank_keys:
  "rank_agrees r (lx_nodes s) \<longleftrightarrow> node_keys s 0 = None \<and> node_keys s node_sentinel = None \<and>
     (\<forall>p q k l. node_keys s p = Some k \<longrightarrow> node_keys s q = Some l \<longrightarrow> p \<noteq> q \<longrightarrow>
        fusefs_isordered (lx_nodes s) p q = Some (r p < r q) \<and> (fst k = fst (snd l) \<longrightarrow> snd (snd k) = VDIR))"
proof -
  let ?key = "\<lambda>n. (fv_nodeid n, fv_parent_nodeid n, fv_vtype n)"
  have "node_keys s p = Some k \<longleftrightarrow> (\<exists>n. lx_nodes s p = Some n \<and> k = ?key n)" for p k
    by (auto simp: node_keys_def)
  then show ?thesis by (simp add: rank_agrees_def node_keys_def) (intro conj_cong refl iffI allI impI; fastforce)
qed

lemma keys_rank: "node_keys s1 = node_keys s \<Longrightarrow> rank_agrees r (lx_nodes s1) = rank_agrees r (lx_nodes s)"
  unfolding rank_keys ordered_keys by simp

lemma rank_real: "rank_agrees r nodes \<Longrightarrow> p \<in> dom nodes \<Longrightarrow> p \<noteq> 0 \<and> p \<noteq> node_sentinel"
  unfolding rank_agrees_def by (metis domD option.distinct(1))

text \<open>The null pointer comes before the nodes and the sentinel behind them.\<close>

definition node_rank :: "(hnp \<Rightarrow> nat) \<Rightarrow> hnp \<Rightarrow> enat" where
  "node_rank r p = (if p = 0 then 0 else if p = node_sentinel then \<infinity> else enat (Suc (r p)))"

definition known :: "(hnp \<rightharpoonup> fuse_vnode_data) \<Rightarrow> hnp \<Rightarrow> bool" where
  "known nodes p \<longleftrightarrow> p = 0 \<or> p = node_sentinel \<or> p \<in> dom nodes"

lemma ordered_rank:
  assumes "rank_agrees r nodes" and "known nodes p" and "known nodes q"
  shows "fusefs_isordered nodes p q = Some (node_rank r p < node_rank r q)"
proof (cases "p \<in> {0, node_sentinel} \<or> q \<in> {0, node_sentinel} \<or> p = q")
  case True
  then show ?thesis by (auto simp: fusefs_isordered_def node_rank_def zero_enat_def)
next
  case False
  with assms obtain n m where "nodes p = Some n" "nodes q = Some m" by (auto simp: known_def)
  with False assms(1) show ?thesis by (auto simp: rank_agrees_def node_rank_def)
qed

lemma rank_inj:
  assumes "rank_agrees r nodes" and "known nodes p" and "known nodes q" and "node_rank r p = node_rank r q"
  shows "p = q"
proof (rule ccontr)
  assume "p \<noteq> q"
  moreover have "fusefs_isordered nodes p q = Some False" "fusefs_isordered nodes q p = Some False"
    using ordered_rank [OF assms(1)] assms(2-4) by auto
  ultimately show False by (auto simp: fusefs_isordered_def split: if_splits option.splits)
qed

abbreviation "ranked r \<equiv> sorted_wrt (\<lambda>p q. node_rank r p < node_rank r q)"
lemma ranked_distinct: "ranked r xs \<Longrightarrow> distinct xs"
  by (induction xs) auto

abbreviation "weakly_ranked r \<equiv> sorted_wrt (\<lambda>p q. node_rank r p \<le> node_rank r q)"

lemma ordered_pair_ranked:
  assumes "rank_agrees r nodes" and "known nodes p" and "known nodes q"
  shows "\<exists>xs. ordered_pair nodes p q = Some xs \<and> weakly_ranked r xs \<and> set xs = {p, q, node_sentinel} \<and> last xs = node_sentinel"
proof -
  have "node_rank r x \<le> node_rank r node_sentinel" for x by (simp add: node_rank_def)
  then show ?thesis
    using ordered_rank [OF assms] by (auto simp: ordered_pair_def)
qed

text \<open>Merging in this order gives a list in this order, without duplicates.\<close>

lemma add_ranked:
  assumes "rank_agrees r nodes" and "known nodes p" and "\<forall>q\<in>set out. known nodes q \<and> node_rank r q \<le> node_rank r p"
    and "ranked r out"
  shows "ranked r (add_node p out)"
proof (cases out rule: rev_cases)
  case (snoc out' l)
  have "node_rank r q < node_rank r p" if "p \<noteq> l" "q \<in> set out" for q
  proof (cases "q = l")
    case True
    with that assms(3) rank_inj [OF assms(1), of l p] assms(2) show ?thesis by (simp add: order_less_le) blast
  next
    case False
    with that assms(3,4) snoc show ?thesis by (auto simp: sorted_wrt_append intro: order_less_le_trans)
  qed
  with assms(4) snoc show ?thesis by (auto simp: add_node_def sorted_wrt_append)
qed (simp add: add_node_def)

lemma merge_ranked:
  assumes "rank_agrees r nodes" and "\<forall>p\<in>set a \<union> set b \<union> set out. known nodes p"
    and "weakly_ranked r (xs @ [node_sentinel])" and "weakly_ranked r (ys @ [node_sentinel])"
    and "a = xs @ [node_sentinel]" and "b = ys @ [node_sentinel]" and "node_sentinel \<notin> set xs \<union> set ys"
    and "ranked r out" and "\<forall>p\<in>set a \<union> set b. \<forall>q\<in>set out. node_rank r q \<le> node_rank r p"
  shows "\<exists>cps. merge_nodes nodes a b out = Some cps \<and> ranked r cps"
  using assms
proof (induction nodes a b out arbitrary: xs ys rule: merge_nodes.induct)
  case (1 nodes a as b bs out)
  note prems = 1(3-11) and known = ordered_rank [OF 1(3), of a b]
  have a: "as = [] \<longleftrightarrow> a = node_sentinel" and b: "bs = [] \<longleftrightarrow> b = node_sentinel"
    using prems(5-7) by (cases xs; cases ys; auto)+
  have ra: "\<forall>p\<in>set as. node_rank r a \<le> node_rank r p" using prems(3) [folded prems(5)] by simp
  have rb: "\<forall>p\<in>set bs. node_rank r b \<le> node_rank r p" using prems(4) [folded prems(6)] by simp
  show ?case
  proof (cases "as = [] \<and> bs = []")
    case True
    with prems show ?thesis by simp
  next
    case False
    have o: "fusefs_isordered nodes a b = Some (node_rank r a < node_rank r b)"
      by (rule ordered_rank) (use prems(1,2) in auto)
    show ?thesis
    proof (cases "node_rank r a < node_rank r b")
      case True
      then have "as \<noteq> []" using a by (auto simp: node_rank_def)
      then obtain x xs' where xs: "xs = a # xs'" using prems(5) by (cases xs) auto
      have "\<exists>cps. merge_nodes nodes as (b # bs) (add_node a out) = Some cps \<and> ranked r cps"
      proof (rule 1(1) [OF False o True, of xs' ys])
        show "ranked r (add_node a out)" by (rule add_ranked [OF prems(1)]) (use prems(2,8,9) in auto)
        show "\<forall>p\<in>set as \<union> set (b # bs). \<forall>q\<in>set (add_node a out). node_rank r q \<le> node_rank r p"
          using prems(9) ra rb True by (auto simp: less_imp_le intro: order_trans)
      qed (use prems xs in auto)
      with False o True show ?thesis by auto
    next
      case nlt: False
      have "bs \<noteq> []"
      proof
        assume "bs = []"
        with b nlt have "node_rank r a = node_rank r node_sentinel" by (auto simp: node_rank_def split: if_splits)
        with rank_inj [OF prems(1), of a node_sentinel] prems(2) have "a = node_sentinel" by (auto simp: known_def)
        with a \<open>bs = []\<close> False show False by simp
      qed
      then obtain ys' where ys: "ys = b # ys'" using prems(6) by (cases ys) auto
      have "\<exists>cps. merge_nodes nodes (a # as) bs (add_node b out) = Some cps \<and> ranked r cps"
      proof (rule 1(2) [OF False o nlt, of xs ys'])
        show "ranked r (add_node b out)" by (rule add_ranked [OF prems(1)]) (use prems(2,8,9) in auto)
        show "\<forall>p\<in>set (a # as) \<union> set bs. \<forall>q\<in>set (add_node b out). node_rank r q \<le> node_rank r p"
          using prems(9) ra rb nlt by (auto simp: not_less intro: order_trans)
      qed (use prems ys in auto)
      with False o nlt show ?thesis by auto
    qed
  qed
qed auto


lemma lockfour_ranked:
  assumes "rank_agrees r nodes" and "{p, q, a, b} - {0} \<subseteq> dom nodes"
  shows "\<exists>cps. lockfour_list nodes p q a b = Some cps \<and> ranked r cps \<and> set cps = {p, q, a, b}"
proof -
  have known: "known nodes x \<and> x \<noteq> node_sentinel" if "x \<in> {p, q, a, b}" for x
    using assms that by (auto simp: known_def rank_agrees_def)
  have pair: "\<exists>xs. ordered_pair nodes x y = Some (xs @ [node_sentinel]) \<and> set xs = {x, y} \<and>
      weakly_ranked r (xs @ [node_sentinel])" if "{x, y} \<subseteq> {p, q, a, b}" for x y
  proof -
    have "node_rank r z \<le> node_rank r node_sentinel" for z by (simp add: node_rank_def)
    with ordered_rank [OF assms(1), of x y] known that show ?thesis
      by (cases "node_rank r x < node_rank r y") (force simp: ordered_pair_def)+
  qed
  from pair [of p q] obtain xs where xs: "ordered_pair nodes p q = Some (xs @ [node_sentinel])" "set xs = {p, q}"
      "weakly_ranked r (xs @ [node_sentinel])" by auto
  from pair [of a b] obtain ys where ys: "ordered_pair nodes a b = Some (ys @ [node_sentinel])" "set ys = {a, b}"
      "weakly_ranked r (ys @ [node_sentinel])" by auto
  have "\<exists>cps. merge_nodes nodes (xs @ [node_sentinel]) (ys @ [node_sentinel]) [] = Some cps \<and> ranked r cps"
    by (rule merge_ranked [OF assms(1) _ xs(3) ys(3) refl refl]) (use known xs(2) ys(2) in \<open>auto simp: known_def\<close>)
  then obtain cps where cps: "lockfour_list nodes p q a b = Some cps" "ranked r cps"
    using xs(1) ys(1) by (auto simp: lockfour_list_def)
  moreover have "set cps = {p, q, a, b}" by (rule lockfour_list_set [OF cps(1)]) (use known in auto)
  ultimately show ?thesis by blast
qed

text \<open>The nodes a wrapper locks, and that its list has each of them once, in the order of the numbers.\<close>

fun wrapper_nodes :: "wrapper \<Rightarrow> hnp set" where
  "wrapper_nodes W_big = {}"
| "wrapper_nodes (W_node p) = {p}"
| "wrapper_nodes (W_pair p q) = {p, q}"
| "wrapper_nodes (W_quad p q a b) = {p, q, a, b} - {0}"

lemma wrapper_list_ranked:
  assumes "rank_agrees r nodes" and "wrapper_ok nodes w"
  shows "\<exists>cps. wrapper_list nodes w = Some cps \<and> ranked r cps \<and> set cps - {0} = wrapper_nodes w \<and>
    wrapper_nodes w \<subseteq> dom nodes"
proof (cases w)
  case (W_quad p q a b)
  with assms lockfour_ranked [OF assms(1), of p q a b] show ?thesis
    by (auto simp: wrapper_ok_def wrapper_list_def)
next
  case (W_node p)
  with assms show ?thesis by (auto simp: wrapper_ok_def wrapper_list_def rank_agrees_def)
next
  case (W_pair p q)
  then obtain n m where nm: "nodes p = Some n" "nodes q = Some m" "fv_vtype n \<noteq> VDIR" "fv_vtype m \<noteq> VDIR"
    using assms(2) by (auto simp: wrapper_ok_def)
  then have nz: "p \<noteq> 0" "q \<noteq> 0" "p \<noteq> node_sentinel" "q \<noteq> node_sentinel"
    using rank_real [OF assms(1)] by auto
  show ?thesis
  proof (cases "p = q")
    case True
    with W_pair nm nz show ?thesis by (auto simp: wrapper_list_def)
  next
    case False
    have "fv_nodeid n \<noteq> fv_parent_nodeid m" "fv_nodeid m \<noteq> fv_parent_nodeid n"
      using assms(1) nm False unfolding rank_agrees_def by metis+
    then have o: "fusefs_isordered nodes p q = Some (p < q)" "fusefs_isordered nodes q p = Some (q < p)"
      using nm nz False by (auto simp: fusefs_isordered_def)
    have "lockpair_order p q nodes = Some (if p < q then (p, q) else (q, p))"
      using nm by (simp add: lockpair_order_def)
    moreover have "node_rank r p < node_rank r q \<longleftrightarrow> p < q" "node_rank r q < node_rank r p \<longleftrightarrow> q < p"
      using o ordered_rank [OF assms(1), of p q] ordered_rank [OF assms(1), of q p] nm by (auto simp: known_def)
    ultimately show ?thesis using W_pair False nm nz by (auto simp: wrapper_list_def)
  qed
qed (auto simp: wrapper_list_def)


subsection \<open>No deadlock\<close>

fun task_nodes :: "lock_task \<Rightarrow> hnp set" where
  "task_nodes Idle = {}"
| "task_nodes (Locking w got todo) = set got"
| "task_nodes (Running w) = wrapper_nodes w"

fun task_ok :: "(hnp \<Rightarrow> nat) \<Rightarrow> hnp set \<Rightarrow> lock_task \<Rightarrow> bool" where
  "task_ok r D Idle \<longleftrightarrow> True"
| "task_ok r D (Running w) \<longleftrightarrow> wrapper_nodes w \<subseteq> D"
| "task_ok r D (Locking w got todo) \<longleftrightarrow> wrapper_nodes w \<subseteq> D \<and> ranked r (rev got @ todo) \<and> 0 \<notin> set got \<and>
     set got \<union> (set todo - {0}) = wrapper_nodes w"

definition lock_inv :: "(hnp \<Rightarrow> nat) \<Rightarrow> lock_config \<Rightarrow> bool" where
  "lock_inv r c \<longleftrightarrow>
     rank_agrees r (lx_nodes (lc_locks c)) \<and> finite (dom (lx_nodes (lc_locks c))) \<and>
     (\<forall>t. task_ok r (dom (lx_nodes (lc_locks c))) (lc_task c t)) \<and>
     (\<forall>p t. lx_lock (lc_locks c) p = Rw_exclusive t \<longleftrightarrow> p \<in> task_nodes (lc_task c t)) \<and>
     (\<forall>p n. lx_lock (lc_locks c) p \<noteq> Rw_shared n) \<and>
     (\<forall>t. lc_big c = Some t \<longleftrightarrow> (\<exists>w. lc_task c t = Running w))"

lemma wrapper_unlock_held:
  assumes "\<forall>p\<in>wrapper_nodes w. lx_lock s p = Rw_exclusive t" and "wrapper_nodes w \<subseteq> dom (lx_nodes s)"
  shows "\<exists>s1. wrapper_unlock w s = Some s1 \<and>
    lx_lock s1 = (\<lambda>p. if p \<in> wrapper_nodes w then Rw_free else lx_lock s p)"
proof (cases w)
  case (W_node p)
  with assms fusefs_unlock_held [of s p t] show ?thesis by (auto simp: wrapper_unlock_def fun_eq_iff)
next
  case (W_pair p q)
  with assms have "held_by t (if q \<noteq> p then [p, q] else [p]) s" by (auto simp: held_by_def)
  from unlock_list_held [OF this] W_pair show ?thesis
    by (auto simp: wrapper_unlock_def fusefs_unlockpair_def split: if_splits)
next
  case (W_quad p q a b)
  with assms unlockfour_held [of p q a b s t] show ?thesis by (auto simp: wrapper_unlock_def)
qed (simp add: wrapper_unlock_def)

lemma lock_begin_inv:
  assumes "lock_inv r c" and "lock_begin c c1"
  shows "lock_inv r c1"
  using assms(2)
proof cases
  case (1 t w cps)
  from assms(1) have "rank_agrees r (lx_nodes (lc_locks c))" by (simp add: lock_inv_def)
  from wrapper_list_ranked [OF this 1(3)] 1(4)
  have "ranked r cps \<and> set cps - {0} = wrapper_nodes w \<and> wrapper_nodes w \<subseteq> dom (lx_nodes (lc_locks c))" by simp
  with assms(1) 1(1,2) show ?thesis by (auto simp: lock_inv_def)
qed

lemma lock_inv_task:
  assumes "lock_inv r c" and "node_keys s1 = node_keys (lc_locks c)"
    and "task_ok r (dom (lx_nodes (lc_locks c))) k"
    and "lx_lock s1 = (\<lambda>p. if p \<in> task_nodes k then Rw_exclusive t
                           else if p \<in> task_nodes (lc_task c t) then Rw_free else lx_lock (lc_locks c) p)"
    and "\<forall>p\<in>task_nodes k - task_nodes (lc_task c t). lx_lock (lc_locks c) p = Rw_free"
    and "\<forall>u. b = Some u \<longleftrightarrow> (\<exists>w. ((lc_task c)(t := k)) u = Running w)"
  shows "lock_inv r (c\<lparr>lc_locks := s1, lc_big := b, lc_task := (lc_task c)(t := k)\<rparr>)"
proof -
  have owned: "lx_lock (lc_locks c) p = Rw_exclusive u \<longleftrightarrow> p \<in> task_nodes (lc_task c u)" for p u
    using assms(1) by (simp add: lock_inv_def)
  have "lx_lock s1 p = Rw_exclusive u \<longleftrightarrow> p \<in> task_nodes (((lc_task c)(t := k)) u)" for p u
    using assms(4,5) owned [of p u] owned [of p t]
    by (cases "p \<in> task_nodes k"; cases "p \<in> task_nodes (lc_task c t)") auto
  then show ?thesis
    using assms keys_rank [OF assms(2), of r] keys_dom [OF assms(2)] by (auto simp: lock_inv_def)
qed

lemma lock_invD:
  assumes "lock_inv r c"
  shows "task_ok r (dom (lx_nodes (lc_locks c))) (lc_task c t)"
    and "lx_lock (lc_locks c) p = Rw_exclusive t \<longleftrightarrow> p \<in> task_nodes (lc_task c t)"
    and "lc_big c = Some t \<longleftrightarrow> (\<exists>w. lc_task c t = Running w)"
  using assms by (simp_all add: lock_inv_def)

lemma lock_step_inv:
  assumes inv: "lock_inv r c" and "lock_step c c1"
  shows "lock_inv r c1"
  using assms(2)
proof cases
  case (pass_null t w got cps)
  let ?k = "Locking w got cps"
  have "task_ok r (dom (lx_nodes (lc_locks c))) ?k"
    using lock_invD(1) [OF inv, of t] pass_null(2) by (auto simp: sorted_wrt_append)
  then have "lock_inv r (c\<lparr>lc_locks := lc_locks c, lc_big := lc_big c, lc_task := (lc_task c)(t := ?k)\<rparr>)"
    using pass_null(2) lock_invD(2,3) [OF inv] by (intro lock_inv_task inv) (auto simp: fun_eq_iff)
  with pass_null show ?thesis by simp
next
  case (take_node t w got p cps s1)
  let ?k = "Locking w (p # got) cps"
  have ok: "task_ok r (dom (lx_nodes (lc_locks c))) (Locking w got (p # cps))"
    using lock_invD(1) [OF inv, of t] take_node(2) by simp
  then have "lx_nodes (lc_locks c) p \<noteq> None" using take_node(3) by auto
  from fusefs_lock_cases [OF this, of FUSEFS_EXCLUSIVE_LOCK t] take_node(4)
  have l: "lx_lock (lc_locks c) p = Rw_free" "lx_lock s1 = (lx_lock (lc_locks c))(p := Rw_exclusive t)" by auto
  have "task_ok r (dom (lx_nodes (lc_locks c))) ?k" using ok take_node(3) by auto
  then have "lock_inv r (c\<lparr>lc_locks := s1, lc_big := lc_big c, lc_task := (lc_task c)(t := ?k)\<rparr>)"
    using take_node(2) l lock_keys [OF take_node(4)] lock_invD(2,3) [OF inv]
    by (intro lock_inv_task inv) (auto simp: fun_eq_iff)
  with take_node show ?thesis by simp
next
  case (node_gone t w got p cps e s1 s2)
  have ok: "task_ok r (dom (lx_nodes (lc_locks c))) (Locking w got (p # cps))"
    and owned: "\<forall>q\<in>set got. lx_lock (lc_locks c) q = Rw_exclusive t"
    using lock_invD(1) [OF inv, of t] lock_invD(2) [OF inv, of _ t] node_gone(2) by simp_all
  then have "lx_nodes (lc_locks c) p \<noteq> None" using node_gone(3) by auto
  from fusefs_lock_cases [OF this, of FUSEFS_EXCLUSIVE_LOCK t] node_gone(4,5)
  have l: "lx_lock s1 = lx_lock (lc_locks c)" by auto
  have keys: "node_keys s1 = node_keys (lc_locks c)" "node_keys s2 = node_keys s1"
    using lock_keys [OF node_gone(4)] unlock_list_keys [OF node_gone(6)] by simp_all
  have "distinct got" using ok ranked_distinct [of r "rev got"] by (simp add: sorted_wrt_append)
  moreover have "set got \<subseteq> dom (lx_nodes s1)" using ok keys_dom [OF keys(1)] by auto
  ultimately have "held_by t got s1" using owned l by (auto simp: held_by_def)
  from unlock_list_held [OF this] node_gone(6)
  have "lx_lock s2 = (\<lambda>q. if q \<in> set got then Rw_free else lx_lock (lc_locks c) q)" using l by auto
  with node_gone(2) keys lock_invD(3) [OF inv]
  have "lock_inv r (c\<lparr>lc_locks := s2, lc_big := lc_big c, lc_task := (lc_task c)(t := Idle)\<rparr>)"
    by (intro lock_inv_task inv) auto
  with node_gone show ?thesis by simp
next
  case (take_big t w got)
  let ?k = "Running w"
  have ok: "wrapper_nodes w \<subseteq> dom (lx_nodes (lc_locks c))" "set got = wrapper_nodes w"
    and owned: "\<forall>q\<in>set got. lx_lock (lc_locks c) q = Rw_exclusive t"
    using lock_invD(1) [OF inv, of t] lock_invD(2) [OF inv, of _ t] take_big(2) by auto
  have none: "lc_task c u \<noteq> Running w" for u w using lock_invD(3) [OF inv, of u] take_big(3) by auto
  have "lock_inv r (c\<lparr>lc_locks := lc_locks c, lc_big := Some t, lc_task := (lc_task c)(t := ?k)\<rparr>)"
    using take_big(2) ok owned none by (intro lock_inv_task inv) (auto simp: fun_eq_iff)
  with take_big show ?thesis by simp
next
  case (give_back t w s1)
  have ok: "wrapper_nodes w \<subseteq> dom (lx_nodes (lc_locks c))"
    and owned: "\<forall>q\<in>wrapper_nodes w. lx_lock (lc_locks c) q = Rw_exclusive t"
    using lock_invD(1) [OF inv, of t] lock_invD(2) [OF inv, of _ t] give_back(2) by simp_all
  have only: "lc_task c u = Running w' \<Longrightarrow> u = t" for u w'
    using lock_invD(3) [OF inv, of u] lock_invD(3) [OF inv, of t] give_back(2) by auto
  from wrapper_unlock_held [OF owned ok] give_back(3)
  have "lx_lock s1 = (\<lambda>p. if p \<in> wrapper_nodes w then Rw_free else lx_lock (lc_locks c) p)" by auto
  moreover have "\<forall>u. None = Some u \<longleftrightarrow> (\<exists>w. ((lc_task c)(t := Idle)) u = Running w)" using only by auto
  ultimately have "lock_inv r (c\<lparr>lc_locks := s1, lc_big := None, lc_task := (lc_task c)(t := Idle)\<rparr>)"
    using give_back(2) wrapper_unlock_keys [OF give_back(3)] by (intro lock_inv_task inv) simp_all
  with give_back show ?thesis by simp
qed

text \<open>
  If no thread runs, and each waits for a node, the thread whose node has the greatest number waits for
  a lock that nobody holds.
\<close>

lemma lock_inv_progress:
  assumes inv: "lock_inv r c" and busy: "lc_task c t \<noteq> Idle"
  shows "\<exists>c1. lock_step c c1"
proof (rule ccontr)
  assume stuck: "\<nexists>c1. lock_step c c1"
  let ?D = "dom (lx_nodes (lc_locks c))"
  note ok = lock_invD(1) [OF inv] and owned = lock_invD(2) [OF inv]
  have idle_big: "lc_task c u \<noteq> Running w" for u w
  proof
    assume run: "lc_task c u = Running w"
    with ok [of u] owned [of _ u] wrapper_unlock_held [of w "lc_locks c" u]
    obtain s1 where "wrapper_unlock w (lc_locks c) = Some s1" by auto
    with give_back [OF run] stuck show False by blast
  qed
  then have big: "lc_big c = None" using lock_invD(3) [OF inv] by (cases "lc_big c") auto
  have waits: "\<exists>w got p cps. lc_task c u = Locking w got (p # cps) \<and> p \<in> ?D \<and> lx_lock (lc_locks c) p \<noteq> Rw_free"
    if "lc_task c u \<noteq> Idle" for u
  proof -
    from that idle_big obtain w got cps where task: "lc_task c u = Locking w got cps"
      by (cases "lc_task c u") auto
    with take_big [of c u w got] big stuck obtain p cps' where cps: "cps = p # cps'" by (cases cps) auto
    with task pass_null [of c u w got cps'] stuck have "p \<noteq> 0" by auto
    with ok [of u] task cps have "p \<in> ?D" by auto
    moreover have "lx_lock (lc_locks c) p \<noteq> Rw_free"
    proof
      assume "lx_lock (lc_locks c) p = Rw_free"
      with fusefs_lock_cases [of "lc_locks c" p FUSEFS_EXCLUSIVE_LOCK u] \<open>p \<in> ?D\<close>
      obtain e s1 where l: "fusefs_lock u p FUSEFS_EXCLUSIVE_LOCK (lc_locks c) = Lr_ret e s1"
          "dom (lx_nodes s1) = ?D" "e \<noteq> 0 \<longrightarrow> lx_lock s1 = lx_lock (lc_locks c)" by auto
      show False
      proof (cases "e = 0")
        case True
        with take_node [OF task [unfolded cps] \<open>p \<noteq> 0\<close>] l stuck show False by blast
      next
        case False
        have "distinct got" using ok [of u] task ranked_distinct [of r "rev got"] by (simp add: sorted_wrt_append)
        moreover have "set got \<subseteq> dom (lx_nodes s1)" using ok [of u] task l(2) by auto
        moreover have "\<forall>q\<in>set got. lx_lock s1 q = Rw_exclusive u" using False l(3) task owned [of _ u] by simp
        ultimately have "held_by u got s1" by (auto simp: held_by_def)
        from unlock_list_held [OF this] node_gone [OF task [unfolded cps] \<open>p \<noteq> 0\<close> l(1) False] stuck
        show False by blast
      qed
    qed
    ultimately show ?thesis using task cps by blast
  qed
  define W where "W = {p \<in> ?D. \<exists>u w got cps. lc_task c u = Locking w got (p # cps)}"
  have "finite W" using inv by (simp add: lock_inv_def W_def)
  moreover have "W \<noteq> {}" using waits [OF busy] unfolding W_def by fastforce
  ultimately have "Max (node_rank r ` W) \<in> node_rank r ` W" by simp
  then obtain p where p: "p \<in> W" "node_rank r p = Max (node_rank r ` W)" by auto
  have top: "node_rank r q \<le> node_rank r p" if "q \<in> W" for q
    using that \<open>finite W\<close> p(2) by simp
  from p(1) obtain u w got cps where "lc_task c u = Locking w got (p # cps)" by (auto simp: W_def)
  with waits [of u] have "lx_lock (lc_locks c) p \<noteq> Rw_free" by auto
  with inv obtain v where v: "p \<in> task_nodes (lc_task c v)"
    by (cases "lx_lock (lc_locks c) p") (auto simp: lock_inv_def)
  then have "lc_task c v \<noteq> Idle" by auto
  from waits [OF this] obtain w' got' q cps' where q: "lc_task c v = Locking w' got' (q # cps')" "q \<in> ?D" by blast
  with v ok [of v] have "node_rank r p < node_rank r q" by (auto simp: sorted_wrt_append)
  moreover have "q \<in> W" using q by (auto simp: W_def)
  ultimately show False using top [of q] by simp
qed

text \<open>
  C22: As long as some numbering of the nodes agrees with the order in which they are locked, threads that
  call vnode operations in any number and order never wait for each other in a circle: whenever a thread
  is inside a wrapper, some thread inside one can go on.
\<close>

theorem ordered_locks_progress:
  assumes "rank_agrees r (lx_nodes s)" and "finite (dom (lx_nodes s))" and "lx_lock s = (\<lambda>_. Rw_free)"
    and "(sup lock_step lock_begin)\<^sup>*\<^sup>* (all_idle s) c" and "lc_task c t \<noteq> Idle"
  shows "\<exists>c1. lock_step c c1"
proof -
  have "lock_inv r c" using assms(4)
  proof (induction rule: rtranclp_induct)
    case base
    with assms(1-3) show ?case by (simp add: lock_inv_def all_idle_def)
  next
    case (step c c1)
    then show ?case by (auto dest: lock_step_inv lock_begin_inv)
  qed
  from lock_inv_progress [OF this assms(5)] show ?thesis .
qed


text \<open>A rename in the root directory, at 16, of a file at 32.\<close>

lemma ordered_locks_progress_witness:
  "\<exists>c1. lock_step (all_idle (example_locks [16 \<mapsto> example_node 1 1 VDIR, 32 \<mapsto> example_node 7 1 VREG])
     \<lparr>lc_task := (\<lambda>_. Idle)(3 := Locking (fuse_biglock_vnop (\<lambda>vp. vp) (Vn_rename 16 32 16 None)) [] [0, 16, 32])\<rparr>) c1"
proof -
  let ?nodes = "[16 \<mapsto> example_node 1 1 VDIR, 32 \<mapsto> example_node 7 1 VREG]"
  let ?c = "all_idle (example_locks ?nodes)" and ?w = "fuse_biglock_vnop (\<lambda>vp. vp) (Vn_rename 16 32 16 None)"
  have "lock_begin ?c (?c\<lparr>lc_task := (lc_task ?c)(3 := Locking ?w [] [0, 16, 32])\<rparr>)"
    by (rule lock_begin.intros) (auto simp: all_idle_def wrapper_ok_def wrapper_list_def lock_eval)
  then have run: "(sup lock_step lock_begin)\<^sup>*\<^sup>* ?c (?c\<lparr>lc_task := (\<lambda>_. Idle)(3 := Locking ?w [] [0, 16, 32])\<rparr>)"
    by (intro r_into_rtranclp) (simp add: all_idle_def)
  show ?thesis
    by (rule ordered_locks_progress [OF _ _ _ run, of "\<lambda>p. p" 3])
      (simp_all add: rank_agrees_def lock_eval all_idle_def)
qed

subsection \<open>A deadlock\<close>

text \<open>
  Three directories: \<open>p\<close> at 16, \<open>q\<close> at 32, \<open>r\<close> at 48, where \<open>p\<close> is in \<open>r\<close>; a file at 64 in \<open>p\<close>
  and one at 80 in \<open>q\<close>. One thread moves the first file from \<open>p\<close> to \<open>q\<close>, one the second from \<open>q\<close> to
  \<open>r\<close>, one renames \<open>p\<close> in \<open>r\<close>.
\<close>

definition cycle_nodes :: "hnp \<rightharpoonup> fuse_vnode_data" where
  "cycle_nodes = [16 \<mapsto> example_node 2 4 VDIR, 32 \<mapsto> example_node 3 1 VDIR, 48 \<mapsto> example_node 4 1 VDIR,
     64 \<mapsto> example_node 5 2 VREG, 80 \<mapsto> example_node 6 3 VREG]"

definition cycle_call :: "thread \<Rightarrow> wrapper" where
  "cycle_call t = fuse_biglock_vnop (\<lambda>vp. vp)
     (if t = 1 then Vn_rename 16 64 32 None else if t = 2 then Vn_rename 32 80 48 None else Vn_rename 48 16 48 None)"

lemma cycle_lists:
  "wrapper_list cycle_nodes (cycle_call 1) = Some [0, 16, 32, 64]"
  "wrapper_list cycle_nodes (cycle_call 2) = Some [0, 32, 48, 80]"
  "wrapper_list cycle_nodes (cycle_call 3) = Some [0, 48, 16]"
  "wrapper_ok cycle_nodes (cycle_call t)"
  by (auto simp: wrapper_list_def wrapper_ok_def cycle_call_def cycle_nodes_def lock_eval)

text \<open>A thread that begins and gets its first lock.\<close>

definition grab :: "thread \<Rightarrow> hnp \<Rightarrow> wrapper \<Rightarrow> hnp list \<Rightarrow> lock_config \<Rightarrow> lock_config" where
  "grab t p w cps c = c
     \<lparr>lc_locks := (lc_locks c)\<lparr>lx_lock := (lx_lock (lc_locks c))(p := Rw_exclusive t),
                               lx_owner := (lx_owner (lc_locks c))(p := Ow_thread t)\<rparr>,
      lc_task := (lc_task c)(t := Locking w [p] cps)\<rparr>"

lemma grab_steps:
  assumes "lc_task c t = Idle" and "wrapper_ok (lx_nodes (lc_locks c)) w"
    and "wrapper_list (lx_nodes (lc_locks c)) w = Some (0 # p # cps)" and "p \<noteq> 0"
    and "lx_lock (lc_locks c) p = Rw_free" and "lx_nodes (lc_locks c) p = Some n" and "fv_c_flag n = 0"
    and "(sup lock_step lock_begin)\<^sup>*\<^sup>* c0 c"
  shows "(sup lock_step lock_begin)\<^sup>*\<^sup>* c0 (grab t p w cps c)"
proof -
  let ?c1 = "c\<lparr>lc_task := (lc_task c)(t := Locking w [] (0 # p # cps))\<rparr>"
  let ?c2 = "c\<lparr>lc_task := (lc_task c)(t := Locking w [] (p # cps))\<rparr>"
  have "lock_begin c ?c1" by (rule lock_begin.intros) (use assms in auto)
  moreover have "lock_step ?c1 ?c2" using pass_null [of ?c1 t w "[]" "p # cps"] by simp
  moreover have "lock_step ?c2 (grab t p w cps c)"
    using take_node [of ?c2 t w "[]" p cps] assms(4-7) by (simp add: grab_def fusefs_lock_def rw_take_def Let_def)
  ultimately show ?thesis using assms(8)
    by (meson rtranclp.rtrancl_into_rtrancl sup2I1 sup2I2)
qed

definition cycle_stuck :: lock_config where
  "cycle_stuck = grab 3 48 (cycle_call 3) [16] (grab 2 32 (cycle_call 2) [48, 80]
     (grab 1 16 (cycle_call 1) [32, 64] (all_idle (example_locks cycle_nodes))))"

lemma cycle_stuck_simps:
  "lc_big cycle_stuck = None" "lx_nodes (lc_locks cycle_stuck) = cycle_nodes"
  "lx_lock (lc_locks cycle_stuck) = (\<lambda>_. Rw_free)(16 := Rw_exclusive 1, 32 := Rw_exclusive 2, 48 := Rw_exclusive 3)"
  "lc_task cycle_stuck = (\<lambda>_. Idle)(1 := Locking (cycle_call 1) [16] [32, 64],
     2 := Locking (cycle_call 2) [32] [48, 80], 3 := Locking (cycle_call 3) [48] [16])"
  by (simp_all add: cycle_stuck_def grab_def all_idle_def example_locks_def)

text \<open>
  C23: The order is not free of circles: with a directory below the entry that holds it in memory, three
  renames can each have the lock of a directory and wait for the next one's for ever.
\<close>

theorem rename_order_deadlocks:
  "(sup lock_step lock_begin)\<^sup>*\<^sup>* (all_idle (example_locks cycle_nodes)) cycle_stuck \<and>
   (\<nexists>c1. lock_step cycle_stuck c1)"
proof
  have nodes: "lx_nodes (example_locks cycle_nodes) = cycle_nodes" "lx_lock (example_locks cycle_nodes) = (\<lambda>_. Rw_free)"
    by (simp_all add: example_locks_def)
  have "cycle_nodes 16 = Some (example_node 2 4 VDIR)" "cycle_nodes 32 = Some (example_node 3 1 VDIR)"
      "cycle_nodes 48 = Some (example_node 4 1 VDIR)" by (simp_all add: cycle_nodes_def)
  then show "(sup lock_step lock_begin)\<^sup>*\<^sup>* (all_idle (example_locks cycle_nodes)) cycle_stuck"
    unfolding cycle_stuck_def
    by (intro grab_steps rtranclp.rtrancl_refl) (simp_all add: grab_def all_idle_def nodes cycle_lists [simplified], simp_all)
  show "\<nexists>c1. lock_step cycle_stuck c1"
  proof
    assume "\<exists>c1. lock_step cycle_stuck c1"
    then obtain c1 where "lock_step cycle_stuck c1" by blast
    then show False
      by cases (auto simp: cycle_stuck_simps fusefs_lock_def rw_take_def Let_def cycle_nodes_def split: if_splits option.splits)
  qed
qed

end
