(* ===== verification/Fuse_Vfs.thy ===== *)
theory Fuse_Vfs
  imports Fuse_Open Fuse_Example
begin

text \<open>
  The operations on a whole volume (\<open>fuse_vfsops.c\<close>) and the handshake with the daemon
  (\<open>fuse_internal.c\<close>).
\<close>

section \<open>The handshake\<close>

abbreviation (input) EPROTONOSUPPORT :: int where "EPROTONOSUPPORT \<equiv> 43"
abbreviation (input) EALREADY :: int where "EALREADY \<equiv> 37"
abbreviation (input) EROFS :: int where "EROFS \<equiv> 30"
abbreviation (input) FUSE_CASE_INSENSITIVE :: u32 where "FUSE_CASE_INSENSITIVE \<equiv> 0x20000000"
abbreviation (input) FUSE_VOL_RENAME :: u32 where "FUSE_VOL_RENAME \<equiv> 0x40000000"
abbreviation (input) FUSE_XTIMES :: u32 where "FUSE_XTIMES \<equiv> 0x80000000"

text \<open>
  What the answer to \<open>FUSE_INIT\<close> does to the session: the errno, which the code keeps to itself, and
  the session before it is told that it has begun.
\<close>

definition init_answer :: "u8 list \<Rightarrow> fuse_data \<Rightarrow> int \<times> fuse_data" where
  "init_answer answ d =
     (let fiio = get_init_out answ;
          flag = (\<lambda>f s (d :: fuse_data). if flag_set (io_flags fiio) f then d\<lparr>fd_dataflags := fd_dataflags d OR s\<rparr> else d);
          flags = (\<lambda>d. flag FUSE_XTIMES FSESS_XTIMES (flag FUSE_VOL_RENAME FSESS_VOL_RENAME
                     (flag FUSE_CASE_INSENSITIVE FSESS_CASE_INSENSITIVE d)))
      in if io_major fiio < 7 \<or> io_minor fiio < 5 then (EPROTONOSUPPORT, d)
         else let d1 = d\<lparr>fd_libabi_major := io_major fiio, fd_libabi_minor := io_minor fiio\<rparr>
              in if fuse_libabi_geq d1 7 5
                 then if length answ = sizeof_init_out then (0, flags (d1\<lparr>fd_max_write := io_max_write fiio\<rparr>))
                      else (EINVAL, flags d1)
                 else (0, flags (d1\<lparr>fd_max_write := 4096\<rparr>)))"

definition fuse_internal_init_synchronous :: "u8 list \<Rightarrow> fuse_world \<Rightarrow> (fuse_world, int) upcall" where
  "fuse_internal_init_synchronous answ w =
     (let (err, d) = init_answer answ (w_data w)
      in fuse_drop (set_data (\<lambda>_. d) w) (\<lambda>w.
           Done 0 (set_data (\<lambda>d.
             let d1 = (if err \<noteq> 0 then fdata_set_dead d else d)
             in d1\<lparr>fd_dataflags := fd_dataflags d1 OR FSESS_INITED, fd_log := fd_log d1 @ [Wakeup_ticketer]\<rparr>) w)))"

definition fuse_internal_send_init :: "vfs_context \<Rightarrow> fuse_world \<Rightarrow> (fuse_world, int) upcall" where
  "fuse_internal_send_init ctx w =
     ask \<lparr>rq_op = FUSE_INIT, rq_nodeid = 0,
          rq_body = b32 7 @ b32 8 @ b32 (fd_iosize (w_data w) * 16) @ b32 0, rq_ctx = Some ctx\<rparr> w (\<lambda>x w.
       if fr_err x \<noteq> 0 then Done (fr_err x) w
       else fuse_internal_init_synchronous (fr_answ x) w)"

section \<open>The root\<close>

definition root_entry :: fuse_entry_out where
  "root_entry = \<lparr>eo_nodeid = 1, eo_generation = 0, eo_entry_valid = 0, eo_attr_valid = 0, eo_entry_valid_nsec = 0,
     eo_attr_valid_nsec = 0, eo_attr = \<lparr>at_ino = 1, at_size = 0xFFFFFFFFFFFFFFFF, at_blocks = 0, at_atime = 0,
       at_mtime = 0, at_ctime = 0, at_crtime = 0, at_atimensec = 0, at_mtimensec = 0, at_ctimensec = 0,
       at_crtimensec = 0, at_mode = 0x4000, at_nlink = 0, at_uid = 0, at_gid = 0, at_rdev = 0, at_flags = 0\<rparr>\<rparr>"

text \<open>The errno and the vnode the caller's pointer gets.\<close>

definition fuse_vfsop_root :: "fuse_world \<Rightarrow> (fuse_world, int \<times> vnode option) upcall" where
  "fuse_vfsop_root w =
     (case fd_rootvp (w_data w) of
        Some vp \<Rightarrow> Call (K_vnode_get vp) w (\<lambda>x w. Done (kr_err x, Some vp) w)
      | None \<Rightarrow>
          upcall_bind (FSNodeGetOrCreateFileVNodeByID FN_IS_ROOT root_entry None w) (\<lambda>(err, vp) w.
            Done (err, vp) (if err = 0 then set_data (\<lambda>d. d\<lparr>fd_rootvp := vp\<rparr>) w else w)))"

section \<open>The attributes of the volume\<close>

datatype vol_capability =
    Fmt_persistentobjectids | Fmt_symboliclinks | Fmt_hardlinks | Fmt_journal | Fmt_journal_active
  | Fmt_no_root_times | Fmt_sparse_files | Fmt_zero_runs | Fmt_case_sensitive | Fmt_case_preserving
  | Fmt_fast_statfs | Fmt_2tb_filesize | Fmt_opendenymodes | Fmt_hidden_files | Fmt_path_from_id
  | Int_searchfs | Int_attrlist | Int_nfsexport | Int_readdirattr | Int_exchangedata | Int_copyfile
  | Int_allocate | Int_vol_rename | Int_advlock | Int_flock | Int_extended_security | Int_useraccess
  | Int_manlock | Int_extended_attr | Int_namedstreams

datatype vol_attribute =
    Cmn_name | Cmn_devid | Cmn_fsid | Cmn_objtype | Cmn_objid | Cmn_parobjid | Cmn_crtime | Cmn_modtime
  | Cmn_chgtime | Cmn_bkuptime | Cmn_ownerid | Cmn_grpid | Cmn_accessmask | Cmn_flags | Cmn_extended_security
  | Vol_fstype | Vol_signature | Vol_size | Vol_spacefree | Vol_spaceavail | Vol_ioblocksize | Vol_filecount
  | Vol_mountpoint | Vol_name | Vol_mountflags | Vol_mounteddevice | Vol_capabilities | Vol_attributes
  | Dir_linkcount
  | File_linkcount | File_totalsize | File_allocsize | File_ioblocksize | File_devtype | File_datalength
  | File_dataallocsize

text \<open>
  \<open>fa_vol_name\<close> is the name where the caller asked for it (\<open>fa_name_active\<close>) and there is one. The four
  times and \<open>f_carbon_fsid\<close>, which are returned as 0, are left out, and so is \<open>f_signature\<close>, a constant.
\<close>

record vfs_attr =
  fa_name_active :: bool
  fa_filecount :: u64
  fa_bsize :: u32
  fa_iosize :: u32
  fa_blocks :: u64
  fa_bfree :: u64
  fa_bavail :: u64
  fa_bused :: u64
  fa_files :: u64
  fa_ffree :: u64
  fa_capabilities :: "vol_capability list"
  fa_cap_valid :: "vol_capability list"
  fa_validattr :: "vol_attribute list"
  fa_nativeattr :: "vol_attribute list"
  fa_fssubtype :: u32
  fa_vol_name :: "string option"

definition volume_capabilities :: "fuse_data \<Rightarrow> vol_capability list" where
  "volume_capabilities d =
     [Fmt_symboliclinks, Fmt_hardlinks, Fmt_no_root_times, Fmt_case_preserving, Fmt_2tb_filesize,
      Int_attrlist, Int_advlock, Int_flock, Int_extended_security] @
     (if flag_set (fd_dataflags d) FSESS_NATIVE_XATTR then [Int_extended_attr] else []) @
     (if fuse_implemented d (FSESS_NOIMPLBIT FUSE_EXCHANGE) then [Int_exchangedata] else []) @
     (if flag_set (fd_dataflags d) FSESS_CASE_INSENSITIVE then [] else [Fmt_case_sensitive])"

definition known_capabilities :: "vol_capability list" where
  "known_capabilities =
     [Fmt_persistentobjectids, Fmt_symboliclinks, Fmt_hardlinks, Fmt_journal, Fmt_journal_active,
      Fmt_no_root_times, Fmt_sparse_files, Fmt_zero_runs, Fmt_case_sensitive, Fmt_case_preserving,
      Fmt_fast_statfs, Fmt_2tb_filesize, Fmt_opendenymodes, Fmt_hidden_files, Fmt_path_from_id,
      Int_searchfs, Int_attrlist, Int_nfsexport, Int_readdirattr, Int_exchangedata, Int_copyfile,
      Int_allocate, Int_vol_rename, Int_advlock, Int_flock, Int_extended_security, Int_useraccess,
      Int_manlock, Int_extended_attr, Int_namedstreams]"

definition volume_attributes :: "fuse_data \<Rightarrow> vol_attribute list" where
  "volume_attributes d =
     [Cmn_name, Cmn_devid, Cmn_fsid, Cmn_objtype, Cmn_objid, Cmn_parobjid, Cmn_modtime, Cmn_ownerid, Cmn_grpid,
      Cmn_accessmask, Cmn_flags, Cmn_extended_security,
      Vol_fstype, Vol_signature, Vol_size, Vol_spacefree, Vol_spaceavail, Vol_ioblocksize, Vol_filecount,
      Vol_mountpoint, Vol_name, Vol_mountflags, Vol_mounteddevice, Vol_capabilities, Vol_attributes,
      Dir_linkcount, File_linkcount, File_totalsize, File_allocsize, File_ioblocksize, File_devtype,
      File_datalength, File_dataallocsize] @
     (if flag_set (fd_dataflags d) FSESS_XTIMES then [Cmn_bkuptime, Cmn_chgtime, Cmn_crtime] else [])"

definition handle_capabilities_and_attributes :: "vfs_attr \<Rightarrow> fuse_data \<Rightarrow> vfs_attr \<times> fuse_data" where
  "handle_capabilities_and_attributes attr d =
     (let d1 = fuse_clear_implemented (FSESS_NOIMPLBIT FUSE_SETVOLNAME) d;
          d2 = (if flag_set (fd_dataflags d) FSESS_XTIMES then d1
                else fuse_clear_implemented (FSESS_NOIMPLBIT FUSE_GETXTIMES) d1)
      in (attr\<lparr>fa_capabilities := volume_capabilities d, fa_cap_valid := known_capabilities,
               fa_validattr := volume_attributes d, fa_nativeattr := volume_attributes d\<rparr>, d2))"

abbreviation (input) FUSE_DEFAULT_BLOCKSIZE :: u32 where "FUSE_DEFAULT_BLOCKSIZE \<equiv> 4096"
abbreviation (input) FUSE_MIN_BLOCKSIZE :: u32 where "FUSE_MIN_BLOCKSIZE \<equiv> 512"
abbreviation (input) FUSE_MAX_BLOCKSIZE :: u32 where "FUSE_MAX_BLOCKSIZE \<equiv> 0x20000"
abbreviation (input) FUSE_DEFAULT_IOSIZE :: u32 where "FUSE_DEFAULT_IOSIZE \<equiv> 0x10000"
abbreviation (input) FUSE_MIN_IOSIZE :: u32 where "FUSE_MIN_IOSIZE \<equiv> 512"
abbreviation (input) FUSE_MAX_IOSIZE :: u32 where "FUSE_MAX_IOSIZE \<equiv> 0x100000"

text \<open>
  The sizes of \<open>dostatfs\<close>: the defaults for 0, rounded within their limits, the transfer size at least
  the block size.
\<close>

definition statfs_sizes :: "fuse_kstatfs \<Rightarrow> fuse_kstatfs option" where
  "statfs_sizes st =
     (let bsize = (if st_bsize st = 0 then FUSE_DEFAULT_IOSIZE else st_bsize st);
          frsize = (if st_frsize st = 0 then FUSE_DEFAULT_BLOCKSIZE else st_frsize st)
      in do {
        bsize1 \<leftarrow> fuse_round_size bsize FUSE_MIN_IOSIZE FUSE_MAX_IOSIZE;
        frsize1 \<leftarrow> fuse_round_size frsize FUSE_MIN_BLOCKSIZE FUSE_MAX_BLOCKSIZE;
        Some (st\<lparr>st_bsize := (if bsize1 < frsize1 then frsize1 else bsize1), st_frsize := frsize1\<rparr>)
      })"

definition zero_kstatfs :: fuse_kstatfs where
  "zero_kstatfs = \<lparr>st_blocks = 0, st_bfree = 0, st_bavail = 0, st_files = 0, st_ffree = 0, st_bsize = 0,
     st_namelen = 0, st_frsize = 0\<rparr>"

text \<open>The rest of \<open>fuse_vfsop_getattr\<close> once it has the numbers, from the daemon or made up.\<close>

definition return_statfs ::
  "bool \<Rightarrow> bool \<Rightarrow> vfs_attr \<Rightarrow> fuse_kstatfs \<Rightarrow> fuse_world \<Rightarrow> (fuse_world, int \<times> vfs_attr) upcall" where
  "return_statfs deading faking attr st0 w =
     need (statfs_sizes st0) (\<lambda>st.
       let a1 = attr\<lparr>fa_filecount := st_files st, fa_bsize := st_frsize st, fa_iosize := st_bsize st,
                     fa_blocks := st_blocks st, fa_bfree := st_bfree st, fa_bavail := st_bavail st,
                     fa_bused := st_blocks st - st_bfree st, fa_files := st_files st, fa_ffree := st_ffree st\<rparr>;
           (a2, d) = handle_capabilities_and_attributes a1 (w_data w);
           a3 = a2\<lparr>fa_fssubtype := (if deading then -1 else fd_fssubtype d)\<rparr>;
           a4 = (if fa_name_active attr \<and> fd_volname d \<noteq> []
                 then a3\<lparr>fa_vol_name := Some (take 1023 (fd_volname d))\<rparr> else a3);
           w1 = set_data (\<lambda>_. d) w
       in if faking then Done (0, a4) w1 else fuse_drop w1 (Done (0, a4)))"

definition fuse_vfsop_getattr :: "vfs_attr \<Rightarrow> vfs_context \<Rightarrow> fuse_world \<Rightarrow> (fuse_world, int \<times> vfs_attr) upcall" where
  "fuse_vfsop_getattr attr ctx w =
     (if \<not> flag_set (fd_dataflags (w_data w)) FSESS_INITED then return_statfs False True attr zero_kstatfs w
      else ask \<lparr>rq_op = FUSE_STATFS, rq_nodeid = FUSE_ROOT_ID, rq_body = [], rq_ctx = Some ctx\<rparr> w (\<lambda>x w.
             if fr_err x = ENOTCONN then return_statfs True True attr zero_kstatfs w
             else if fr_err x \<noteq> 0 then Done (fr_err x, attr) w
             else return_statfs False False attr (get_kstatfs (fr_answ x)) w))"

section \<open>Writing back a volume\<close>

fun sync_handles :: "fufh_type list \<Rightarrow> vnode \<Rightarrow> vfs_context \<Rightarrow> fuse_world \<Rightarrow> (fuse_world, unit) upcall" where
  "sync_handles [] vp ctx w = Done () w"
| "sync_handles (t # ts) vp ctx w =
     need (VTOFUD vp w) (\<lambda>v.
       if FUFH_IS_VALID (fv_fufh v t)
       then upcall_bind (fuse_internal_fsync vp (Some ctx) (fv_fufh v t) True w) (\<lambda>_ w. sync_handles ts vp ctx w)
       else sync_handles ts vp ctx w)"

text \<open>\<open>fuse_sync_callback\<close>: whether the iteration is to stop.\<close>

definition fuse_sync_callback :: "vfs_context \<Rightarrow> vnode \<Rightarrow> fuse_world \<Rightarrow> (fuse_world, bool) upcall" where
  "fuse_sync_callback ctx vp w =
     Call (K_vnode_hasdirtyblks vp) w (\<lambda>x w.
       if kr_err x = 0 then Done False w
       else if fuse_isdeadfs_mp (w_data w) then Done True w
       else need (VTOFUD vp w) (\<lambda>v.
         if \<not> fuse_implemented (w_data w) (FSESS_NOIMPLBIT (if vnode_isdir v then FUSE_FSYNCDIR else FUSE_FSYNC))
         then Done False w
         else upcall_bind (sync_handles fufh_types vp ctx (emit (Ef_cluster_push vp) w)) (\<lambda>_. Done False)))"

text \<open>\<open>vnode_iterate\<close> over the vnodes \<open>vps\<close> that the kernel hands out, with references on them.\<close>

fun sync_vnodes :: "vfs_context \<Rightarrow> vnode list \<Rightarrow> fuse_world \<Rightarrow> (fuse_world, unit) upcall" where
  "sync_vnodes ctx [] w = Done () w"
| "sync_vnodes ctx (vp # vps) w =
     upcall_bind (fuse_sync_callback ctx vp w) (\<lambda>stop w. if stop then Done () w else sync_vnodes ctx vps w)"

definition fuse_vfsop_sync :: "vnode list \<Rightarrow> bool \<Rightarrow> vfs_context \<Rightarrow> fuse_world \<Rightarrow> (fuse_world, int) upcall" where
  "fuse_vfsop_sync vps isupdate ctx w =
     (if fuse_isdeadfs_mp (w_data w) then Done 0 w
      else if isupdate then Done 0 w
      else if w_rdonly w then Done EROFS w
      else upcall_bind (sync_vnodes ctx vps w) (\<lambda>_. Done 0))"

section \<open>Renaming a volume\<close>

text \<open>\<open>owner\<close> is \<open>f_owner\<close> of the volume, \<open>newname\<close> the name if it is to be set. The errno, and whether it was.\<close>

definition fuse_vfsop_setattr ::
  "u32 \<Rightarrow> string option \<Rightarrow> vfs_context \<Rightarrow> fuse_world \<Rightarrow> (fuse_world, int \<times> bool) upcall" where
  "fuse_vfsop_setattr owner newname ctx w =
     (if \<not> fuse_vfs_context_issuser ctx \<and> cr_uid (ctx_ucred ctx) \<noteq> owner then Done (EACCES, False) w
      else case newname of
        None \<Rightarrow> Done (0, False) w
      | Some name \<Rightarrow>
          if \<not> fuse_implemented (w_data w) (FSESS_NOIMPLBIT FUSE_SETVOLNAME) then Done (ENOTSUP, False) w
          else if name = [] then Done (EINVAL, False) w
          else if length name \<ge> 1024 then Done (ENAMETOOLONG, False) w
          else upcall_bind (fuse_vfsop_root w) (\<lambda>(err, vp) w.
            if err \<noteq> 0 then Done (err, False) w
            else need vp (\<lambda>root.
              ask_errno FUSE_SETVOLNAME root (map (\<lambda>c. Some (of_char c)) name @ [Some 0]) (Some ctx) w (\<lambda>err w.
                let w1 = emit (Ef_vnode_put root) w
                in if err = ENOSYS
                   then Done (ENOTSUP, False) (set_data (fuse_clear_implemented (FSESS_NOIMPLBIT FUSE_SETVOLNAME)) w1)
                   else if err \<noteq> 0 then Done (err, False) w1
                   else Done (0, True) (set_data (\<lambda>d. d\<lparr>fd_volname := name\<rparr>) w1)))))"

section \<open>Mount options\<close>

text \<open>The arguments of the mount call, with their flags.\<close>

record fuse_mount_args =
  ma_fsname :: string
  ma_fstypename :: string
  ma_volname :: string
  ma_altflags :: u64
  ma_blocksize :: u32
  ma_daemon_timeout :: u32
  ma_fsid :: u32
  ma_fssubtype :: u32
  ma_init_timeout :: u32
  ma_iosize :: u32
  ma_random :: u32
  ma_rdev :: u32

abbreviation (input) FUSE_MOPT_ALLOW_OTHER :: u64 where "FUSE_MOPT_ALLOW_OTHER \<equiv> 0x1"
abbreviation (input) FUSE_MOPT_ALLOW_ROOT :: u64 where "FUSE_MOPT_ALLOW_ROOT \<equiv> 0x4"
abbreviation (input) FUSE_MOPT_AUTO_XATTR :: u64 where "FUSE_MOPT_AUTO_XATTR \<equiv> 0x8"
abbreviation (input) FUSE_MOPT_BLOCKSIZE :: u64 where "FUSE_MOPT_BLOCKSIZE \<equiv> 0x10"
abbreviation (input) FUSE_MOPT_DEFAULT_PERMISSIONS :: u64 where "FUSE_MOPT_DEFAULT_PERMISSIONS \<equiv> 0x80"
abbreviation (input) FUSE_MOPT_DEFER_PERMISSIONS :: u64 where "FUSE_MOPT_DEFER_PERMISSIONS \<equiv> 0x100"
abbreviation (input) FUSE_MOPT_DIRECT_IO :: u64 where "FUSE_MOPT_DIRECT_IO \<equiv> 0x200"
abbreviation (input) FUSE_MOPT_EXTENDED_SECURITY :: u64 where "FUSE_MOPT_EXTENDED_SECURITY \<equiv> 0x400"
abbreviation (input) FUSE_MOPT_FSID :: u64 where "FUSE_MOPT_FSID \<equiv> 0x800"
abbreviation (input) FUSE_MOPT_FSTYPENAME :: u64 where "FUSE_MOPT_FSTYPENAME \<equiv> 0x4000"
abbreviation (input) FUSE_MOPT_IOSIZE :: u64 where "FUSE_MOPT_IOSIZE \<equiv> 0x10000"
abbreviation (input) FUSE_MOPT_JAIL_SYMLINKS :: u64 where "FUSE_MOPT_JAIL_SYMLINKS \<equiv> 0x20000"
abbreviation (input) FUSE_MOPT_KILL_ON_UNMOUNT :: u64 where "FUSE_MOPT_KILL_ON_UNMOUNT \<equiv> 0x40000"
abbreviation (input) FUSE_MOPT_LOCALVOL :: u64 where "FUSE_MOPT_LOCALVOL \<equiv> 0x80000"
abbreviation (input) FUSE_MOPT_NEGATIVE_VNCACHE :: u64 where "FUSE_MOPT_NEGATIVE_VNCACHE \<equiv> 0x100000"
abbreviation (input) FUSE_MOPT_NO_ALERTS :: u64 where "FUSE_MOPT_NO_ALERTS \<equiv> 0x200000"
abbreviation (input) FUSE_MOPT_NO_APPLEDOUBLE :: u64 where "FUSE_MOPT_NO_APPLEDOUBLE \<equiv> 0x400000"
abbreviation (input) FUSE_MOPT_NO_APPLEXATTR :: u64 where "FUSE_MOPT_NO_APPLEXATTR \<equiv> 0x800000"
abbreviation (input) FUSE_MOPT_NO_ATTRCACHE :: u64 where "FUSE_MOPT_NO_ATTRCACHE \<equiv> 0x1000000"
abbreviation (input) FUSE_MOPT_NO_BROWSE :: u64 where "FUSE_MOPT_NO_BROWSE \<equiv> 0x2000000"
abbreviation (input) FUSE_MOPT_NO_LOCALCACHES :: u64 where "FUSE_MOPT_NO_LOCALCACHES \<equiv> 0x4000000"
abbreviation (input) FUSE_MOPT_NO_READAHEAD :: u64 where "FUSE_MOPT_NO_READAHEAD \<equiv> 0x8000000"
abbreviation (input) FUSE_MOPT_NO_SYNCONCLOSE :: u64 where "FUSE_MOPT_NO_SYNCONCLOSE \<equiv> 0x10000000"
abbreviation (input) FUSE_MOPT_NO_SYNCWRITES :: u64 where "FUSE_MOPT_NO_SYNCWRITES \<equiv> 0x20000000"
abbreviation (input) FUSE_MOPT_NO_UBC :: u64 where "FUSE_MOPT_NO_UBC \<equiv> 0x40000000"
abbreviation (input) FUSE_MOPT_NO_VNCACHE :: u64 where "FUSE_MOPT_NO_VNCACHE \<equiv> 0x80000000"
abbreviation (input) FUSE_MOPT_AUTO_CACHE :: u64 where "FUSE_MOPT_AUTO_CACHE \<equiv> 0x800000000"
abbreviation (input) FUSE_MOPT_NATIVE_XATTR :: u64 where "FUSE_MOPT_NATIVE_XATTR \<equiv> 0x1000000000"
abbreviation (input) FUSE_MOPT_SPARSE :: u64 where "FUSE_MOPT_SPARSE \<equiv> 0x2000000000"

text \<open>
  What the kernel keeps of a mount: its flags, the identifier (none for a new one), and the numbers and
  names \<open>statfs\<close> shows.
\<close>

record mount_point =
  mp_dontbrowse :: bool
  mp_noexec :: bool
  mp_synchronous :: bool
  mp_async :: bool
  mp_local :: bool
  mp_locklocal :: bool
  mp_authopaque :: bool
  mp_authopaqueaccess :: bool
  mp_extendedsecurity :: bool
  mp_fsid :: "u32 option"
  mp_fstypename :: "string option"
  mp_mntfromname :: string
  mp_bsize :: u32
  mp_iosize :: u32
  mp_blocks :: u64
  mp_bfree :: u64
  mp_bavail :: u64
  mp_bused :: u64
  mp_files :: u64
  mp_ffree :: u64
  mp_owner :: u32
  mp_fssubtype :: u32
  mp_devblocksize :: u32

text \<open>
  What the kernel answers: whether the caller is a member of the group of administrators, the tunable
  \<open>fuse_allow_other\<close>, and the device numbers in use as file system identifiers.
\<close>

record mount_env =
  en_admin :: bool
  fuse_allow_other :: bool
  en_fsid_used :: "u32 \<Rightarrow> bool"

text \<open>The options without conditions, then those that exclude each other. An error ends the mount.\<close>

definition mopt_flags :: "(u64 \<times> u32) list \<Rightarrow> u64 \<Rightarrow> u32" where
  "mopt_flags ts alt = foldr (\<lambda>(o1, f) m. (if flag_set alt o1 then f else 0) OR m) ts 0"

definition mopt_plain :: "(u64 \<times> u32) list" where
  "mopt_plain =
     [(FUSE_MOPT_NO_ALERTS, FSESS_NO_ALERTS), (FUSE_MOPT_SPARSE, FSESS_SPARSE),
      (FUSE_MOPT_AUTO_CACHE, FSESS_AUTO_CACHE), (FUSE_MOPT_JAIL_SYMLINKS, FSESS_JAIL_SYMLINKS),
      (FUSE_MOPT_NO_APPLEDOUBLE, FSESS_NO_APPLEDOUBLE), (FUSE_MOPT_NO_APPLEXATTR, FSESS_NO_APPLEXATTR),
      (FUSE_MOPT_KILL_ON_UNMOUNT, FSESS_KILL_ON_UNMOUNT), (FUSE_MOPT_NEGATIVE_VNCACHE, FSESS_NEGATIVE_VNCACHE),
      (FUSE_MOPT_NO_SYNCWRITES, FSESS_NO_SYNCWRITES), (FUSE_MOPT_DEFAULT_PERMISSIONS, FSESS_DEFAULT_PERMISSIONS),
      (FUSE_MOPT_DEFER_PERMISSIONS, FSESS_DEFER_PERMISSIONS),
      (FUSE_MOPT_EXTENDED_SECURITY, FSESS_EXTENDED_SECURITY), (FUSE_MOPT_LOCALVOL, FSESS_LOCALVOL)]"

definition mopt_xattr :: "u64 \<Rightarrow> u32 option" where
  "mopt_xattr alt =
     (if flag_set alt FUSE_MOPT_AUTO_XATTR
      then if flag_set alt FUSE_MOPT_NATIVE_XATTR then None else Some FSESS_AUTO_XATTR
      else Some (if flag_set alt FUSE_MOPT_NATIVE_XATTR then FSESS_NATIVE_XATTR else 0))"

definition mopt_access :: "mount_env \<Rightarrow> vfs_context \<Rightarrow> u64 \<Rightarrow> u32 option" where
  "mopt_access E ctx alt =
     (if flag_set alt FUSE_MOPT_ALLOW_ROOT then if en_admin E then Some FSESS_ALLOW_ROOT else None
      else if flag_set alt FUSE_MOPT_ALLOW_OTHER
      then if fuse_allow_other E \<or> fuse_vfs_context_issuser ctx \<or> en_admin E then Some FSESS_ALLOW_OTHER else None
      else Some 0)"

definition mopt_caches :: "u64 \<Rightarrow> u32" where
  "mopt_caches alt = mopt_flags
     [(FUSE_MOPT_NO_LOCALCACHES, FSESS_NO_ATTRCACHE OR FSESS_NO_READAHEAD OR FSESS_NO_UBC OR FSESS_NO_VNCACHE),
      (FUSE_MOPT_NO_ATTRCACHE, FSESS_NO_ATTRCACHE), (FUSE_MOPT_NO_READAHEAD, FSESS_NO_READAHEAD),
      (FUSE_MOPT_NO_UBC OR FUSE_MOPT_DIRECT_IO, FSESS_NO_UBC), (FUSE_MOPT_NO_VNCACHE, FSESS_NO_VNCACHE)] alt"

definition mopt_sync :: "u64 \<Rightarrow> u32" where
  "mopt_sync alt =
     (if flag_set alt FUSE_MOPT_NO_SYNCWRITES \<and> flag_set alt FUSE_MOPT_NO_SYNCONCLOSE then FSESS_NO_SYNCONCLOSE else 0)"

definition mopt_fsid :: "fuse_mount_args \<Rightarrow> u32 option" where
  "mopt_fsid a =
     (if flag_set (ma_altflags a) FUSE_MOPT_FSID \<and> ma_fsid a \<noteq> 0 then Some (push_bit 24 255 OR ma_fsid a) else None)"

text \<open>The kernel's side of the options.\<close>

definition mopt_mount :: "fuse_mount_args \<Rightarrow> mount_point \<Rightarrow> mount_point" where
  "mopt_mount a mp =
     (let alt = ma_altflags a
      in mp\<lparr>mp_locklocal := True, mp_dontbrowse := mp_dontbrowse mp \<or> flag_set alt FUSE_MOPT_NO_BROWSE,
            mp_fstypename := (if flag_set alt FUSE_MOPT_FSTYPENAME then Some (''fusefs_'' @ ma_fstypename a)
                              else mp_fstypename mp),
            mp_fsid := mopt_fsid a,
            mp_synchronous := \<not> flag_set alt FUSE_MOPT_NO_SYNCWRITES, mp_async := flag_set alt FUSE_MOPT_NO_SYNCWRITES,
            mp_noexec := mp_noexec mp \<or> flag_set (mopt_caches alt) FSESS_NO_UBC,
            mp_authopaque := \<not> flag_set alt FUSE_MOPT_DEFAULT_PERMISSIONS, mp_authopaqueaccess := True,
            mp_extendedsecurity := mp_extendedsecurity mp \<or> flag_set alt FUSE_MOPT_EXTENDED_SECURITY,
            mp_local := mp_local mp \<or> flag_set alt FUSE_MOPT_LOCALVOL\<rparr>)"

text \<open>All checks, in their order: the errno of the first that fails, or the flags and the mount.\<close>

definition mount_options ::
  "mount_env \<Rightarrow> vfs_context \<Rightarrow> fuse_mount_args \<Rightarrow> mount_point \<Rightarrow> int + (u32 \<times> mount_point)" where
  "mount_options E ctx a mp =
     (let alt = ma_altflags a; caches = mopt_caches alt; len = length (ma_fstypename a)
      in if flag_set alt FUSE_MOPT_FSTYPENAME \<and> (len = 0 \<or> len > 7) then Inl EINVAL
         else if ma_daemon_timeout a > 600 then Inl EINVAL
         else if ma_init_timeout a > 300 \<or> ma_init_timeout a < 1 then Inl EINVAL
         else case mopt_xattr alt of None \<Rightarrow> Inl EINVAL | Some xattr \<Rightarrow>
           (case mopt_access E ctx alt of None \<Rightarrow> Inl EPERM | Some access \<Rightarrow>
             if (case mopt_fsid a of None \<Rightarrow> False | Some f \<Rightarrow> en_fsid_used E f) then Inl EPERM
             else if flag_set alt FUSE_MOPT_NEGATIVE_VNCACHE \<and> flag_set caches FSESS_NO_VNCACHE then Inl EINVAL
             else if flag_set alt FUSE_MOPT_NO_SYNCWRITES \<and> flag_set caches (FSESS_NO_READAHEAD OR FSESS_NO_UBC)
             then Inl EINVAL
             else if flag_set alt FUSE_MOPT_DEFAULT_PERMISSIONS \<and> flag_set alt FUSE_MOPT_DEFER_PERMISSIONS
             then Inl EINVAL
             else Inr (mopt_flags mopt_plain alt OR xattr OR access OR caches OR mopt_sync alt, mopt_mount a mp)))"

section \<open>Mounting\<close>

text \<open>
  The mount call works on a device and on the mount. The session belongs to the device; the operations
  above see it as the session of \<open>mw_w\<close>, and what they leave goes back to the device. \<open>mw_private\<close> says
  that the mount has its private data, \<open>mw_count\<close> is the number of mounts.
\<close>

record mount_world =
  mw_mp :: mount_point
  mw_w :: fuse_world
  mw_dev :: fuse_device
  mw_private :: bool
  mw_count :: int

definition load_session :: "mount_world \<Rightarrow> fuse_data \<Rightarrow> fuse_world" where
  "load_session m d = (mw_w m)\<lparr>w_mnt := (w_mnt (mw_w m))\<lparr>mnt_data := d\<rparr>\<rparr>"

definition store_session :: "fuse_world \<Rightarrow> mount_world \<Rightarrow> mount_world" where
  "store_session w m = m\<lparr>mw_w := w, mw_dev := (mw_dev m)\<lparr>dv_data := Some (w_data w)\<rparr>\<rparr>"

text \<open>An operation of the session run in the mount call. A session that is gone is a crash.\<close>

primrec within_mount :: "(fuse_world, 'a) upcall \<Rightarrow> mount_world \<Rightarrow> (mount_world, 'a) upcall" where
  "within_mount (Done a w) m = Done a (store_session w m)"
| "within_mount (Ask r w k) m =
     Ask r (store_session w m) (\<lambda>x m. need (dv_data (mw_dev m)) (\<lambda>d. within_mount (k x (load_session m d)) m))"
| "within_mount (Call c w k) m =
     Call c (store_session w m) (\<lambda>x m. need (dv_data (mw_dev m)) (\<lambda>d. within_mount (k x (load_session m d)) m))"
| "within_mount (Stuck w) m = Stuck (store_session w m)"
| "within_mount Crash m = Crash"

definition in_session :: "(fuse_world \<Rightarrow> (fuse_world, 'a) upcall) \<Rightarrow> mount_world \<Rightarrow> (mount_world, 'a) upcall" where
  "in_session op m = need (dv_data (mw_dev m)) (\<lambda>d. within_mount (op (load_session m d)) m)"

definition upd_session :: "(fuse_data \<Rightarrow> fuse_data) \<Rightarrow> mount_world \<Rightarrow> mount_world" where
  "upd_session f m = m\<lparr>mw_dev := (mw_dev m)\<lparr>dv_data := map_option f (dv_data (mw_dev m))\<rparr>\<rparr>"

text \<open>The error path: the session is not mounted any more, and freed if the daemon has left it.\<close>

definition mount_failed :: "int \<Rightarrow> bool \<Rightarrow> mount_world \<Rightarrow> (mount_world, int) upcall" where
  "mount_failed err mounted m =
     (let m1 = m\<lparr>mw_private := False, mw_count := mw_count m - (if mounted then 1 else 0)\<rparr>
      in case dv_data (mw_dev m) of
           None \<Rightarrow> Done err m1
         | Some d \<Rightarrow>
             let m2 = upd_session (\<lambda>d. d\<lparr>fd_mount_state := FM_NOTMOUNTED\<rparr>) m1
             in if flag_set (fd_dataflags d) FSESS_OPENED then Done err m2
                else need (fuse_device_close_final (mw_dev m2)) (\<lambda>fdev. Done err (m2\<lparr>mw_dev := fdev\<rparr>)))"

text \<open>Taking the session for the mount: the errno and whether the mount is counted.\<close>

definition session_options :: "fuse_mount_args \<Rightarrow> u32 \<Rightarrow> fuse_data \<Rightarrow> fuse_data option" where
  "session_options a mntopts d =
     do {
       blocksize \<leftarrow> fuse_round_size (ma_blocksize a) FUSE_MIN_BLOCKSIZE FUSE_MAX_BLOCKSIZE;
       iosize \<leftarrow> fuse_round_size (ma_iosize a) FUSE_MIN_IOSIZE FUSE_MAX_IOSIZE;
       Some (d\<lparr>fd_dataflags := fd_dataflags d OR mntopts, fd_daemon_timeout := unat (ma_daemon_timeout a),
               fd_daemon_timeout_p := (ma_daemon_timeout a \<noteq> 0), fd_init_timeout := unat (ma_init_timeout a),
               fd_max_read := -1, fd_fssubtype := ma_fssubtype a, fd_mountaltflags := ma_altflags a,
               fd_noimplflags := 0, fd_blocksize := blocksize,
               fd_iosize := (if iosize < blocksize then blocksize else iosize),
               fd_userkernel_bufsize := 0x1000000, fd_volname := take 1023 (ma_volname a)\<rparr>)
     }"

definition mount_flags :: "mount_point \<Rightarrow> fuse_mount \<Rightarrow> fuse_mount" where
  "mount_flags mp mt = mt\<lparr>mnt_synchronous := mp_synchronous mp, mnt_async := mp_async mp,
     mnt_authopaque := mp_authopaque mp, mnt_authopaqueaccess := mp_authopaqueaccess mp,
     mnt_extendedsecurity := mp_extendedsecurity mp, mnt_local := mp_local mp\<rparr>"

definition mount_attach ::
  "vfs_context \<Rightarrow> fuse_mount_args \<Rightarrow> u32 \<Rightarrow> mount_world \<Rightarrow>
     (mount_world \<Rightarrow> (mount_world, int) upcall) \<Rightarrow> (mount_world, int) upcall" where
  "mount_attach ctx a mntopts m k =
     (if ma_random a \<noteq> dv_random (mw_dev m) then Done EINVAL m
      else case dv_data (mw_dev m) of
        None \<Rightarrow> Done ENXIO m
      | Some d \<Rightarrow>
          if fd_mount_state d \<noteq> FM_NOTMOUNTED then Done EALREADY m
          else if \<not> flag_set (fd_dataflags d) FSESS_OPENED then mount_failed ENXIO False m
          else
            let m1 = upd_session (\<lambda>d. d\<lparr>fd_mount_state := FM_MOUNTED\<rparr>) (m\<lparr>mw_count := mw_count m + 1\<rparr>)
            in if fdata_dead_get d then mount_failed ENOTCONN True m1
               else if fuse_vfs_context_issuser ctx \<and> cr_uid (ctx_ucred ctx) \<noteq> cr_uid (fd_daemoncred d)
               then mount_failed EPERM True m1
               else need (session_options a mntopts (d\<lparr>fd_mount_state := FM_MOUNTED\<rparr>)) (\<lambda>d1.
                 k (m1\<lparr>mw_dev := (mw_dev m1)\<lparr>dv_data := Some d1\<rparr>, mw_private := True,
                       mw_mp := (mw_mp m1)\<lparr>mp_mntfromname := take 1023 (ma_fsname a)\<rparr>,
                       mw_w := (mw_w m1)\<lparr>w_mnt := mount_flags (mw_mp m1) (w_mnt (mw_w m1))\<rparr>\<rparr>)))"

text \<open>The numbers \<open>statfs\<close> shows from now on.\<close>

definition mount_statfs :: "fuse_mount_args \<Rightarrow> int \<Rightarrow> vfs_attr \<Rightarrow> fuse_data \<Rightarrow> mount_point \<Rightarrow> mount_point" where
  "mount_statfs a err attr d mp =
     (let mp1 = (if err \<noteq> 0 then mp
                 else mp\<lparr>mp_bsize := fa_bsize attr, mp_iosize := fa_iosize attr, mp_blocks := fa_blocks attr,
                         mp_bfree := fa_bfree attr, mp_bavail := fa_bavail attr, mp_bused := fa_bused attr,
                         mp_files := fa_files attr, mp_ffree := fa_ffree attr,
                         mp_owner := cr_uid (fd_daemoncred d), mp_fssubtype := fd_fssubtype d\<rparr>);
          mp2 = (if flag_set (ma_altflags a) FUSE_MOPT_BLOCKSIZE then mp1\<lparr>mp_bsize := fd_blocksize d\<rparr> else mp1)
      in mp2\<lparr>mp_iosize := fd_iosize d\<rparr>)"

definition no_attr :: vfs_attr where
  "no_attr = \<lparr>fa_name_active = False, fa_filecount = 0, fa_bsize = 0, fa_iosize = 0, fa_blocks = 0, fa_bfree = 0,
     fa_bavail = 0, fa_bused = 0, fa_files = 0, fa_ffree = 0, fa_capabilities = [], fa_cap_valid = [],
     fa_validattr = [], fa_nativeattr = [], fa_fssubtype = 0, fa_vol_name = None\<rparr>"

text \<open>The end of a mount that went well so far: a reference on the root.\<close>

definition mount_root :: "mount_world \<Rightarrow> (mount_world, int) upcall" where
  "mount_root m =
     upcall_bind (in_session fuse_vfsop_root m) (\<lambda>(err, vp) m.
       if err \<noteq> 0 then mount_failed err True m
       else need vp (\<lambda>root.
         Call (K_vnode_ref root) m (\<lambda>x m.
           let m1 = m\<lparr>mw_w := emit (Ef_vnode_put root) (mw_w m)\<rparr>
           in if kr_err x \<noteq> 0 then mount_failed (kr_err x) True m1
              else need (dv_data (mw_dev m1)) (\<lambda>d.
                Done 0 (m1\<lparr>mw_mp := (mw_mp m1)\<lparr>mp_devblocksize := fd_blocksize d\<rparr>\<rparr>)))))"

definition mount_handshake :: "vfs_context \<Rightarrow> fuse_mount_args \<Rightarrow> mount_world \<Rightarrow> (mount_world, int) upcall" where
  "mount_handshake ctx a m =
     upcall_bind (in_session (fuse_internal_send_init ctx) m) (\<lambda>err m.
       if err \<noteq> 0 then mount_failed err True m
       else upcall_bind (in_session (fuse_vfsop_getattr no_attr ctx) m) (\<lambda>(err, attr) m.
         need (dv_data (mw_dev m)) (\<lambda>d.
           let m1 = m\<lparr>mw_mp := mount_statfs a err attr d (mw_mp m)\<rparr>
           in if err \<noteq> 0 then mount_failed err True m1 else mount_root m1)))"

text \<open>\<open>args\<close> are the arguments if they can be copied in; \<open>mw_dev\<close> is the device they name, if any.\<close>

definition fuse_vfsop_mount ::
  "mount_env \<Rightarrow> fuse_mount_args option \<Rightarrow> bool \<Rightarrow> vfs_context \<Rightarrow> mount_world \<Rightarrow> (mount_world, int) upcall" where
  "fuse_vfsop_mount E args isupdate ctx m =
     (if isupdate then Done ENOTSUP m
      else case args of
        None \<Rightarrow> Done EINVAL m
      | Some a \<Rightarrow>
          (case mount_options E ctx a (mw_mp m) of
             Inl err \<Rightarrow> Done err m
           | Inr (mntopts, mp) \<Rightarrow>
               let m1 = m\<lparr>mw_mp := mp, mw_private := False\<rparr>
               in if fuse_device_get (uint (ma_rdev a AND 0xFFFFFF)) = None then Done EINVAL m1
                  else mount_attach ctx a mntopts m1 (mount_handshake ctx a)))"

section \<open>Unmounting\<close>

text \<open>The farewell to a daemon that is alive.\<close>

definition send_destroy :: "vfs_context \<Rightarrow> fuse_world \<Rightarrow> (fuse_world, unit) upcall" where
  "send_destroy ctx w =
     (let dead = Done () \<circ> set_data fdata_set_dead
      in ask \<lparr>rq_op = FUSE_DESTROY, rq_nodeid = FUSE_ROOT_ID, rq_body = [], rq_ctx = Some ctx\<rparr> w (\<lambda>x w.
           if fr_err x = 0 then fuse_drop w dead else dead w))"

definition unmount_finish :: "vnode \<Rightarrow> mount_world \<Rightarrow> (mount_world, int) upcall" where
  "unmount_finish root m =
     need (dv_data (mw_dev m)) (\<lambda>d0.
       Call (K_vflush None True)
         (upd_session (\<lambda>d. d\<lparr>fd_rootvp := None\<rparr>) (m\<lparr>mw_w := emit (Ef_vnode_rele root) (mw_w m)\<rparr>)) (\<lambda>_ m.
         need (dv_data (mw_dev m)) (\<lambda>d.
           let m1 = upd_session (\<lambda>d. d\<lparr>fd_mount_state := FM_NOTMOUNTED\<rparr>)
                      (m\<lparr>mw_private := False, mw_count := mw_count m - 1\<rparr>);
               signal = (\<lambda>m. Done 0 (if fd_daemonpid d0 \<noteq> 0 \<and> flag_set (fd_dataflags d0) FSESS_KILL_ON_UNMOUNT
                                     then m\<lparr>mw_w := emit (Ef_proc_signal (fd_daemonpid d0)) (mw_w m)\<rparr> else m))
           in if flag_set (fd_dataflags d) FSESS_OPENED then signal m1
              else need (fuse_device_close_final (mw_dev m1)) (\<lambda>fdev. signal (m1\<lparr>mw_dev := fdev\<rparr>)))))"

definition unmount_destroy :: "vfs_context \<Rightarrow> vnode \<Rightarrow> mount_world \<Rightarrow> (mount_world, int) upcall" where
  "unmount_destroy ctx root m =
     need (dv_data (mw_dev m)) (\<lambda>d.
       if fdata_dead_get d then unmount_finish root m
       else upcall_bind (in_session (send_destroy ctx) m) (\<lambda>_. unmount_finish root))"

definition fuse_vfsop_unmount :: "bool \<Rightarrow> vfs_context \<Rightarrow> mount_world \<Rightarrow> (mount_world, int) upcall" where
  "fuse_vfsop_unmount forced ctx m =
     (if \<not> mw_private m then Crash
      else need (dv_data (mw_dev m)) (\<lambda>d.
        let early = (\<not> fdata_dead_get d \<and> \<not> flag_set (fd_dataflags d) FSESS_INITED);
            force = (forced \<or> early);
            m1 = (if early then upd_session fdata_set_dead m else m)
        in need (fd_rootvp d) (\<lambda>root.
             Call (K_vflush (Some root) force) m1 (\<lambda>x m.
               if kr_err x \<noteq> 0 then Done (kr_err x) m
               else Call (K_vnode_isinuse root 1) m (\<lambda>x m.
                 if kr_err x \<noteq> 0 \<and> \<not> force then Done EBUSY m
                 else unmount_destroy ctx root m)))))"

end
