(* ===== verification/Fuse_Vfs_Props.thy ===== *)
theory Fuse_Vfs_Props
  imports Fuse_Vfs Fuse_Data
begin

text \<open>
  What the operations on a volume promise: sizes within their limits, options that go together, and what
  mounts and unmounts leave behind.
\<close>

section \<open>Sizes\<close>

lemma round_size_power:
  assumes "fuse_round_size sz (2 ^ i) (2 ^ j) = Some r" and "i \<le> j" and "j \<le> 31"
  shows "(\<exists>k. r = 2 ^ k) \<and> 2 ^ i \<le> r \<and> r \<le> 2 ^ j"
proof -
  have "(2::u32) ^ i \<le> 2 ^ j" using assms(2,3) by (simp add: word_le_nat_alt unat_pow32)
  from fuse_round_size_correct [OF this, of sz] assms(1) obtain m
    where r: "r = max (2 ^ i) (min (2 ^ m) (2 ^ j))" and le: "2 ^ i \<le> r" "r \<le> 2 ^ j"
    by (metis option.inject)
  then have "r = 2 ^ i \<or> r = 2 ^ m \<or> r = 2 ^ j" by (auto simp: max_def min_def)
  with le show ?thesis by blast
qed

lemma statfs_sizes_bounds:
  "\<exists>st'. statfs_sizes st = Some st' \<and> st' = st\<lparr>st_bsize := st_bsize st', st_frsize := st_frsize st'\<rparr> \<and>
     512 \<le> st_frsize st' \<and> st_frsize st' \<le> 0x20000 \<and> st_frsize st' \<le> st_bsize st' \<and> st_bsize st' \<le> 0x100000 \<and>
     (\<exists>k l. st_frsize st' = 2 ^ k \<and> st_bsize st' = 2 ^ l)"
proof -
  let ?b = "if st_bsize st = 0 then FUSE_DEFAULT_IOSIZE else st_bsize st"
  let ?f = "if st_frsize st = 0 then FUSE_DEFAULT_BLOCKSIZE else st_frsize st"
  have le: "(512::u32) \<le> 0x100000" "(512::u32) \<le> 0x20000" by simp_all
  obtain b where b: "fuse_round_size ?b 512 0x100000 = Some b"
    using fuse_round_size_correct [OF le(1), of ?b] by blast
  obtain f where f: "fuse_round_size ?f 512 0x20000 = Some f"
    using fuse_round_size_correct [OF le(2), of ?f] by blast
  have "(\<exists>k. b = 2 ^ k) \<and> 512 \<le> b \<and> b \<le> 0x100000" using round_size_power [of ?b 9 20 b] b by simp
  moreover have "(\<exists>k. f = 2 ^ k) \<and> 512 \<le> f \<and> f \<le> 0x20000" using round_size_power [of ?f 9 17 f] f by simp
  moreover have "f \<le> 0x20000 \<Longrightarrow> f \<le> 0x100000" using order_trans [of f "0x20000" "0x100000"] by simp
  ultimately show ?thesis using b f by (auto simp: statfs_sizes_def Let_def)
qed

lemma capabilities_simps [simp]:
  assumes "handle_capabilities_and_attributes a d = (a', d')"
  shows "fa_bsize a' = fa_bsize a" "fa_iosize a' = fa_iosize a" "fa_bused a' = fa_bused a"
    "fa_bfree a' = fa_bfree a" "fa_blocks a' = fa_blocks a"
  using assms by (auto simp: handle_capabilities_and_attributes_def Let_def)

definition sizes_ok :: "vfs_attr \<Rightarrow> bool" where
  "sizes_ok a \<longleftrightarrow> 512 \<le> fa_bsize a \<and> fa_bsize a \<le> 0x20000 \<and> fa_bsize a \<le> fa_iosize a \<and> fa_iosize a \<le> 0x100000 \<and>
     (\<exists>k l. fa_bsize a = 2 ^ k \<and> fa_iosize a = 2 ^ l) \<and> fa_bused a + fa_bfree a = fa_blocks a"

lemma return_statfs_sizes:
  assumes "if faking then steady V n w else steady V (Suc n) w"
  shows "steady_within b V (\<lambda>(err, a) t. steady V n t \<and> (err = 0 \<longrightarrow> sizes_ok a)) (return_statfs deading faking attr st0 w)"
proof -
  obtain st where st: "statfs_sizes st0 = Some st" "512 \<le> st_frsize st" "st_frsize st \<le> 0x20000"
      "st_frsize st \<le> st_bsize st" "st_bsize st \<le> 0x100000" "\<exists>k l. st_frsize st = 2 ^ k \<and> st_bsize st = 2 ^ l"
    using statfs_sizes_bounds [of st0] by auto
  then show ?thesis
    unfolding return_statfs_def using assms
    by (cases faking) (auto simp: sizes_ok_def Let_def split: prod.split intro!: steady_drop)
qed


text \<open>
  C29: Whatever the daemon answers, or if it is dead or not yet asked, the block size and the transfer
  size the volume shows are powers of two within their limits, the transfer size at least the block
  size, and the used and free blocks make up all; the operation gives back its ticket.
\<close>

theorem volume_sizes_bounded:
  assumes "steady V n w"
  shows "steady_within False V (\<lambda>(err, a) t. steady V n t \<and> (err = 0 \<longrightarrow> sizes_ok a)) (fuse_vfsop_getattr attr ctx w)"
  unfolding fuse_vfsop_getattr_def
  by (intro steady_intros return_statfs_sizes steady_ask [OF assms]) (use assms in auto)

theorem volume_sizes_bounded_witness:
  "\<exists>a t. run_upcall (quiet_environment (file_daemon []) (\<lambda>w. 9) quiet_answers)
     (fuse_vfsop_getattr no_attr example_stranger (example_world example_session example_file)) = Some ((0, a), t) \<and>
     sizes_ok a \<and> steady {5, 6} 0 t"
proof -
  let ?w = "example_world example_session example_file"
  obtain st where "statfs_sizes zero_kstatfs = Some st" using statfs_sizes_bounds by blast
  then have "\<exists>a t. fuse_vfsop_getattr no_attr example_stranger ?w = Done (0, a) t"
    by (simp add: fuse_vfsop_getattr_def return_statfs_def Let_def split: prod.split)
  then obtain a t where r: "fuse_vfsop_getattr no_attr example_stranger ?w = Done (0, a) t" by blast
  from volume_sizes_bounded [OF example_steady, of no_attr example_stranger example_session example_file] r
  have "steady {5, 6} 0 t \<and> sizes_ok a" by simp
  with r show ?thesis by simp
qed

section \<open>Options\<close>

definition options_agree :: "u32 \<Rightarrow> mount_point \<Rightarrow> bool" where
  "options_agree mo mp \<longleftrightarrow>
     \<not> (flag_set mo FSESS_AUTO_XATTR \<and> flag_set mo FSESS_NATIVE_XATTR) \<and>
     \<not> (flag_set mo FSESS_ALLOW_ROOT \<and> flag_set mo FSESS_ALLOW_OTHER) \<and>
     \<not> (flag_set mo FSESS_NEGATIVE_VNCACHE \<and> flag_set mo FSESS_NO_VNCACHE) \<and>
     \<not> (flag_set mo FSESS_NO_SYNCWRITES \<and> (flag_set mo FSESS_NO_READAHEAD \<or> flag_set mo FSESS_NO_UBC)) \<and>
     (flag_set mo FSESS_NO_SYNCONCLOSE \<longrightarrow> flag_set mo FSESS_NO_SYNCWRITES) \<and>
     \<not> (flag_set mo FSESS_DEFAULT_PERMISSIONS \<and> flag_set mo FSESS_DEFER_PERMISSIONS) \<and>
     (mp_async mp \<longleftrightarrow> flag_set mo FSESS_NO_SYNCWRITES) \<and> (mp_synchronous mp \<longleftrightarrow> \<not> mp_async mp) \<and>
     (flag_set mo FSESS_NO_UBC \<longrightarrow> mp_noexec mp) \<and>
     (mp_authopaque mp \<longleftrightarrow> \<not> flag_set mo FSESS_DEFAULT_PERMISSIONS) \<and>
     \<not> flag_set mo (FSESS_DEAD OR FSESS_OPENED OR FSESS_INITED)"

lemma flag_set_mopt:
  "flag_set (mopt_flags ts alt) m \<longleftrightarrow> (\<exists>(o1, f)\<in>set ts. flag_set alt o1 \<and> flag_set f m)"
  by (induction ts) (auto simp: mopt_flags_def flag_set_or split: if_splits)

text \<open>What an accepted set of options has passed.\<close>

lemma mount_optionsD:
  assumes "mount_options E ctx a mp = Inr (mo, mp')"
  shows "\<exists>xattr access. mopt_xattr (ma_altflags a) = Some xattr \<and> mopt_access E ctx (ma_altflags a) = Some access \<and>
    \<not> (flag_set (ma_altflags a) FUSE_MOPT_NEGATIVE_VNCACHE \<and> flag_set (mopt_caches (ma_altflags a)) FSESS_NO_VNCACHE) \<and>
    \<not> (flag_set (ma_altflags a) FUSE_MOPT_NO_SYNCWRITES \<and>
       flag_set (mopt_caches (ma_altflags a)) (FSESS_NO_READAHEAD OR FSESS_NO_UBC)) \<and>
    \<not> (flag_set (ma_altflags a) FUSE_MOPT_DEFAULT_PERMISSIONS \<and> flag_set (ma_altflags a) FUSE_MOPT_DEFER_PERMISSIONS) \<and>
    mo = mopt_flags mopt_plain (ma_altflags a) OR xattr OR access OR mopt_caches (ma_altflags a) OR mopt_sync (ma_altflags a) \<and>
    mp' = mopt_mount a mp"
  using assms unfolding mount_options_def Let_def by (simp split: option.split_asm if_split_asm)

lemma flag_set_mask: "flag_set w (m OR k) \<longleftrightarrow> flag_set w m \<or> flag_set w k"
  by (simp add: flag_set_def bit.conj_disj_distrib or_eq_0_iff)

lemma mount_option_bits:
  fixes mo xattr access :: u32
  assumes mo: "mo = mopt_flags mopt_plain alt OR xattr OR access OR mopt_caches alt OR mopt_sync alt"
    and xattr: "xattr \<in> {FSESS_AUTO_XATTR, FSESS_NATIVE_XATTR, 0}"
    and access: "access \<in> {FSESS_ALLOW_ROOT, FSESS_ALLOW_OTHER, 0}"
  shows "flag_set mo FSESS_NEGATIVE_VNCACHE \<longleftrightarrow> flag_set alt FUSE_MOPT_NEGATIVE_VNCACHE"
    and "flag_set mo FSESS_NO_VNCACHE \<longleftrightarrow> flag_set (mopt_caches alt) FSESS_NO_VNCACHE"
    and "flag_set mo FSESS_NO_UBC \<longleftrightarrow> flag_set (mopt_caches alt) FSESS_NO_UBC"
    and "flag_set mo FSESS_NO_READAHEAD \<longleftrightarrow> flag_set (mopt_caches alt) FSESS_NO_READAHEAD"
    and "flag_set mo FSESS_NO_SYNCWRITES \<longleftrightarrow> flag_set alt FUSE_MOPT_NO_SYNCWRITES"
    and "flag_set mo FSESS_DEFAULT_PERMISSIONS \<longleftrightarrow> flag_set alt FUSE_MOPT_DEFAULT_PERMISSIONS"
    and "flag_set mo FSESS_DEFER_PERMISSIONS \<longleftrightarrow> flag_set alt FUSE_MOPT_DEFER_PERMISSIONS"
    and "flag_set mo FSESS_NO_SYNCONCLOSE \<Longrightarrow> flag_set alt FUSE_MOPT_NO_SYNCWRITES"
    and "flag_set mo FSESS_AUTO_XATTR \<Longrightarrow> xattr = FSESS_AUTO_XATTR"
    and "flag_set mo FSESS_NATIVE_XATTR \<Longrightarrow> xattr = FSESS_NATIVE_XATTR"
    and "flag_set mo FSESS_ALLOW_ROOT \<Longrightarrow> access = FSESS_ALLOW_ROOT"
    and "flag_set mo FSESS_ALLOW_OTHER \<Longrightarrow> access = FSESS_ALLOW_OTHER"
    and "\<not> flag_set mo (FSESS_DEAD OR FSESS_OPENED OR FSESS_INITED)"
proof -
  have const: "flag_set (numeral f :: u32) m \<longleftrightarrow> numeral f AND m \<noteq> 0" for f m by (simp add: flag_set_def)
  have only: "flag_set mo m \<longleftrightarrow> flag_set (mopt_flags mopt_plain alt) m \<or> flag_set xattr m \<or> flag_set access m \<or>
      flag_set (mopt_caches alt) m \<or> flag_set (mopt_sync alt) m" for m
    by (simp add: mo flag_set_or)
  have sync: "flag_set (mopt_sync alt) m \<longleftrightarrow> flag_set alt FUSE_MOPT_NO_SYNCWRITES \<and>
      flag_set alt FUSE_MOPT_NO_SYNCONCLOSE \<and> flag_set FSESS_NO_SYNCONCLOSE m" for m
    by (auto simp: mopt_sync_def)
  note bits = only flag_set_mopt mopt_plain_def mopt_caches_def sync
  have quiet: "\<not> flag_set xattr m \<and> \<not> flag_set access m" if "m AND 0x10000070 = 0" for m
  proof -
    have part: "c AND m = 0" if "c AND 0x10000070 = c" for c :: u32
    proof -
      have "(c AND 0x10000070) AND m = c AND (m AND 0x10000070)" by (simp only: ac_simps)
      with that show ?thesis using \<open>m AND 0x10000070 = 0\<close> by simp
    qed
    from part [of "0x10"] part [of "0x20"] part [of "0x40"] part [of "0x10000000"]
    have "0x10 AND m = 0" "0x20 AND m = 0" "0x40 AND m = 0" "0x10000000 AND m = 0" by simp_all
    with xattr access show ?thesis by (auto simp: flag_set_def)
  qed
  show "flag_set mo FSESS_NEGATIVE_VNCACHE \<longleftrightarrow> flag_set alt FUSE_MOPT_NEGATIVE_VNCACHE"
    by (auto simp: bits const quiet)
  show "flag_set mo FSESS_NO_VNCACHE \<longleftrightarrow> flag_set (mopt_caches alt) FSESS_NO_VNCACHE"
    by (auto simp: bits const quiet)
  show "flag_set mo FSESS_NO_UBC \<longleftrightarrow> flag_set (mopt_caches alt) FSESS_NO_UBC"
    by (auto simp: bits const quiet)
  show "flag_set mo FSESS_NO_READAHEAD \<longleftrightarrow> flag_set (mopt_caches alt) FSESS_NO_READAHEAD"
    by (auto simp: bits const quiet)
  show "flag_set mo FSESS_NO_SYNCWRITES \<longleftrightarrow> flag_set alt FUSE_MOPT_NO_SYNCWRITES"
    by (auto simp: bits const quiet)
  show "flag_set mo FSESS_DEFAULT_PERMISSIONS \<longleftrightarrow> flag_set alt FUSE_MOPT_DEFAULT_PERMISSIONS"
    by (auto simp: bits const quiet)
  show "flag_set mo FSESS_DEFER_PERMISSIONS \<longleftrightarrow> flag_set alt FUSE_MOPT_DEFER_PERMISSIONS"
    by (auto simp: bits const quiet)
  show "flag_set mo FSESS_NO_SYNCONCLOSE \<Longrightarrow> flag_set alt FUSE_MOPT_NO_SYNCWRITES"
    by (auto simp: bits const quiet split: if_splits)
  show "flag_set mo FSESS_AUTO_XATTR \<Longrightarrow> xattr = FSESS_AUTO_XATTR"
    using xattr access by (auto simp: bits const)
  show "flag_set mo FSESS_NATIVE_XATTR \<Longrightarrow> xattr = FSESS_NATIVE_XATTR"
    using xattr access by (auto simp: bits const)
  show "flag_set mo FSESS_ALLOW_ROOT \<Longrightarrow> access = FSESS_ALLOW_ROOT"
    using xattr access by (auto simp: bits const)
  show "flag_set mo FSESS_ALLOW_OTHER \<Longrightarrow> access = FSESS_ALLOW_OTHER"
    using xattr access by (auto simp: bits const)
  show "\<not> flag_set mo (FSESS_DEAD OR FSESS_OPENED OR FSESS_INITED)"
    by (auto simp: bits const quiet)
qed

text \<open>
  C28: The options a mount is given go together: whatever the caller asks for, a mount that is not
  refused has no two options that exclude each other, the kernel's flags agree with the session's, the
  state bits of the session are not touched, and only an administrator's mount is open to root, or to
  others unless the tunable or a root caller allows it.
\<close>

theorem mount_options_agree:
  assumes "mount_options E ctx a mp = Inr (mo, mp')"
  shows "options_agree mo mp' \<and> (flag_set mo FSESS_ALLOW_ROOT \<longrightarrow> en_admin E) \<and>
    (flag_set mo FSESS_ALLOW_OTHER \<longrightarrow> en_admin E \<or> fuse_allow_other E \<or> fuse_vfs_context_issuser ctx)"
proof -
  let ?alt = "ma_altflags a"
  obtain xattr access where x: "mopt_xattr ?alt = Some xattr" and acc: "mopt_access E ctx ?alt = Some access"
    and ok: "\<not> (flag_set ?alt FUSE_MOPT_NEGATIVE_VNCACHE \<and> flag_set (mopt_caches ?alt) FSESS_NO_VNCACHE)"
      "\<not> (flag_set ?alt FUSE_MOPT_NO_SYNCWRITES \<and> flag_set (mopt_caches ?alt) (FSESS_NO_READAHEAD OR FSESS_NO_UBC))"
      "\<not> (flag_set ?alt FUSE_MOPT_DEFAULT_PERMISSIONS \<and> flag_set ?alt FUSE_MOPT_DEFER_PERMISSIONS)"
    and mo: "mo = mopt_flags mopt_plain ?alt OR xattr OR access OR mopt_caches ?alt OR mopt_sync ?alt"
    and mp: "mp' = mopt_mount a mp"
    using mount_optionsD [OF assms] by blast
  have xattr: "xattr \<in> {FSESS_AUTO_XATTR, FSESS_NATIVE_XATTR, 0}"
    using x by (auto simp: mopt_xattr_def split: if_splits)
  have access: "access = FSESS_ALLOW_ROOT \<and> en_admin E \<or>
      access = FSESS_ALLOW_OTHER \<and> (en_admin E \<or> fuse_allow_other E \<or> fuse_vfs_context_issuser ctx) \<or> access = 0"
    using acc by (auto simp: mopt_access_def split: if_splits)
  then have "access \<in> {FSESS_ALLOW_ROOT, FSESS_ALLOW_OTHER, 0}" by auto
  note bits = mount_option_bits [OF mo xattr this]
  have x: "\<not> (flag_set mo FSESS_AUTO_XATTR \<and> flag_set mo FSESS_NATIVE_XATTR)"
    using bits(9,10) by (cases "xattr = 0x40") auto
  have acc: "\<not> (flag_set mo FSESS_ALLOW_ROOT \<and> flag_set mo FSESS_ALLOW_OTHER)"
    using bits(11,12) by (cases "access = 0x20") auto
  note ok2 = ok(2) [unfolded flag_set_mask]
  have "options_agree mo mp'"
    unfolding options_agree_def using x acc ok(1,3) ok2 bits(8,13)
    by (simp add: bits(1-7) mp mopt_mount_def Let_def)
  moreover have "flag_set mo FSESS_ALLOW_ROOT \<longrightarrow> en_admin E" using access bits(11) by auto
  moreover have "flag_set mo FSESS_ALLOW_OTHER \<longrightarrow> en_admin E \<or> fuse_allow_other E \<or> fuse_vfs_context_issuser ctx"
    using access bits(12) by auto
  ultimately show ?thesis by blast
qed

text \<open>A mount with its own permissions and writes that do not wait.\<close>

definition example_args :: "u64 \<Rightarrow> fuse_mount_args" where
  "example_args alt = \<lparr>ma_fsname = ''ex'', ma_fstypename = [], ma_volname = ''vol'', ma_altflags = alt,
     ma_blocksize = 4096, ma_daemon_timeout = 60, ma_fsid = 0, ma_fssubtype = 0, ma_init_timeout = 10,
     ma_iosize = 65536, ma_random = 77, ma_rdev = 3\<rparr>"

definition example_mp :: mount_point where
  "example_mp = \<lparr>mp_dontbrowse = False, mp_noexec = False, mp_synchronous = False, mp_async = False,
     mp_local = False, mp_locklocal = False, mp_authopaque = False, mp_authopaqueaccess = False,
     mp_extendedsecurity = False, mp_fsid = None, mp_fstypename = None, mp_mntfromname = [], mp_bsize = 0,
     mp_iosize = 0, mp_blocks = 0, mp_bfree = 0, mp_bavail = 0, mp_bused = 0, mp_files = 0, mp_ffree = 0,
     mp_owner = 0, mp_fssubtype = 0, mp_devblocksize = 0\<rparr>"

definition example_env :: mount_env where
  "example_env = \<lparr>en_admin = False, fuse_allow_other = False, en_fsid_used = \<lambda>_. False\<rparr>"

theorem mount_options_agree_witness:
  "options_agree (FSESS_DEFAULT_PERMISSIONS OR FSESS_NO_SYNCWRITES OR FSESS_NO_SYNCONCLOSE)
     (mopt_mount (example_args 0x30000080) example_mp)"
proof -
  have "mount_options example_env example_stranger (example_args 0x30000080) example_mp =
      Inr (FSESS_DEFAULT_PERMISSIONS OR FSESS_NO_SYNCWRITES OR FSESS_NO_SYNCONCLOSE,
           mopt_mount (example_args 0x30000080) example_mp)"
    by (simp add: mount_options_def example_args_def mopt_xattr_def mopt_access_def mopt_fsid_def mopt_caches_def
        mopt_flags_def mopt_plain_def mopt_sync_def flag_set_def Let_def)
  from mount_options_agree [OF this] show ?thesis by blast
qed

section \<open>Operations on a volume in use\<close>

lemma send_init_steady [steady_intros]:
  assumes "steady V n w"
  shows "steady_within b V (\<lambda>_. steady V n) (fuse_internal_send_init ctx w)"
  unfolding fuse_internal_send_init_def fuse_internal_init_synchronous_def
  by (intro steady_intros steady_ask [OF assms]) (use assms in auto)

text \<open>The root the code knows is one the mount has a reference on.\<close>

lemma vfsop_root_result:
  assumes "steady V n w" and "set_option (fd_rootvp (w_data w)) \<subseteq> V"
  shows "steady_until V (\<lambda>(err, vp) t. steady V n t \<and> (err = 0 \<longrightarrow> (\<exists>p. vp = Some p \<and> VTOFUD p t \<noteq> None)))
    (fuse_vfsop_root w)"
proof (cases "fd_rootvp (w_data w)")
  case None
  then show ?thesis
    unfolding fuse_vfsop_root_def by (auto simp: assms(1) intro!: steady_fsnode_get)
next
  case (Some vp)
  with assms(2) have "vp \<in> V" by simp
  have "steady V n t \<Longrightarrow> VTOFUD vp t \<noteq> None" for t using staged_live \<open>vp \<in> V\<close> by blast
  with Some show ?thesis
    unfolding fuse_vfsop_root_def using keepsD [OF _ assms(1)] by auto
qed

lemma sync_handles_steady [steady_intros]:
  assumes "vp \<in> V"
  shows "steady V n w \<Longrightarrow> steady_within b V (\<lambda>_. steady V n) (sync_handles ts vp ctx w)"
proof (induction ts arbitrary: w)
  case (Cons t ts)
  then show ?case using assms by (auto intro!: steady_intros)
qed simp

lemma sync_vnodes_steady [steady_intros]:
  "steady V n w \<Longrightarrow> set vps \<subseteq> V \<Longrightarrow> steady_within b V (\<lambda>_. steady V n) (sync_vnodes ctx vps w)"
proof (induction vps arbitrary: w)
  case (Cons vp vps)
  then have "steady_within b V (\<lambda>_. steady V n) (fuse_sync_callback ctx vp w)"
    unfolding fuse_sync_callback_def by (intro steady_intros) auto
  then show ?case using Cons by (auto intro!: steady_bind)
qed simp

lemma vfsop_sync_steady:
  assumes "steady V n w" and "set vps \<subseteq> V"
  shows "steady_within b V (\<lambda>_. steady V n) (fuse_vfsop_sync vps upd ctx w)"
  unfolding fuse_vfsop_sync_def by (intro steady_intros) (use assms in auto)

lemma vfsop_setattr_steady:
  assumes "steady V n w" and "set_option (fd_rootvp (w_data w)) \<subseteq> V"
  shows "steady_until V (\<lambda>_. steady V n) (fuse_vfsop_setattr owner name ctx w)"
proof -
  have ask: "steady_until V (\<lambda>_. steady V n) (ask_errno op vp body ctx t k)"
    if "steady V n t" "VTOFUD vp t \<noteq> None" "\<And>e t. steady V n t \<Longrightarrow> steady_until V (\<lambda>_. steady V n) (k e t)"
    for op vp body ctx t k
    unfolding ask_errno_def ask_vp_def using that by (auto intro!: steady_ask steady_drop)
  show ?thesis
    unfolding fuse_vfsop_setattr_def
    by (auto simp: assms(1) Let_def split: option.split intro!: ensures_bind [OF vfsop_root_result [OF assms]] ask)
qed

section \<open>Mounts and unmounts\<close>

text \<open>
  The other threads do not mount or unmount this file system meanwhile.
\<close>

definition keeps_mount :: "mount_world environment \<Rightarrow> bool" where
  "keeps_mount E \<longleftrightarrow>
     (\<forall>m r. mw_count (snd (ev_daemon E m r)) = mw_count m \<and> mw_private (snd (ev_daemon E m r)) = mw_private m) \<and>
     (\<forall>m c. mw_count (snd (ev_kernel E m c)) = mw_count m \<and> mw_private (snd (ev_kernel E m c)) = mw_private m)"

lemma keeps_mountD:
  assumes "keeps_mount E"
  shows "ev_daemon E m r = (x, m1) \<Longrightarrow> mw_count m1 = mw_count m \<and> mw_private m1 = mw_private m"
    and "ev_kernel E m c = (y, m1) \<Longrightarrow> mw_count m1 = mw_count m \<and> mw_private m1 = mw_private m"
  using assms by (metis keeps_mount_def snd_conv)+

lemma store_session_simps [simp]:
  "mw_count (store_session w m) = mw_count m" "mw_private (store_session w m) = mw_private m"
  "dv_data (mw_dev (store_session w m)) = Some (w_data w)" "mw_mp (store_session w m) = mw_mp m"
  "w_data (load_session m d) = d"
  by (simp_all add: store_session_def load_session_def)

lemma upd_session_simps [simp]:
  "mw_count (upd_session f m) = mw_count m" "mw_private (upd_session f m) = mw_private m"
  "dv_data (mw_dev (upd_session f m)) = map_option f (dv_data (mw_dev m))"
  by (simp_all add: upd_session_def)

lemma within_mount_keeps:
  assumes "keeps_mount E" and "run_upcall E (within_mount p m) = Some (a, m')"
  shows "mw_count m' = mw_count m \<and> mw_private m' = mw_private m \<and> dv_data (mw_dev m') \<noteq> None"
  using assms(2)
proof (induction p arbitrary: m rule: upcall_induct)
  case (Ask r w k)
  obtain x m1 where e: "ev_daemon E (store_session w m) r = (x, m1)" by force
  with Ask.prems obtain d where "run_upcall E (within_mount (k x (load_session m1 d)) m1) = Some (a, m')"
    by (cases "dv_data (mw_dev m1)") auto
  from Ask.IH [OF this] keeps_mountD(1) [OF assms(1) e] show ?case by simp
next
  case (Call c w k)
  obtain x m1 where e: "ev_kernel E (store_session w m) c = (x, m1)" by force
  with Call.prems obtain d where "run_upcall E (within_mount (k x (load_session m1 d)) m1) = Some (a, m')"
    by (cases "dv_data (mw_dev m1)") auto
  from Call.IH [OF this] keeps_mountD(2) [OF assms(1) e] show ?case by simp
qed auto

lemma in_session_keeps:
  assumes "keeps_mount E" and "run_upcall E (in_session op m) = Some (a, m')"
  shows "mw_count m' = mw_count m \<and> mw_private m' = mw_private m \<and> dv_data (mw_dev m') \<noteq> None"
  using assms(2) by (cases "dv_data (mw_dev m)") (auto simp: in_session_def dest: within_mount_keeps [OF assms(1)])

text \<open>A session that is not mounted and has not been left by the daemon.\<close>

definition unmounted :: "mount_world \<Rightarrow> bool" where
  "unmounted m \<longleftrightarrow> \<not> mw_private m \<and>
     (\<forall>d. dv_data (mw_dev m) = Some d \<longrightarrow> fd_mount_state d = FM_NOTMOUNTED \<and> flag_set (fd_dataflags d) FSESS_OPENED)"

lemma mount_failed_result:
  assumes "run_upcall E (mount_failed err b m) = Some (e, m')"
  shows "e = err \<and> unmounted m' \<and> mw_count m' = mw_count m - (if b then 1 else 0)"
proof (cases "dv_data (mw_dev m)")
  case None
  with assms show ?thesis by (auto simp: mount_failed_def unmounted_def)
next
  case (Some d)
  let ?m1 = "m\<lparr>mw_private := False, mw_count := mw_count m - (if b then 1 else 0)\<rparr>"
  let ?m2 = "upd_session (\<lambda>d. d\<lparr>fd_mount_state := FM_NOTMOUNTED\<rparr>) ?m1"
  show ?thesis
  proof (cases "flag_set (fd_dataflags d) FSESS_OPENED")
    case True
    with assms Some show ?thesis by (auto simp: mount_failed_def unmounted_def Let_def)
  next
    case False
    with assms Some obtain fdev where f: "fuse_device_close_final (mw_dev ?m2) = Some fdev"
        and r: "e = err" "m' = ?m2\<lparr>mw_dev := fdev\<rparr>"
      by (cases "fuse_device_close_final (mw_dev ?m2)") (auto simp: mount_failed_def Let_def)
    from f have "dv_data fdev = None" by (auto simp: fuse_device_close_final_def split: bind_splits)
    with r show ?thesis by (simp add: unmounted_def)
  qed
qed

definition mounted_as :: "int \<Rightarrow> int \<Rightarrow> mount_world \<Rightarrow> bool" where
  "mounted_as n err m \<longleftrightarrow>
     (if err = 0 then mw_private m \<and> dv_data (mw_dev m) \<noteq> None \<and> mw_count m = n + 1 else unmounted m \<and> mw_count m = n)"

lemma failed_mounted_as:
  "run_upcall E (mount_failed err b m) = Some (e, m') \<Longrightarrow> err \<noteq> 0 \<Longrightarrow>
   mw_count m = (if b then n + 1 else n) \<Longrightarrow> mounted_as n e m'"
  using mount_failed_result [of E err b m e m'] by (auto simp: mounted_as_def)

lemma mount_root_result:
  assumes "keeps_mount E" and "run_upcall E (mount_root m) = Some (e, m')" and "mw_private m" and "mw_count m = n + 1"
  shows "mounted_as n e m'"
proof -
  obtain e1 vp m1 where r: "run_upcall E (in_session fuse_vfsop_root m) = Some ((e1, vp), m1)"
    using assms(2) by (auto simp: mount_root_def run_upcall_bind split: option.splits)
  note k1 = in_session_keeps [OF assms(1) r]
  show ?thesis
  proof (cases "e1 = 0")
    case False
    then have "run_upcall E (mount_failed e1 True m1) = Some (e, m')"
      using assms(2) r by (simp add: mount_root_def run_upcall_bind)
    then show ?thesis using failed_mounted_as False k1 assms(4) by simp
  next
    case True
    then obtain root where vp: "vp = Some root"
      using assms(2) r by (cases vp) (auto simp: mount_root_def run_upcall_bind)
    obtain x m2 where c: "ev_kernel E m1 (K_vnode_ref root) = (x, m2)" by force
    note k2 = keeps_mountD(2) [OF assms(1) c]
    let ?m3 = "m2\<lparr>mw_w := emit (Ef_vnode_put root) (mw_w m2)\<rparr>"
    show ?thesis
    proof (cases "kr_err x = 0")
      case False
      then have "run_upcall E (mount_failed (kr_err x) True ?m3) = Some (e, m')"
        using assms(2) r True vp c by (simp add: mount_root_def run_upcall_bind Let_def)
      then show ?thesis using failed_mounted_as [of E "kr_err x" True ?m3] False k1 k2 assms(4) by simp
    next
      case e0: True
      obtain d where "dv_data (mw_dev m2) = Some d"
        using assms(2) r True vp c e0
        by (cases "dv_data (mw_dev m2)") (auto simp: mount_root_def run_upcall_bind Let_def)
      then show ?thesis
        using assms(2-4) r True vp c e0 k1 k2 by (auto simp: mount_root_def run_upcall_bind Let_def mounted_as_def)
    qed
  qed
qed

lemma mount_handshake_result:
  assumes "keeps_mount E" and "run_upcall E (mount_handshake ctx a m) = Some (e, m')"
    and "mw_private m" and "mw_count m = n + 1"
  shows "mounted_as n e m'"
proof -
  obtain e1 m1 where r: "run_upcall E (in_session (fuse_internal_send_init ctx) m) = Some (e1, m1)"
    using assms(2) by (auto simp: mount_handshake_def run_upcall_bind split: option.splits)
  note k1 = in_session_keeps [OF assms(1) r]
  show ?thesis
  proof (cases "e1 = 0")
    case False
    then have "run_upcall E (mount_failed e1 True m1) = Some (e, m')"
      using assms(2) r by (simp add: mount_handshake_def run_upcall_bind)
    then show ?thesis using failed_mounted_as False k1 assms(4) by simp
  next
    case True
    obtain e2 attr m2 where g: "run_upcall E (in_session (fuse_vfsop_getattr no_attr ctx) m1) = Some ((e2, attr), m2)"
      using assms(2) r True by (auto simp: mount_handshake_def run_upcall_bind split: option.splits)
    note k2 = in_session_keeps [OF assms(1) g]
    then obtain d where d: "dv_data (mw_dev m2) = Some d" by auto
    let ?m3 = "m2\<lparr>mw_mp := mount_statfs a e2 attr d (mw_mp m2)\<rparr>"
    have run: "run_upcall E (if e2 \<noteq> 0 then mount_failed e2 True ?m3 else mount_root ?m3) = Some (e, m')"
      using assms(2) r True g d by (simp add: mount_handshake_def run_upcall_bind Let_def)
    show ?thesis
    proof (cases "e2 = 0")
      case False
      with run have "run_upcall E (mount_failed e2 True ?m3) = Some (e, m')" by simp
      from failed_mounted_as [OF this False] k1 k2 assms(4) show ?thesis by simp
    next
      case True
      with run have "run_upcall E (mount_root ?m3) = Some (e, m')" by simp
      from mount_root_result [OF assms(1) this] k1 k2 assms(3,4) show ?thesis by simp
    qed
  qed
qed

lemma mount_attach_result:
  assumes "keeps_mount E" and "unmounted m"
    and run: "run_upcall E (mount_attach ctx a mo m (mount_handshake ctx a)) = Some (e, m')"
  shows "mounted_as (mw_count m) e m'"
proof (cases "ma_random a \<noteq> dv_random (mw_dev m) \<or> dv_data (mw_dev m) = None")
  case True
  with assms(2) run show ?thesis by (auto simp: mount_attach_def mounted_as_def split: if_splits)
next
  case False
  then obtain d where d: "dv_data (mw_dev m) = Some d" "ma_random a = dv_random (mw_dev m)" by auto
  then have free: "fd_mount_state d = FM_NOTMOUNTED" "flag_set (fd_dataflags d) FSESS_OPENED"
    using assms(2) by (auto simp: unmounted_def)
  let ?m1 = "upd_session (\<lambda>d. d\<lparr>fd_mount_state := FM_MOUNTED\<rparr>) (m\<lparr>mw_count := mw_count m + 1\<rparr>)"
  consider (dead) "run_upcall E (mount_failed ENOTCONN True ?m1) = Some (e, m')"
    | (perm) "run_upcall E (mount_failed EPERM True ?m1) = Some (e, m')"
    | (go) m2 where "run_upcall E (mount_handshake ctx a m2) = Some (e, m')" "mw_private m2" "mw_count m2 = mw_count m + 1"
    using run d free
    by (cases "session_options a mo (d\<lparr>fd_mount_state := FM_MOUNTED\<rparr>)")
      (fastforce simp: mount_attach_def Let_def split: if_splits)+
  then show ?thesis
  proof cases
    case dead
    then show ?thesis by (rule failed_mounted_as) simp_all
  next
    case perm
    then show ?thesis by (rule failed_mounted_as) simp_all
  next
    case go
    then show ?thesis using mount_handshake_result [OF assms(1)] by blast
  qed
qed

text \<open>
  C25: A mount succeeds or leaves nothing behind: with the result 0 the mount has its private data, a
  session and is counted; with an error it has none, is not counted, and the session is free to be
  mounted again, or freed if the daemon has left it.
\<close>

theorem mount_all_or_nothing:
  assumes "keeps_mount E" and "unmounted m" and "run_upcall E (fuse_vfsop_mount env args upd ctx m) = Some (err, m')"
  shows "if err = 0 then mw_private m' \<and> dv_data (mw_dev m') \<noteq> None \<and> mw_count m' = mw_count m + 1
    else unmounted m' \<and> mw_count m' = mw_count m"
proof -
  have same: "mounted_as (mw_count m) e m1" if "e \<noteq> 0" "unmounted m1" "mw_count m1 = mw_count m" for e m1
    using that by (simp add: mounted_as_def)
  have "mounted_as (mw_count m) err m'"
  proof (cases "upd \<or> args = None")
    case True
    with assms(2,3) same show ?thesis by (auto simp: fuse_vfsop_mount_def split: if_splits)
  next
    case False
    then obtain a where a: "args = Some a" "\<not> upd" by auto
    show ?thesis
    proof (cases "mount_options env ctx a (mw_mp m)")
      case (Inl e)
      then have "e \<noteq> 0" by (auto simp: mount_options_def Let_def split: option.splits if_splits)
      with Inl a assms(2,3) same show ?thesis by (simp add: fuse_vfsop_mount_def)
    next
      case (Inr r)
      then obtain mo mp where r: "mount_options env ctx a (mw_mp m) = Inr (mo, mp)" by (cases r) auto
      let ?m1 = "m\<lparr>mw_mp := mp, mw_private := False\<rparr>"
      have m1: "unmounted ?m1" using assms(2) by (simp add: unmounted_def)
      have "run_upcall E (if fuse_device_get (uint (ma_rdev a AND 0xFFFFFF)) = None then Done EINVAL ?m1
          else mount_attach ctx a mo ?m1 (mount_handshake ctx a)) = Some (err, m')"
        using assms(3) a r by (simp add: fuse_vfsop_mount_def Let_def)
      with mount_attach_result [OF assms(1) m1] same [of _ ?m1] m1 show ?thesis
        by (auto split: if_splits)
    qed
  qed
  then show ?thesis by (simp add: mounted_as_def)
qed

definition answering :: "(fuse_data \<Rightarrow> request \<Rightarrow> fdisp_result) \<Rightarrow> (kcall \<Rightarrow> kret) \<Rightarrow> mount_world environment" where
  "answering D other = \<lparr>ev_daemon = \<lambda>m r. (D (the (dv_data (mw_dev m))) r, m), ev_kernel = \<lambda>m c. (other c, m)\<rparr>"

lemma answering_keeps [simp]: "keeps_mount (answering D other)"
  by (simp add: keeps_mount_def answering_def)

definition example_mount_world :: mount_world where
  "example_mount_world =
     \<lparr>mw_mp = example_mp, mw_w = example_world example_session example_file,
      mw_dev = \<lparr>dv_usecount = 1, dv_pid = 9, dv_random = 77, dv_cdev = True,
        dv_data = Some ((fdata_alloc example_daemon 9)\<lparr>fd_dataflags := FSESS_OPENED\<rparr>)\<rparr>,
      mw_private = False, mw_count = 0\<rparr>"

lemma example_unmounted: "unmounted example_mount_world"
  by (simp add: unmounted_def example_mount_world_def fdata_alloc_def flag_set_def)

lemma session_options_some:
  "\<exists>d'. session_options a mo d = Some d' \<and> fd_dataflags d' = fd_dataflags d OR mo \<and> fd_mount_state d' = fd_mount_state d"
proof -
  have le: "(512::u32) \<le> 0x100000" "(512::u32) \<le> 0x20000" by simp_all
  obtain b where "fuse_round_size (ma_blocksize a) 512 0x20000 = Some b"
    using fuse_round_size_correct [OF le(2)] by blast
  moreover obtain i where "fuse_round_size (ma_iosize a) 512 0x100000 = Some i"
    using fuse_round_size_correct [OF le(1)] by blast
  ultimately show ?thesis by (simp add: session_options_def)
qed

text \<open>What a mount goes through up to the handshake, when nothing stands against it.\<close>

definition mountable :: "mount_env \<Rightarrow> vfs_context \<Rightarrow> fuse_mount_args \<Rightarrow> mount_world \<Rightarrow> fuse_data \<Rightarrow> bool" where
  "mountable env ctx a m d \<longleftrightarrow>
     (\<exists>mo mp. mount_options env ctx a (mw_mp m) = Inr (mo, mp)) \<and> fuse_device_get (uint (ma_rdev a AND 0xFFFFFF)) \<noteq> None \<and>
     ma_random a = dv_random (mw_dev m) \<and> dv_data (mw_dev m) = Some d \<and> fd_mount_state d = FM_NOTMOUNTED \<and>
     flag_set (fd_dataflags d) FSESS_OPENED \<and> \<not> fdata_dead_get d \<and>
     \<not> (fuse_vfs_context_issuser ctx \<and> cr_uid (ctx_ucred ctx) \<noteq> cr_uid (fd_daemoncred d))"

definition attached :: "fuse_mount_args \<Rightarrow> mount_point \<Rightarrow> fuse_data \<Rightarrow> mount_world \<Rightarrow> mount_world" where
  "attached a mp d m = m
     \<lparr>mw_count := mw_count m + 1, mw_dev := (mw_dev m)\<lparr>dv_data := Some d\<rparr>, mw_private := True,
      mw_mp := mp\<lparr>mp_mntfromname := take 1023 (ma_fsname a)\<rparr>,
      mw_w := (mw_w m)\<lparr>w_mnt := mount_flags mp (w_mnt (mw_w m))\<rparr>\<rparr>"

lemma attached_session [simp]: "dv_data (mw_dev (attached a mp d m)) = Some d"
  by (simp add: attached_def)

lemma mountable_attaches:
  assumes "mountable env ctx a m d" and "mount_options env ctx a (mw_mp m) = Inr (mo, mp)"
  shows "\<exists>d1. fuse_vfsop_mount env (Some a) False ctx m = mount_handshake ctx a (attached a mp d1 m) \<and>
    fd_dataflags d1 = fd_dataflags d OR mo"
proof -
  obtain d1 where d1: "session_options a mo (d\<lparr>fd_mount_state := FM_MOUNTED\<rparr>) = Some d1"
      "fd_dataflags d1 = fd_dataflags d OR mo"
    using session_options_some [of a mo "d\<lparr>fd_mount_state := FM_MOUNTED\<rparr>"] by auto
  have m: "ma_random a = dv_random (mw_dev m)" "dv_data (mw_dev m) = Some d" "fd_mount_state d = FM_NOTMOUNTED"
      "flag_set (fd_dataflags d) FSESS_OPENED" "\<not> fdata_dead_get d"
      "\<not> (fuse_vfs_context_issuser ctx \<and> cr_uid (ctx_ucred ctx) \<noteq> cr_uid (fd_daemoncred d))"
      "fuse_device_get (uint (ma_rdev a AND 0xFFFFFF)) \<noteq> None"
    using assms(1) unfolding mountable_def by blast+
  have "mount_attach ctx a mo (m\<lparr>mw_mp := mp, mw_private := False\<rparr>) k = k (attached a mp d1 m)" for k
    unfolding mount_attach_def Let_def using m(1-6) d1(1)
    by (cases "fuse_vfs_context_issuser ctx") (simp_all add: upd_session_def attached_def)
  with m(7) assms(2) d1(2) show ?thesis unfolding fuse_vfsop_mount_def by auto
qed

text \<open>A daemon that refuses the handshake, and one that accepts it with an answer the code does not like.\<close>

definition at_init :: "(fdisp_result \<Rightarrow> bool) \<Rightarrow> mount_world environment \<Rightarrow> bool" where
  "at_init P E \<longleftrightarrow> (\<forall>m r. rq_op r = FUSE_INIT \<longrightarrow> P (fst (ev_daemon E m r)) \<and> snd (ev_daemon E m r) = m)"

lemma at_initE:
  assumes "at_init P E" and "rq_op r = FUSE_INIT"
  obtains x where "ev_daemon E m r = (x, m)" "P x"
  using assms by (metis at_init_def prod.collapse)

lemma handshake_refused:
  assumes "at_init (\<lambda>x. fr_err x = e) E" and "e \<noteq> 0" and "dv_data (mw_dev m) = Some d"
    and "flag_set (fd_dataflags d) FSESS_OPENED"
  shows "\<exists>m'. run_upcall E (mount_handshake ctx a m) = Some (e, m') \<and> unmounted m' \<and>
    (\<exists>d'. dv_data (mw_dev m') = Some d' \<and> fd_dataflags d' = fd_dataflags d)"
proof -
  let ?r = "\<lparr>rq_op = FUSE_INIT, rq_nodeid = 0, rq_body = b32 7 @ b32 8 @ b32 (fd_iosize d * 16) @ b32 0, rq_ctx = Some ctx\<rparr>"
  let ?m2 = "store_session (load_session m d) m"
  obtain x where x: "ev_daemon E ?m2 ?r = (x, ?m2)" "fr_err x = e"
    by (rule at_initE [OF assms(1), of ?r]) auto
  have "run_upcall E (mount_handshake ctx a m) = run_upcall E (mount_failed e True (store_session (load_session ?m2 d) ?m2))"
    using x assms(2,3)
    by (simp add: mount_handshake_def run_upcall_bind in_session_def fuse_internal_send_init_def ask_def)
  then show ?thesis
    using assms(4) by (simp add: mount_failed_def Let_def unmounted_def)
qed

text \<open>
  A mount that fails in the handshake leaves its options behind: the session keeps them, and the
  next mount on it gets them along with its own.
\<close>

theorem failed_mount_keeps_options:
  assumes "mountable env ctx a m d" and "mount_options env ctx a (mw_mp m) = Inr (mo, mp)"
    and "at_init (\<lambda>x. fr_err x = e) E" and "e \<noteq> 0"
  shows "\<exists>m' d'. run_upcall E (fuse_vfsop_mount env (Some a) False ctx m) = Some (e, m') \<and> unmounted m' \<and>
    dv_data (mw_dev m') = Some d' \<and> fd_dataflags d' = fd_dataflags d OR mo"
proof -
  obtain d1 where d1: "fuse_vfsop_mount env (Some a) False ctx m = mount_handshake ctx a (attached a mp d1 m)"
      "fd_dataflags d1 = fd_dataflags d OR mo"
    using mountable_attaches [OF assms(1,2)] by blast
  then have "flag_set (fd_dataflags d1) FSESS_OPENED"
    using assms(1) by (simp add: mountable_def flag_set_or)
  from handshake_refused [OF assms(3,4) _ this, of "attached a mp d1 m"] d1 show ?thesis
    by (auto simp: attached_def)
qed

lemma example_options:
  "mount_options example_env example_stranger (example_args 0x30000080) example_mp =
     Inr (FSESS_DEFAULT_PERMISSIONS OR FSESS_NO_SYNCWRITES OR FSESS_NO_SYNCONCLOSE,
          mopt_mount (example_args 0x30000080) example_mp)"
  by (simp add: mount_options_def example_args_def mopt_xattr_def mopt_access_def mopt_fsid_def mopt_caches_def
      mopt_flags_def mopt_plain_def mopt_sync_def flag_set_def Let_def)

lemma example_mountable:
  "mountable example_env example_stranger (example_args 0x30000080) example_mount_world
     ((fdata_alloc example_daemon 9)\<lparr>fd_dataflags := FSESS_OPENED\<rparr>)"
  using example_options
  by (simp add: mountable_def example_mount_world_def fdata_alloc_def flag_set_def fdata_dead_get_def
      fuse_vfs_context_issuser_def example_stranger_def fuse_device_get_def example_args_def)

definition refusing :: "int \<Rightarrow> mount_world environment" where
  "refusing e = answering (\<lambda>d r. \<lparr>fr_err = e, fr_answ_stat = 0, fr_answ = []\<rparr>) quiet_answers"

lemma refusing_simps [simp]: "at_init (\<lambda>x. fr_err x = e) (refusing e)" "keeps_mount (refusing e)"
  by (simp_all add: refusing_def at_init_def) (simp add: answering_def)

theorem failed_mount_keeps_options_witness:
  "\<exists>m' d'. run_upcall (refusing 5) (fuse_vfsop_mount example_env (Some (example_args 0x30000080)) False
      example_stranger example_mount_world) = Some (5, m') \<and> unmounted m' \<and> dv_data (mw_dev m') = Some d' \<and>
    fd_dataflags d' = FSESS_OPENED OR (FSESS_DEFAULT_PERMISSIONS OR FSESS_NO_SYNCWRITES OR FSESS_NO_SYNCONCLOSE)"
  using failed_mount_keeps_options [OF example_mountable, of _ _ 5 "refusing 5"] example_options
  by (simp add: example_mount_world_def)

theorem mount_all_or_nothing_witness:
  "\<exists>m'. run_upcall (refusing 5) (fuse_vfsop_mount example_env (Some (example_args 0x30000080)) False
      example_stranger example_mount_world) = Some (5, m') \<and> unmounted m' \<and> mw_count m' = 0"
proof -
  have mp: "mw_mp example_mount_world = example_mp" by (simp add: example_mount_world_def)
  obtain d1 where d1: "fuse_vfsop_mount example_env (Some (example_args 0x30000080)) False example_stranger example_mount_world =
      mount_handshake example_stranger (example_args 0x30000080)
        (attached (example_args 0x30000080) (mopt_mount (example_args 0x30000080) example_mp) d1 example_mount_world)"
      "flag_set (fd_dataflags d1) FSESS_OPENED"
    using mountable_attaches [OF example_mountable, unfolded mp, OF example_options] by (auto simp: flag_set_or flag_set_def)
  from handshake_refused [of 5 "refusing 5", OF _ _ attached_session d1(2)] d1(1)
  obtain m' where r: "run_upcall (refusing 5) (fuse_vfsop_mount example_env (Some (example_args 0x30000080)) False
      example_stranger example_mount_world) = Some (5, m')" by fastforce
  from mount_all_or_nothing [OF _ example_unmounted this] have "unmounted m' \<and> mw_count m' = 0"
    by (simp add: example_mount_world_def)
  with r show ?thesis by blast
qed

lemma init_answer_unfit:
  assumes "io_major (get_init_out answ) < 7 \<or> io_minor (get_init_out answ) < 5 \<or> length answ \<noteq> sizeof_init_out"
  shows "fst (init_answer answ d) \<noteq> 0"
proof -
  have "7 < (x :: u32) \<or> x = 7" if "\<not> x < 7" for x using that by (auto simp: not_less)
  with assms show ?thesis
    by (auto simp: init_answer_def Let_def fuse_libabi_geq_def not_less)
qed

definition unfit :: "u8 list \<Rightarrow> bool" where
  "unfit answ \<longleftrightarrow> io_major (get_init_out answ) < 7 \<or> io_minor (get_init_out answ) < 5 \<or> length answ \<noteq> sizeof_init_out"

lemma send_init_unfit:
  assumes "at_init (\<lambda>x. fr_err x = 0 \<and> unfit (fr_answ x)) E" and "dv_data (mw_dev m) = Some d"
  shows "\<exists>m1 d1. run_upcall E (in_session (fuse_internal_send_init ctx) m) = Some (0, m1) \<and>
    dv_data (mw_dev m1) = Some d1 \<and> fdata_dead_get d1 \<and> flag_set (fd_dataflags d1) FSESS_INITED"
proof -
  let ?r = "\<lparr>rq_op = FUSE_INIT, rq_nodeid = 0, rq_body = b32 7 @ b32 8 @ b32 (fd_iosize d * 16) @ b32 0, rq_ctx = Some ctx\<rparr>"
  let ?m2 = "store_session (load_session m d) m"
  obtain x where x: "ev_daemon E ?m2 ?r = (x, ?m2)" "fr_err x = 0 \<and> unfit (fr_answ x)"
    by (rule at_initE [OF assms(1), of ?r]) auto
  obtain e d0 where i: "init_answer (fr_answ x) d = (e, d0)" by force
  with x(2) init_answer_unfit [of "fr_answ x" d] have "e \<noteq> 0" by (simp add: unfit_def)
  have dead: "fdata_dead_get (fdata_set_dead d0)" by (simp add: fdata_set_dead_def fdata_dead_get_def flag_set_or flag_set_def)
  have inited: "flag_set (4::32 word) 4" by (simp add: flag_set_def)
  show ?thesis
    using x assms(2) i \<open>e \<noteq> 0\<close> dead inited
    by (simp add: in_session_def fuse_internal_send_init_def ask_def fuse_internal_init_synchronous_def
        fuse_drop_def Let_def set_data_def fdata_dead_get_def flag_set_or_self flag_set_or)
qed

lemma getattr_dead:
  assumes "\<exists>x. ev_daemon E (store_session (load_session m d) m)
      \<lparr>rq_op = FUSE_STATFS, rq_nodeid = FUSE_ROOT_ID, rq_body = [], rq_ctx = Some ctx\<rparr> =
      (x, store_session (load_session m d) m) \<and> fr_err x = ENOTCONN"
    and "dv_data (mw_dev m) = Some d" and "flag_set (fd_dataflags d) FSESS_INITED"
  shows "\<exists>attr m1 d1. run_upcall E (in_session (fuse_vfsop_getattr no_attr ctx) m) = Some ((0, attr), m1) \<and>
    dv_data (mw_dev m1) = Some d1 \<and> fd_dataflags d1 = fd_dataflags d"
proof -
  obtain st where "statfs_sizes zero_kstatfs = Some st" using statfs_sizes_bounds by blast
  with assms show ?thesis
    by (auto simp: in_session_def fuse_vfsop_getattr_def ask_def return_statfs_def Let_def set_data_def
        handle_capabilities_and_attributes_def fuse_clear_implemented_def)
qed

text \<open>
  C30: A daemon that speaks a version too old, or answers the handshake at the wrong length, does not make the
  mount fail: the session is marked dead and the mount goes on to its root as if nothing had happened,
  showing made-up numbers.
\<close>

theorem unfit_daemon_is_mounted:
  assumes "mountable env ctx a m d" and "mount_options env ctx a (mw_mp m) = Inr (mo, mp)"
    and "at_init (\<lambda>x. fr_err x = 0 \<and> unfit (fr_answ x)) E"
    and "\<And>m d r. dv_data (mw_dev m) = Some d \<Longrightarrow> fdata_dead_get d \<Longrightarrow> rq_op r = FUSE_STATFS \<Longrightarrow>
           \<exists>x. ev_daemon E m r = (x, m) \<and> fr_err x = ENOTCONN"
  shows "\<exists>m1 d1. run_upcall E (fuse_vfsop_mount env (Some a) False ctx m) = run_upcall E (mount_root m1) \<and>
    dv_data (mw_dev m1) = Some d1 \<and> fdata_dead_get d1 \<and> flag_set (fd_dataflags d1) FSESS_INITED"
proof -
  obtain d0 where d0: "fuse_vfsop_mount env (Some a) False ctx m = mount_handshake ctx a (attached a mp d0 m)"
    using mountable_attaches [OF assms(1,2)] by blast
  obtain m1 d1 where m1: "run_upcall E (in_session (fuse_internal_send_init ctx) (attached a mp d0 m)) = Some (0, m1)"
      "dv_data (mw_dev m1) = Some d1" "fdata_dead_get d1" "flag_set (fd_dataflags d1) FSESS_INITED"
    using send_init_unfit [OF assms(3) attached_session] by blast
  have "\<exists>x. ev_daemon E (store_session (load_session m1 d1) m1)
      \<lparr>rq_op = FUSE_STATFS, rq_nodeid = FUSE_ROOT_ID, rq_body = [], rq_ctx = Some ctx\<rparr> =
      (x, store_session (load_session m1 d1) m1) \<and> fr_err x = ENOTCONN"
    by (rule assms(4) [of _ d1]) (simp_all add: m1(3))
  from getattr_dead [OF this m1(2,4)] obtain attr m2 d2 where
    "run_upcall E (in_session (fuse_vfsop_getattr no_attr ctx) m1) = Some ((0, attr), m2)"
    "dv_data (mw_dev m2) = Some d2" "fd_dataflags d2 = fd_dataflags d1" by blast
  with m1 d0 show ?thesis
    by (auto simp: mount_handshake_def run_upcall_bind Let_def fdata_dead_get_def)
qed

lemma outdated_unfit: "unfit []"
  by (simp add: unfit_def sizeof_init_out_def)

theorem unfit_daemon_is_mounted_witness:
  "\<exists>m1 d1. run_upcall (answering (\<lambda>d r. \<lparr>fr_err = if rq_op r = FUSE_INIT then 0 else ENOTCONN, fr_answ_stat = 0, fr_answ = []\<rparr>) quiet_answers)
      (fuse_vfsop_mount example_env (Some (example_args 0x30000080)) False example_stranger example_mount_world) =
    run_upcall (answering (\<lambda>d r. \<lparr>fr_err = if rq_op r = FUSE_INIT then 0 else ENOTCONN, fr_answ_stat = 0, fr_answ = []\<rparr>) quiet_answers)
      (mount_root m1) \<and>
    dv_data (mw_dev m1) = Some d1 \<and> fdata_dead_get d1 \<and> flag_set (fd_dataflags d1) FSESS_INITED"
  (is "\<exists>m1 d1. run_upcall ?E _ = _ \<and> _")
proof -
  have mp: "mw_mp example_mount_world = example_mp" by (simp add: example_mount_world_def)
  have "at_init (\<lambda>x. fr_err x = 0 \<and> unfit (fr_answ x)) ?E"
    by (simp add: at_init_def answering_def outdated_unfit)
  moreover have "\<exists>x. ev_daemon ?E m r = (x, m) \<and> fr_err x = ENOTCONN" if "rq_op r = FUSE_STATFS" for m r
    using that by (simp add: answering_def)
  ultimately show ?thesis
    by (rule unfit_daemon_is_mounted [OF example_mountable, unfolded mp, OF example_options])
qed






end
