(* ===== verification/Fuse_Events.thy ===== *)
theory Fuse_Events
  imports Fuse_Upcall
begin

text \<open>
  Kernel events on vnodes (\<open>fuse_knote.c\<close> and the kqueue operations of \<open>fuse_vnops.c\<close>) and the
  handlers of the tunables (\<open>fuse_sysctl.c\<close>). What the kernel does with a list of notes, namely to run
  the filter of each, is written out in \<open>FUSE_KNOTE\<close>.
\<close>

section \<open>Notes\<close>

datatype filterops = Fuseread_filtops | Fusewrite_filtops | Fusevnode_filtops

record knote =
  kn_filter :: int
  kn_fop :: "filterops option"
  kn_flags :: u32
  kn_sfflags :: u32
  kn_fflags :: u32
  kn_data :: int
  kn_hook :: "vnode option"
  kn_hookid :: u32

abbreviation (input) EVFILT_READ :: int where "EVFILT_READ \<equiv> -1"
abbreviation (input) EVFILT_WRITE :: int where "EVFILT_WRITE \<equiv> -2"
abbreviation (input) EVFILT_VNODE :: int where "EVFILT_VNODE \<equiv> -4"
abbreviation (input) EV_ONESHOT :: u32 where "EV_ONESHOT \<equiv> 0x10"
abbreviation (input) EV_EOF :: u32 where "EV_EOF \<equiv> 0x8000"
abbreviation (input) NOTE_REVOKE :: u32 where "NOTE_REVOKE \<equiv> 0x40"

text \<open>
  The filters. \<open>same\<close> is whether \<open>vnode_getwithvid\<close> finds the vnode the note was made for; they only
  ask when there is no hint. The result says whether there is an event.
\<close>

definition hint_of :: "bool \<Rightarrow> u32 \<Rightarrow> u32" where
  "hint_of same hint = (if hint = 0 \<and> \<not> same then NOTE_REVOKE else hint)"

definition note_gone :: "knote \<Rightarrow> knote" where
  "note_gone kn = kn\<lparr>kn_flags := kn_flags kn OR (EV_EOF OR EV_ONESHOT)\<rparr>"

definition filt_fuseread :: "bool \<Rightarrow> u32 \<Rightarrow> knote \<Rightarrow> bool \<times> knote" where
  "filt_fuseread same hint kn =
     (if hint_of same hint = NOTE_REVOKE then (True, note_gone kn) else (True, kn\<lparr>kn_data := 1\<rparr>))"

definition filt_fusewrite :: "bool \<Rightarrow> u32 \<Rightarrow> knote \<Rightarrow> bool \<times> knote" where
  "filt_fusewrite same hint kn =
     (if hint_of same hint = NOTE_REVOKE then (True, note_gone (kn\<lparr>kn_data := 0\<rparr>)) else (True, kn\<lparr>kn_data := 0\<rparr>))"

definition filt_fusevnode :: "bool \<Rightarrow> u32 \<Rightarrow> knote \<Rightarrow> bool \<times> knote" where
  "filt_fusevnode same hint kn =
     (let h = hint_of same hint;
          kn1 = (if flag_set (kn_sfflags kn) h then kn\<lparr>kn_fflags := kn_fflags kn OR h\<rparr> else kn)
      in if h = NOTE_REVOKE then (True, note_gone kn1) else (kn_fflags kn1 \<noteq> 0, kn1))"

primrec f_event :: "filterops \<Rightarrow> bool \<Rightarrow> u32 \<Rightarrow> knote \<Rightarrow> bool \<times> knote" where
  "f_event Fuseread_filtops = filt_fuseread"
| "f_event Fusewrite_filtops = filt_fusewrite"
| "f_event Fusevnode_filtops = filt_fusevnode"

text \<open>
  The notes of the nodes (\<open>c_knotes\<close>). Detaching leaves the list alone when the vnode has become another.
\<close>

type_synonym knotes = "vnode \<Rightarrow> knote list"

definition filt_fusedetach :: "bool \<Rightarrow> knote \<Rightarrow> knotes \<Rightarrow> knotes option" where
  "filt_fusedetach same kn K =
     do { vp \<leftarrow> kn_hook kn; Some (if same then K(vp := remove1 kn (K vp)) else K) }"

text \<open>Adding a note: the errno, the note and the lists.\<close>

definition fuse_vnop_kqfilt_add ::
  "vnode \<Rightarrow> u32 \<Rightarrow> knote \<Rightarrow> fuse_world \<Rightarrow> knotes \<Rightarrow> (int \<times> knote \<times> knotes) option" where
  "fuse_vnop_kqfilt_add vp vid kn w K =
     (if fuse_isdeadfs_mp (w_data w) then Some (EBADF, kn, K)
      else do {
        v \<leftarrow> VTOFUD vp w;
        let regular = (\<lambda>fop. if vnode_isreg v then Inr fop else Inl EINVAL);
            fop = (if kn_filter kn = EVFILT_READ then regular Fuseread_filtops
                   else if kn_filter kn = EVFILT_WRITE then regular Fusewrite_filtops
                   else if kn_filter kn = EVFILT_VNODE then Inr Fusevnode_filtops
                   else Inl 1);
            kn1 = (\<lambda>f. kn\<lparr>kn_fop := Some f, kn_hook := Some vp, kn_hookid := vid\<rparr>)
        in case fop of Inl err \<Rightarrow> Some (err, kn, K) | Inr f \<Rightarrow> Some (0, kn1 f, K(vp := kn1 f # K vp))
      })"

definition fuse_vnop_kqfilt_remove :: int where
  "fuse_vnop_kqfilt_remove = ENOTSUP"

text \<open>\<open>fuse_vnop_select\<close> says that every vnode is ready.\<close>

definition fuse_vnop_select :: int where
  "fuse_vnop_select = 1"

text \<open>Posting a hint to the notes of a vnode: which are activated, and the notes.\<close>

definition FUSE_KNOTE :: "u32 \<Rightarrow> knote list \<Rightarrow> (bool \<times> knote) list option" where
  "FUSE_KNOTE hint kns = those (map (\<lambda>kn. do { f \<leftarrow> kn_fop kn; Some (f_event f True hint kn) }) kns)"

section \<open>Tunables\<close>

text \<open>
  A request has the result of copying out the old value, and the new one with the result of copying it
  in, if it has one. The handlers give \<open>SYSCTL_IN\<close> the address of the tunable itself.
\<close>

record 'v sysctl_req =
  rq_oldcopy :: int
  rq_new :: "(int \<times> 'v) option"

record tunables =
  fuse_userkernel_bufsize :: u32
  fuse_kill :: int
  fuse_print_vnodes :: int

definition fuse_round_page_32 :: "u32 \<Rightarrow> u32" where
  "fuse_round_page_32 x = (x + 0x1000 - 1) AND NOT (0x1000 - 1)"

abbreviation (input) FUSE_MIN_USERKERNEL_BUFSIZE :: u32 where "FUSE_MIN_USERKERNEL_BUFSIZE \<equiv> 0x20000"
abbreviation (input) FUSE_MAX_USERKERNEL_BUFSIZE :: u32 where "FUSE_MAX_USERKERNEL_BUFSIZE \<equiv> 0x1000000"

definition sysctl_macfuse_tunables_userkernel_bufsize_handler ::
  "u32 sysctl_req \<Rightarrow> tunables \<Rightarrow> int \<times> tunables" where
  "sysctl_macfuse_tunables_userkernel_bufsize_handler req s =
     (if rq_oldcopy req \<noteq> 0 then (rq_oldcopy req, s)
      else case rq_new req of
        None \<Rightarrow> (0, s)
      | Some (err, v) \<Rightarrow>
          if err \<noteq> 0 then (err, s)
          else let s1 = s\<lparr>fuse_userkernel_bufsize := v\<rparr>; incoming = fuse_round_page_32 v
               in if incoming > FUSE_MAX_USERKERNEL_BUFSIZE then (E2BIG, s1)
                  else if incoming < FUSE_MIN_USERKERNEL_BUFSIZE then (EINVAL, s1)
                  else (0, s1\<lparr>fuse_userkernel_bufsize := incoming\<rparr>))"

text \<open>The handlers that name a device by its unit; \<open>p\<close> is the credential of the caller, if any.\<close>

definition sysctl_macfuse_control_kill_handler ::
  "int sysctl_req \<Rightarrow> ucred option \<Rightarrow> tunables \<Rightarrow> fuse_devices \<Rightarrow> (int \<times> tunables \<times> fuse_devices) option" where
  "sysctl_macfuse_control_kill_handler req p s dvs =
     (if rq_oldcopy req \<noteq> 0 then Some (rq_oldcopy req, s, dvs)
      else case rq_new req of
        None \<Rightarrow> Some (0, s, dvs)
      | Some (err, unit) \<Rightarrow>
          if err \<noteq> 0 then Some (err, s\<lparr>fuse_kill := -1\<rparr>, dvs)
          else do { (err, dvs1) \<leftarrow> fuse_device_kill unit p dvs; Some (err, s\<lparr>fuse_kill := -1\<rparr>, dvs1) })"

definition sysctl_macfuse_control_print_vnodes_handler ::
  "int sysctl_req \<Rightarrow> ucred option \<Rightarrow> bool \<Rightarrow> tunables \<Rightarrow> fuse_devices \<Rightarrow> int \<times> tunables \<times> bool" where
  "sysctl_macfuse_control_print_vnodes_handler req p busy s dvs =
     (if rq_oldcopy req \<noteq> 0 then (rq_oldcopy req, s, False)
      else case rq_new req of
        None \<Rightarrow> (0, s, False)
      | Some (err, unit) \<Rightarrow>
          if err \<noteq> 0 then (err, s\<lparr>fuse_print_vnodes := -1\<rparr>, False)
          else case fuse_device_print_vnodes unit p busy dvs of (err, printed) \<Rightarrow>
            (err, s\<lparr>fuse_print_vnodes := -1\<rparr>, printed))"

end
