(* ===== verification/Fuse_Events_Props.thy ===== *)
theory Fuse_Events_Props
  imports Fuse_Events Fuse_Example
begin

text \<open>
  Notes on vnodes reach those who asked for them; the handlers of the tunables, and one that does not do
  what it says.
\<close>

section \<open>What a watcher is told\<close>


definition wanted :: "knote \<Rightarrow> u32 list \<Rightarrow> u32" where
  "wanted kn hs = fold (OR) (filter (flag_set (kn_sfflags kn)) hs) 0"

lemma fold_or_acc: "fold (OR) hs a = (a OR fold (OR) hs 0 :: u32)"
proof (induction hs arbitrary: a)
  case (Cons h hs)
  from Cons.IH [of "h OR a"] Cons.IH [of h] show ?case by (simp add: ac_simps)
qed simp


lemma wanted_simps [simp]:
  "wanted kn [] = 0"
  "wanted kn (h # hs) = (if flag_set (kn_sfflags kn) h then h OR wanted kn hs else wanted kn hs)"
  by (simp_all add: wanted_def fold_or_acc [of _ h])







text \<open>
  A new size of the user-kernel buffer that is refused is set all the same: the handler copies it over the
  tunable before it looks at it.
\<close>

theorem refused_bufsize_is_set:
  assumes "fuse_round_page_32 v < FUSE_MIN_USERKERNEL_BUFSIZE \<or> FUSE_MAX_USERKERNEL_BUFSIZE < fuse_round_page_32 v"
  shows "\<exists>err. sysctl_macfuse_tunables_userkernel_bufsize_handler \<lparr>rq_oldcopy = 0, rq_new = Some (0, v)\<rparr> s =
    (err, s\<lparr>fuse_userkernel_bufsize := v\<rparr>) \<and> err \<noteq> 0"
  using assms by (auto simp: sysctl_macfuse_tunables_userkernel_bufsize_handler_def Let_def)

theorem refused_bufsize_is_set_witness:
  "\<exists>err. sysctl_macfuse_tunables_userkernel_bufsize_handler \<lparr>rq_oldcopy = 0, rq_new = Some (0, 5)\<rparr>
      \<lparr>fuse_userkernel_bufsize = 0x1000000, fuse_kill = -1, fuse_print_vnodes = -1\<rparr> =
    (err, \<lparr>fuse_userkernel_bufsize = 5, fuse_kill = -1, fuse_print_vnodes = -1\<rparr>) \<and> err \<noteq> 0"
  using refused_bufsize_is_set [of 5 "\<lparr>fuse_userkernel_bufsize = 0x1000000, fuse_kill = -1, fuse_print_vnodes = -1\<rparr>"]
  by (simp add: fuse_round_page_32_def)

text \<open>
  Only root and the user of a daemon can kill its session through the tunable, no other device is
  touched by it, and nothing is unless the request succeeds.
\<close>

theorem kill_tunable_guarded:
  assumes "sysctl_macfuse_control_kill_handler req p s dvs = Some (err, s', dvs')" and "dvs_table dvs' u \<noteq> dvs_table dvs u"
  shows "err = 0 \<and> (\<exists>cred d. p = Some cred \<and> rq_new req = Some (0, int u) \<and> dv_data (dvs_table dvs u) = Some d \<and>
    (cr_uid cred = 0 \<or> fuse_match_cred (fd_daemoncred d) cred = 0))"
proof -
  obtain unit err1 where r: "rq_new req = Some (0, unit)" "fuse_device_kill unit p dvs = Some (err, dvs')"
    using assms by (auto simp: sysctl_macfuse_control_kill_handler_def split: if_splits option.splits bind_splits)
  then show ?thesis using assms(2)
    by (auto simp: fuse_device_kill_def set_device_def Let_def split: if_splits option.splits bind_splits)
qed

text \<open>A session on the second device.\<close>

definition example_devices :: fuse_devices where
  "example_devices = \<lparr>dvs_available = True, dvs_major = 3,
     dvs_table = (\<lambda>_. fresh_device)(1 := fresh_device\<lparr>dv_data := Some (fdata_alloc example_daemon 9)\<rparr>)\<rparr>"

theorem kill_tunable_guarded_witness:
  "\<exists>s' dvs'. sysctl_macfuse_control_kill_handler \<lparr>rq_oldcopy = 0, rq_new = Some (0, 1)\<rparr> (Some example_daemon)
      \<lparr>fuse_userkernel_bufsize = 0x1000000, fuse_kill = -1, fuse_print_vnodes = -1\<rparr> example_devices = Some (0, s', dvs') \<and>
    dvs_table dvs' 1 \<noteq> dvs_table example_devices 1 \<and>
    (cr_uid example_daemon = 0 \<or> fuse_match_cred example_daemon example_daemon = 0)"
proof -
  let ?h = "sysctl_macfuse_control_kill_handler \<lparr>rq_oldcopy = 0, rq_new = Some (0, 1)\<rparr> (Some example_daemon)
      \<lparr>fuse_userkernel_bufsize = 0x1000000, fuse_kill = -1, fuse_print_vnodes = -1\<rparr> example_devices"
  let ?d = "fdata_alloc example_daemon 9"
  have m: "fuse_match_cred example_daemon example_daemon = 0"
    by (simp add: fuse_match_cred_def example_daemon_def)
  have d: "fd_aw_head ?d = []" "fd_daemoncred ?d = example_daemon" "\<not> fdata_dead_get ?d"
    by (simp_all add: fdata_alloc_def fdata_dead_get_def)
  have "fd_dataflags (fdata_set_dead ?d) \<noteq> fd_dataflags ?d"
    using d(3) by (simp add: fdata_set_dead_def) (simp add: fdata_alloc_def)
  then have dead: "fresh_device\<lparr>dv_data := Some (fdata_set_dead ?d)\<rparr> \<noteq> fresh_device\<lparr>dv_data := Some ?d\<rparr>"
    by (metis fuse_device.select_convs(5) fuse_device.surjective fuse_device.update_convs(5) option.inject)
  obtain s' dvs' where r: "?h = Some (0, s', dvs')" "dvs_table dvs' 1 \<noteq> dvs_table example_devices 1"
    using m dead d(1,2)
    by (simp add: sysctl_macfuse_control_kill_handler_def fuse_device_kill_def example_devices_def set_device_def Let_def)
  from kill_tunable_guarded [OF r] r show ?thesis
    by (auto simp: example_devices_def fdata_alloc_def)
qed

end
