(* ===== verification/Fuse_Module.thy ===== *)
theory Fuse_Module
  imports Fuse_Events Fuse_Nodehash
begin

text \<open>
  Loading and unloading the kernel extension (\<open>fuse_main.c\<close>, with \<open>HNodeInit\<close> and \<open>HNodeTerm\<close> of
  \<open>fuse_nodehash.c\<close> and the registration of the tunables in \<open>fuse_sysctl.c\<close>): what it allocates and
  registers, in which order, and how it gives that back.
\<close>

section \<open>The extension\<close>

text \<open>
  The globals, as allocated or not; the node hash; whether the kernel knows the file system type
  (\<open>md_vfs\<close>) and what \<open>fuse_vfs_table_ref\<close> says of it; the devices; whether the tunables are registered.
\<close>

record fuse_module =
  fuse_malloc_tag :: bool
  fuse_lock_attr :: bool
  fuse_group_attr :: bool
  fuse_lock_group :: bool
  fuse_device_mutex :: bool
  md_hash_mutex :: bool
  md_hash :: "hash_state option"
  md_vfs :: bool
  fuse_vfs_table_ref :: bool
  md_devices :: fuse_devices
  md_sysctl :: bool
  md_tunables :: tunables

text \<open>
  What the kernel answers: whether the allocations succeed, the mask \<open>hashinit\<close> chooses if it gives a
  table, the results of \<open>vfs_fsadd\<close> and \<open>vfs_fsremove\<close>, and the device nodes.
\<close>

record module_env =
  me_tag :: bool
  me_group :: bool
  me_mutex :: bool
  me_hash_mutex :: bool
  me_hash :: "u64 option"
  me_fsadd :: int
  me_fsremove :: int
  me_major :: int
  me_node :: "nat \<Rightarrow> bool"

definition fini_stuff :: "fuse_module \<Rightarrow> fuse_module" where
  "fini_stuff m = m\<lparr>fuse_malloc_tag := False, fuse_lock_attr := False, fuse_group_attr := False,
     fuse_lock_group := False, fuse_device_mutex := False\<rparr>"

definition init_stuff :: "module_env \<Rightarrow> fuse_module \<Rightarrow> int \<times> fuse_module" where
  "init_stuff E m =
     (let m1 = m\<lparr>fuse_malloc_tag := me_tag E, fuse_lock_attr := True, fuse_group_attr := True\<rparr>;
          ret1 = (if me_tag E then 0 else KERN_FAILURE);
          (ret2, m2) = (if ret1 = 0 then (if me_group E then 0 else KERN_FAILURE, m1\<lparr>fuse_lock_group := me_group E\<rparr>)
                        else (ret1, m1));
          (ret3, m3) = (if ret2 = 0 then (if me_mutex E then 0 else ENOMEM, m2\<lparr>fuse_device_mutex := me_mutex E\<rparr>)
                        else (ret2, m2))
      in if ret3 \<noteq> 0 then (ret3, fini_stuff m3) else (ret3, m3))"

definition HNodeTerm :: "fuse_module \<Rightarrow> fuse_module" where
  "HNodeTerm m = m\<lparr>md_hash := None, md_hash_mutex := False\<rparr>"

definition hash_start :: "module_env \<Rightarrow> fuse_module \<Rightarrow> int \<times> fuse_module" where
  "hash_start E m =
     (let m1 = m\<lparr>md_hash_mutex := me_hash_mutex E, md_hash := map_option HNodeInit (me_hash E)\<rparr>
      in if \<not> me_hash_mutex E \<or> me_hash E = None then (ENOMEM, HNodeTerm m1) else (0, m1))"

definition fs_remove :: "module_env \<Rightarrow> fuse_module \<Rightarrow> int \<times> fuse_module" where
  "fs_remove E m = (me_fsremove E, if me_fsremove E = 0 then m\<lparr>md_vfs := False\<rparr> else m)"

definition start_failed :: "module_env \<Rightarrow> fuse_module \<Rightarrow> int \<times> fuse_module" where
  "start_failed E m =
     (KERN_FAILURE, fini_stuff (HNodeTerm (if fuse_vfs_table_ref m then snd (fs_remove E m) else m)))"

definition fusefs_start :: "module_env \<Rightarrow> fuse_module \<Rightarrow> int \<times> fuse_module" where
  "fusefs_start E m =
     (case init_stuff E m of (ret, m1) \<Rightarrow>
        if ret \<noteq> 0 then (KERN_FAILURE, m1)
        else case hash_start E m1 of (ret, m2) \<Rightarrow>
          if ret \<noteq> 0 then start_failed E m2
          else if me_fsadd E \<noteq> 0 then start_failed E (m2\<lparr>fuse_vfs_table_ref := False\<rparr>)
          else let m3 = m2\<lparr>md_vfs := True, fuse_vfs_table_ref := True\<rparr>
               in case fuse_devices_start (me_major E) (me_node E) (md_devices m3) of (ret, dvs) \<Rightarrow>
                    let m4 = m3\<lparr>md_devices := dvs\<rparr>
                    in if ret \<noteq> 0 then start_failed E m4 else (0, m4\<lparr>md_sysctl := True\<rparr>))"

definition fusefs_stop :: "module_env \<Rightarrow> fuse_module \<Rightarrow> int \<times> fuse_module" where
  "fusefs_stop E m =
     (case fuse_devices_stop (md_devices m) of (ret, dvs) \<Rightarrow>
        let m1 = m\<lparr>md_devices := dvs\<rparr>
        in if ret \<noteq> 0 then (KERN_FAILURE, m1)
           else case fs_remove E m1 of (ret, m2) \<Rightarrow>
             if ret \<noteq> 0 then (KERN_FAILURE, m2)
             else (0, (fini_stuff (HNodeTerm m2))\<lparr>md_sysctl := False\<rparr>))"

text \<open>
  Setting the tunable that kills a session: an unknown name if it is not registered; the mutex of a
  device that has been taken away is a null pointer, which the kernel does not survive.
\<close>

definition write_kill :: "int \<Rightarrow> ucred option \<Rightarrow> fuse_module \<Rightarrow> (int \<times> fuse_module) option" where
  "write_kill unit p m =
     (if \<not> md_sysctl m then Some (ENOENT, m)
      else if 0 \<le> unit \<and> unit < int MACFUSE_NDEVICES \<and> \<not> dv_cdev (dvs_table (md_devices m) (nat unit)) then None
      else do {
        (err, tn, dvs) \<leftarrow> sysctl_macfuse_control_kill_handler \<lparr>rq_oldcopy = 0, rq_new = Some (0, unit)\<rparr> p
                          (md_tunables m) (md_devices m);
        Some (err, m\<lparr>md_tunables := tn, md_devices := dvs\<rparr>)
      })"

section \<open>Starting and stopping\<close>

definition devices_off :: "fuse_devices \<Rightarrow> bool" where
  "devices_off s \<longleftrightarrow> \<not> dvs_available s \<and> dvs_major s = -1 \<and>
     (\<forall>u<MACFUSE_NDEVICES. \<not> dv_cdev (dvs_table s u) \<and> dv_data (dvs_table s u) = None)"

definition nothing_left :: "fuse_module \<Rightarrow> bool" where
  "nothing_left m \<longleftrightarrow> \<not> fuse_malloc_tag m \<and> \<not> fuse_lock_attr m \<and> \<not> fuse_group_attr m \<and> \<not> fuse_lock_group m \<and>
     \<not> fuse_device_mutex m \<and> \<not> md_hash_mutex m \<and> md_hash m = None \<and> \<not> md_vfs m \<and> \<not> md_sysctl m \<and>
     devices_off (md_devices m)"

definition loaded :: "fuse_module \<Rightarrow> bool" where
  "loaded m \<longleftrightarrow> fuse_malloc_tag m \<and> fuse_lock_attr m \<and> fuse_group_attr m \<and> fuse_lock_group m \<and>
     fuse_device_mutex m \<and> md_hash_mutex m \<and> md_hash m \<noteq> None \<and> md_vfs m \<and> md_sysctl m \<and>
     dvs_available (md_devices m) \<and> dvs_major (md_devices m) \<noteq> -1 \<and>
     (\<forall>u<MACFUSE_NDEVICES. dvs_table (md_devices m) u = fresh_device)"

lemma start_devices_result:
  assumes "start_devices i n node tbl = (r, tbl')"
  shows "i \<le> (case r of None \<Rightarrow> i + n | Some j \<Rightarrow> j) \<and>
    tbl' = (\<lambda>u. if i \<le> u \<and> u < (case r of None \<Rightarrow> i + n | Some j \<Rightarrow> j) then fresh_device else tbl u)"
  using assms
proof (induction n arbitrary: i tbl)
  case (Suc n)
  show ?case
  proof (cases "node i")
    case True
    let ?e = "case r of None \<Rightarrow> Suc i + n | Some j \<Rightarrow> j"
    have "start_devices (Suc i) n node (tbl(i := fresh_device)) = (r, tbl')" using Suc.prems True by simp
    from Suc.IH [OF this]
    have e: "Suc i \<le> ?e" and t: "tbl' = (\<lambda>u. if Suc i \<le> u \<and> u < ?e then fresh_device else (tbl(i := fresh_device)) u)"
      by blast+
    have "tbl' = (\<lambda>u. if i \<le> u \<and> u < ?e then fresh_device else tbl u)"
      unfolding t by (rule ext) (use e in \<open>simp add: less_Suc_eq_le not_less_eq_eq\<close>)
    then show ?thesis using e by (cases r) simp_all
  next
    case False
    with Suc.prems show ?thesis by (auto simp: fun_eq_iff)
  qed
qed (auto simp: fun_eq_iff)

lemma devices_start_result:
  assumes "fuse_devices_start major node s = (r, s')" and "\<not> dvs_available s"
  shows "if r = 0 then dvs_available s' \<and> dvs_major s' \<noteq> -1 \<and> (\<forall>u<MACFUSE_NDEVICES. dvs_table s' u = fresh_device)
    else devices_off s'"
proof (cases "major = -1")
  case True
  with assms show ?thesis by (auto simp: fuse_devices_start_def zero_device_def devices_off_def)
next
  case False
  obtain x tbl where x: "start_devices 0 MACFUSE_NDEVICES node (\<lambda>_. zero_device) = (x, tbl)" by force
  have dev: "\<not> dv_cdev zero_device" "dv_data zero_device = None" "dv_data fresh_device = None"
    by (simp_all add: zero_device_def fresh_device_def)
  from start_devices_result [OF x] False assms x dev show ?thesis
    by (cases x) (auto simp: fuse_devices_start_def devices_off_def Let_def split: if_splits)
qed

lemma devices_stop_result:
  assumes "fuse_devices_stop s = (r, s')" and "dvs_major s \<noteq> -1"
  shows "if r = 0 then devices_off s' else s' = s\<lparr>dvs_available := True\<rparr>"
  using assms by (auto simp: fuse_devices_stop_def devices_off_def Let_def list_ex_iff split: if_splits)

lemma fresh_devices_stop:
  assumes "dvs_major s \<noteq> -1" and "\<forall>u<MACFUSE_NDEVICES. dvs_table s u = fresh_device"
  shows "\<exists>s'. fuse_devices_stop s = (0, s') \<and> devices_off s'"
proof -
  have "fst (fuse_devices_stop s) = 0"
    using assms by (auto simp: fuse_devices_stop_def Let_def list_ex_iff fresh_device_def)
  with devices_stop_result [OF _ assms(1)] show ?thesis by (metis prod.collapse)
qed

lemma start_failed_result:
  assumes "me_fsremove E = 0" and "md_vfs m \<longrightarrow> fuse_vfs_table_ref m" and "\<not> md_sysctl m" and "devices_off (md_devices m)"
  shows "\<exists>m'. start_failed E m = (KERN_FAILURE, m') \<and> nothing_left m'"
  using assms by (auto simp: start_failed_def fs_remove_def HNodeTerm_def fini_stuff_def nothing_left_def)


lemma init_stuff_result:
  assumes "init_stuff E m = (r, m')" and "nothing_left m"
  shows "if r = 0 then m' = m\<lparr>fuse_malloc_tag := True, fuse_lock_attr := True, fuse_group_attr := True,
      fuse_lock_group := True, fuse_device_mutex := True\<rparr> else nothing_left m'"
  using assms by (auto simp: init_stuff_def fini_stuff_def nothing_left_def Let_def split: if_splits)

lemma load_result:
  assumes "nothing_left m" and "me_fsremove E = 0" and "fusefs_start E m = (r, m')"
  shows "if r = 0 then loaded m' else nothing_left m'"
proof -
  obtain r1 m1 where i: "init_stuff E m = (r1, m1)" by force
  note i' = init_stuff_result [OF i assms(1)]
  show ?thesis
  proof (cases "r1 = 0")
    case False
    with assms(3) i i' show ?thesis by (auto simp: fusefs_start_def)
  next
    case r1: True
    with i' have m1: "m1 = m\<lparr>fuse_malloc_tag := True, fuse_lock_attr := True, fuse_group_attr := True,
        fuse_lock_group := True, fuse_device_mutex := True\<rparr>" by simp
    have off: "devices_off (md_devices m)" and vfs: "\<not> md_vfs m" and sys: "\<not> md_sysctl m"
      using assms(1) by (simp_all add: nothing_left_def)
    obtain r2 m2 where h: "hash_start E m1 = (r2, m2)" by force
    then have m2: "\<not> md_vfs m2" "\<not> md_sysctl m2" "md_devices m2 = md_devices m" "r2 = 0 \<Longrightarrow> md_hash_mutex m2 \<and> md_hash m2 \<noteq> None"
        "r2 = 0 \<Longrightarrow> fuse_malloc_tag m2 \<and> fuse_lock_attr m2 \<and> fuse_group_attr m2 \<and> fuse_lock_group m2 \<and> fuse_device_mutex m2"
      using vfs sys by (auto simp: hash_start_def HNodeTerm_def m1 Let_def split: if_splits)
    consider (failed) m3 where "fusefs_start E m = start_failed E m3" "md_vfs m3 \<longrightarrow> fuse_vfs_table_ref m3"
        "\<not> md_sysctl m3" "devices_off (md_devices m3)"
      | (ok) dv where "fusefs_start E m = (0, m2\<lparr>md_vfs := True, fuse_vfs_table_ref := True, md_devices := dv, md_sysctl := True\<rparr>)"
        "r2 = 0" "dvs_available dv" "dvs_major dv \<noteq> -1" "\<forall>u<MACFUSE_NDEVICES. dvs_table dv u = fresh_device"
    proof (cases "r2 \<noteq> 0 \<or> me_fsadd E \<noteq> 0")
      case True
      then show ?thesis
        using that(1) [of "if r2 \<noteq> 0 then m2 else m2\<lparr>fuse_vfs_table_ref := False\<rparr>"] i r1 h m2 off
        by (auto simp: fusefs_start_def)
    next
      case False
      obtain r3 dv where d: "fuse_devices_start (me_major E) (me_node E) (md_devices m) = (r3, dv)" by force
      have "\<not> dvs_available (md_devices m)" using off by (simp add: devices_off_def)
      from devices_start_result [OF d this] show ?thesis
        using that(1) [of "m2\<lparr>md_vfs := True, fuse_vfs_table_ref := True, md_devices := dv\<rparr>"] that(2) [of dv]
          False i r1 h m2 d by (auto simp: fusefs_start_def Let_def split: if_splits)
    qed
    then show ?thesis
    proof cases
      case failed
      with start_failed_result [OF assms(2) failed(2-4)] assms(3) show ?thesis by auto
    next
      case ok
      with assms(3) have r: "r = 0"
        and m': "m' = m2\<lparr>md_vfs := True, fuse_vfs_table_ref := True, md_devices := dv, md_sysctl := True\<rparr>" by auto
      have "loaded m'" unfolding loaded_def m' using m2(4,5) [OF ok(2)] ok(3-5) by simp
      then show ?thesis using r by simp
    qed
  qed
qed


definition empty_module :: fuse_module where
  "empty_module = \<lparr>fuse_malloc_tag = False, fuse_lock_attr = False, fuse_group_attr = False, fuse_lock_group = False,
     fuse_device_mutex = False, md_hash_mutex = False, md_hash = None, md_vfs = False, fuse_vfs_table_ref = False,
     md_devices = \<lparr>dvs_available = False, dvs_major = -1, dvs_table = \<lambda>_. zero_device\<rparr>, md_sysctl = False,
     md_tunables = \<lparr>fuse_userkernel_bufsize = 0x1000000, fuse_kill = -1, fuse_print_vnodes = -1\<rparr>\<rparr>"

definition willing :: "int \<Rightarrow> module_env" where
  "willing fsremove = \<lparr>me_tag = True, me_group = True, me_mutex = True, me_hash_mutex = True, me_hash = Some 1023, me_fsadd = 0,
     me_fsremove = fsremove, me_major = 7, me_node = \<lambda>_. True\<rparr>"

lemma empty_nothing_left: "nothing_left empty_module"
  by (simp add: nothing_left_def empty_module_def devices_off_def zero_device_def)

lemma empty_starts: "fst (fusefs_start (willing e) empty_module) = 0"
proof -
  obtain r dv where d: "fuse_devices_start 7 (\<lambda>_. True) (md_devices empty_module) = (r, dv)" by force
  have "fst (start_devices i n (\<lambda>_. True) tbl) = None" for i n tbl
    by (induction n arbitrary: i tbl) simp_all
  then obtain tbl where "start_devices 0 MACFUSE_NDEVICES (\<lambda>_. True) (\<lambda>_. zero_device) = (None, tbl)"
    by (metis prod.collapse)
  with d have "r = 0" by (simp add: fuse_devices_start_def Let_def)
  with d show ?thesis
    by (simp add: fusefs_start_def init_stuff_def hash_start_def willing_def Let_def)
qed


text \<open>
  C40: Unloading takes the devices away before it knows that it will succeed: when the kernel still holds on to
  the file system type, the extension stays loaded without its devices, and the tunable that kills a
  session, which anybody may set, makes the kernel follow the null pointer where the mutex of a device was.
\<close>

theorem failed_unload_leaves_trap:
  assumes "loaded m" and "me_fsremove E \<noteq> 0" and "unit < MACFUSE_NDEVICES"
  shows "\<exists>m'. fusefs_stop E m = (KERN_FAILURE, m') \<and> md_vfs m' \<and> write_kill (int unit) p m' = None"
proof -
  have "dvs_major (md_devices m) \<noteq> -1" "\<forall>u<MACFUSE_NDEVICES. dvs_table (md_devices m) u = fresh_device"
    using assms(1) by (simp_all add: loaded_def)
  from fresh_devices_stop [OF this] obtain dv where dv: "fuse_devices_stop (md_devices m) = (0, dv)" "devices_off dv"
    by blast
  with assms have "fusefs_stop E m = (KERN_FAILURE, m\<lparr>md_devices := dv\<rparr>)"
    by (simp add: fusefs_stop_def fs_remove_def)
  with assms dv(2) show ?thesis by (simp add: write_kill_def loaded_def devices_off_def)
qed

theorem failed_unload_leaves_trap_witness:
  "\<exists>m m'. fusefs_start (willing 0) empty_module = (0, m) \<and> fusefs_stop (willing 16) m = (KERN_FAILURE, m') \<and>
    write_kill 3 None m' = None"
proof -
  obtain m where m: "fusefs_start (willing 0) empty_module = (0, m)" using empty_starts [of 0] by (metis prod.collapse)
  from load_result [OF empty_nothing_left _ m] have "loaded m" by (simp add: willing_def)
  from failed_unload_leaves_trap [OF this, of "willing 16" 3 None] m show ?thesis by (auto simp: willing_def)
qed

end
