(* ===== verification/Fuse_Mountprog.thy ===== *)
theory Fuse_Mountprog
  imports Fuse_Vfs
begin

text \<open>
  The program that mounts a file system (\<open>mount/mount_fusefs.c\<close>, \<open>mount/getmntopts.c\<close>): it reads the
  options, checks them and hands the kernel a \<open>fuse_mount_args\<close>. The model is of the program with
  32-bit pointers, where \<open>fuse_to_uint32\<close> stores what it parsed through a pointer of the right size.
\<close>

section \<open>Strings\<close>

definition lower :: "char \<Rightarrow> char" where
  "lower c = (if 65 \<le> (of_char c :: nat) \<and> of_char c \<le> (90 :: nat) then char_of (of_char c + 32 :: nat) else c)"

definition is_digit :: "char \<Rightarrow> bool" where
  "is_digit c \<longleftrightarrow> 48 \<le> (of_char c :: nat) \<and> of_char c \<le> (57 :: nat)"

definition is_space :: "char \<Rightarrow> bool" where
  "is_space c \<longleftrightarrow> (of_char c :: nat) = 32 \<or> 9 \<le> (of_char c :: nat) \<and> of_char c \<le> (13 :: nat)"

text \<open>\<open>strstr\<close>: what follows the first occurrence of \<open>pat\<close>.\<close>

fun after_first :: "string \<Rightarrow> string \<Rightarrow> string option" where
  "after_first pat [] = (if pat = [] then Some [] else None)"
| "after_first pat (c # s) =
     (if take (length pat) (c # s) = pat then Some (drop (length pat) (c # s)) else after_first pat s)"

text \<open>\<open>strtok (opt, ",")\<close>: the parts between commas that are not empty.\<close>

fun comma_parts :: "string \<Rightarrow> string \<Rightarrow> string list" where
  "comma_parts acc [] = (if acc = [] then [] else [rev acc])"
| "comma_parts acc (c # s) =
     (if c = CHR '','' then (if acc = [] then comma_parts [] s else rev acc # comma_parts [] s)
      else comma_parts (c # acc) s)"

text \<open>The number at the start of a string, with its sign, for \<open>strtoul\<close> and \<open>strtol\<close> with base 10.\<close>

definition number_start :: "string \<Rightarrow> (bool \<times> nat) option" where
  "number_start s =
     (let s1 = dropWhile is_space s;
          neg = (s1 \<noteq> [] \<and> hd s1 = CHR ''-'');
          s2 = (if s1 \<noteq> [] \<and> hd s1 \<in> {CHR ''-'', CHR ''+''} then tl s1 else s1);
          ds = takeWhile is_digit s2
      in if ds = [] then None else Some (neg, foldl (\<lambda>n c. n * 10 + (of_char c - 48)) 0 ds))"

definition strtoul10 :: "string \<Rightarrow> int \<times> u32" where
  "strtoul10 s =
     (case number_start s of
        None \<Rightarrow> (EINVAL, 0)
      | Some (neg, n) \<Rightarrow> if n \<ge> 2 ^ 32 then (ERANGE, -1) else (0, if neg then - of_nat n else of_nat n))"

definition strtol10 :: "string \<Rightarrow> int \<times> int" where
  "strtol10 s =
     (case number_start s of
        None \<Rightarrow> (EINVAL, 0)
      | Some (neg, n) \<Rightarrow>
          if neg \<and> n > 2 ^ 31 then (ERANGE, - (2 ^ 31))
          else if \<not> neg \<and> n \<ge> 2 ^ 31 then (ERANGE, 2 ^ 31 - 1)
          else (0, if neg then - int n else int n))"

fun decimal :: "nat \<Rightarrow> string" where
  "decimal n = (if n < 10 then [char_of (48 + n)] else decimal (n div 10) @ [char_of (48 + n mod 10)])"

declare decimal.simps [simp del]

definition basename :: "string \<Rightarrow> string" where
  "basename s =
     (if s = [] then ''.''
      else let r = dropWhile (\<lambda>c. c = CHR ''/'') (rev s)
           in if r = [] then ''/'' else rev (takeWhile (\<lambda>c. c \<noteq> CHR ''/'') r))"

section \<open>The option table\<close>

record mntopt =
  m_option :: string
  m_inverse :: bool
  m_flag :: u64
  m_altloc :: bool

definition opt :: "string \<Rightarrow> bool \<Rightarrow> u64 \<Rightarrow> bool \<Rightarrow> mntopt" where
  "opt s i f a = \<lparr>m_option = s, m_inverse = i, m_flag = f, m_altloc = a\<rparr>"

definition mopt_stdopts :: "mntopt list" where
  "mopt_stdopts =
     [opt ''userquota'' False 0 False, opt ''groupquota'' False 0 False, opt ''ro'' False 0x1 False,
      opt ''rw'' True 0x1 False, opt ''auto'' False 0 False, opt ''dev'' True 0x10 False,
      opt ''exec'' True 0x4 False, opt ''suid'' True 0x8 False, opt ''rdonly'' False 0x1 False,
      opt ''union'' False 0x20 False, opt ''browse'' True 0x100000 False,
      opt ''automounted'' False 0x400000 False, opt ''defwrite'' False 0x2000000 False,
      opt ''atime'' True 0x10000000 False]"

definition mopts :: "mntopt list" where
  "mopts = mopt_stdopts @
     [opt ''update'' False 0x10000 False,
      opt ''allow_other'' False FUSE_MOPT_ALLOW_OTHER True, opt ''allow_recursion'' False 0x2 True,
      opt ''allow_root'' False FUSE_MOPT_ALLOW_ROOT True, opt ''auto_cache'' False FUSE_MOPT_AUTO_CACHE True,
      opt ''auto_xattr'' False FUSE_MOPT_AUTO_XATTR True, opt ''blocksize='' False FUSE_MOPT_BLOCKSIZE True,
      opt ''daemon_timeout='' False 0x20 True, opt ''debug'' False 0x40 True,
      opt ''default_permissions'' False FUSE_MOPT_DEFAULT_PERMISSIONS True,
      opt ''defer_permissions'' False FUSE_MOPT_DEFER_PERMISSIONS True,
      opt ''direct_io'' False FUSE_MOPT_DIRECT_IO True,
      opt ''extended_security'' False FUSE_MOPT_EXTENDED_SECURITY True, opt ''fsid='' False FUSE_MOPT_FSID True,
      opt ''fsname='' False 0x1000 True, opt ''fssubtype='' False 0x2000 True,
      opt ''fstypename='' False FUSE_MOPT_FSTYPENAME True, opt ''init_timeout='' False 0x8000 True,
      opt ''iosize='' False FUSE_MOPT_IOSIZE True, opt ''jail_symlinks'' False FUSE_MOPT_JAIL_SYMLINKS True,
      opt ''kill_on_unmount'' False FUSE_MOPT_KILL_ON_UNMOUNT True, opt ''local'' False FUSE_MOPT_LOCALVOL True,
      opt ''native_xattr'' False FUSE_MOPT_NATIVE_XATTR True,
      opt ''negative_vncache'' False FUSE_MOPT_NEGATIVE_VNCACHE True, opt ''sparse'' False FUSE_MOPT_SPARSE True,
      opt ''use_ino'' False 0x100000000 True, opt ''volname='' False 0x200000000 True,
      opt ''alerts'' True FUSE_MOPT_NO_ALERTS True, opt ''appledouble'' True FUSE_MOPT_NO_APPLEDOUBLE True,
      opt ''applexattr'' True FUSE_MOPT_NO_APPLEXATTR True, opt ''attrcache'' True FUSE_MOPT_NO_ATTRCACHE True,
      opt ''browse'' True FUSE_MOPT_NO_BROWSE True, opt ''localcaches'' True FUSE_MOPT_NO_LOCALCACHES True,
      opt ''readahead'' True FUSE_MOPT_NO_READAHEAD True, opt ''synconclose'' True FUSE_MOPT_NO_SYNCONCLOSE True,
      opt ''syncwrites'' True FUSE_MOPT_NO_SYNCWRITES True, opt ''ubc'' True FUSE_MOPT_NO_UBC True,
      opt ''vncache'' True FUSE_MOPT_NO_VNCACHE True]"

section \<open>Reading options\<close>

definition cut_value :: "string \<Rightarrow> string" where
  "cut_value s = takeWhile (\<lambda>c. c \<noteq> CHR ''='') s @ (if CHR ''='' \<in> set s then ''='' else [])"

definition option_matches :: "string \<Rightarrow> mntopt \<Rightarrow> bool" where
  "option_matches s m \<longleftrightarrow>
     (let len = length (m_option m)
      in len \<le> length s \<and> map lower (take len s) = map lower (m_option m) \<and> (length s = len \<or> s ! len = CHR ''=''))"

text \<open>One option: the flags for \<open>mount\<close> and those of the file system. An unknown one is passed over.\<close>

definition getmntopt :: "mntopt list \<Rightarrow> string \<Rightarrow> u32 \<times> u64 \<Rightarrow> u32 \<times> u64" where
  "getmntopt m0 s = (\<lambda>(flags, alt).
     let negative = (take 2 s = ''no''); name = cut_value (if negative then drop 2 s else s)
     in case find (option_matches name) m0 of
          None \<Rightarrow> (flags, alt)
        | Some m \<Rightarrow>
            let on = (negative = m_inverse m); f32 = ucast (m_flag m)
            in if m_altloc m then (flags, if on then alt OR m_flag m else alt AND NOT (m_flag m))
               else (if on then flags OR f32 else flags AND NOT f32, alt))"

definition getmntopts :: "string \<Rightarrow> mntopt list \<Rightarrow> u32 \<times> u64 \<Rightarrow> u32 \<times> u64" where
  "getmntopts options m0 fl = fold (getmntopt m0) (comma_parts [] options) fl"

text \<open>The path functions of the same file.\<close>

fun squeeze_slashes :: "string \<Rightarrow> string" where
  "squeeze_slashes (a # b # s) =
     (if a = CHR ''/'' \<and> b = CHR ''/'' then squeeze_slashes (b # s) else a # squeeze_slashes (b # s))"
| "squeeze_slashes s = s"

definition rmslashes :: "string \<Rightarrow> string" where
  "rmslashes s = (let t = squeeze_slashes s in if length t > 1 \<and> last t = CHR ''/'' then butlast t else t)"

text \<open>The options that have values, with the value that was found.\<close>

definition mval_flags :: "u64 list" where
  "mval_flags = [FUSE_MOPT_BLOCKSIZE, 0x20, FUSE_MOPT_FSID, 0x1000, 0x8000, FUSE_MOPT_IOSIZE, 0x2000,
     FUSE_MOPT_FSTYPENAME, 0x200000000]"

definition option_value :: "string \<Rightarrow> u64 \<Rightarrow> string option" where
  "option_value optarg flag =
     (case find (\<lambda>m. after_first (m_option m) optarg \<noteq> None) (filter (\<lambda>m. m_flag m = flag) mopts) of
        None \<Rightarrow> None
      | Some m \<Rightarrow> map_option (takeWhile (\<lambda>c. c \<noteq> CHR '','')) (after_first (m_option m) optarg))"

type_synonym mvals = "u64 \<Rightarrow> string option"

text \<open>The argument of one \<open>-o\<close>, and of all.\<close>

definition read_option :: "string \<Rightarrow> (u32 \<times> u64) \<times> mvals \<Rightarrow> (u32 \<times> u64) \<times> mvals" where
  "read_option optarg = (\<lambda>(fl, mv).
     let fl1 = getmntopts optarg mopts fl
     in (fl1, fold (\<lambda>f mv. if flag_set (snd fl1) f
                           then (case option_value optarg f of None \<Rightarrow> mv | Some v \<Rightarrow> mv(f := Some v))
                           else mv) mval_flags mv))"

definition read_options :: "string list \<Rightarrow> (u32 \<times> u64) \<times> mvals" where
  "read_options os = fold read_option os ((0, 0), \<lambda>_. None)"

section \<open>Values\<close>

definition fuse_to_uint32 :: "string option \<Rightarrow> u32 \<Rightarrow> int \<times> u32" where
  "fuse_to_uint32 value fallback =
     (case value of
        None \<Rightarrow> (0, fallback)
      | Some s \<Rightarrow> (case strtoul10 s of (err, u) \<Rightarrow> if err \<noteq> 0 then (err, fallback) else (0, u)))"

definition fuse_to_fsid :: "string option \<Rightarrow> u32 \<Rightarrow> int \<times> u32" where
  "fuse_to_fsid value fallback =
     (if value = None then (0, fallback)
      else case fuse_to_uint32 value fallback of (ret, u) \<Rightarrow>
        if ret \<noteq> 0 then (ret, u)
        else if u AND NOT 0xFFFFFF \<noteq> 0 \<or> u = 0 then (EINVAL, u) else (0, u))"

text \<open>
  The subtype of the file system: the personalities of the bundle, by name, with their subtypes, where the
  bundle can be read (\<open>None\<close> otherwise). The claimed subtype is looked for first, then a personality whose
  name is part of the daemon's, which must be known then.
\<close>

abbreviation (input) FUSE_FSSUBTYPE_UNKNOWN :: u32 where "FUSE_FSSUBTYPE_UNKNOWN \<equiv> 0"
abbreviation (input) FUSE_FSSUBTYPE_INVALID :: u32 where "FUSE_FSSUBTYPE_INVALID \<equiv> -1"

type_synonym personalities = "(string \<times> u32 option) list option"

definition fsbundle_find_fssubtype :: "personalities \<Rightarrow> string option \<Rightarrow> u32 \<Rightarrow> u32 option" where
  "fsbundle_find_fssubtype bundle claimed_name claimed =
     (case bundle of
        None \<Rightarrow> Some FUSE_FSSUBTYPE_UNKNOWN
      | Some ps \<Rightarrow>
          if ps = [] then Some FUSE_FSSUBTYPE_UNKNOWN
          else if claimed \<noteq> FUSE_FSSUBTYPE_INVALID \<and> list_ex (\<lambda>(k, n). n = Some claimed) ps then Some claimed
          else (case claimed_name of
                  None \<Rightarrow> None
                | Some name \<Rightarrow>
                    Some (case find (\<lambda>(k, n). after_first (map lower k) (map lower name) \<noteq> None) ps of
                            Some (k, Some n) \<Rightarrow> n
                          | _ \<Rightarrow> FUSE_FSSUBTYPE_UNKNOWN)))"

definition fuse_to_fssubtype :: "personalities \<Rightarrow> string option \<Rightarrow> string option \<Rightarrow> u32 option" where
  "fuse_to_fssubtype bundle daemon value =
     (let claimed = (case value of
            None \<Rightarrow> FUSE_FSSUBTYPE_INVALID
          | Some _ \<Rightarrow> (case fuse_to_uint32 value 0 of (ret, u) \<Rightarrow> if ret \<noteq> 0 then FUSE_FSSUBTYPE_INVALID else u))
      in fsbundle_find_fssubtype bundle daemon claimed)"

text \<open>The globals the values go to.\<close>

record mount_values =
  g_blocksize :: u32
  g_daemon_timeout :: u32
  g_fsid :: u32
  g_fsname :: "string option"
  g_init_timeout :: u32
  g_iosize :: u32
  g_fssubtype :: u32
  g_fstypename :: "string option"
  g_volname :: "string option"

text \<open>
  \<open>None\<close> is a crash; \<open>Inl\<close> the status the program exits with. The environment: the personalities, the
  path of the daemon and whether alerts are off, as environment variables say.
\<close>

record mount_vars =
  mv_bundle :: personalities
  mv_daemon_path :: "string option"
  mv_no_alerts :: bool

abbreviation (input) ESRCH :: int where "ESRCH \<equiv> 3"
abbreviation (input) EX_USAGE :: int where "EX_USAGE \<equiv> 64"
abbreviation (input) EX_UNAVAILABLE :: int where "EX_UNAVAILABLE \<equiv> 69"
abbreviation (input) EX_OSERR :: int where "EX_OSERR \<equiv> 71"
abbreviation (input) EX_OSFILE :: int where "EX_OSFILE \<equiv> 72"

definition fuse_process_mvals :: "mount_vars \<Rightarrow> mvals \<Rightarrow> (int + mount_values) option" where
  "fuse_process_mvals V mv =
     (case fuse_to_uint32 (mv FUSE_MOPT_BLOCKSIZE) FUSE_DEFAULT_BLOCKSIZE of (e1, blocksize) \<Rightarrow>
      case fuse_to_uint32 (mv 0x20) 60 of (e2, daemon_timeout) \<Rightarrow>
      case fuse_to_fsid (mv FUSE_MOPT_FSID) 0 of (e3, fsid) \<Rightarrow>
      case fuse_to_uint32 (mv 0x8000) 10 of (e4, init_timeout) \<Rightarrow>
      case fuse_to_uint32 (mv FUSE_MOPT_IOSIZE) FUSE_DEFAULT_IOSIZE of (e5, iosize) \<Rightarrow>
      if e1 \<noteq> 0 \<or> e2 \<noteq> 0 \<or> e3 \<noteq> 0 \<or> e4 \<noteq> 0 \<or> e5 \<noteq> 0 then Some (Inl EX_USAGE)
      else do {
        fssubtype \<leftarrow> fuse_to_fssubtype (mv_bundle V) (mv_daemon_path V) (mv 0x2000);
        Some (Inr \<lparr>g_blocksize = blocksize, g_daemon_timeout = daemon_timeout, g_fsid = fsid, g_fsname = mv 0x1000,
                   g_init_timeout = init_timeout, g_iosize = iosize, g_fssubtype = fssubtype,
                   g_fstypename = mv FUSE_MOPT_FSTYPENAME, g_volname = mv 0x200000000\<rparr>)
      })"

section \<open>The program\<close>

text \<open>\<open>check_kext_status\<close>: whether the type is known, and the version or error of \<open>sysctlbyname\<close>.\<close>

definition check_kext_status :: "bool \<Rightarrow> int + string \<Rightarrow> string \<Rightarrow> int" where
  "check_kext_status known version own =
     (if \<not> known then ESRCH else case version of Inl err \<Rightarrow> err | Inr v \<Rightarrow> if v \<noteq> own then EINVAL else 0)"

text \<open>The options that exclude each other: the options as the kernel is to get them.\<close>

definition check_altflags :: "mount_vars \<Rightarrow> u64 \<Rightarrow> u64 option" where
  "check_altflags V alt0 =
     (let alt = (if flag_set alt0 FUSE_MOPT_NO_LOCALCACHES
                 then alt0 OR FUSE_MOPT_NO_ATTRCACHE OR FUSE_MOPT_NO_READAHEAD OR FUSE_MOPT_NO_UBC OR FUSE_MOPT_NO_VNCACHE
                 else alt0)
      in if flag_set alt FUSE_MOPT_NEGATIVE_VNCACHE \<and> flag_set alt FUSE_MOPT_NO_VNCACHE then None
         else if flag_set alt FUSE_MOPT_NO_SYNCWRITES \<and> flag_set alt (FUSE_MOPT_NO_UBC OR FUSE_MOPT_NO_READAHEAD) then None
         else if flag_set alt FUSE_MOPT_NO_SYNCONCLOSE \<and> \<not> flag_set alt FUSE_MOPT_NO_SYNCWRITES then None
         else if flag_set alt FUSE_MOPT_DEFAULT_PERMISSIONS \<and> flag_set alt FUSE_MOPT_DEFER_PERMISSIONS then None
         else if flag_set alt FUSE_MOPT_AUTO_XATTR \<and> flag_set alt FUSE_MOPT_NATIVE_XATTR then None
         else Some (if mv_no_alerts V then alt OR FUSE_MOPT_NO_ALERTS else alt))"

text \<open>The arguments, from the values, the device's number, name and secret.\<close>

definition compose_args :: "mount_vars \<Rightarrow> u64 \<Rightarrow> mount_values \<Rightarrow> int \<Rightarrow> u32 \<Rightarrow> u32 \<Rightarrow> (int, fuse_mount_args) sum" where
  "compose_args V alt g dindex rdev random =
     (let name = map_option basename (mv_daemon_path V);
          unit = decimal (nat dindex);
          fsname = (case g_fsname g of
              Some s \<Rightarrow> s
            | None \<Rightarrow> (case name of Some d \<Rightarrow> d @ ''@fuse'' @ unit | None \<Rightarrow> ''instance@fuse'' @ unit));
          volname = (case g_volname g of
              Some s \<Rightarrow> s
            | None \<Rightarrow> ''MacFUSE Volume '' @ unit @ (case name of Some d \<Rightarrow> '' ('' @ d @ '')'' | None \<Rightarrow> []));
          fstypename = (case g_fstypename g of Some s \<Rightarrow> s | None \<Rightarrow> [])
      in if length fstypename > 7 then Inl EX_USAGE
         else Inr \<lparr>ma_fsname = take 1023 fsname, ma_fstypename = fstypename, ma_volname = take 1023 volname,
                   ma_altflags = alt, ma_blocksize = g_blocksize g,
                   ma_daemon_timeout = min (g_daemon_timeout g) 600, ma_fsid = g_fsid g, ma_fssubtype = g_fssubtype g,
                   ma_init_timeout = min (max (g_init_timeout g) 1) 300, ma_iosize = g_iosize g,
                   ma_random = random, ma_rdev = rdev\<rparr>)"

text \<open>
  \<open>main\<close> after the command line has been taken apart: the arguments of the \<open>-o\<close> options and the two names;
  the rest is what the system calls say: \<open>fstat\<close> and the name of the device in \<open>/dev\<close>, the state of the
  extension, the mount point with the type of the file system it is on, and the device's secret. The
  result is the status the program exits with, or what it calls \<open>mount\<close> with.
\<close>

record mount_host =
  mh_device :: "(u32 \<times> string) option"
  mh_kext :: int
  mh_path :: "string option"
  mh_fstype :: "string option"
  mh_random :: "u32 option"

definition mount_main ::
  "mount_vars \<Rightarrow> mount_host \<Rightarrow> string list \<Rightarrow> string option \<Rightarrow> string option \<Rightarrow> (int + u32 \<times> fuse_mount_args) option" where
  "mount_main V H os fdnam mntpath =
     (let ((mntflags, alt), mv) = read_options os;
          dindex = (\<lambda>name. strtol10 (drop 4 name))
      in case fdnam of None \<Rightarrow> Some (Inl EX_USAGE) | Some fd \<Rightarrow>
         if fst (strtol10 fd) \<noteq> 0 then Some (Inl EX_USAGE)
         else case mh_device H of None \<Rightarrow> Some (Inl EX_OSERR) | Some (rdev, name) \<Rightarrow>
         if take 4 name \<noteq> ''fuse'' then Some (Inl EX_USAGE)
         else if fst (dindex name) \<noteq> 0 \<or> snd (dindex name) < 0 \<or> snd (dindex name) > 24 then Some (Inl EX_USAGE)
         else if mh_kext H \<noteq> 0 then Some (Inl EX_UNAVAILABLE)
         else case mntpath of None \<Rightarrow> Some (Inl EX_USAGE) | Some _ \<Rightarrow>
         if mh_path H = None then Some (Inl EX_USAGE)
         else do {
           vals \<leftarrow> fuse_process_mvals V mv;
           case vals of Inl e \<Rightarrow> Some (Inl e) | Inr g \<Rightarrow>
           (case mh_fstype H of None \<Rightarrow> Some (Inl EX_OSFILE) | Some fstype \<Rightarrow>
            if (fstype = ''fusefs'' \<or> take 7 fstype = ''fusefs_'') \<and> \<not> flag_set alt 0x2 then Some (Inl EX_USAGE)
            else case check_altflags V alt of None \<Rightarrow> Some (Inl EX_USAGE) | Some alt1 \<Rightarrow>
            (case mh_random H of None \<Rightarrow> Some (Inl EX_UNAVAILABLE) | Some random \<Rightarrow>
             Some (map_sum id (Pair mntflags) (compose_args V alt1 g (snd (dindex name)) rdev random))))
         })"

end
