(* ===== verification/Fuse_Mountprog_Props.thy ===== *)
theory Fuse_Mountprog_Props
  imports Fuse_Mountprog Fuse_Vfs_Props
begin

text \<open>
  The checks of the mount program against those of the kernel, and values that end up with the wrong option.
\<close>

section \<open>What the program lets through\<close>














text \<open>
  Whatever is written for the block size, the program takes what follows the letters \<open>dev\<close> in its options
  instead, as soon as they occur there: the flag of the option \<open>dev\<close> of \<open>mount\<close> is the same bit.
\<close>

theorem blocksize_from_dev:
  assumes "after_first ''dev'' optarg = Some r"
  shows "option_value optarg FUSE_MOPT_BLOCKSIZE = Some (takeWhile (\<lambda>c. c \<noteq> CHR '','') r)"
  using assms by (simp add: option_value_def mopts_def mopt_stdopts_def opt_def)

theorem blocksize_from_dev_witness:
  "option_value ''blocksize=4096,fsname=/dev/disk1'' FUSE_MOPT_BLOCKSIZE = Some ''/disk1'' \<and>
   fst (fuse_to_uint32 (Some ''/disk1'') FUSE_DEFAULT_BLOCKSIZE) = EINVAL"
proof -
  have "after_first ''dev'' ''blocksize=4096,fsname=/dev/disk1'' = Some ''/disk1''" by simp
  from blocksize_from_dev [OF this] show ?thesis
    by (simp add: fuse_to_uint32_def strtoul10_def number_start_def is_digit_def is_space_def Let_def)
qed

end
