(* ===== verification/Fuse_Calls.thy ===== *)
theory Fuse_Calls
  imports Fuse_Io Fuse_Vfs_Props
begin

text \<open>
  The operations together: what a caller of the file system may ask, and that no call it may make ends in
  a crash or takes tickets with it, whatever the daemon answers and the other threads do.
\<close>

section \<open>Calls\<close>








section \<open>No call crashes\<close>















section \<open>A daemon that dies\<close>




end
