(* ===== verification/Fuse_Dirents.thy ===== *)
theory Fuse_Dirents
  imports Fuse_Protocol Fuse_Data
begin

text \<open>
  A directory on its way from the daemon to the caller: what a caller that walks the records it was given
  finds, and that these are the daemon's entries.
\<close>

section \<open>Walking the records\<close>

text \<open>
  The caller takes a \<open>struct dirent\<close> apart and goes on by the length it names: inode, type and name.
\<close>

definition d_reclen :: "u8 list \<Rightarrow> nat" where
  "d_reclen buf = unat (le_dec (get_bytes 4 2 buf) :: 16 word)"

definition read_dirent :: "u8 list \<Rightarrow> u32 \<times> u8 \<times> u8 list" where
  "read_dirent buf = (get32 0 buf, buf ! 6, take (unat (buf ! 7)) (drop 8 buf))"

function read_dirents :: "u8 list \<Rightarrow> (u32 \<times> u8 \<times> u8 list) list" where
  "read_dirents buf =
     (if length buf < 8 \<or> d_reclen buf = 0 then []
      else read_dirent buf # read_dirents (drop (d_reclen buf) buf))"
  by pat_completeness auto

termination
  by (relation "measure length") auto

declare read_dirents.simps [simp del]

text \<open>What the caller is to see of an entry: a whiteout if it is hidden.\<close>

definition visible_dirent :: "fuse_data \<Rightarrow> fuse_dirent \<times> u8 list \<Rightarrow> u32 \<times> u8 \<times> u8 list" where
  "visible_dirent d = (\<lambda>(de, name).
     if hidden_name d name then (0, 14, name) else (ucast (fde_ino de), ucast (fde_type de), name))"

lemma reclen_kernel_dirent:
  assumes "good_name (de, name)"
  shows "d_reclen (kernel_dirent d (de, name) @ rest) = GENERIC_DIRSIZ (length name)"
proof -
  have "GENERIC_DIRSIZ (length name) < 2 ^ 16"
    using GENERIC_DIRSIZ_bounds [of "length name"] assms by (simp add: good_name_def)
  then show ?thesis
    by (simp add: d_reclen_def kernel_dirent_def get_bytes_def le_dec_le_enc take_bit_word_eq_self
        unsigned_of_nat take_bit_nat_eq_self)
qed

lemma read_kernel_dirent:
  assumes "good_name (de, name)"
  shows "read_dirent (kernel_dirent d (de, name) @ rest) = visible_dirent d (de, name)"
  using assms
  by (simp add: read_dirent_def kernel_dirent_def visible_dirent_def good_name_def nth_append
      unsigned_of_nat take_bit_nat_eq_self)

lemma read_dirents_kernel:
  "(\<And>e. e \<in> set es \<Longrightarrow> good_name e) \<Longrightarrow>
   read_dirents (concat (map (kernel_dirent d) es)) = map (visible_dirent d) es"
proof (induction es)
  case Nil
  then show ?case by (simp add: read_dirents.simps)
next
  case (Cons e es)
  obtain de name where e: "e = (de, name)" by (cases e)
  have good: "good_name (de, name)" using Cons.prems [of e] e by simp
  note len = length_kernel_dirent [OF good, of d]
  have "8 \<le> GENERIC_DIRSIZ (length name)"
    using GENERIC_DIRSIZ_bounds [of "length name"] good by (simp add: good_name_def)
  with len Cons show ?case
    by (subst read_dirents.simps) (simp add: e reclen_kernel_dirent [OF good] read_kernel_dirent [OF good])
qed

section \<open>The whole operation\<close>

text \<open>A daemon that answers every request for a directory with the entries.\<close>

definition lists :: "(request \<Rightarrow> fdisp_result) \<Rightarrow> (fuse_dirent \<times> u8 list) list \<Rightarrow> bool" where
  "lists D es \<longleftrightarrow>
     (\<forall>r. rq_op r = FUSE_READDIR \<longrightarrow> D r = \<lparr>fr_err = 0, fr_answ_stat = 0, fr_answ = concat (map packed_dirent es)\<rparr>)"

lemma requested_readdir:
  "requested_size \<lparr>rq_op = op, rq_nodeid = nid, rq_body = b64 f @ b64 off @ b32 sz @ ys, rq_ctx = ctx\<rparr> = unat sz"
  by (simp add: requested_size_def b64_def b32_def comp_def)

lemma internal_readdir_run:
  assumes "VTOFUD vp w = Some v" and "lists D es" and "smooth other" and "roomy E iov"
    and "\<And>e. e \<in> set es \<Longrightarrow> good_name e" and "uio_resid u \<noteq> 0"
    and "length (concat (map packed_dirent es)) \<le> unat (min (of_nat (uio_resid u)) (fd_iosize (w_data w)))"
    and "(\<Sum>e\<leftarrow>es. GENERIC_DIRSIZ (length (snd e))) \<le> uio_resid u"
  shows "run_upcall (quiet_environment D fresh other) (fuse_internal_readdir E vp ctx iov u w) =
    Some ((0, u\<lparr>uio_resid := uio_resid u - (\<Sum>e\<leftarrow>es. GENERIC_DIRSIZ (length (snd e))),
        uio_offset := (if es = [] then uio_offset u else fde_off (fst (last es))),
        uio_out := uio_out u @ concat (map (kernel_dirent (w_data w)) es)\<rparr>, None), w)"
proof -
  let ?w = "w\<lparr>w_held := Suc (w_held w)\<rparr>"
  let ?E = "quiet_environment D fresh other"
  obtain iov1 where p: "run_upcall ?E (readdir_processdata E True 0 (concat (map packed_dirent es)) iov u ?w) =
    Some ((-1, 0 + length es, iov1,
      u\<lparr>uio_resid := uio_resid u - (\<Sum>e\<leftarrow>es. GENERIC_DIRSIZ (length (snd e))),
        uio_offset := (if es = [] then uio_offset u else fde_off (fst (last es))),
        uio_out := uio_out u @ concat (map (kernel_dirent (w_data ?w)) es)\<rparr>), ?w)"
    using processdata_moves [OF assms(4,5,8), of ?E "\<lambda>bs. other (K_uiomove bs)" True 0 ?w] assms(3)
    by (auto simp: smooth_def)
  then show ?thesis
    using assms
    by (simp add: fuse_internal_readdir_def reask_def ask_def quiet_daemon_def lists_def answer_audited_def
        requested_readdir run_upcall_bind fuse_drop_def Let_def)
qed

text \<open>
  C14: What a caller reads from a directory is what the daemon put into it: each entry the daemon packs, in
  its order, is found again by a caller that walks the records it was given, with its inode, type and name,
  or as a whiteout if the mount hides it; and the offset the caller goes on from is that of the last one.
\<close>

theorem directory_round_trip:
  assumes "VTOFUD vp w = Some v" and "\<not> fuse_isdeadfs (w_data w) v" and "\<not> fuse_blanket_deny (w_data w) v ctx"
    and "FUFH_IS_VALID (fv_fufh v FUFH_RDONLY)" and "ke_malloc_ok E DIRCOOKEDSIZE"
    and "DIRCOOKEDSIZE \<le> fuse_iov_permanent_bufsize E" and "lists D es" and "smooth other"
    and "\<And>e. e \<in> set es \<Longrightarrow> good_name e" and "24 \<le> uio_resid u" and "uio_out u = []"
    and "length (concat (map packed_dirent es)) \<le> unat (min (of_nat (uio_resid u)) (fd_iosize (w_data w)))"
    and "(\<Sum>e\<leftarrow>es. GENERIC_DIRSIZ (length (snd e))) \<le> uio_resid u"
  shows "\<exists>u1. run_upcall (quiet_environment D fresh other) (fuse_vnop_readdir E vp False 1 u ctx w) =
      Some ((0, u1, None), invalidate_attr vp w) \<and>
    read_dirents (uio_out u1) = map (visible_dirent (w_data w)) es \<and>
    (es \<noteq> [] \<longrightarrow> uio_offset u1 = fde_off (fst (last es)))"
proof -
  obtain iov where iov: "fiov_init E DIRCOOKEDSIZE = Some iov" "roomy E iov"
    using fiov_init_roomy [OF assms(5,6)] by blast
  have "uio_resid u \<noteq> 0" using assms(10) by simp
  note run = internal_readdir_run [OF assms(1,7,8) iov(2) assms(9) this assms(12,13), of fresh ctx]
  show ?thesis
    using assms(1-4,10,11) iov(1)
    by (simp add: fuse_vnop_readdir_def readdir_opened_def run_upcall_bind run not_less
        read_dirents_kernel [OF assms(9)] del: upcall_bind.simps)
qed

text \<open>A directory with a file and an entry the mount hides, opened, with the handle 3.\<close>

definition example_dir :: fuse_vnode_data where
  "example_dir = example_file\<lparr>fv_vtype := VDIR, fv_fufh := (\<lambda>t. example_handle\<lparr>open_count := 1, fh_id := 3\<rparr>)\<rparr>"

definition hiding_session :: fuse_data where
  "hiding_session = example_session\<lparr>fd_iosize := 4096, fd_dataflags := FSESS_NO_APPLEDOUBLE OR FSESS_ALLOW_OTHER\<rparr>"

definition example_entries :: "(fuse_dirent \<times> u8 list) list" where
  "example_entries =
     [(\<lparr>fde_ino = 0x100000007, fde_off = 1, fde_namelen = 1, fde_type = 8\<rparr>, [0x61]),
      (\<lparr>fde_ino = 9, fde_off = 2, fde_namelen = 3, fde_type = 8\<rparr>, [0x2E, 0x5F, 0x61])]"

definition listing_daemon :: "request \<Rightarrow> fdisp_result" where
  "listing_daemon r = \<lparr>fr_err = 0, fr_answ_stat = 0, fr_answ = concat (map packed_dirent example_entries)\<rparr>"

theorem directory_round_trip_witness:
  "\<exists>u1. run_upcall (quiet_environment listing_daemon (\<lambda>w. 9) quiet_answers)
      (fuse_vnop_readdir example_env 6 False 1 \<lparr>uio_resid = 100, uio_offset = 0, uio_out = [], uio_in = []\<rparr> example_stranger
        (example_world hiding_session example_dir)) =
      Some ((0, u1, None), invalidate_attr 6 (example_world hiding_session example_dir)) \<and>
    read_dirents (uio_out u1) = [(7, 8, [0x61]), (0, 14, [0x2E, 0x5F, 0x61])] \<and> uio_offset u1 = 2"
proof -
  let ?w = "example_world hiding_session example_dir"
  let ?u = "\<lparr>uio_resid = 100, uio_offset = 0, uio_out = [], uio_in = []\<rparr>"
  have live: "VTOFUD 6 ?w = Some example_dir" "\<not> fuse_isdeadfs (w_data ?w) example_dir"
    by (simp_all add: fuse_isdeadfs_def fuse_isdeadfs_mp_def fdata_dead_get_def hiding_session_def example_dir_def flag_set_def)
  have deny: "\<not> fuse_blanket_deny (w_data ?w) example_dir example_stranger"
    by (simp add: fuse_blanket_deny_def hiding_session_def example_dir_def flag_set_def)
  have valid: "FUFH_IS_VALID (fv_fufh example_dir FUFH_RDONLY)"
    by (simp add: example_dir_def FUFH_IS_VALID_def)
  have env: "ke_malloc_ok example_env 280" "280 \<le> fuse_iov_permanent_bufsize example_env"
    by (simp_all add: example_env_def)
  have lists: "lists listing_daemon example_entries" by (simp add: lists_def listing_daemon_def)
  have good: "good_name e" if "e \<in> set example_entries" for e
    using that by (auto simp: example_entries_def good_name_def)
  have fit: "length (concat (map packed_dirent example_entries)) \<le> unat (min (of_nat (uio_resid ?u)) (fd_iosize (w_data ?w)))"
    "(\<Sum>e\<leftarrow>example_entries. GENERIC_DIRSIZ (length (snd e))) \<le> uio_resid ?u"
    by (simp_all add: example_entries_def length_packed_dirent FUSE_DIRENT_SIZE_def FUSE_DIRENT_ALIGN_def
        GENERIC_DIRSIZ_def hiding_session_def min_def)
  from directory_round_trip [OF live deny valid env lists quiet_answers_smooth good _ _ fit, of "\<lambda>w. 9"]
  obtain u1 where "run_upcall (quiet_environment listing_daemon (\<lambda>w. 9) quiet_answers)
      (fuse_vnop_readdir example_env 6 False 1 ?u example_stranger ?w) = Some ((0, u1, None), invalidate_attr 6 ?w)"
    "read_dirents (uio_out u1) = map (visible_dirent (w_data ?w)) example_entries"
    "example_entries \<noteq> [] \<longrightarrow> uio_offset u1 = fde_off (fst (last example_entries))"
    by auto
  moreover have "map (visible_dirent (w_data ?w)) example_entries = [(7, 8, [0x61]), (0, 14, [0x2E, 0x5F, 0x61])]"
    by (simp add: example_entries_def visible_dirent_def hidden_name_def hiding_session_def flag_set_def DS_STORE_def)
  ultimately show ?thesis by (auto simp: example_entries_def)
qed

end
