(* ===== verification/Unixfs_Inodes.thy ===== *)
theory Unixfs_Inodes
  imports Fuse_Prelude "HOL-Library.Multiset"
begin

text \<open>
  The inode layer of the Unix file systems (\<open>filesystems/unixfs/common/unixfs/unixfs_internal.c\<close>): a hash
  table of the inodes in use, each with a count of its users, which is filled from the disk by the first
  thread that asks for it while the others wait. The inode hash is compiled in
  (\<open>UNIXFS_ENABLE_INODEHASH\<close>).
\<close>

section \<open>Inodes and their table\<close>

text \<open>\<open>struct stat\<close> as far as it is filled in, and \<open>struct inode\<close>.\<close>

record inode_stat =
  st_ino :: u64
  st_mode :: u16
  st_nlink :: u16
  st_uid :: u32
  st_gid :: u32
  st_rdev :: u32
  st_size :: int
  st_atime :: u32
  st_mtime :: u32
  st_ctime :: u32

record inode =
  I_initialized :: bool
  I_attachoutstanding :: bool
  I_waiting :: bool
  I_count :: nat
  I_stat :: inode_stat
  I_daddr :: "u32 list"

text \<open>
  The table, by index, and the memory of the inodes: an address that is not in it is free. \<open>ih_brk\<close> is where
  \<open>calloc\<close> takes the next one from, if \<open>ih_calloc\<close> says that there is memory.
\<close>

record inode_layer =
  ihash_mask :: u64
  ihash_table :: "nat \<Rightarrow> nat list"
  ihash_count :: int
  ih_nodes :: "nat \<Rightarrow> inode option"
  ih_brk :: nat
  ih_calloc :: "nat \<Rightarrow> bool"

definition new_inode :: "u64 \<Rightarrow> inode" where
  "new_inode ino =
     \<lparr>I_initialized = False, I_attachoutstanding = False, I_waiting = False, I_count = 0,
      I_stat = \<lparr>st_ino = ino, st_mode = 0, st_nlink = 0, st_uid = 0, st_gid = 0, st_rdev = 0, st_size = 0,
                st_atime = 0, st_mtime = 0, st_ctime = 0\<rparr>,
      I_daddr = replicate 13 0\<rparr>"

definition I_number :: "inode \<Rightarrow> u64" where
  "I_number n = st_ino (I_stat n)"

text \<open>The largest power of two that is not above the number of nodes that is wanted.\<close>

definition desirednodes :: u64 where "desirednodes = 65536"

function hash_size :: "nat \<Rightarrow> nat \<Rightarrow> nat" where
  "hash_size wanted k = (if k \<noteq> 0 \<and> k \<le> wanted then hash_size wanted (2 * k) else k)"
  by pat_completeness auto

termination
  by (relation "measure (\<lambda>(wanted, k). Suc wanted - k)") auto

declare hash_size.simps [simp del]

definition unixfs_inodelayer_init :: "(nat \<Rightarrow> bool) \<Rightarrow> inode_layer" where
  "unixfs_inodelayer_init mem =
     \<lparr>ihash_mask = of_nat (hash_size (unat desirednodes) 1 div 2 - 1), ihash_table = (\<lambda>_. []), ihash_count = 0,
      ih_nodes = Map.empty, ih_brk = 1, ih_calloc = mem\<rparr>"

definition ihash_index :: "u64 \<Rightarrow> inode_layer \<Rightarrow> nat" where
  "ihash_index ino s = unat (ino AND ihash_mask s)"

abbreviation unixfs_inodelayer_firstfromhash :: "u64 \<Rightarrow> inode_layer \<Rightarrow> nat list" where
  "unixfs_inodelayer_firstfromhash ino s \<equiv> ihash_table s (ihash_index ino s)"

text \<open>\<open>None\<close> stands for a pointer to memory that is free.\<close>

definition upd_inode :: "nat \<Rightarrow> (inode \<Rightarrow> inode) \<Rightarrow> inode_layer \<Rightarrow> inode_layer option" where
  "upd_inode p f s =
     (case ih_nodes s p of None \<Rightarrow> None | Some n \<Rightarrow> Some (s\<lparr>ih_nodes := (ih_nodes s)(p \<mapsto> f n)\<rparr>))"

fun find_inode :: "(nat \<Rightarrow> inode option) \<Rightarrow> u64 \<Rightarrow> nat list \<Rightarrow> nat option option" where
  "find_inode ns ino [] = Some None"
| "find_inode ns ino (p # ps) =
     (case ns p of
        None \<Rightarrow> None
      | Some n \<Rightarrow> if I_number n = ino then Some (Some p) else find_inode ns ino ps)"

section \<open>Operations\<close>

text \<open>
  \<open>unixfs_inodelayer_iget\<close>, in the segments in which it holds the lock. A round finds the inode, or puts the
  one that was allocated before into the table, or has to allocate one, for which it lets the lock go. The
  thread that finds it without contents is to fill it; one that finds another doing so waits.
\<close>

datatype iget_result = Ig_alloc | Ig_wait nat | Ig_node nat

definition iget_found :: "nat \<Rightarrow> inode_layer \<Rightarrow> (iget_result \<times> inode_layer) option" where
  "iget_found p s =
     do {
       n \<leftarrow> ih_nodes s p;
       let count = (I_count n + 1) mod 2 ^ 32;
       if I_attachoutstanding n
       then do { s1 \<leftarrow> upd_inode p (\<lambda>n. n\<lparr>I_waiting := True, I_count := count\<rparr>) s; Some (Ig_wait p, s1) }
       else if \<not> I_initialized n
       then do { s1 \<leftarrow> upd_inode p (\<lambda>n. n\<lparr>I_count := count, I_attachoutstanding := True\<rparr>) s; Some (Ig_node p, s1) }
       else do { s1 \<leftarrow> upd_inode p (\<lambda>n. n\<lparr>I_count := count\<rparr>) s; Some (Ig_node p, s1) }
     }"

definition insert_inode :: "nat \<Rightarrow> u64 \<Rightarrow> inode_layer \<Rightarrow> inode_layer" where
  "insert_inode p ino s =
     s\<lparr>ihash_table := (ihash_table s)(ihash_index ino s := p # unixfs_inodelayer_firstfromhash ino s),
       ihash_count := ihash_count s + 1\<rparr>"

definition iget_round :: "u64 \<Rightarrow> nat option \<Rightarrow> inode_layer \<Rightarrow> (iget_result \<times> inode_layer) option" where
  "iget_round ino new s =
     do {
       this_node \<leftarrow> find_inode (ih_nodes s) ino (unixfs_inodelayer_firstfromhash ino s);
       case this_node of
         Some p \<Rightarrow>
           do {
             (r, s1) \<leftarrow> iget_found p s;
             Some (r, case new of None \<Rightarrow> s1 | Some q \<Rightarrow> s1\<lparr>ih_nodes := (ih_nodes s1)(q := None)\<rparr>)
           }
       | None \<Rightarrow> (case new of None \<Rightarrow> Some (Ig_alloc, s) | Some q \<Rightarrow> iget_found q (insert_inode q ino s))
     }"

text \<open>
  After an allocation the next round follows; without memory the result is a null pointer. A thread that was
  woken looks whether the contents are still outstanding.
\<close>

definition iget_alloc :: "u64 \<Rightarrow> inode_layer \<Rightarrow> (iget_result option \<times> inode_layer) option" where
  "iget_alloc ino s =
     (if \<not> ih_calloc s (ih_brk s) then Some (None, s)
      else let q = ih_brk s
           in do {
             (r, s1) \<leftarrow> iget_round ino (Some q)
                          (s\<lparr>ih_nodes := (ih_nodes s)(q \<mapsto> new_inode ino), ih_brk := q + 1\<rparr>);
             Some (Some r, s1)
           })"

definition iget_woken :: "nat \<Rightarrow> inode_layer \<Rightarrow> iget_result option" where
  "iget_woken p s = do { n \<leftarrow> ih_nodes s p; Some (if I_attachoutstanding n then Ig_wait p else Ig_node p) }"

definition wake_waiters :: "inode \<Rightarrow> inode" where
  "wake_waiters n = n\<lparr>I_attachoutstanding := False, I_waiting := False\<rparr>"

definition unixfs_inodelayer_isucceeded :: "nat \<Rightarrow> inode_layer \<Rightarrow> inode_layer option" where
  "unixfs_inodelayer_isucceeded p s = upd_inode p (\<lambda>n. (wake_waiters n)\<lparr>I_initialized := True\<rparr>) s"

definition unhash_inode :: "nat \<Rightarrow> inode_layer \<Rightarrow> inode_layer option" where
  "unhash_inode p s =
     do {
       n \<leftarrow> ih_nodes s p;
       let i = ihash_index (I_number n) s;
       if p \<notin> set (ihash_table s i) then None
       else Some (s\<lparr>ihash_table := (ihash_table s)(i := remove1 p (ihash_table s i)),
                    ihash_count := ihash_count s - 1, ih_nodes := (ih_nodes s)(p := None)\<rparr>)
     }"

definition unixfs_inodelayer_ifailed :: "nat \<Rightarrow> inode_layer \<Rightarrow> inode_layer option" where
  "unixfs_inodelayer_ifailed p s = unhash_inode p s"

definition unixfs_inodelayer_iput :: "nat \<Rightarrow> inode_layer \<Rightarrow> inode_layer option" where
  "unixfs_inodelayer_iput p s =
     do {
       n \<leftarrow> ih_nodes s p;
       let count = (I_count n + 2 ^ 32 - 1) mod 2 ^ 32;
       if count = 0 then unhash_inode p s else upd_inode p (\<lambda>n. n\<lparr>I_count := count\<rparr>) s
     }"

text \<open>
  The buckets whose inodes \<open>unixfs_inodelayer_dump\<close> hands to the iterator, until one answers something else
  than zero: the loop ends before the last bucket.
\<close>

definition unixfs_inodelayer_dump :: "(nat \<Rightarrow> int) \<Rightarrow> inode_layer \<Rightarrow> nat list" where
  "unixfs_inodelayer_dump it s =
     (let ps = concat (map (ihash_table s) [0..<unat (ihash_mask s)])
      in take (Suc (length (takeWhile (\<lambda>p. it p = 0) ps))) ps)"

text \<open>
  Ending the layer gives the table back; it warns of the inodes that are still there, but for the last bucket.
\<close>

definition unixfs_inodelayer_fini :: "inode_layer \<Rightarrow> nat list \<times> inode_layer" where
  "unixfs_inodelayer_fini s =
     (if ihash_count s \<noteq> 0 then concat (map (ihash_table s) [0..<unat (ihash_mask s)]) else [], s\<lparr>ihash_table := \<lambda>_. []\<rparr>)"

section \<open>Threads\<close>

text \<open>
  The threads that use the layer: the numbers for which one is allocating, and the inodes, once for each
  thread, that threads wait for, are to fill, and hold.
\<close>

record inode_users =
  iu_layer :: inode_layer
  iu_alloc :: "u64 multiset"
  iu_wait :: "nat multiset"
  iu_fill :: "nat multiset"
  iu_held :: "nat multiset"

datatype inode_event =
    Iv_get u64 | Iv_alloc u64 | Iv_wake nat | Iv_filled nat | Iv_unreadable nat | Iv_put nat

text \<open>
  Where a thread stands after a segment. One that has an inode fills it unless it has contents.
\<close>

definition iget_next :: "u64 \<Rightarrow> iget_result \<Rightarrow> inode_users \<Rightarrow> inode_users option" where
  "iget_next ino r u =
     (case r of
        Ig_alloc \<Rightarrow> Some (u\<lparr>iu_alloc := add_mset ino (iu_alloc u)\<rparr>)
      | Ig_wait p \<Rightarrow> Some (u\<lparr>iu_wait := add_mset p (iu_wait u)\<rparr>)
      | Ig_node p \<Rightarrow>
          do {
            n \<leftarrow> ih_nodes (iu_layer u) p;
            Some (if I_initialized n then u\<lparr>iu_held := add_mset p (iu_held u)\<rparr>
                  else u\<lparr>iu_fill := add_mset p (iu_fill u)\<rparr>)
          })"

fun inode_step :: "inode_users \<Rightarrow> inode_event \<Rightarrow> inode_users option" where
  "inode_step u (Iv_get ino) =
     do { (r, s) \<leftarrow> iget_round ino None (iu_layer u); iget_next ino r (u\<lparr>iu_layer := s\<rparr>) }"
| "inode_step u (Iv_alloc ino) =
     do {
       (ro, s) \<leftarrow> iget_alloc ino (iu_layer u);
       let u1 = u\<lparr>iu_alloc := iu_alloc u - {#ino#}, iu_layer := s\<rparr>;
       case ro of None \<Rightarrow> Some u1 | Some r \<Rightarrow> iget_next ino r u1
     }"
| "inode_step u (Iv_wake p) =
     do { r \<leftarrow> iget_woken p (iu_layer u); iget_next 0 r (u\<lparr>iu_wait := iu_wait u - {#p#}\<rparr>) }"
| "inode_step u (Iv_filled p) =
     do {
       s \<leftarrow> unixfs_inodelayer_isucceeded p (iu_layer u);
       Some (u\<lparr>iu_layer := s, iu_fill := iu_fill u - {#p#}, iu_held := add_mset p (iu_held u)\<rparr>)
     }"
| "inode_step u (Iv_unreadable p) =
     do {
       s \<leftarrow> unixfs_inodelayer_ifailed p (iu_layer u);
       Some (u\<lparr>iu_layer := s, iu_fill := iu_fill u - {#p#}\<rparr>)
     }"
| "inode_step u (Iv_put p) =
     do {
       s \<leftarrow> unixfs_inodelayer_iput p (iu_layer u);
       Some (u\<lparr>iu_layer := s, iu_held := iu_held u - {#p#}\<rparr>)
     }"

text \<open>
  Threads do what their place allows, and an inode only turns out unreadable while nobody waits for it;
  there are less than \<open>2^32\<close> users at a time.
\<close>

definition iu_refs :: "nat \<Rightarrow> inode_users \<Rightarrow> nat" where
  "iu_refs p u = count (iu_wait u) p + count (iu_fill u) p + count (iu_held u) p"

definition iu_total :: "inode_users \<Rightarrow> nat" where
  "iu_total u = size (iu_wait u) + size (iu_fill u) + size (iu_held u)"

fun inode_ok :: "inode_users \<Rightarrow> inode_event \<Rightarrow> bool" where
  "inode_ok u (Iv_get ino) \<longleftrightarrow> iu_total u + 1 < 2 ^ 32"
| "inode_ok u (Iv_alloc ino) \<longleftrightarrow> ino \<in># iu_alloc u \<and> iu_total u + 1 < 2 ^ 32"
| "inode_ok u (Iv_wake p) \<longleftrightarrow> p \<in># iu_wait u"
| "inode_ok u (Iv_filled p) \<longleftrightarrow> p \<in># iu_fill u"
| "inode_ok u (Iv_unreadable p) \<longleftrightarrow> p \<in># iu_fill u \<and> p \<notin># iu_wait u"
| "inode_ok u (Iv_put p) \<longleftrightarrow> p \<in># iu_held u \<and> iu_total u < 2 ^ 32"

section \<open>The invariant\<close>

declare count_greater_zero_iff [simp del] count_eq_zero_iff [simp del]

text \<open>
  An inode is in the table as long as it is allocated, under its number, which no other has.
\<close>

definition layer_ok :: "inode_layer \<Rightarrow> bool" where
  "layer_ok s \<longleftrightarrow>
     (\<forall>i p. p \<in> set (ihash_table s i) \<longleftrightarrow> (\<exists>n. ih_nodes s p = Some n \<and> ihash_index (I_number n) s = i)) \<and>
     (\<forall>i. distinct (ihash_table s i)) \<and> (\<forall>p. ih_nodes s p \<noteq> None \<longrightarrow> p < ih_brk s) \<and>
     (\<forall>p q n m. ih_nodes s p = Some n \<longrightarrow> ih_nodes s q = Some m \<longrightarrow> I_number n = I_number m \<longrightarrow> p = q) \<and>
     ihash_count s = int (card (dom (ih_nodes s)))"

text \<open>
  Its count is the number of its users, of which there is one; without contents there is one thread that
  fills it and none that holds it, and a waiting thread has left its mark.
\<close>

definition inode_counted :: "inode_users \<Rightarrow> nat \<Rightarrow> bool" where
  "inode_counted u p \<longleftrightarrow>
     (case ih_nodes (iu_layer u) p of
        None \<Rightarrow> iu_refs p u = 0
      | Some n \<Rightarrow>
          I_count n = iu_refs p u \<and> 0 < iu_refs p u \<and> count (iu_fill u) p = (if I_attachoutstanding n then 1 else 0) \<and>
          I_initialized n = (\<not> I_attachoutstanding n) \<and> (I_attachoutstanding n \<longrightarrow> 0 < count (iu_wait u) p \<longrightarrow> I_waiting n) \<and>
          (I_attachoutstanding n \<longrightarrow> count (iu_held u) p = 0))"

definition inode_inv :: "inode_users \<Rightarrow> bool" where
  "inode_inv u \<longleftrightarrow> layer_ok (iu_layer u) \<and> (\<forall>p. inode_counted u p)"

lemma find_inode_hashed:
  "(\<And>p. p \<in> set ps \<Longrightarrow> ns p \<noteq> None) \<Longrightarrow>
   \<exists>r. find_inode ns ino ps = Some r \<and>
     (case r of None \<Rightarrow> \<forall>p\<in>set ps. \<forall>n. ns p = Some n \<longrightarrow> I_number n \<noteq> ino
              | Some p \<Rightarrow> p \<in> set ps \<and> (\<exists>n. ns p = Some n \<and> I_number n = ino))"
proof (induction ps)
  case (Cons q ps)
  then have "\<exists>r. find_inode ns ino ps = Some r \<and>
     (case r of None \<Rightarrow> \<forall>p\<in>set ps. \<forall>n. ns p = Some n \<longrightarrow> I_number n \<noteq> ino
              | Some p \<Rightarrow> p \<in> set ps \<and> (\<exists>n. ns p = Some n \<and> I_number n = ino))"
    by simp
  moreover obtain n where "ns q = Some n" using Cons.prems [of q] by auto
  ultimately show ?case by (auto split: option.splits)
qed simp

lemma layer_find:
  assumes "layer_ok s"
  obtains (found) p n where "find_inode (ih_nodes s) ino (unixfs_inodelayer_firstfromhash ino s) = Some (Some p)"
      "ih_nodes s p = Some n" "I_number n = ino"
    | (absent) "find_inode (ih_nodes s) ino (unixfs_inodelayer_firstfromhash ino s) = Some None"
      "\<And>p n. ih_nodes s p = Some n \<Longrightarrow> I_number n \<noteq> ino"
proof -
  have in_table: "p \<in> set (ihash_table s i) \<longleftrightarrow> (\<exists>n. ih_nodes s p = Some n \<and> ihash_index (I_number n) s = i)" for i p
    using assms by (simp add: layer_ok_def)
  then have "\<And>p. p \<in> set (unixfs_inodelayer_firstfromhash ino s) \<Longrightarrow> ih_nodes s p \<noteq> None" by auto
  from find_inode_hashed [where ns = "ih_nodes s" and ino = ino, OF this] obtain r where
    r: "find_inode (ih_nodes s) ino (unixfs_inodelayer_firstfromhash ino s) = Some r"
      "case r of None \<Rightarrow> \<forall>p\<in>set (unixfs_inodelayer_firstfromhash ino s). \<forall>n. ih_nodes s p = Some n \<longrightarrow> I_number n \<noteq> ino
        | Some p \<Rightarrow> p \<in> set (unixfs_inodelayer_firstfromhash ino s) \<and> (\<exists>n. ih_nodes s p = Some n \<and> I_number n = ino)"
    by blast
  show ?thesis
  proof (cases r)
    case None
    have "I_number n \<noteq> ino" if "ih_nodes s p = Some n" for p n
      using r(2) that in_table [of p "ihash_index ino s"] by (auto simp: None)
    with r(1) None show ?thesis by (blast intro: absent)
  next
    case (Some p)
    with r show ?thesis by (auto intro: found)
  qed
qed

lemma ihash_index_simps [simp]:
  "ihash_index ino (s\<lparr>ih_nodes := ns\<rparr>) = ihash_index ino s" "ihash_index ino (s\<lparr>ihash_table := tb\<rparr>) = ihash_index ino s"
  "ihash_index ino (s\<lparr>ihash_count := c\<rparr>) = ihash_index ino s" "ihash_index ino (s\<lparr>ih_brk := b\<rparr>) = ihash_index ino s"
  by (simp_all add: ihash_index_def)

lemma layer_upd:
  assumes "layer_ok s" and "ih_nodes s p = Some n" and "I_number n' = I_number n"
  shows "layer_ok (s\<lparr>ih_nodes := (ih_nodes s)(p \<mapsto> n')\<rparr>)"
proof -
  have "dom ((ih_nodes s)(p \<mapsto> n')) = dom (ih_nodes s)" using assms(2) by auto
  with assms show ?thesis unfolding layer_ok_def by (auto split: if_splits)
qed

lemma layer_insert:
  assumes "layer_ok s" and "\<And>p n. ih_nodes s p = Some n \<Longrightarrow> I_number n \<noteq> ino" and "I_number n' = ino"
  shows "layer_ok (insert_inode (ih_brk s) ino (s\<lparr>ih_nodes := (ih_nodes s)(ih_brk s \<mapsto> n'), ih_brk := ih_brk s + 1\<rparr>))"
proof -
  have fresh: "ih_nodes s (ih_brk s) = None" using assms(1) by (auto simp: layer_ok_def)
  have "dom (ih_nodes s) \<subseteq> {..<ih_brk s}" using assms(1) by (auto simp: layer_ok_def)
  then have "finite (dom (ih_nodes s))" by (rule finite_subset) simp
  with fresh have card: "card (dom ((ih_nodes s)(ih_brk s \<mapsto> n'))) = Suc (card (dom (ih_nodes s)))"
    by (simp add: domIff)
  have new: "\<forall>p n. ih_nodes s p = Some n \<longrightarrow> I_number n \<noteq> ino" using assms(2) by blast
  show ?thesis
    using assms(1,3) new fresh card unfolding layer_ok_def insert_inode_def
    by (auto simp: less_Suc_eq split: if_splits; blast)
qed

lemma layer_unhash:
  assumes "layer_ok s" and "ih_nodes s p = Some n"
  obtains t where "unhash_inode p s = Some t" "layer_ok t" "ih_nodes t = (ih_nodes s)(p := None)"
proof -
  let ?i = "ihash_index (I_number n) s"
  have mem: "p \<in> set (ihash_table s ?i)" using assms by (auto simp: layer_ok_def)
  have "dom (ih_nodes s) \<subseteq> {..<ih_brk s}" using assms(1) by (auto simp: layer_ok_def)
  then have fin: "finite (dom (ih_nodes s))" by (rule finite_subset) simp
  have "p \<in> dom (ih_nodes s)" using assms(2) by auto
  then have card: "int (card (dom (ih_nodes s) - {p})) = int (card (dom (ih_nodes s))) - 1"
    using fin by (simp add: card_Diff_singleton) (metis One_nat_def Suc_leI card_gt_0_iff empty_iff of_nat_diff of_nat_1)
  let ?t = "s\<lparr>ihash_table := (ihash_table s)(?i := remove1 p (ihash_table s ?i)),
                    ihash_count := ihash_count s - 1, ih_nodes := (ih_nodes s)(p := None)\<rparr>"
  have "unhash_inode p s = Some ?t" using assms(2) mem by (simp add: unhash_inode_def Let_def)
  moreover have "layer_ok ?t"
    using assms card unfolding layer_ok_def by (auto split: if_splits)
  ultimately show ?thesis using that by simp
qed

section \<open>Steps\<close>

lemma counted_simps [simp]:
  "inode_counted (u\<lparr>iu_alloc := a\<rparr>) = inode_counted u" "iu_refs p (u\<lparr>iu_alloc := a\<rparr>) = iu_refs p u"
  "iu_refs p (u\<lparr>iu_layer := s\<rparr>) = iu_refs p u"
  "iu_refs p (u\<lparr>iu_held := add_mset q (iu_held u)\<rparr>) = (if p = q then 1 else 0) + iu_refs p u"
  "iu_refs p (u\<lparr>iu_fill := add_mset q (iu_fill u)\<rparr>) = (if p = q then 1 else 0) + iu_refs p u"
  "iu_refs p (u\<lparr>iu_wait := add_mset q (iu_wait u)\<rparr>) = (if p = q then 1 else 0) + iu_refs p u"
  by (simp_all add: inode_counted_def iu_refs_def fun_eq_iff split: option.split)

lemma refs_drop:
  "0 < count (iu_held u) q \<Longrightarrow> iu_refs p (u\<lparr>iu_held := iu_held u - {#q#}\<rparr>) = iu_refs p u - (if p = q then 1 else 0)"
  "0 < count (iu_fill u) q \<Longrightarrow> iu_refs p (u\<lparr>iu_fill := iu_fill u - {#q#}\<rparr>) = iu_refs p u - (if p = q then 1 else 0)"
  by (cases "p = q"; simp add: iu_refs_def)+

lemma refs_le_total: "iu_refs p u \<le> iu_total u"
  by (simp add: iu_refs_def iu_total_def add_mono count_le_size)

lemma inode_invD:
  assumes "inode_inv u" and "ih_nodes (iu_layer u) p = Some n"
  shows "I_count n = iu_refs p u" "0 < iu_refs p u" "count (iu_fill u) p = (if I_attachoutstanding n then 1 else 0)"
    "I_initialized n = (\<not> I_attachoutstanding n)" "I_attachoutstanding n \<Longrightarrow> 0 < count (iu_wait u) p \<Longrightarrow> I_waiting n"
    "I_attachoutstanding n \<Longrightarrow> count (iu_held u) p = 0"
  using assms by (auto simp: inode_inv_def inode_counted_def split: option.splits dest!: spec [of _ p])

lemma refs_live:
  assumes "inode_inv u" and "0 < iu_refs p u"
  obtains n where "ih_nodes (iu_layer u) p = Some n"
  using assms by (cases "ih_nodes (iu_layer u) p")
    (auto simp: inode_inv_def inode_counted_def dest!: spec [of _ p])

lemma upd_inode_Some: "ih_nodes s p = Some n \<Longrightarrow> upd_inode p f s = Some (s\<lparr>ih_nodes := (ih_nodes s)(p \<mapsto> f n)\<rparr>)"
  by (simp add: upd_inode_def)

text \<open>Taking a reference on an inode that was there.\<close>

lemma found_inv:
  assumes "inode_inv u" and "ih_nodes (iu_layer u) p = Some n" and "I_number n = ino" and "iu_total u + 1 < 2 ^ 32"
  obtains r s v where "iget_found p (iu_layer u) = Some (r, s)" "iget_next ino r (u\<lparr>iu_layer := s\<rparr>) = Some v" "inode_inv v"
proof -
  note inv = inode_invD [OF assms(1,2)]
  have ok: "layer_ok (iu_layer u)" and counted: "\<And>q. inode_counted u q" using assms(1) by (auto simp: inode_inv_def)
  have count: "(I_count n + 1) mod 2 ^ 32 = I_count n + 1"
    using refs_le_total [of p u] assms(4) inv(1) by simp
  let ?n = "if I_attachoutstanding n then n\<lparr>I_waiting := True, I_count := I_count n + 1\<rparr> else n\<lparr>I_count := I_count n + 1\<rparr>"
  let ?s = "(iu_layer u)\<lparr>ih_nodes := (ih_nodes (iu_layer u))(p \<mapsto> ?n)\<rparr>"
  let ?v = "if I_attachoutstanding n then u\<lparr>iu_layer := ?s, iu_wait := add_mset p (iu_wait u)\<rparr>
            else u\<lparr>iu_layer := ?s, iu_held := add_mset p (iu_held u)\<rparr>"
  have found: "iget_found p (iu_layer u) = Some (if I_attachoutstanding n then Ig_wait p else Ig_node p, ?s)"
    using assms(2) inv(4) by (simp add: iget_found_def count [simplified] upd_inode_Some Let_def)
  have "iget_next ino (if I_attachoutstanding n then Ig_wait p else Ig_node p) (u\<lparr>iu_layer := ?s\<rparr>) = Some ?v"
    using inv(4) by (simp add: iget_next_def)
  moreover have "inode_inv ?v"
  proof -
    have "layer_ok ?s" by (rule layer_upd [OF ok assms(2)]) (simp add: I_number_def)
    moreover have "inode_counted ?v q" for q
      using counted [of q] inv assms(2) by (auto simp: inode_counted_def iu_refs_def split: option.splits)
    ultimately show ?thesis by (cases "I_attachoutstanding n") (simp_all add: inode_inv_def)
  qed
  ultimately show ?thesis using found that by blast
qed

text \<open>Dropping one, and giving it to the thread that fills it.\<close>

lemma put_inv:
  assumes "inode_inv u" and "p \<in># iu_held u" and "iu_total u < 2 ^ 32"
  shows "\<exists>v. inode_step u (Iv_put p) = Some v \<and> inode_inv v"
proof -
  have held: "0 < count (iu_held u) p" using assms(2) by (simp add: count_greater_zero_iff)
  then have "0 < iu_refs p u" by (simp add: iu_refs_def)
  with refs_live [OF assms(1)] obtain n where n: "ih_nodes (iu_layer u) p = Some n" by blast
  note inv = inode_invD [OF assms(1) n]
  have ok: "layer_ok (iu_layer u)" and counted: "\<And>q. inode_counted u q" using assms(1) by (auto simp: inode_inv_def)
  have count: "(I_count n + 2 ^ 32 - 1) mod 2 ^ 32 = I_count n - 1"
  proof -
    obtain k where "I_count n = Suc k" using inv(1,2) by (metis gr0_implies_Suc)
    moreover have "I_count n < 2 ^ 32" using refs_le_total [of p u] assms(3) inv(1) by simp
    ultimately show ?thesis by simp
  qed
  show ?thesis
  proof (cases "I_count n = 1")
    case True
    obtain t where t: "unhash_inode p (iu_layer u) = Some t" "layer_ok t" "ih_nodes t = (ih_nodes (iu_layer u))(p := None)"
      using layer_unhash [OF ok n] .
    have "inode_counted (u\<lparr>iu_layer := t, iu_held := iu_held u - {#p#}\<rparr>) q" for q
      using counted [of q] True inv(1) refs_drop(1) [of "u\<lparr>iu_layer := t\<rparr>" p q] held t(3)
      by (auto simp: inode_counted_def split: option.splits)
    with t n count True show ?thesis
      by (auto simp: unixfs_inodelayer_iput_def inode_inv_def Let_def)
  next
    case False
    let ?s = "(iu_layer u)\<lparr>ih_nodes := (ih_nodes (iu_layer u))(p \<mapsto> n\<lparr>I_count := I_count n - 1\<rparr>)\<rparr>"
    have "layer_ok ?s" by (rule layer_upd [OF ok n]) (simp add: I_number_def)
    moreover have "inode_counted (u\<lparr>iu_layer := ?s, iu_held := iu_held u - {#p#}\<rparr>) q" for q
      using counted [of q] False inv refs_drop(1) [of "u\<lparr>iu_layer := ?s\<rparr>" p q] held n
      by (auto simp: inode_counted_def split: option.splits)
    ultimately show ?thesis
      using n count False inv(1,2) by (auto simp: unixfs_inodelayer_iput_def inode_inv_def upd_inode_Some Let_def)
  qed
qed

lemma get_inv:
  assumes "inode_inv u" and "iu_total u + 1 < 2 ^ 32"
  shows "\<exists>v. inode_step u (Iv_get ino) = Some v \<and> inode_inv v"
proof -
  have "layer_ok (iu_layer u)" using assms(1) by (simp add: inode_inv_def)
  then show ?thesis
  proof (cases rule: layer_find [of _ ino])
    case (found p n)
    obtain r s v where "iget_found p (iu_layer u) = Some (r, s)" "iget_next ino r (u\<lparr>iu_layer := s\<rparr>) = Some v" "inode_inv v"
      by (rule found_inv [OF assms(1) found(2,3) assms(2)])
    with found(1) show ?thesis by (simp add: iget_round_def)
  next
    case absent
    then show ?thesis using assms(1) by (auto simp: iget_round_def iget_next_def inode_inv_def)
  qed
qed

text \<open>A thread that allocated finds the inode of another, and frees its own, or puts its own into the table and fills it.\<close>

lemma insert_inode_simps [simp]:
  "ih_nodes (insert_inode p ino s) = ih_nodes s" "ih_brk (insert_inode p ino s) = ih_brk s"
  by (simp_all add: insert_inode_def)

lemma found_beside:
  assumes "p \<noteq> q" and "ih_nodes s q = None" and "iget_found p s = Some (r, t)"
  shows "iget_found p (s\<lparr>ih_nodes := (ih_nodes s)(q \<mapsto> n)\<rparr>) = Some (r, t\<lparr>ih_nodes := (ih_nodes t)(q \<mapsto> n)\<rparr>)"
    and "t\<lparr>ih_nodes := (ih_nodes t)(q := None)\<rparr> = t"
  using assms by (auto simp: iget_found_def upd_inode_def Let_def fun_upd_twist fun_upd_idem split: if_splits option.splits bind_splits)

lemma layer_brk: "layer_ok s \<Longrightarrow> ih_brk s \<le> b \<Longrightarrow> layer_ok (s\<lparr>ih_brk := b\<rparr>)"
  by (simp add: layer_ok_def) (meson less_le_trans)

lemma find_beside: "q \<notin> set ps \<Longrightarrow> find_inode (ns(q \<mapsto> n)) ino ps = find_inode ns ino ps"
  by (induction ps) (auto split: option.split)

lemma alloc_inv:
  assumes "inode_inv u" and "iu_total u + 1 < 2 ^ 32"
  shows "\<exists>v. inode_step u (Iv_alloc ino) = Some v \<and> inode_inv v"
proof (cases "ih_calloc (iu_layer u) (ih_brk (iu_layer u))")
  case False
  then show ?thesis using assms(1) by (auto simp: iget_alloc_def inode_inv_def)
next
  case True
  define q where "q = ih_brk (iu_layer u)"
  define s where "s = (iu_layer u)\<lparr>ih_brk := Suc q\<rparr>"
  define u1 where "u1 = u\<lparr>iu_alloc := iu_alloc u - {#ino#}, iu_layer := s\<rparr>"
  have ok: "layer_ok s" using assms(1) by (auto simp: inode_inv_def s_def q_def intro!: layer_brk)
  have fresh: "ih_nodes s q = None" using assms(1) by (auto simp: inode_inv_def layer_ok_def q_def s_def)
  have counted: "inode_counted u1 p" for p
    using assms(1) by (auto simp: inode_inv_def u1_def s_def inode_counted_def split: option.split dest: spec [of _ p])
  have u1: "inode_inv u1" "iu_layer u1 = s" "iu_total u1 + 1 < 2 ^ 32"
    using ok counted assms(2) by (simp_all add: inode_inv_def u1_def iu_total_def)
  have "q \<notin> set (ihash_table s i)" for i using ok fresh by (auto simp: layer_ok_def)
  note find = find_beside [OF this]
  have layer: "(iu_layer u)\<lparr>ih_nodes := (ih_nodes (iu_layer u))(q \<mapsto> n), ih_brk := Suc q\<rparr> =
      s\<lparr>ih_nodes := (ih_nodes s)(q \<mapsto> n)\<rparr>" for n by (simp add: s_def)
  have step: "inode_step u (Iv_alloc ino) =
      do {
        (r, t) \<leftarrow> iget_round ino (Some q) (s\<lparr>ih_nodes := (ih_nodes s)(q \<mapsto> new_inode ino)\<rparr>);
        iget_next ino r (u1\<lparr>iu_layer := t\<rparr>)
      }"
    using True by (simp add: iget_alloc_def u1_def Let_def layer flip: q_def) (auto split: bind_splits option.splits)
  from ok show ?thesis
  proof (cases rule: layer_find [of _ ino])
    case (found p n)
    have pq: "p \<noteq> q" using found(2) fresh by auto
    obtain r t v where r: "iget_found p (iu_layer u1) = Some (r, t)" "iget_next ino r (u1\<lparr>iu_layer := t\<rparr>) = Some v" "inode_inv v"
      using found_inv [OF u1(1) _ found(3) u1(3)] found(2) u1(2) by metis
    with found_beside [OF pq fresh, of r t] u1(2) found(1) show ?thesis
      unfolding step by (simp add: iget_round_def find)
  next
    case absent
    let ?n = "(new_inode ino)\<lparr>I_count := 1, I_attachoutstanding := True\<rparr>"
    let ?t = "insert_inode q ino (s\<lparr>ih_nodes := (ih_nodes s)(q \<mapsto> ?n)\<rparr>)"
    let ?v = "u1\<lparr>iu_layer := ?t, iu_fill := add_mset q (iu_fill u1)\<rparr>"
    have n: "I_number ?n = ino" by (simp add: I_number_def new_inode_def)
    have "inode_step u (Iv_alloc ino) = Some ?v"
      unfolding step using absent(1)
      by (simp add: iget_round_def find iget_found_def upd_inode_def iget_next_def Let_def new_inode_def insert_inode_def)
    moreover have "layer_ok ?t"
      using layer_insert [OF _ _ n, of "iu_layer u"] assms(1) absent(2)
      by (simp add: inode_inv_def layer flip: q_def) (simp add: s_def)
    moreover have "iu_refs q u1 = 0" using counted [of q] fresh u1(2) by (simp add: inode_counted_def)
    then have "inode_counted ?v p" for p
      using counted [of p] u1(2) by (auto simp: inode_counted_def iu_refs_def new_inode_def split: option.splits)
    ultimately show ?thesis by (auto simp: inode_inv_def simp del: inode_step.simps)
  qed
qed

lemma wake_inv:
  assumes "inode_inv u" and "p \<in># iu_wait u"
  shows "\<exists>v. inode_step u (Iv_wake p) = Some v \<and> inode_inv v"
proof -
  have wait: "0 < count (iu_wait u) p" using assms(2) by (simp add: count_greater_zero_iff)
  then have "0 < iu_refs p u" by (simp add: iu_refs_def)
  with refs_live [OF assms(1)] obtain n where n: "ih_nodes (iu_layer u) p = Some n" by blast
  note inv = inode_invD [OF assms(1) n]
  have counted: "\<And>q. inode_counted u q" using assms(1) by (auto simp: inode_inv_def)
  have again: "add_mset p (iu_wait u - {#p#}) = iu_wait u" using assms(2) by (rule insert_DiffM)
  show ?thesis
  proof (cases "I_attachoutstanding n")
    case True
    then show ?thesis using n assms(1) by (simp add: iget_woken_def iget_next_def again)
  next
    case False
    let ?v = "u\<lparr>iu_wait := iu_wait u - {#p#}, iu_held := add_mset p (iu_held u)\<rparr>"
    have refs: "iu_refs q ?v = iu_refs q u" for q
      using wait by (cases "p = q") (simp_all add: iu_refs_def)
    have "inode_counted ?v q" for q
      using counted [of q] refs [of q] False n
      by (auto simp: inode_counted_def in_diff_count split: option.splits)
    moreover have "inode_step u (Iv_wake p) = Some ?v"
      using n False inv(4) by (simp add: iget_woken_def iget_next_def)
    ultimately show ?thesis using assms(1) by (auto simp: inode_inv_def)
  qed
qed

lemma fill_inv:
  assumes "inode_inv u" and "p \<in># iu_fill u"
  shows "\<exists>v. inode_step u (Iv_filled p) = Some v \<and> inode_inv v"
    and "p \<notin># iu_wait u \<Longrightarrow> \<exists>v. inode_step u (Iv_unreadable p) = Some v \<and> inode_inv v"
proof -
  have fill: "0 < count (iu_fill u) p" using assms(2) by (simp add: count_greater_zero_iff)
  then have "0 < iu_refs p u" by (simp add: iu_refs_def)
  with refs_live [OF assms(1)] obtain n where n: "ih_nodes (iu_layer u) p = Some n" by blast
  note inv = inode_invD [OF assms(1) n]
  have ok: "layer_ok (iu_layer u)" and counted: "\<And>q. inode_counted u q" using assms(1) by (auto simp: inode_inv_def)
  have out: "I_attachoutstanding n" "\<not> I_initialized n" "count (iu_fill u) p = 1"
    using inv(3,4) fill by (auto split: if_splits)
  let ?n = "(wake_waiters n)\<lparr>I_initialized := True\<rparr>"
  let ?s = "(iu_layer u)\<lparr>ih_nodes := (ih_nodes (iu_layer u))(p \<mapsto> ?n)\<rparr>"
  let ?v = "u\<lparr>iu_layer := ?s, iu_fill := iu_fill u - {#p#}, iu_held := add_mset p (iu_held u)\<rparr>"
  have step: "inode_step u (Iv_filled p) = Some ?v"
    using n by (simp add: unixfs_inodelayer_isucceeded_def upd_inode_Some)
  have refs: "iu_refs q ?v = iu_refs q u" for q
    using fill by (cases "p = q") (simp_all add: iu_refs_def)
  have v: "inode_counted ?v q" for q
    using counted [of q] refs [of q] out inv n
    by (auto simp: inode_counted_def wake_waiters_def split: option.splits)
  have "layer_ok ?s" by (rule layer_upd [OF ok n]) (simp add: I_number_def wake_waiters_def)
  with step v show "\<exists>v. inode_step u (Iv_filled p) = Some v \<and> inode_inv v" by (auto simp: inode_inv_def)
  show "\<exists>v. inode_step u (Iv_unreadable p) = Some v \<and> inode_inv v" if idle: "p \<notin># iu_wait u"
  proof -
    obtain t where t: "unhash_inode p (iu_layer u) = Some t" "layer_ok t" "ih_nodes t = (ih_nodes (iu_layer u))(p := None)"
      using layer_unhash [OF ok n] .
    have "iu_refs p u = 1"
      using out inv(6) [OF out(1)] idle by (simp add: iu_refs_def not_in_iff)
    then have "inode_counted (u\<lparr>iu_layer := t, iu_fill := iu_fill u - {#p#}\<rparr>) q" for q
      using counted [of q] t(3) refs_drop(2) [of "u\<lparr>iu_layer := t\<rparr>" p q] fill
      by (auto simp: inode_counted_def split: option.splits)
    with t show ?thesis by (auto simp: unixfs_inodelayer_ifailed_def inode_inv_def)
  qed
qed

section \<open>Runs\<close>

lemma inode_step_inv:
  assumes "inode_inv u" and "inode_ok u e"
  shows "\<exists>v. inode_step u e = Some v \<and> inode_inv v"
  using assms
  by (cases e) (auto simp del: inode_step.simps intro: get_inv alloc_inv wake_inv fill_inv put_inv)

interpretation inodes: crash_free_system inode_step inode_ok inode_inv
  by unfold_locales (use inode_step_inv in force)+

definition no_users :: "(nat \<Rightarrow> bool) \<Rightarrow> inode_users" where
  "no_users mem = \<lparr>iu_layer = unixfs_inodelayer_init mem, iu_alloc = {#}, iu_wait = {#}, iu_fill = {#}, iu_held = {#}\<rparr>"

lemma no_users_inv: "inode_inv (no_users mem)"
  by (simp add: inode_inv_def layer_ok_def inode_counted_def iu_refs_def no_users_def unixfs_inodelayer_init_def)

text \<open>
  C15: However many threads get and put inodes at a time, as long as an inode only turns out unreadable while
  no other thread waits for it, none touches memory that was given back, and at every moment each number has
  at most one inode in the table, which is counted once for each of its users, is filled by one thread only
  and by none that has contents.
\<close>

theorem inodes_run_safe:
  assumes "events_ok inode_ok inode_step (no_users mem) es"
  shows "\<exists>u. run_events inode_step (no_users mem) es = Some u \<and> inode_inv u"
  by (rule inodes.run_defined [OF no_users_inv assms])

lemma hash_mask: "ihash_mask (unixfs_inodelayer_init mem) = 0xFFFF"
  by (simp add: unixfs_inodelayer_init_def desirednodes_def hash_size.simps)

lemmas inode_eval = iget_round_def iget_found_def iget_next_def iget_alloc_def insert_inode_def upd_inode_def
  unixfs_inodelayer_isucceeded_def unixfs_inodelayer_ifailed_def unixfs_inodelayer_iput_def unhash_inode_def
  iget_woken_def wake_waiters_def no_users_def unixfs_inodelayer_init_def ihash_index_def new_inode_def I_number_def
  iu_total_def Let_def

theorem inodes_run_safe_witness:
  "\<exists>u. run_events inode_step (no_users (\<lambda>_. True))
      [Iv_get 2, Iv_alloc 2, Iv_get 2, Iv_filled 1, Iv_wake 1, Iv_put 1, Iv_get 2, Iv_put 1, Iv_put 1] = Some u \<and> inode_inv u"
proof -
  have "events_ok inode_ok inode_step (no_users (\<lambda>_. True))
      [Iv_get 2, Iv_alloc 2, Iv_get 2, Iv_filled 1, Iv_wake 1, Iv_put 1, Iv_get 2, Iv_put 1, Iv_put 1]"
    by (simp add: inode_eval)
  then show ?thesis by (rule inodes_run_safe)
qed

text \<open>
  C36: A read that fails while a thread waits for the inode takes it away under that thread: the inode is given
  back, whatever its count, and the thread that is woken looks at it.
\<close>

theorem failed_read_crashes_waiter:
  assumes "inode_inv u" and "p \<in># iu_fill u" and "p \<in># iu_wait u"
  shows "\<exists>v. inode_step u (Iv_unreadable p) = Some v \<and> p \<in># iu_wait v \<and> inode_step v (Iv_wake p) = None"
proof -
  have "0 < iu_refs p u" using assms(2) by (simp add: iu_refs_def count_greater_zero_iff)
  with refs_live [OF assms(1)] obtain n where n: "ih_nodes (iu_layer u) p = Some n" by blast
  have "layer_ok (iu_layer u)" using assms(1) by (simp add: inode_inv_def)
  then obtain t where "unhash_inode p (iu_layer u) = Some t" "ih_nodes t = (ih_nodes (iu_layer u))(p := None)"
    using layer_unhash [OF _ n] by blast
  with assms(3) show ?thesis by (simp add: unixfs_inodelayer_ifailed_def iget_woken_def)
qed

theorem failed_read_crashes_waiter_witness:
  "\<exists>u v. run_events inode_step (no_users (\<lambda>_. True)) [Iv_get 2, Iv_alloc 2, Iv_get 2] = Some u \<and>
    inode_step u (Iv_unreadable 1) = Some v \<and> inode_step v (Iv_wake 1) = None"
proof -
  have ok: "events_ok inode_ok inode_step (no_users (\<lambda>_. True)) [Iv_get 2, Iv_alloc 2, Iv_get 2]"
    by (simp add: inode_eval)
  obtain u where u: "run_events inode_step (no_users (\<lambda>_. True)) [Iv_get 2, Iv_alloc 2, Iv_get 2] = Some u" "inode_inv u"
    using inodes.run_defined [OF no_users_inv ok] by blast
  moreover from u(1) have "iu_fill u = {#1#} \<and> iu_wait u = {#1#}" by (auto simp: inode_eval)
  ultimately show ?thesis using failed_read_crashes_waiter [of u 1] by auto
qed

end
