(* ===== verification/Unixfs_V7.thy ===== *)
theory Unixfs_V7
  imports Unixfs_Inodes
begin

text \<open>
  The file system of the seventh edition of Unix (\<open>filesystems/unixfs/ancientfs/ancientfs_v7.c\<close>) on a disk
  image, and the requests of the kernel it answers (\<open>common/unixfs/unixfs.c\<close>). The machine is a little-endian
  one with 32-bit words, as the makefile asks for (\<open>i386\<close>), and blocks have 512 bytes. One thread at a time;
  \<^term>\<open>None\<close> stands for \<open>abort\<close>, a bad pointer, or a thread that waits for itself.
\<close>

abbreviation (input) ENOTDIR :: int where "ENOTDIR \<equiv> 20"
abbreviation (input) EISDIR :: int where "EISDIR \<equiv> 21"
abbreviation (input) EFBIG :: int where "EFBIG \<equiv> 27"
abbreviation (input) EBADF :: int where "EBADF \<equiv> 9"

section \<open>Byte orders\<close>

datatype fs_endian_t = UNIXFS_FS_PDP | UNIXFS_FS_LITTLE | UNIXFS_FS_BIG | UNIXFS_FS_INVALID

definition swap_bytes :: "nat \<Rightarrow> 'a::len word \<Rightarrow> 'a word" where
  "swap_bytes n w = le_dec (rev (le_enc n w))"

definition pdp11_to_host :: "u32 \<Rightarrow> u32" where
  "pdp11_to_host x = push_bit 16 (x AND 0xFFFF) OR drop_bit 16 (x AND 0xFFFF0000)"

definition fs64_to_host :: "fs_endian_t \<Rightarrow> u64 \<Rightarrow> u64" where
  "fs64_to_host e x = (if e = UNIXFS_FS_BIG then x else swap_bytes 8 x)"

definition fs32_to_host :: "fs_endian_t \<Rightarrow> u32 \<Rightarrow> u32" where
  "fs32_to_host e x =
     (if e = UNIXFS_FS_PDP then pdp11_to_host x else if e = UNIXFS_FS_LITTLE then x else swap_bytes 4 x)"

definition fs16_to_host :: "fs_endian_t \<Rightarrow> u16 \<Rightarrow> u16" where
  "fs16_to_host e x = (if e \<noteq> UNIXFS_FS_BIG then x else swap_bytes 2 x)"

definition host16 :: "nat \<Rightarrow> u8 list \<Rightarrow> u16" where
  "host16 off buf = le_dec (get_bytes off 2 buf)"

definition host32 :: "nat \<Rightarrow> u8 list \<Rightarrow> u32" where
  "host32 off buf = le_dec (get_bytes off 4 buf)"

section \<open>The super block\<close>

text \<open>
  \<open>struct filsys\<close>, as it lies in its block, and the super block in memory with the image behind \<open>s_bdev\<close>
  and the inode layer. Signed fields are read with \<^term>\<open>sint\<close>.
\<close>

abbreviation (input) BSIZE :: nat where "BSIZE \<equiv> 512"
abbreviation (input) ROOTINO :: u64 where "ROOTINO \<equiv> 2"
abbreviation (input) MACFUSE_ROOTINO :: u64 where "MACFUSE_ROOTINO \<equiv> 1"
abbreviation (input) DIRSIZ :: nat where "DIRSIZ \<equiv> 14"
abbreviation (input) NICINOD :: nat where "NICINOD \<equiv> 100"
abbreviation (input) NICFREE :: nat where "NICFREE \<equiv> 50"
abbreviation (input) NADDR :: nat where "NADDR \<equiv> 13"
abbreviation (input) DENTSIZE :: nat where "DENTSIZE \<equiv> 16"

record filsys =
  s_isize :: u16
  s_fsize :: u32
  s_nfree :: u16
  s_free :: "u32 list"
  s_ninode :: u16
  s_inode :: "u16 list"
  s_time :: u32

record super_block =
  s_endian :: fs_endian_t
  s_fs_info :: filsys
  s_bdev :: "u8 list"
  s_layer :: inode_layer
  f_files :: nat
  f_ffree :: nat
  f_blocks :: u32
  f_bfree :: nat

definition get_filsys :: "fs_endian_t \<Rightarrow> u8 list \<Rightarrow> filsys" where
  "get_filsys e buf =
     \<lparr>s_isize = fs16_to_host e (host16 0 buf), s_fsize = fs32_to_host e (host32 2 buf),
      s_nfree = fs16_to_host e (host16 6 buf),
      s_free = map (\<lambda>i. fs32_to_host e (host32 (8 + 4 * i) buf)) [0..<NICFREE],
      s_ninode = fs16_to_host e (host16 208 buf),
      s_inode = map (\<lambda>i. fs16_to_host e (host16 (210 + 2 * i) buf)) [0..<NICINOD],
      s_time = fs32_to_host e (host32 414 buf)\<rparr>"

text \<open>A block of the image: beyond its end, or before its start, there is nothing to read.\<close>

definition unixfs_internal_bread :: "int \<Rightarrow> super_block \<Rightarrow> (int \<times> u8 list) option" where
  "unixfs_internal_bread blkno sb =
     (if blkno \<ge> sint (s_fsize (s_fs_info sb)) then None
      else if blkno = 0 then Some (0, replicate BSIZE 0)
      else if 0 \<le> blkno \<and> nat blkno * BSIZE + BSIZE \<le> length (s_bdev sb)
      then Some (0, get_bytes (nat blkno * BSIZE) BSIZE (s_bdev sb))
      else Some (EIO, []))"

text \<open>
  The next free block. The check on the count lets one too many pass; behind the list lie the fields that
  follow it.
\<close>

definition s_free_at :: "filsys \<Rightarrow> nat \<Rightarrow> u32" where
  "s_free_at fs i =
     (if i < NICFREE then s_free fs ! i else ucast (s_ninode fs) OR push_bit 16 (ucast (s_inode fs ! 0)))"

definition unixfs_internal_alloc :: "super_block \<Rightarrow> (int \<times> super_block) option" where
  "unixfs_internal_alloc sb =
     (let fs = s_fs_info sb; nfree = s_nfree fs - 1; i = sint nfree;
          sb1 = sb\<lparr>s_fs_info := fs\<lparr>s_nfree := nfree\<rparr>\<rparr>; bno = sint (s_free_at fs (nat i))
      in if i < 0 then Some (0, sb\<lparr>s_fs_info := fs\<lparr>s_nfree := 0\<rparr>\<rparr>)
         else if i > int NICFREE then Some (0, sb1)
         else if bno = 0 then Some (0, sb1)
         else if bno < uint (s_isize fs) \<or> bno \<ge> sint (s_fsize fs) then Some (0, sb1)
         else if i \<le> 0
         then do {
           (ret, ubuf) \<leftarrow> unixfs_internal_bread bno sb1;
           if ret = 0
           then Some (bno, sb\<lparr>s_fs_info := fs\<lparr>s_nfree := fs16_to_host (s_endian sb) (host16 0 ubuf),
                  s_free := map (\<lambda>i. fs32_to_host (s_endian sb) (host32 (2 + 4 * i) ubuf)) [0..<NICFREE]\<rparr>\<rparr>)
           else Some (0, sb1)
         }
         else Some (bno, sb1))"

text \<open>The loop that counts the free blocks, which takes what the disk says.\<close>

partial_function (option) count_free :: "nat \<Rightarrow> super_block \<Rightarrow> (nat \<times> super_block) option" where
  "count_free n sb =
     Option.bind (unixfs_internal_alloc sb) (\<lambda>(bno, sb1). if bno \<noteq> 0 then count_free (n + 1) sb1 else Some (n, sb1))"

section \<open>Blocks of a file\<close>

text \<open>
  \<open>unixfs_internal_bmap\<close>: how many levels of indirection, with the shift and the number that is left, and
  the walk through them. The result is the error with the block; a block that is not there is an error.
\<close>

fun bmap_level :: "nat \<Rightarrow> nat \<Rightarrow> int \<Rightarrow> int \<Rightarrow> (nat \<times> nat \<times> int) option" where
  "bmap_level 0 sh nb bn = None"
| "bmap_level (Suc j) sh nb bn =
     (if bn < nb * 128 then Some (Suc j, sh + 7, bn) else bmap_level j (sh + 7) (nb * 128) (bn - nb * 128))"

fun bmap_walk :: "nat \<Rightarrow> nat \<Rightarrow> int \<Rightarrow> int \<Rightarrow> super_block \<Rightarrow> (int \<times> int) option" where
  "bmap_walk 0 sh bn nb sb = Some (0, nb)"
| "bmap_walk (Suc k) sh bn nb sb =
     do {
       (ret, ubuf) \<leftarrow> unixfs_internal_bread nb sb;
       if ret \<noteq> 0 then Some (ret, 0)
       else let i = nat (bn div 2 ^ (sh - 7) mod 128);
                nb1 = sint (fs32_to_host (s_endian sb) (host32 (4 * i) ubuf))
            in if nb1 = 0 then Some (EROFS, 0) else bmap_walk k (sh - 7) bn nb1 sb
     }"

definition unixfs_internal_bmap :: "inode \<Rightarrow> int \<Rightarrow> super_block \<Rightarrow> (int \<times> int) option" where
  "unixfs_internal_bmap ip lblkno sb =
     (let bn = sint (of_int lblkno :: u32)
      in if bn < 0 then Some (EFBIG, 0)
         else if bn < int (NADDR - 3)
         then let nb = sint (I_daddr ip ! nat bn) in Some (if nb = 0 then (EROFS, 0) else (0, nb))
         else (case bmap_level 3 0 1 (bn - int (NADDR - 3)) of
                 None \<Rightarrow> Some (EFBIG, 0)
               | Some (j, sh, bn1) \<Rightarrow>
                   let nb = sint (I_daddr ip ! (NADDR - j))
                   in if nb = 0 then Some (EROFS, 0) else bmap_walk (4 - j) sh bn1 nb sb))"

section \<open>Inodes\<close>

definition itod :: "u64 \<Rightarrow> int" where
  "itod ino = (uint (ucast ino :: u16) + 15) div 8"

definition itoo :: "u64 \<Rightarrow> nat" where
  "itoo ino = nat ((uint (ucast ino :: u16) + 15) mod 8)"

text \<open>The addresses are three bytes each, which the code spreads to four before it converts them.\<close>

definition disk_addr :: "fs_endian_t \<Rightarrow> u8 list \<Rightarrow> nat \<Rightarrow> u32" where
  "disk_addr e dip i =
     fs32_to_host e (le_dec [dip ! (12 + 3 * i), 0, dip ! (13 + 3 * i), dip ! (14 + 3 * i)])"

definition S_IFMT :: "u16 \<Rightarrow> u16" where "S_IFMT mode = mode AND 0xF000"

definition S_ISDIR :: "u16 \<Rightarrow> bool" where "S_ISDIR mode \<longleftrightarrow> S_IFMT mode = 0x4000"
definition S_ISREG :: "u16 \<Rightarrow> bool" where "S_ISREG mode \<longleftrightarrow> S_IFMT mode = 0x8000"
definition S_ISCHR :: "u16 \<Rightarrow> bool" where "S_ISCHR mode \<longleftrightarrow> S_IFMT mode = 0x2000"
definition S_ISBLK :: "u16 \<Rightarrow> bool" where "S_ISBLK mode \<longleftrightarrow> S_IFMT mode = 0x6000"

definition disk_stat :: "fs_endian_t \<Rightarrow> u64 \<Rightarrow> u8 list \<Rightarrow> inode_stat" where
  "disk_stat e ino dip =
     (let mode = fs16_to_host e (host16 0 dip); rdev = disk_addr e dip 0
      in \<lparr>st_ino = ino, st_mode = mode, st_nlink = fs16_to_host e (host16 2 dip),
          st_uid = ucast (fs16_to_host e (host16 4 dip)), st_gid = ucast (fs16_to_host e (host16 6 dip)),
          st_rdev = (if S_ISCHR mode \<or> S_ISBLK mode
                     then push_bit 24 (drop_bit 8 rdev AND 255) OR (rdev AND 255) else 0),
          st_size = uint (fs32_to_host e (host32 8 dip)), st_atime = fs32_to_host e (host32 52 dip),
          st_mtime = fs32_to_host e (host32 56 dip), st_ctime = fs32_to_host e (host32 60 dip)\<rparr>)"

text \<open>The calls of the inode layer, of a thread that is alone.\<close>

definition unixfs_inodelayer_iget :: "u64 \<Rightarrow> inode_layer \<Rightarrow> (nat option \<times> inode_layer) option" where
  "unixfs_inodelayer_iget ino s =
     do {
       (r, s1) \<leftarrow> iget_round ino None s;
       (case r of
          Ig_node p \<Rightarrow> Some (Some p, s1)
        | Ig_wait p \<Rightarrow> None
        | Ig_alloc \<Rightarrow>
            do {
              (r, s2) \<leftarrow> iget_alloc ino s1;
              (case r of None \<Rightarrow> Some (None, s2) | Some (Ig_node p) \<Rightarrow> Some (Some p, s2) | Some _ \<Rightarrow> None)
            })
     }"

definition real_ino :: "u64 \<Rightarrow> u64" where
  "real_ino ino = (if ino = MACFUSE_ROOTINO then ROOTINO else ino)"

definition unixfs_internal_iget :: "u64 \<Rightarrow> super_block \<Rightarrow> (nat option \<times> super_block) option" where
  "unixfs_internal_iget ino0 sb =
     do {
       let ino = real_ino ino0;
       (po, s1) \<leftarrow> unixfs_inodelayer_iget ino (s_layer sb);
       p \<leftarrow> po;
       n \<leftarrow> ih_nodes s1 p;
       if I_initialized n then Some (Some p, sb\<lparr>s_layer := s1\<rparr>)
       else do {
         (ret, ubuf) \<leftarrow> unixfs_internal_bread (itod ino) sb;
         if ret \<noteq> 0
         then do { s2 \<leftarrow> unixfs_inodelayer_ifailed p s1; Some (None, sb\<lparr>s_layer := s2\<rparr>) }
         else do {
           let dip = get_bytes (64 * itoo ino) 64 ubuf;
           s2 \<leftarrow> upd_inode p (\<lambda>n. n\<lparr>I_stat := disk_stat (s_endian sb) ino dip,
                                     I_daddr := map (disk_addr (s_endian sb) dip) [0..<NADDR]\<rparr>) s1;
           s3 \<leftarrow> unixfs_inodelayer_isucceeded p s2;
           Some (Some p, sb\<lparr>s_layer := s3\<rparr>)
         }
       }
     }"

definition unixfs_internal_iput :: "nat \<Rightarrow> super_block \<Rightarrow> super_block option" where
  "unixfs_internal_iput p sb = do { s \<leftarrow> unixfs_inodelayer_iput p (s_layer sb); Some (sb\<lparr>s_layer := s\<rparr>) }"

definition unixfs_internal_istat :: "nat \<Rightarrow> super_block \<Rightarrow> inode_stat option" where
  "unixfs_internal_istat p sb = map_option I_stat (ih_nodes (s_layer sb) p)"

definition unixfs_internal_igetattr :: "u64 \<Rightarrow> super_block \<Rightarrow> ((int + inode_stat) \<times> super_block) option" where
  "unixfs_internal_igetattr ino sb =
     do {
       (po, sb1) \<leftarrow> unixfs_internal_iget (real_ino ino) sb;
       (case po of
          None \<Rightarrow> Some (Inl ENOENT, sb1)
        | Some p \<Rightarrow>
            do { st \<leftarrow> unixfs_internal_istat p sb1; sb2 \<leftarrow> unixfs_internal_iput p sb1; Some (Inr st, sb2) })
     }"

section \<open>Directories\<close>

text \<open>
  Names are compared up to their null byte, 14 bytes at most. The lookup counts the offset in 16 bits; when
  a block cannot be read it returns what the block map said, which was that there is no error.
\<close>

definition strncmp_eq :: "nat \<Rightarrow> u8 list \<Rightarrow> u8 list \<Rightarrow> bool" where
  "strncmp_eq n a b \<longleftrightarrow> take n (takeWhile (\<lambda>c. c \<noteq> 0) a) = take n (takeWhile (\<lambda>c. c \<noteq> 0) b)"

definition dent_ino :: "fs_endian_t \<Rightarrow> u8 list \<Rightarrow> nat \<Rightarrow> u16" where
  "dent_ino e buf off = fs16_to_host e (host16 off buf)"

definition dent_name :: "u8 list \<Rightarrow> nat \<Rightarrow> u8 list" where
  "dent_name buf off = get_bytes (off + 2) DIRSIZ buf"

text \<open>The block an offset of a directory is in; \<open>Inl\<close> is the error the lookup returns.\<close>

definition dir_block :: "inode \<Rightarrow> int \<Rightarrow> super_block \<Rightarrow> (int + int \<times> u8 list) option" where
  "dir_block dp lblkno sb =
     do {
       (err, blkno) \<leftarrow> unixfs_internal_bmap dp lblkno sb;
       if err \<noteq> 0 then Some (Inl err)
       else do { r \<leftarrow> unixfs_internal_bread blkno sb; Some (Inr r) }
     }"

fun namei_scan :: "nat \<Rightarrow> u16 \<Rightarrow> u8 list \<Rightarrow> u8 list \<Rightarrow> inode \<Rightarrow> super_block \<Rightarrow> (int + u16) option" where
  "namei_scan 0 offset ubuf name dp sb = Some (Inl ENOENT)"
| "namei_scan (Suc left) offset ubuf name dp sb =
     do {
       b \<leftarrow> (if offset AND 0x1FF = 0 then dir_block dp (sint offset div int BSIZE) sb else Some (Inr (0, ubuf)));
       (case b of
          Inl err \<Rightarrow> Some (Inl err)
        | Inr (ret, buf) \<Rightarrow>
            if ret \<noteq> 0 then Some (Inl 0)
            else
              let o1 = unat (offset AND 0x1FF); ino = dent_ino (s_endian sb) buf o1
              in if ino = 0 \<or> \<not> strncmp_eq DIRSIZ name (dent_name buf o1)
                 then namei_scan left (offset + of_nat DENTSIZE) buf name dp sb
                 else Some (Inr ino))
     }"

text \<open>The whole lookup: the errno, and the attributes, whose inode number is zero unless there is a match.\<close>

definition unixfs_internal_namei ::
  "u64 \<Rightarrow> u8 list \<Rightarrow> super_block \<Rightarrow> ((int \<times> inode_stat) \<times> super_block) option" where
  "unixfs_internal_namei parentino name sb =
     (let none = I_stat (new_inode 0) in
      do {
        (po, sb1) \<leftarrow> unixfs_internal_iget (real_ino parentino) sb;
        (case po of
           None \<Rightarrow> Some ((ENOENT, none), sb1)
         | Some p \<Rightarrow>
             do {
               dp \<leftarrow> ih_nodes (s_layer sb1) p;
               if \<not> S_ISDIR (st_mode (I_stat dp))
               then do { sb2 \<leftarrow> unixfs_internal_iput p sb1; Some ((ENOTDIR, none), sb2) }
               else do {
                 r \<leftarrow> namei_scan (nat (st_size (I_stat dp) div int DENTSIZE)) 0 [] name dp sb1;
                 (ans, sb2) \<leftarrow> (case r of
                     Inl err \<Rightarrow> Some ((err, none), sb1)
                   | Inr ino \<Rightarrow>
                       do {
                         (r, sb2) \<leftarrow> unixfs_internal_igetattr (ucast ino) sb1;
                         Some (case r of Inl err \<Rightarrow> (err, none) | Inr st \<Rightarrow> (0, st), sb2)
                       });
                 sb3 \<leftarrow> unixfs_internal_iput p sb2;
                 Some (ans, sb3)
               }
             })
      })"

text \<open>
  The next entry at an offset, with the block that was read last: the result is no entry at the end or on
  an error.
\<close>

definition unixfs_internal_nextdirentry ::
  "inode \<Rightarrow> u8 list \<Rightarrow> int \<Rightarrow> super_block \<Rightarrow> (int + (u16 \<times> u8 list) \<times> u8 list) option" where
  "unixfs_internal_nextdirentry dp dirbuf offset sb =
     (if offset + int DENTSIZE > st_size (I_stat dp) then Some (Inl (- 1))
      else do {
        b \<leftarrow> (if offset mod int BSIZE = 0 then dir_block dp (offset div int BSIZE) sb else Some (Inr (0, dirbuf)));
        Some (case b of
                Inl err \<Rightarrow> Inl err
              | Inr (ret, buf) \<Rightarrow>
                  if ret \<noteq> 0 then Inl ret
                  else let o1 = nat (offset mod int BSIZE)
                       in Inr ((dent_ino (s_endian sb) buf o1, dent_name buf o1), buf))
      })"

section \<open>Contents\<close>

text \<open>
  \<open>unixfs_internal_pbread\<close>: every block is copied from its start, wherever in the block the offset is; offsets
  are not negative. The result is the number of bytes, or -1, the error, and the bytes.
\<close>

function pbread_loop ::
  "inode \<Rightarrow> nat \<Rightarrow> int \<Rightarrow> int \<Rightarrow> u8 list \<Rightarrow> super_block \<Rightarrow> (int \<times> u8 list) option" where
  "pbread_loop ip remaining offset error p sb =
     (if remaining = 0 then Some (error, p)
      else do {
        (err, bn) \<leftarrow> unixfs_internal_bmap ip (offset div int BSIZE) sb;
        if err \<noteq> 0 then Some (err, p)
        else do {
          (ret, blkbuf) \<leftarrow> unixfs_internal_bread bn sb;
          if ret \<noteq> 0 then Some (ret, p)
          else let tomove = min remaining BSIZE
               in pbread_loop ip (remaining - tomove) (offset + int tomove) 0 (p @ take tomove blkbuf) sb
        }
      })"
  by pat_completeness auto

termination
  by (relation "measure (\<lambda>(ip, remaining, offset, error, p, sb). remaining)") auto

declare pbread_loop.simps [simp del]

definition unixfs_internal_pbread :: "inode \<Rightarrow> nat \<Rightarrow> int \<Rightarrow> int \<Rightarrow> super_block \<Rightarrow> (int \<times> int \<times> u8 list) option" where
  "unixfs_internal_pbread ip nbyte offset error sb =
     do {
       (err, bs) \<leftarrow> pbread_loop ip nbyte offset error [] sb;
       Some (if bs = [] \<and> err \<noteq> 0 then -1 else int (length bs), err, bs)
     }"

section \<open>Requests of the kernel\<close>

text \<open>What is replied to a request; some are answered more than once.\<close>

datatype ll_reply =
    Reply_err int
  | Reply_attr inode_stat
  | Reply_entry inode_stat
  | Reply_readlink
  | Reply_open nat
  | Reply_buf "u8 list"
  | Reply_statfs "nat \<times> nat \<times> u32 \<times> nat"

text \<open>The numbers of the volume: inodes used and free, and blocks, all and free.\<close>

definition unixfs_internal_statvfs :: "super_block \<Rightarrow> nat \<times> nat \<times> u32 \<times> nat" where
  "unixfs_internal_statvfs sb = (f_files sb, f_ffree sb, f_blocks sb, f_bfree sb)"

definition unixfs_ll_statfs :: "super_block \<Rightarrow> ll_reply list" where
  "unixfs_ll_statfs sb = [Reply_statfs (unixfs_internal_statvfs sb)]"

definition unixfs_ll_lookup :: "u64 \<Rightarrow> u8 list \<Rightarrow> super_block \<Rightarrow> (ll_reply list \<times> super_block) option" where
  "unixfs_ll_lookup parent name sb =
     do {
       ((error, st), sb1) \<leftarrow> unixfs_internal_namei parent name sb;
       Some (if error \<noteq> 0 then [Reply_err error] else [Reply_entry st], sb1)
     }"

definition unixfs_ll_getattr :: "u64 \<Rightarrow> super_block \<Rightarrow> (ll_reply list \<times> super_block) option" where
  "unixfs_ll_getattr ino sb =
     do {
       (r, sb1) \<leftarrow> unixfs_internal_igetattr ino sb;
       Some ([case r of Inl err \<Rightarrow> Reply_err err | Inr st \<Rightarrow> Reply_attr st], sb1)
     }"

definition unixfs_internal_readlink :: int where
  "unixfs_internal_readlink = ENOSYS"

definition unixfs_ll_readlink :: "ll_reply list" where
  "unixfs_ll_readlink =
     (if unixfs_internal_readlink \<noteq> 0 then [Reply_err unixfs_internal_readlink] else []) @ [Reply_readlink]"

text \<open>A missing inode is answered, and then used all the same.\<close>

definition unixfs_ll_open :: "u64 \<Rightarrow> super_block \<Rightarrow> (ll_reply list \<times> super_block) option" where
  "unixfs_ll_open ino sb =
     do {
       (po, sb1) \<leftarrow> unixfs_internal_iget ino sb;
       p \<leftarrow> po;
       st \<leftarrow> unixfs_internal_istat p sb1;
       if S_ISREG (st_mode st) then Some ([Reply_open p], sb1)
       else do {
         sb2 \<leftarrow> unixfs_internal_iput p sb1;
         Some ([Reply_err (if S_ISDIR (st_mode st) then EISDIR
                           else if S_ISBLK (st_mode st) \<or> S_ISCHR (st_mode st) then ENXIO else EACCES)], sb2)
       }
     }"

definition unixfs_ll_release :: "nat \<Rightarrow> super_block \<Rightarrow> (ll_reply list \<times> super_block) option" where
  "unixfs_ll_release fh sb =
     do {
       sb1 \<leftarrow> (if fh \<noteq> 0 then unixfs_internal_iput fh sb else Some sb);
       Some ([Reply_err 0], sb1)
     }"

text \<open>Reading goes on until all is there or an error comes; what is there by then is the answer.\<close>

partial_function (option) ll_read_loop :: "inode \<Rightarrow> nat \<Rightarrow> int \<Rightarrow> int \<Rightarrow> u8 list \<Rightarrow> super_block \<Rightarrow> u8 list option" where
  "ll_read_loop ip nbyte offset error buf sb =
     Option.bind (unixfs_internal_pbread ip nbyte offset error sb) (\<lambda>(ret, err, bs).
       if ret < 0 then Some buf
       else if err \<noteq> 0 \<or> nbyte = nat ret then Some (buf @ bs)
       else ll_read_loop ip (nbyte - nat ret) (offset + ret) err (buf @ bs) sb)"

definition unixfs_ll_read :: "nat \<Rightarrow> int \<Rightarrow> nat \<Rightarrow> super_block \<Rightarrow> ll_reply list option" where
  "unixfs_ll_read nbyte offset fh sb =
     (if fh = 0 then Some [Reply_err EBADF]
      else do {
        ip \<leftarrow> ih_nodes (s_layer sb) fh;
        let fsize = st_size (I_stat ip);
        if nbyte = 0 \<or> offset > fsize then Some [Reply_buf []]
        else do {
          buf \<leftarrow> ll_read_loop ip (if offset + int nbyte > fsize then nat (fsize - offset) else nbyte) offset 0 [] sb;
          Some [Reply_buf buf]
        }
      })"

text \<open>
  The entries of a directory with their attributes: those without a number and those whose inode cannot be
  had are left out. \<open>enc\<close> is the form \<open>fuse_add_direntry\<close> gives an entry, from the bytes before it on; the
  listing is made anew for each request, which gets its part of it.
\<close>

function readdir_loop ::
  "inode \<Rightarrow> u8 list \<Rightarrow> int \<Rightarrow> super_block \<Rightarrow> ((u8 list \<times> inode_stat) list \<times> super_block) option" where
  "readdir_loop dp dirbuf offset sb =
     (if offset + int DENTSIZE > st_size (I_stat dp) then Some ([], sb)
      else do {
        r \<leftarrow> unixfs_internal_nextdirentry dp dirbuf offset sb;
        (case r of
           Inl err \<Rightarrow> Some ([], sb)
         | Inr ((ino, name), buf) \<Rightarrow>
             if ino = 0 then readdir_loop dp buf (offset + int DENTSIZE) sb
             else do {
               (a, sb1) \<leftarrow> unixfs_internal_igetattr (ucast ino) sb;
               (es, sb2) \<leftarrow> readdir_loop dp buf (offset + int DENTSIZE) sb1;
               Some (case a of Inl err \<Rightarrow> es | Inr st \<Rightarrow> (name, st) # es, sb2)
             })
      })"
  by pat_completeness auto

termination
  by (relation "measure (\<lambda>(dp, dirbuf, offset, sb). nat (st_size (I_stat dp) - offset))") auto

declare readdir_loop.simps [simp del]

definition unixfs_ll_readdir ::
  "(nat \<Rightarrow> u8 list \<times> inode_stat \<Rightarrow> u8 list) \<Rightarrow> u64 \<Rightarrow> nat \<Rightarrow> nat \<Rightarrow> super_block \<Rightarrow> (ll_reply list \<times> super_block) option" where
  "unixfs_ll_readdir enc ino sz off sb =
     do {
       (po, sb1) \<leftarrow> unixfs_internal_iget ino sb;
       (case po of
          None \<Rightarrow> Some ([Reply_err ENOENT], sb1)
        | Some p \<Rightarrow>
            do {
              dp \<leftarrow> ih_nodes (s_layer sb1) p;
              if \<not> S_ISDIR (st_mode (I_stat dp))
              then do { sb2 \<leftarrow> unixfs_internal_iput p sb1; Some ([Reply_err ENOTDIR], sb2) }
              else do {
                (es, sb2) \<leftarrow> readdir_loop dp [] 0 sb1;
                let b = foldl (\<lambda>b e. b @ enc (length b) e) [] es;
                sb3 \<leftarrow> unixfs_internal_iput p sb2;
                Some ([Reply_buf (take sz (drop off b))], sb3)
              }
            })
     }"

section \<open>Mounting\<close>

text \<open>
  The checks on a volume, with the size of the image; the size of the volume is a product of 32 bits. The
  result is 0 or -1.
\<close>

definition unixfs_internal_sanitycheck :: "int \<Rightarrow> super_block \<Rightarrow> (int \<times> super_block) option" where
  "unixfs_internal_sanitycheck disksize sb =
     (let fs = s_fs_info sb
      in if sint (s_fsize fs * of_nat BSIZE) > disksize then Some (-1, sb)
         else if sint (s_nfree fs) > int NICFREE then Some (-1, sb)
         else if sint (s_ninode fs) > int NICINOD then Some (-1, sb)
         else if s_time fs = 0 then Some (-1, sb)
         else do {
           (r, sb1) \<leftarrow> unixfs_internal_igetattr ROOTINO sb;
           Some (case r of
                   Inl err \<Rightarrow> -1
                 | Inr st \<Rightarrow> if \<not> S_ISDIR (st_mode st) \<or> st_size st = 0 \<or> st_size st mod int DENTSIZE \<noteq> 0 then -1 else 0,
                 sb1)
         })"

text \<open>The inodes in the blocks of the list, used and free; a block that cannot be read is passed over.\<close>

fun count_inodes :: "nat \<Rightarrow> nat \<Rightarrow> super_block \<Rightarrow> super_block option" where
  "count_inodes iblock 0 sb = Some sb"
| "count_inodes iblock (Suc k) sb =
     do {
       (ret, ubuf) \<leftarrow> unixfs_internal_bread (int iblock) sb;
       let n = length (filter (\<lambda>i. host16 (64 * i + 2) ubuf = 0) [0..<8]);
       count_inodes (iblock + 1) k
         (if ret \<noteq> 0 then sb else sb\<lparr>f_ffree := f_ffree sb + n, f_files := f_files sb + (8 - n)\<rparr>)
     }"

text \<open>
  \<open>unixfs_internal_init\<close> on an image, if it can be opened: whether it is a regular file, whether the volume
  is to be mounted whatever the checks say, and the byte order asked for. The result is the errno that makes
  the mount fail, or the super block.
\<close>

definition unixfs_internal_init ::
  "(nat \<Rightarrow> bool) \<Rightarrow> u8 list option \<Rightarrow> bool \<Rightarrow> bool \<Rightarrow> fs_endian_t \<Rightarrow> (int + super_block) option" where
  "unixfs_internal_init mem dmg regular force fse =
     (case dmg of
        None \<Rightarrow> Some (Inl ENOENT)
      | Some img \<Rightarrow>
          let e = (if fse = UNIXFS_FS_INVALID then UNIXFS_FS_PDP else fse);
              sb = \<lparr>s_endian = e, s_fs_info = get_filsys e (get_bytes BSIZE BSIZE img), s_bdev = img,
                    s_layer = unixfs_inodelayer_init mem, f_files = 0, f_ffree = 0, f_blocks = 0, f_bfree = 0\<rparr>
          in if \<not> regular \<and> \<not> force then Some (Inl EINVAL)
             else if length img < 2 * BSIZE then Some (Inl EIO)
             else do {
               (r, sb1) \<leftarrow> unixfs_internal_sanitycheck (int (length img)) sb;
               if r \<noteq> 0 \<and> \<not> force then Some (Inl EINVAL)
               else do {
                 sb2 \<leftarrow> count_inodes 2 (unat (s_isize (s_fs_info sb1)) - 2) sb1;
                 (n, sb3) \<leftarrow> count_free 0 (sb2\<lparr>f_blocks := s_fsize (s_fs_info sb2)\<rparr>);
                 Some (Inr (sb3\<lparr>f_bfree := n\<rparr>))
               }
             })"

text \<open>
  The end of the volume: the inodes the layer warns of, and the volume with its image closed.
\<close>

definition unixfs_internal_fini :: "super_block \<Rightarrow> nat list \<times> super_block" where
  "unixfs_internal_fini sb =
     (let (warned, l) = unixfs_inodelayer_fini (s_layer sb) in (warned, sb\<lparr>s_layer := l, s_bdev := []\<rparr>))"

definition unixfs_ll_destroy :: "super_block \<Rightarrow> nat list \<times> super_block" where
  "unixfs_ll_destroy sb = unixfs_internal_fini sb"

end
