(* ===== verification/Unixfs_V7_Props.thy ===== *)
theory Unixfs_V7_Props
  imports Unixfs_V7
begin

text \<open>
  What the file system shows of a volume: the blocks of a file, their bytes, and the entries of a directory;
  and where it goes astray.
\<close>

section \<open>A volume\<close>

text \<open>A little-endian volume of ten blocks, with the given bytes from block 3 on, for the examples.\<close>

definition ex_volume :: "u8 list \<Rightarrow> super_block" where
  "ex_volume bs =
     \<lparr>s_endian = UNIXFS_FS_LITTLE,
      s_fs_info = \<lparr>s_isize = 3, s_fsize = 10, s_nfree = 0, s_free = replicate 50 0, s_ninode = 0,
                   s_inode = replicate 100 0, s_time = 1\<rparr>,
      s_bdev = replicate 1536 0 @ bs, s_layer = unixfs_inodelayer_init (\<lambda>_. True),
      f_files = 0, f_ffree = 0, f_blocks = 10, f_bfree = 0\<rparr>"

definition ex_file :: "u16 \<Rightarrow> int \<Rightarrow> inode" where
  "ex_file mode sz =
     (new_inode 7)\<lparr>I_stat := (I_stat (new_inode 7))\<lparr>st_mode := mode, st_size := sz\<rparr>, I_daddr := 3 # replicate 12 0\<rparr>"

definition ex_open :: "inode \<Rightarrow> u8 list \<Rightarrow> super_block" where
  "ex_open ip bs = (ex_volume bs)\<lparr>s_layer := (s_layer (ex_volume bs))\<lparr>ih_nodes := [5 \<mapsto> ip]\<rparr>\<rparr>"

section \<open>The blocks of a file\<close>

text \<open>
  All blocks an inode refers to, as a list: those it names itself, and the leaves of three trees of indirect
  blocks. An address of zero, or a block that cannot be read, stands for all the leaves below it.
\<close>

definition addr_result :: "u32 \<Rightarrow> int \<times> int" where
  "addr_result w = (if sint w = 0 then (EROFS, 0) else (0, sint w))"

definition entry :: "super_block \<Rightarrow> int \<Rightarrow> nat \<Rightarrow> (int \<times> int) option" where
  "entry sb a i =
     do {
       (ret, ubuf) \<leftarrow> unixfs_internal_bread a sb;
       Some (if ret \<noteq> 0 then (ret, 0) else addr_result (fs32_to_host (s_endian sb) (host32 (4 * i) ubuf)))
     }"

fun leaves :: "super_block \<Rightarrow> nat \<Rightarrow> (int \<times> int) option \<Rightarrow> (int \<times> int) option list" where
  "leaves sb 0 r = [r]"
| "leaves sb (Suc d) r =
     (case r of
        Some (err, a) \<Rightarrow> if err = 0 then concat (map (\<lambda>i. leaves sb d (entry sb a i)) [0..<128]) else replicate (128 ^ Suc d) r
      | None \<Rightarrow> replicate (128 ^ Suc d) r)"

definition file_blocks :: "inode \<Rightarrow> super_block \<Rightarrow> (int \<times> int) option list" where
  "file_blocks ip sb =
     map (\<lambda>i. Some (addr_result (I_daddr ip ! i))) [0..<10] @
     leaves sb 1 (Some (addr_result (I_daddr ip ! 10))) @ leaves sb 2 (Some (addr_result (I_daddr ip ! 11))) @
     leaves sb 3 (Some (addr_result (I_daddr ip ! 12)))"

lemma concat_chunks:
  assumes "\<And>i. i < n \<Longrightarrow> length (f i) = m"
  shows "length (concat (map f [0..<n])) = n * m"
    and "k < n * m \<Longrightarrow> concat (map f [0..<n]) ! k = f (k div m) ! (k mod m)"
proof -
  show len: "length (concat (map f [0..<n])) = n * m"
    using assms by (induction n) auto
  show "k < n * m \<Longrightarrow> concat (map f [0..<n]) ! k = f (k div m) ! (k mod m)"
    using assms
  proof (induction n)
    case (Suc n)
    have len: "length (concat (map f [0..<n])) = n * m"
      using Suc.prems(2) by (induction n) auto
    show ?case
    proof (cases "k < n * m")
      case True
      with Suc len show ?thesis by (simp add: nth_append)
    next
      case False
      then have "k div m = n" "k mod m = k - n * m"
        using Suc.prems(1) by (auto simp: div_nat_eqI mod_nat_eqI algebra_simps intro!: div_nat_eqI mod_nat_eqI)
      with False len show ?thesis by (simp add: nth_append)
    qed
  qed simp
qed

lemma length_leaves [simp]: "length (leaves sb d r) = 128 ^ d"
proof (induction d arbitrary: r)
  case (Suc d)
  then show ?case using concat_chunks(1) [of 128 "\<lambda>i. leaves sb d (entry sb a i)" "128 ^ d" for a]
    by (auto split: option.split)
qed simp

lemma leaves_failed: "k < 128 ^ d \<Longrightarrow> (case r of None \<Rightarrow> True | Some (err, a) \<Rightarrow> err \<noteq> 0) \<Longrightarrow> leaves sb d r ! k = r"
  by (cases d) (auto split: option.splits)

lemma bmap_walk_leaves:
  "bmap_walk d (7 * d) (int m) a sb = leaves sb d (Some (0, a)) ! (m mod 128 ^ d)"
proof (induction d arbitrary: a)
  case (Suc d)
  let ?k = "m mod 128 ^ Suc d" and ?i = "m div 128 ^ d mod 128"
  have i: "?k div 128 ^ d = ?i" and j: "?k mod 128 ^ d = m mod 128 ^ d"
    by (simp_all add: mod_mult2_eq mult.commute [of 128])
  have "?k < 128 * 128 ^ d" by simp
  then have "leaves sb (Suc d) (Some (0, a)) ! ?k = leaves sb d (entry sb a ?i) ! (m mod 128 ^ d)"
    using concat_chunks(2) [of 128 "\<lambda>i. leaves sb d (entry sb a i)" "128 ^ d" ?k] i j by simp
  moreover have "nat (int m div 2 ^ (7 * d) mod 128) = ?i"
  proof -
    have "int m div 2 ^ (7 * d) mod 128 = int ?i" by (simp add: zdiv_int zmod_int power_mult)
    then show ?thesis by (simp only: nat_int)
  qed
  ultimately show ?case
    using Suc.IH leaves_failed [of "m mod 128 ^ d" d]
    by (auto simp: entry_def addr_result_def Let_def simp del: leaves.simps split: bind_splits prod.splits)
qed simp

text \<open>One of the three trees, from the address in the inode.\<close>

lemma tree_leaves:
  assumes "m < 128 ^ d"
  shows "(let nb = sint w in if nb = 0 then Some (EROFS, 0) else bmap_walk d (7 * d) (int m) nb sb) =
    leaves sb d (Some (addr_result w)) ! m"
  using assms bmap_walk_leaves [of d m "sint w" sb] leaves_failed [of m d "Some (EROFS, 0)" sb]
  by (simp add: addr_result_def Let_def)

lemma bmap_levels:
  "bmap_level 3 0 1 b =
     (if b < 128 then Some (3, 7, b) else if b < 128 + 16384 then Some (2, 14, b - 128)
      else if b < 128 + 16384 + 2097152 then Some (1, 21, b - 128 - 16384) else None)"
  by (simp add: numeral_3_eq_3)

lemma sint_block: "n < 2 ^ 31 \<Longrightarrow> sint (of_nat n :: u32) = int n"
  by (simp add: signed_of_nat signed_take_bit_int_eq_self)

lemma bmap_tree:
  assumes "bmap_level 3 0 1 (int n - 10) = Some (4 - d, 7 * d, int m)" and "m < 128 ^ d" and "10 \<le> n" and "n < 2 ^ 31"
    and "d \<le> 4"
  shows "unixfs_internal_bmap ip (int n) sb = leaves sb d (Some (addr_result (I_daddr ip ! (9 + d)))) ! m"
  using tree_leaves [OF assms(2), of "I_daddr ip ! (9 + d)" sb] assms
  by (simp add: unixfs_internal_bmap_def sint_block Let_def split: if_splits)

lemma length_file_blocks: "length (file_blocks ip sb) = 10 + 128 + 128 ^ 2 + 128 ^ 3"
  by (simp add: file_blocks_def del: leaves.simps)

lemma bmap_blocks:
  assumes "n < 2 ^ 31"
  shows "unixfs_internal_bmap ip (int n) sb =
    (if n < length (file_blocks ip sb) then file_blocks ip sb ! n else Some (EFBIG, 0))"
proof -
  note len = length_file_blocks [of ip sb] and bn = sint_block [OF assms]
  consider "n < 10" | "10 \<le> n" "n < 138" | "138 \<le> n" "n < 16522" | "16522 \<le> n" "n < 2113674" | "2113674 \<le> n"
    by linarith
  then show ?thesis
  proof cases
    case 1
    then show ?thesis
      by (simp add: unixfs_internal_bmap_def bn len file_blocks_def nth_append addr_result_def Let_def)
  next
    case 2
    have m: "n - 10 < 128" using 2 by arith
    have "unixfs_internal_bmap ip (int n) sb = leaves sb 1 (Some (addr_result (I_daddr ip ! (9 + 1)))) ! (n - 10)"
      by (rule bmap_tree) (use 2 m assms in \<open>simp_all add: bmap_levels\<close>)
    with 2 m show ?thesis by (simp add: len file_blocks_def nth_append del: leaves.simps)
  next
    case 3
    have m: "n - 138 < 16384" "\<not> n - 10 < 128" using 3 by arith+
    have "unixfs_internal_bmap ip (int n) sb = leaves sb 2 (Some (addr_result (I_daddr ip ! (9 + 2)))) ! (n - 138)"
      by (rule bmap_tree) (use 3 m assms in \<open>simp_all add: bmap_levels\<close>)
    with 3 m show ?thesis by (simp add: len file_blocks_def nth_append del: leaves.simps)
  next
    case 4
    have m: "n - 16522 < 2097152" "\<not> n - 10 < 128" "\<not> n - 138 < 16384" using 4 by arith+
    have "unixfs_internal_bmap ip (int n) sb = leaves sb 3 (Some (addr_result (I_daddr ip ! (9 + 3)))) ! (n - 16522)"
      by (rule bmap_tree) (use 4 m assms in \<open>simp_all add: bmap_levels\<close>)
    with 4 m show ?thesis by (simp add: len file_blocks_def nth_append del: leaves.simps)
  next
    case 5
    then show ?thesis by (simp add: unixfs_internal_bmap_def bn len bmap_levels)
  qed
qed

text \<open>
  C16: The block map finds the blocks of the trees the disk holds: the block of a number is the one at that
  place in the list of all blocks the inode refers to, directly and through one, two and three levels of
  indirect blocks, with the error of the first address that is missing or cannot be read; behind the last of
  them there is nothing.
\<close>

theorem bmap_reference:
  assumes "n < 2 ^ 31"
  shows "unixfs_internal_bmap ip (int n) sb =
    (if n < length (file_blocks ip sb) then file_blocks ip sb ! n else Some (EFBIG, 0))"
  using bmap_blocks [OF assms] .

theorem bmap_reference_witness:
  "unixfs_internal_bmap (new_inode 7) (int 3) (ex_volume []) = Some (EROFS, 0)"
  using bmap_reference [of 3 "new_inode 7" "ex_volume []"]
  by (simp add: file_blocks_def nth_append addr_result_def new_inode_def)

section \<open>The bytes of a file\<close>

text \<open>A file whose blocks are all there and can be read, and what is in it.\<close>

definition block_data :: "inode \<Rightarrow> super_block \<Rightarrow> nat \<Rightarrow> u8 list option" where
  "block_data ip sb b =
     do {
       (err, bn) \<leftarrow> (if b < length (file_blocks ip sb) then file_blocks ip sb ! b else None);
       if err \<noteq> 0 then None
       else do { (ret, buf) \<leftarrow> unixfs_internal_bread bn sb; if ret \<noteq> 0 then None else Some buf }
     }"

definition readable :: "inode \<Rightarrow> super_block \<Rightarrow> bool" where
  "readable ip sb \<longleftrightarrow> 0 \<le> st_size (I_stat ip) \<and> (\<forall>b. int (b * BSIZE) < st_size (I_stat ip) \<longrightarrow> block_data ip sb b \<noteq> None)"

definition blocks_from :: "inode \<Rightarrow> super_block \<Rightarrow> nat \<Rightarrow> nat \<Rightarrow> u8 list" where
  "blocks_from ip sb b n = concat (map (\<lambda>i. the (block_data ip sb (b + i))) [0..<n])"

definition contents :: "inode \<Rightarrow> super_block \<Rightarrow> u8 list" where
  "contents ip sb =
     (let fsize = nat (st_size (I_stat ip)) in take fsize (blocks_from ip sb 0 ((fsize + 511) div BSIZE)))"

lemma length_bread: "unixfs_internal_bread bn sb = Some (0, buf) \<Longrightarrow> length buf = BSIZE"
  by (auto simp: unixfs_internal_bread_def get_bytes_def split: if_splits)

lemma block_dataD:
  assumes "block_data ip sb b = Some buf"
  obtains bn where "unixfs_internal_bmap ip (int b) sb = Some (0, bn)" "unixfs_internal_bread bn sb = Some (0, buf)"
proof -
  have "b < length (file_blocks ip sb)" using assms by (auto simp: block_data_def split: if_splits)
  then have "b < 2 ^ 31" by (simp add: length_file_blocks)
  from bmap_blocks [OF this, of ip sb] show ?thesis
    using assms that by (auto simp: block_data_def split: if_splits bind_splits)
qed

lemma length_block: "block_data ip sb b = Some buf \<Longrightarrow> length buf = BSIZE"
  by (auto elim!: block_dataD intro: length_bread)

lemma blocks_from_Suc: "blocks_from ip sb b (Suc n) = the (block_data ip sb b) @ blocks_from ip sb (Suc b) n"
  by (simp add: blocks_from_def upt_conv_Cons map_Suc_upt [symmetric] comp_def del: upt_Suc)

lemma blocks_from_split: "blocks_from ip sb b (m + n) = blocks_from ip sb b m @ blocks_from ip sb (b + m) n"
  by (induction m arbitrary: b) (simp_all add: blocks_from_Suc, simp add: blocks_from_def)

lemma length_blocks_from:
  "(\<And>i. b \<le> i \<Longrightarrow> i < b + n \<Longrightarrow> block_data ip sb i \<noteq> None) \<Longrightarrow> length (blocks_from ip sb b n) = n * BSIZE"
proof (induction n arbitrary: b)
  case (Suc n)
  then obtain buf where "block_data ip sb b = Some buf" by fastforce
  with Suc show ?case by (simp add: blocks_from_Suc length_block)
qed (simp add: blocks_from_def)

lemma pbread_loop_blocks:
  assumes "0 \<le> offset" and "\<And>i. nat offset div BSIZE \<le> i \<Longrightarrow> i < nat offset div BSIZE + (r + 511) div BSIZE \<Longrightarrow> block_data ip sb i \<noteq> None"
  shows "pbread_loop ip r offset err p sb =
    Some (if r = 0 then err else 0, p @ take r (blocks_from ip sb (nat offset div BSIZE) ((r + 511) div BSIZE)))"
  using assms
proof (induction r arbitrary: offset err p rule: less_induct)
  case (less r)
  let ?b = "nat offset div BSIZE"
  show ?case
  proof (cases "r = 0")
    case True
    then show ?thesis by (simp add: pbread_loop.simps)
  next
    case False
    let ?m = "min r BSIZE"
    have n: "(r + 511) div BSIZE = Suc ((r - ?m + 511) div BSIZE)"
    proof (cases "r \<le> 512")
      case True
      then show ?thesis using False by (simp add: div_nat_eqI)
    next
      case big: False
      then have "r + 511 = (r - 512 + 511) + 512" by simp
      then have "(r + 511) div 512 = ((r - 512 + 511) + 512) div 512" by simp
      then show ?thesis using big by simp
    qed
    have "block_data ip sb ?b \<noteq> None" using less.prems(2) [of ?b] n by simp
    then obtain buf where buf: "block_data ip sb ?b = Some buf" by blast
    obtain bn where bn: "unixfs_internal_bmap ip (int ?b) sb = Some (0, bn)" "unixfs_internal_bread bn sb = Some (0, buf)"
      using buf by (rule block_dataD)
    have b: "offset div 512 = int ?b" using less.prems(1) by (simp add: zdiv_int)
    have len: "length buf = 512" using length_block [OF buf] .
    have step: "pbread_loop ip r offset err p sb = pbread_loop ip (r - ?m) (offset + int ?m) 0 (p @ take ?m buf) sb"
      using False bn by (subst pbread_loop.simps) (simp add: b Let_def)
    show ?thesis
    proof (cases "r \<le> 512")
      case True
      then show ?thesis
        using step n False len buf by (simp add: pbread_loop.simps blocks_from_Suc blocks_from_def)
    next
      case big: False
      have next_b: "nat (offset + 512) div 512 = Suc ?b" using less.prems(1) by (simp add: nat_add_distrib)
      have "pbread_loop ip (r - 512) (offset + 512) 0 (p @ buf) sb =
          Some (0, (p @ buf) @ take (r - 512) (blocks_from ip sb (Suc ?b) ((r - 512 + 511) div BSIZE)))"
        using less.IH [of "r - 512" "offset + 512" 0 "p @ buf"] less.prems big n by (auto simp: next_b)
      then show ?thesis
        using step big n len buf by (simp add: blocks_from_Suc)
    qed
  qed
qed

text \<open>The bytes from a block on, as many as there are blocks for.\<close>

lemma blocks_contents:
  assumes r: "readable ip sb" and c: "int (b * BSIZE + c) \<le> st_size (I_stat ip)"
  shows "take c (blocks_from ip sb b ((c + 511) div BSIZE)) = take c (drop (b * BSIZE) (contents ip sb))"
    and "i < b + (c + 511) div BSIZE \<Longrightarrow> block_data ip sb i \<noteq> None"
proof -
  let ?f = "nat (st_size (I_stat ip))" and ?n = "(c + 511) div 512"
  have there: "block_data ip sb i \<noteq> None" if "i * 512 < ?f" for i
    using r that by (auto simp: readable_def)
  have f: "b * 512 + c \<le> ?f" using c by simp
  have n: "c \<le> ?n * 512" "?n * 512 < c + 512"
    using div_mult_mod_eq [of "c + 511" 512] mod_less_divisor [of 512 "c + 511"] by linarith+
  show in_file: "i < b + ?n \<Longrightarrow> block_data ip sb i \<noteq> None" for i
    using f n by (intro there) linarith
  have N: "b + ?n \<le> (?f + 511) div 512" using f n by (simp add: less_eq_div_iff_mult_less_eq algebra_simps)
  then obtain k where k: "(?f + 511) div 512 = b + ?n + k" using le_Suc_ex by blast
  have "blocks_from ip sb 0 ((?f + 511) div 512) = blocks_from ip sb 0 b @ blocks_from ip sb b ?n @ blocks_from ip sb (b + ?n) k"
    by (simp add: k blocks_from_split)
  moreover have "length (blocks_from ip sb 0 b) = b * 512" "length (blocks_from ip sb b ?n) = ?n * 512"
    using in_file by (auto intro!: length_blocks_from)
  ultimately show "take c (blocks_from ip sb b ?n) = take c (drop (b * 512) (contents ip sb))"
    using f n by (simp add: contents_def Let_def drop_take min_def)
qed

lemma length_contents: "readable ip sb \<Longrightarrow> length (contents ip sb) = nat (st_size (I_stat ip))"
proof -
  assume r: "readable ip sb"
  let ?f = "nat (st_size (I_stat ip))"
  have "block_data ip sb i \<noteq> None" if "i < (?f + 511) div 512" for i
    using blocks_contents(2) [OF r, of 0 ?f i] r that by (auto simp: readable_def)
  then have "length (blocks_from ip sb 0 ((?f + 511) div 512)) = (?f + 511) div 512 * 512"
    by (intro length_blocks_from) auto
  moreover have "?f \<le> (?f + 511) div 512 * 512"
    using div_mult_mod_eq [of "?f + 511" 512] mod_less_divisor [of 512 "?f + 511"] by linarith
  ultimately show ?thesis by (simp add: contents_def Let_def)
qed

lemma ll_read_blocks:
  assumes ip: "ih_nodes (s_layer sb) fh = Some ip" "fh \<noteq> 0" and r: "readable ip sb" and off: "0 \<le> offset"
  shows "unixfs_ll_read nbyte offset fh sb =
    Some [Reply_buf (take (min nbyte (nat (st_size (I_stat ip) - offset)))
                       (drop (nat offset div BSIZE * BSIZE) (contents ip sb)))]"
proof -
  let ?f = "st_size (I_stat ip)" and ?b = "nat offset div 512"
  define c where "c = min nbyte (nat (?f - offset))"
  show ?thesis
  proof (cases "c = 0")
    case True
    then have "nbyte = 0 \<or> ?f \<le> offset" by (auto simp: c_def)
    then show ?thesis
      using ip True
      by (subst c_def [symmetric]) (auto simp: unixfs_ll_read_def Let_def ll_read_loop.simps [of _ 0] unixfs_internal_pbread_def pbread_loop.simps [of _ 0])
  next
    case False
    then have pos: "nbyte \<noteq> 0" "offset < ?f" and le: "int c \<le> ?f - offset" by (auto simp: c_def)
    have "?b * 512 \<le> nat offset" by simp
    then have in_file: "int (?b * 512 + c) \<le> ?f" using le off by linarith
    note blocks = blocks_contents [OF r in_file]
    have "pbread_loop ip c offset 0 [] sb = Some (0, take c (drop (?b * 512) (contents ip sb)))"
      using pbread_loop_blocks [OF off, of c ip sb 0 "[]"] blocks False by simp
    moreover have "length (take c (drop (?b * 512) (contents ip sb))) = c"
      using length_contents [OF r] in_file by simp
    ultimately have "unixfs_internal_pbread ip c offset 0 sb = Some (int c, 0, take c (drop (?b * 512) (contents ip sb)))"
      by (simp add: unixfs_internal_pbread_def)
    then have "ll_read_loop ip c offset 0 [] sb = Some (take c (drop (?b * 512) (contents ip sb)))"
      by (subst ll_read_loop.simps) simp
    moreover have "(if offset + int nbyte > ?f then nat (?f - offset) else nbyte) = c"
      using off pos by (auto simp: c_def)
    ultimately show ?thesis
      using ip pos by (simp add: unixfs_ll_read_def Let_def c_def [symmetric])
  qed
qed


lemma ex_readable:
  assumes "length bs = BSIZE" and "0 \<le> sz" "sz \<le> int BSIZE"
  shows "block_data (ex_file mode sz) (ex_open (ex_file mode sz) bs) 0 = Some bs" and "readable (ex_file mode sz) (ex_open (ex_file mode sz) bs)"
proof -
  show "block_data (ex_file mode sz) (ex_open (ex_file mode sz) bs) 0 = Some bs"
    using assms by (simp add: block_data_def length_file_blocks, simp add: file_blocks_def nth_append addr_result_def
        ex_file_def ex_open_def ex_volume_def unixfs_internal_bread_def get_bytes_def)
  moreover have "b = 0" if "int (b * 512) < st_size (I_stat (ex_file mode sz))" for b
    using that assms by (simp add: ex_file_def)
  ultimately show "readable (ex_file mode sz) (ex_open (ex_file mode sz) bs)"
    using assms(2) by (auto simp: readable_def) (simp add: ex_file_def)
qed

lemma ex_simps [simp]:
  "ih_nodes (s_layer (ex_open ip bs)) 5 = Some ip"
  "st_size (I_stat (ex_file mode sz)) = sz" "st_mode (I_stat (ex_file mode sz)) = mode"
  "s_endian (ex_open ip bs) = UNIXFS_FS_LITTLE"
  by (simp_all add: ex_open_def ex_file_def ex_volume_def)

lemma ex_contents:
  assumes "length bs = BSIZE" and "0 \<le> sz" "sz \<le> int BSIZE"
  shows "contents (ex_file mode sz) (ex_open (ex_file mode sz) bs) = take (nat sz) bs"
proof (cases "sz = 0")
  case False
  then have "(nat sz + 511) div 512 = 1" using assms by (simp add: div_nat_eqI)
  then show ?thesis using ex_readable(1) [OF assms] by (simp add: contents_def blocks_from_def Let_def)
qed (simp add: contents_def)

text \<open>
  C17: Reading a file at the start of a block gives the bytes of the file from there on, as many as were asked
  for and the file has: the contents are the blocks of the block map one after the other, up to the size.
\<close>

theorem v7_read_refines:
  assumes "ih_nodes (s_layer sb) fh = Some ip" and "fh \<noteq> 0" and "readable ip sb" and "0 \<le> offset"
    and "offset mod int BSIZE = 0"
  shows "unixfs_ll_read nbyte offset fh sb = Some [Reply_buf (take nbyte (drop (nat offset) (contents ip sb)))]"
proof -
  have "nat offset mod 512 = 0" using assms(4,5) nat_mod_distrib [of offset 512] by simp
  then have "nat offset div 512 * 512 = nat offset" using div_mult_mod_eq [of "nat offset" 512] by simp
  moreover have "nat (st_size (I_stat ip) - offset) = length (drop (nat offset) (contents ip sb))"
    using length_contents [OF assms(3)] assms(4) by simp
  ultimately show ?thesis
    using ll_read_blocks [OF assms(1-4), of nbyte] by (simp add: min.commute flip: take_take)
qed

theorem v7_read_refines_witness:
  "unixfs_ll_read 2 0 5 (ex_open (ex_file 0x8000 3) ([65, 66, 67] @ replicate 509 0)) = Some [Reply_buf [65, 66]]"
  using v7_read_refines [of "ex_open (ex_file 0x8000 3) ([65, 66, 67] @ replicate 509 0)" 5 "ex_file 0x8000 3" 0 2]
    ex_readable [of "[65, 66, 67] @ replicate 509 0" 3 "0x8000"]
    ex_contents [of "[65, 66, 67] @ replicate 509 0" 3 "0x8000"]
  by simp

text \<open>
  C38: A read that starts within a block does not get the bytes it asked for: every block is copied from its
  start, so that the answer has the right length and the bytes from the start of the block on.
\<close>

theorem unaligned_read_shifted:
  assumes "ih_nodes (s_layer sb) fh = Some ip" and "fh \<noteq> 0" and "readable ip sb" and "0 \<le> offset"
  shows "unixfs_ll_read nbyte offset fh sb =
    Some [Reply_buf (take (min nbyte (length (contents ip sb) - nat offset))
                       (drop (nat offset - nat offset mod BSIZE) (contents ip sb)))]"
  using ll_read_blocks [OF assms, of nbyte] length_contents [OF assms(3)] assms(3,4)
  by (simp add: minus_mod_eq_div_mult nat_diff_distrib' readable_def)

theorem unaligned_read_shifted_witness:
  "unixfs_ll_read 2 1 5 (ex_open (ex_file 0x8000 3) ([65, 66, 67] @ replicate 509 0)) = Some [Reply_buf [65, 66]]"
  using unaligned_read_shifted [of "ex_open (ex_file 0x8000 3) ([65, 66, 67] @ replicate 509 0)" 5 "ex_file 0x8000 3" 1 2]
    ex_readable [of "[65, 66, 67] @ replicate 509 0" 3 "0x8000"]
    ex_contents [of "[65, 66, 67] @ replicate 509 0" 3 "0x8000"]
  by simp


section \<open>Directories\<close>

text \<open>The entries of a directory, read off its bytes.\<close>

definition dir_entry :: "inode \<Rightarrow> super_block \<Rightarrow> nat \<Rightarrow> u16 \<times> u8 list" where
  "dir_entry dp sb k =
     (let c = contents dp sb in (dent_ino (s_endian sb) c (k * DENTSIZE), dent_name c (k * DENTSIZE)))"

definition dir_entries :: "inode \<Rightarrow> super_block \<Rightarrow> (u16 \<times> u8 list) list" where
  "dir_entries dp sb = map (dir_entry dp sb) [0..<nat (st_size (I_stat dp)) div DENTSIZE]"

lemma get_bytes_contents:
  assumes "readable dp sb" and "o1 + n \<le> BSIZE" and "0 < n" and "int (b * BSIZE + o1 + n) \<le> st_size (I_stat dp)"
    and "block_data dp sb b = Some buf"
  shows "get_bytes (b * BSIZE + o1) n (contents dp sb) = get_bytes o1 n buf"
proof -
  have one: "(o1 + n + 511) div 512 = 1" using assms(2,3) by (simp add: div_nat_eqI)
  have "take (o1 + n) (drop (b * 512) (contents dp sb)) = take (o1 + n) buf"
    using blocks_contents(1) [OF assms(1), of b "o1 + n"] assms(4,5) one by (simp add: blocks_from_def add.assoc)
  then have "drop o1 (take (o1 + n) (drop (b * 512) (contents dp sb))) = drop o1 (take (o1 + n) buf)" by simp
  then show ?thesis by (simp add: get_bytes_def drop_take add.commute)
qed

lemma scale_block: "q * 32 + r = k \<Longrightarrow> k * 16 = q * 512 + 16 * r" for q :: nat
  by (auto simp: add_mult_distrib)

lemma next_block: "Suc k mod 32 \<noteq> 0 \<Longrightarrow> Suc k div 32 = k div 32"
  by (simp only: div_Suc if_False)

text \<open>Entry \<open>k\<close> lies in block \<open>k div 32\<close>.\<close>

lemma dir_entry_block:
  assumes "readable dp sb" and "k < nat (st_size (I_stat dp)) div DENTSIZE"
  obtains buf where "block_data dp sb (k div 32) = Some buf"
    and "dir_entry dp sb k = (dent_ino (s_endian sb) buf (16 * (k mod 32)), dent_name buf (16 * (k mod 32)))"
    and "dir_block dp (int (k div 32)) sb = Some (Inr (0, buf))"
proof -
  have split: "k * 16 = k div 32 * 512 + 16 * (k mod 32)" by (rule scale_block) (rule div_mult_mod_eq)
  have "(k + 1) * 16 \<le> nat (st_size (I_stat dp)) div 16 * 16" using assms(2) by (intro mult_le_mono1) simp
  then have "(k + 1) * 16 \<le> nat (st_size (I_stat dp))" using div_times_less_eq_dividend order_trans by blast
  then have size: "int (k * 16 + 16) \<le> st_size (I_stat dp)" by simp
  then have "block_data dp sb (k div 32) \<noteq> None" using assms(1) split by (simp add: readable_def)
  then obtain buf where buf: "block_data dp sb (k div 32) = Some buf" by blast
  have "16 * (k mod 32) + 16 \<le> 512" by (simp add: Suc_leI)
  then have "get_bytes (k * 16 + i) n (contents dp sb) = get_bytes (16 * (k mod 32) + i) n buf" if "i + n \<le> 16" "0 < n" for i n
    using get_bytes_contents [OF assms(1) _ that(2) _ buf, of "16 * (k mod 32) + i"] that(1) size
    by (simp add: split algebra_simps)
  from this [of 0 2] this [of 2 14]
  have "dir_entry dp sb k = (dent_ino (s_endian sb) buf (16 * (k mod 32)), dent_name buf (16 * (k mod 32)))"
    by (simp add: dir_entry_def dent_ino_def dent_name_def host16_def Let_def)
  moreover have "dir_block dp (int (k div 32)) sb = Some (Inr (0, buf))"
    using buf by (auto elim!: block_dataD simp: dir_block_def)
  ultimately show thesis using that buf by blast
qed

definition matches :: "u8 list \<Rightarrow> u16 \<times> u8 list \<Rightarrow> bool" where
  "matches name e \<longleftrightarrow> fst e \<noteq> 0 \<and> strncmp_eq DIRSIZ name (snd e)"

lemma entry_offset:
  assumes "k < 2048"
  shows "unat ((of_nat (16 * k) :: u16) AND 0x1FF) = 16 * (k mod 32)" and "sint (of_nat (16 * k) :: u16) = 16 * int k"
    and "((of_nat (16 * k) :: u16) AND 0x1FF = 0) = (k mod 32 = 0)"
proof -
  have "(of_nat (16 * k) :: u16) AND 0x1FF = take_bit 9 (of_nat (16 * k))" by (simp add: take_bit_eq_mask mask_eq_exp_minus_1)
  then have "unat ((of_nat (16 * k) :: u16) AND 0x1FF) = 16 * k mod 65536 mod 512"
    by (simp add: take_bit_eq_mod unat_mod unat_of_nat del: of_nat_mult)
  also have "\<dots> = 16 * (k mod 32)" using assms by (simp add: mult_mod_right)
  finally show u: "unat ((of_nat (16 * k) :: u16) AND 0x1FF) = 16 * (k mod 32)" .
  have "((of_nat (16 * k) :: u16) AND 0x1FF = 0) = (unat ((of_nat (16 * k) :: u16) AND 0x1FF) = 0)"
    by (simp only: unat_eq_zero)
  then show "((of_nat (16 * k) :: u16) AND 0x1FF = 0) = (k mod 32 = 0)" using u by simp
  have "sint (of_nat (16 * k) :: u16) = signed_take_bit 15 (int (16 * k))" by (simp add: signed_of_nat del: of_nat_mult)
  also have "\<dots> = int (16 * k)" using assms by (intro signed_take_bit_int_eq_self) simp_all
  finally show "sint (of_nat (16 * k) :: u16) = 16 * int k" by simp
qed


text \<open>The first \<open>m\<close> entries of a lookup, and what is left after them.\<close>

lemma namei_scan_entries:
  assumes "readable dp sb" and "k + m \<le> nat (st_size (I_stat dp)) div DENTSIZE" and "k + m \<le> 2048"
    and "k mod 32 \<noteq> 0 \<Longrightarrow> block_data dp sb (k div 32) = Some ubuf"
  shows "\<exists>buf. namei_scan (m + left) (of_nat (16 * k)) ubuf name dp sb =
    (case find (matches name) (map (dir_entry dp sb) [k..<k + m]) of
       None \<Rightarrow> namei_scan left (of_nat (16 * (k + m))) buf name dp sb
     | Some e \<Rightarrow> Some (Inr (fst e)))"
  using assms(2-4)
proof (induction m arbitrary: k ubuf)
  case (Suc m)
  have k: "k < 2048" "k < nat (st_size (I_stat dp)) div 16" using Suc.prems(1,2) by simp_all
  obtain buf where buf: "block_data dp sb (k div 32) = Some buf"
    and e: "dir_entry dp sb k = (dent_ino (s_endian sb) buf (16 * (k mod 32)), dent_name buf (16 * (k mod 32)))"
    and b: "dir_block dp (int (k div 32)) sb = Some (Inr (0, buf))"
    using dir_entry_block [OF assms(1) k(2)] by blast
  have lbn: "sint (of_nat (16 * k) :: u16) div int BSIZE = int (k div 32)"
    unfolding entry_offset(2) [OF k(1)] of_nat_numeral zdiv_int using div_mult_mult1 [of 16 "int k" 32] by simp
  have load: "(if (of_nat (16 * k) :: u16) AND 0x1FF = 0 then dir_block dp (sint (of_nat (16 * k) :: u16) div int BSIZE) sb
      else Some (Inr (0, ubuf))) = Some (Inr (0, buf))"
    unfolding entry_offset(3) [OF k(1)] lbn using b Suc.prems(3) buf by (cases "k mod 32 = 0") simp_all
  have "Suc k mod 32 \<noteq> 0 \<Longrightarrow> Suc k div 32 = k div 32" by (rule next_block)
  then have "\<exists>buf2. namei_scan (m + left) (of_nat (16 * Suc k)) buf name dp sb =
      (case find (matches name) (map (dir_entry dp sb) [Suc k..<Suc k + m]) of
         None \<Rightarrow> namei_scan left (of_nat (16 * (Suc k + m))) buf2 name dp sb
       | Some e \<Rightarrow> Some (Inr (fst e)))"
    using Suc.prems(1,2) buf by (intro Suc.IH) (simp_all del: of_nat_mult)
  then obtain buf2 where rest: "namei_scan (m + left) (of_nat (16 * Suc k)) buf name dp sb =
      (case find (matches name) (map (dir_entry dp sb) [Suc k..<Suc k + m]) of
         None \<Rightarrow> namei_scan left (of_nat (16 * (Suc k + m))) buf2 name dp sb
       | Some e \<Rightarrow> Some (Inr (fst e)))" ..
  have next_off: "(of_nat (16 * k) :: u16) + of_nat 16 = of_nat (16 * Suc k)" by simp
  have "namei_scan (Suc m + left) (of_nat (16 * k)) ubuf name dp sb =
      (if matches name (dir_entry dp sb k) then Some (Inr (fst (dir_entry dp sb k)))
       else namei_scan (m + left) (of_nat (16 * Suc k)) buf name dp sb)"
    unfolding add_Suc namei_scan.simps load next_off
    unfolding entry_offset(1) [OF k(1)] Let_def by (simp add: e matches_def del: of_nat_mult namei_scan.simps)
  then show ?case
    using rest unfolding add_Suc_shift by (intro exI [of _ buf2]) (simp add: upt_conv_Cons del: of_nat_mult upt_Suc namei_scan.simps)
qed auto


text \<open>
  C37: In a larger directory the lookup of a name that is not among the first 2048 entries fails, whether a later
  entry has it or not: the offset, of 16 bits, goes below zero, and the block map refuses it.
\<close>

theorem large_directory_lookup_fails:
  assumes "readable dp sb" and "int (2048 * DENTSIZE) + int DENTSIZE \<le> st_size (I_stat dp)"
    and "find (matches name) (take 2048 (dir_entries dp sb)) = None"
  shows "namei_scan (nat (st_size (I_stat dp) div int DENTSIZE)) 0 [] name dp sb = Some (Inl EFBIG)"
proof -
  have n: "nat (st_size (I_stat dp) div 16) = nat (st_size (I_stat dp)) div 16"
    using assms(1) by (simp add: readable_def nat_div_distrib)
  have "2049 \<le> nat (st_size (I_stat dp)) div 16" using assms(2) by linarith
  then obtain l where l: "nat (st_size (I_stat dp)) div 16 = 2048 + Suc l"
    by (metis add_Suc_right add.commute le_Suc_ex numeral_eq_Suc pred_numeral_simps semiring_norm(26-28) add_Suc)
  have "take 2048 (dir_entries dp sb) = map (dir_entry dp sb) [0..<2048]"
    by (simp add: dir_entries_def take_map l take_upt del: upt_rec_numeral)
  then obtain buf where "namei_scan (2048 + Suc l) 0 [] name dp sb = namei_scan (Suc l) (of_nat (16 * 2048)) buf name dp sb"
    using namei_scan_entries [OF assms(1), of 0 2048 "[]" "Suc l" name] assms(3) l by auto
  moreover have "dir_block dp (- 64) sb = Some (Inl EFBIG)"
    by (simp add: dir_block_def unixfs_internal_bmap_def)
  ultimately show ?thesis by (simp add: n l)
qed


text \<open>
  The entries of a listing with the attributes of their inodes, those that have none left out. The attributes
  are fetched one after the other, with the inodes the layer holds by then.
\<close>

fun stat_all :: "(u16 \<times> u8 list) list \<Rightarrow> super_block \<Rightarrow> ((u8 list \<times> inode_stat) list \<times> super_block) option" where
  "stat_all [] sb = Some ([], sb)"
| "stat_all ((ino, name) # es) sb =
     do {
       (a, sb1) \<leftarrow> unixfs_internal_igetattr (ucast ino) sb;
       (rs, sb2) \<leftarrow> stat_all es sb1;
       Some (case a of Inl err \<Rightarrow> rs | Inr st \<Rightarrow> (name, st) # rs, sb2)
     }"

text \<open>What is read from the image does not depend on the inodes in memory.\<close>

lemma bread_layer [simp]: "unixfs_internal_bread a (sb\<lparr>s_layer := l\<rparr>) = unixfs_internal_bread a sb"
  by (simp add: unixfs_internal_bread_def)

lemma bmap_walk_layer [simp]: "bmap_walk d sh bn nb (sb\<lparr>s_layer := l\<rparr>) = bmap_walk d sh bn nb sb"
  by (induction d arbitrary: sh nb) (auto simp: Let_def split: bind_splits)

lemma dir_block_layer [simp]: "dir_block dp b (sb\<lparr>s_layer := l\<rparr>) = dir_block dp b sb"
proof -
  have "unixfs_internal_bmap dp b (sb\<lparr>s_layer := l\<rparr>) = unixfs_internal_bmap dp b sb"
    by (auto simp: unixfs_internal_bmap_def Let_def split: option.split)
  then show ?thesis by (auto simp: dir_block_def split: bind_splits)
qed

lemma nextdirentry_layer [simp]:
  "unixfs_internal_nextdirentry dp buf offset (sb\<lparr>s_layer := l\<rparr>) = unixfs_internal_nextdirentry dp buf offset sb"
  by (auto simp: unixfs_internal_nextdirentry_def Let_def split: bind_splits sum.split)

lemma iget_layer: "unixfs_internal_iget ino sb = Some (po, sb1) \<Longrightarrow> sb1 = sb\<lparr>s_layer := s_layer sb1\<rparr>"
  by (auto simp: unixfs_internal_iget_def Let_def split: bind_splits if_splits)

lemma iput_layer: "unixfs_internal_iput p sb = Some sb1 \<Longrightarrow> sb1 = sb\<lparr>s_layer := s_layer sb1\<rparr>"
  by (auto simp: unixfs_internal_iput_def split: bind_splits)

lemma igetattr_layer:
  assumes "unixfs_internal_igetattr ino sb = Some (r, sb1)"
  shows "\<exists>l. sb1 = sb\<lparr>s_layer := l\<rparr>"
proof -
  obtain po sb2 where po: "unixfs_internal_iget (real_ino ino) sb = Some (po, sb2)"
    and rest: "sb1 = sb2 \<or> (\<exists>p. unixfs_internal_iput p sb2 = Some sb1)"
    using assms by (auto simp: unixfs_internal_igetattr_def split: bind_splits option.splits; blast)
  have "sb1 = sb2\<lparr>s_layer := s_layer sb1\<rparr>" using rest iput_layer [of _ sb2 sb1] by auto
  moreover have "sb2 = sb\<lparr>s_layer := s_layer sb2\<rparr>" by (rule iget_layer [OF po])
  ultimately have "sb1 = sb\<lparr>s_layer := s_layer sb2\<rparr>\<lparr>s_layer := s_layer sb1\<rparr>" by metis
  then show ?thesis by (intro exI [of _ "s_layer sb1"]) simp
qed

lemma nextdirentry_entry:
  assumes "readable dp sb" and "k < nat (st_size (I_stat dp)) div DENTSIZE"
    and "k mod 32 \<noteq> 0 \<Longrightarrow> block_data dp sb (k div 32) = Some ubuf"
  obtains buf where "block_data dp sb (k div 32) = Some buf"
    and "unixfs_internal_nextdirentry dp ubuf (int (16 * k)) sb = Some (Inr (dir_entry dp sb k, buf))"
proof -
  obtain buf where buf: "block_data dp sb (k div 32) = Some buf"
    and e: "dir_entry dp sb k = (dent_ino (s_endian sb) buf (16 * (k mod 32)), dent_name buf (16 * (k mod 32)))"
    and b: "dir_block dp (int (k div 32)) sb = Some (Inr (0, buf))"
    using dir_entry_block [OF assms(1,2)] by blast
  have lbn: "int (16 * k) div 512 = int (k div 32)"
    using div_mult_mult1 [of 16 "int k" 32] by (simp add: zdiv_int)
  have o1: "int (16 * k) mod 512 = int (16 * (k mod 32))"
    using mult_mod_right [of 16 "int k" 32] by (simp add: zmod_int)
  have "int (16 * k) + 16 \<le> st_size (I_stat dp)" using assms(2) by linarith
  then have "unixfs_internal_nextdirentry dp ubuf (int (16 * k)) sb = Some (Inr (dir_entry dp sb k, buf))"
    using b buf assms(3) by (simp add: unixfs_internal_nextdirentry_def lbn o1 Let_def e del: of_nat_mult)
  with buf show thesis by (rule that)
qed

lemma readdir_entries:
  assumes "readable dp sb" and "k + m = nat (st_size (I_stat dp)) div DENTSIZE"
    and "k mod 32 \<noteq> 0 \<Longrightarrow> block_data dp sb (k div 32) = Some ubuf"
  shows "readdir_loop dp ubuf (int (16 * k)) (sb\<lparr>s_layer := l\<rparr>) =
    stat_all (filter (\<lambda>e. fst e \<noteq> 0) (map (dir_entry dp sb) [k..<k + m])) (sb\<lparr>s_layer := l\<rparr>)"
  using assms(2,3)
proof (induction m arbitrary: k ubuf l)
  case 0
  then have "int (16 * k) + 16 > st_size (I_stat dp)" by simp
  then show ?case by (subst readdir_loop.simps) simp
next
  case (Suc m)
  have k: "k < nat (st_size (I_stat dp)) div 16" using Suc.prems(1) by simp
  obtain buf where buf: "block_data dp sb (k div 32) = Some buf"
    and e: "unixfs_internal_nextdirentry dp ubuf (int (16 * k)) sb = Some (Inr (dir_entry dp sb k, buf))"
    using nextdirentry_entry [OF assms(1) k Suc.prems(2)] by blast
  have "Suc k mod 32 \<noteq> 0 \<Longrightarrow> Suc k div 32 = k div 32" by (rule next_block)
  then have rest: "readdir_loop dp buf (int (16 * Suc k)) (sb\<lparr>s_layer := l\<rparr>) =
      stat_all (filter (\<lambda>e. fst e \<noteq> 0) (map (dir_entry dp sb) [Suc k..<Suc k + m])) (sb\<lparr>s_layer := l\<rparr>)" for l
    using Suc.prems(1) buf by (intro Suc.IH) simp_all
  have "16 * Suc k \<le> nat (st_size (I_stat dp))"
    using k less_eq_div_iff_mult_less_eq [of 16 "Suc k" "nat (st_size (I_stat dp))"] by (simp add: mult.commute)
  then have in_dir: "\<not> int (16 * Suc k) > st_size (I_stat dp)"
    using le_nat_iff [of "st_size (I_stat dp)" "16 * Suc k"] assms(1) by (simp only: readable_def not_less)
  have next_off: "int (16 * k) + int 16 = int (16 * Suc k)" by simp
  have "readdir_loop dp ubuf (int (16 * k)) (sb\<lparr>s_layer := l\<rparr>) =
      (case dir_entry dp sb k of (ino, name) \<Rightarrow>
         if ino = 0 then readdir_loop dp buf (int (16 * Suc k)) (sb\<lparr>s_layer := l\<rparr>)
         else do {
           (a, sb1) \<leftarrow> unixfs_internal_igetattr (ucast ino) (sb\<lparr>s_layer := l\<rparr>);
           (es, sb2) \<leftarrow> readdir_loop dp buf (int (16 * Suc k)) sb1;
           Some (case a of Inl err \<Rightarrow> es | Inr st \<Rightarrow> (name, st) # es, sb2)
         })"
    by (subst readdir_loop.simps) (simp only: nextdirentry_layer in_dir next_off if_False e bind.bind_lunit sum.case prod.case)
  also have "\<dots> = stat_all (filter (\<lambda>e. fst e \<noteq> 0) (map (dir_entry dp sb) [k..<k + Suc m])) (sb\<lparr>s_layer := l\<rparr>)"
    using rest by (auto simp: upt_conv_Cons simp del: of_nat_mult of_nat_Suc upt_Suc split: prod.split bind_splits
        dest!: igetattr_layer)
  finally show ?case .
qed

text \<open>
  C18: Listing a directory gives all of its entries that are in use and whose inode can be had, in the order the
  directory has them and once each, if its blocks can be read.
\<close>

theorem listing_complete:
  assumes "readable dp sb"
  shows "readdir_loop dp [] 0 sb = stat_all (filter (\<lambda>e. fst e \<noteq> 0) (dir_entries dp sb)) sb"
  using readdir_entries [OF assms, of 0 "nat (st_size (I_stat dp)) div 16" "[]" "s_layer sb"]
  by (simp add: dir_entries_def)

section \<open>The free list\<close>



text \<open>Examples: a directory of two entries, a directory of 2050 entries, and a free list of one block.\<close>

definition ex_dir :: "u8 list" where
  "ex_dir = [0, 0] @ [65] @ replicate 13 0 @ [9, 0] @ [65] @ replicate 13 0 @ replicate 480 0"

lemma ex_dir_entries:
  "dir_entries (ex_file 0x4000 32) (ex_open (ex_file 0x4000 32) ex_dir) =
    [(0, 65 # replicate 13 0), (9, 65 # replicate 13 0)]"
proof -
  have c: "contents (ex_file 0x4000 32) (ex_open (ex_file 0x4000 32) ex_dir) = take 32 ex_dir"
    using ex_contents [of ex_dir 32 "0x4000"] by (simp add: ex_dir_def)
  show ?thesis
    unfolding dir_entries_def dir_entry_def c ex_simps by code_simp
qed

theorem listing_complete_witness:
  "readdir_loop (ex_file 0x4000 32) [] 0 (ex_open (ex_file 0x4000 32) ex_dir) =
    stat_all [(9, 65 # replicate 13 0)] (ex_open (ex_file 0x4000 32) ex_dir)"
  using listing_complete [of "ex_file 0x4000 32" "ex_open (ex_file 0x4000 32) ex_dir"]
    ex_readable(2) [of ex_dir 32 "0x4000"]
  by (simp add: ex_dir_entries) (simp add: ex_dir_def)

text \<open>2050 entries without a name, in one block that all addresses lead to, and which is the indirect block too.\<close>

definition ex_large :: inode where
  "ex_large = (new_inode 7)\<lparr>I_stat := (I_stat (new_inode 7))\<lparr>st_mode := 0x4000, st_size := 32800\<rparr>,
                 I_daddr := replicate 11 3 @ replicate 2 0\<rparr>"

definition large_block :: "u8 list" where
  "large_block = concat (replicate 128 [3, 0, 0, 0])"

lemma drop_large: "i < n \<Longrightarrow> \<exists>ys. drop (4 * i) (concat (replicate n [3, 0, 0, 0 :: u8])) = 3 # 0 # 0 # 0 # ys"
proof (induction n arbitrary: i)
  case (Suc n)
  have "drop (4 + 4 * k) (3 # 0 # 0 # 0 # xs) = drop (4 * k) xs" for k and xs :: "u8 list"
    by (simp add: add.commute [of 4] flip: drop_drop)
  with Suc show ?case by (cases i) auto
qed simp

lemma large_block_entries:
  "i < 128 \<Longrightarrow> host32 (4 * i) large_block = 3"
  "j < 32 \<Longrightarrow> dent_name large_block (16 * j) ! 0 = 0"
  "length large_block = 512"
proof -
  assume "i < 128"
  then obtain ys where "drop (4 * i) large_block = 3 # 0 # 0 # 0 # ys"
    using drop_large unfolding large_block_def by blast
  then show "host32 (4 * i) large_block = 3" by (simp add: host32_def get_bytes_def)
next
  assume "j < 32"
  then have "4 * j < 128" by simp
  then obtain ys where "drop (4 * (4 * j)) large_block = 3 # 0 # 0 # 0 # ys"
    using drop_large unfolding large_block_def by blast
  then have "drop (2 + 16 * j) large_block = 0 # 0 # ys"
    using drop_drop [of 2 "16 * j" large_block] by simp
  then show "dent_name large_block (16 * j) ! 0 = 0" by (simp add: dent_name_def get_bytes_def add.commute)
next
  show "length large_block = 512"
    unfolding large_block_def by (simp only: length_concat map_replicate sum_list_replicate list.size) simp
qed

lemma large_block_data: "b < 138 \<Longrightarrow> block_data ex_large (ex_open ex_large large_block) b = Some large_block"
proof -
  let ?sb = "ex_open ex_large large_block"
  assume b: "b < 138"
  have bread: "unixfs_internal_bread 3 ?sb = Some (0, large_block)"
    by (simp add: ex_open_def ex_volume_def unixfs_internal_bread_def get_bytes_def large_block_entries(3) del: upt_rec_numeral)
  have "file_blocks ex_large ?sb ! b = Some (0, 3)"
  proof (cases "b < 10")
    case True
    then show ?thesis
      by (simp add: file_blocks_def nth_append ex_large_def addr_result_def del: upt_rec_numeral leaves.simps)
  next
    case False
    then have i: "b - 10 < 128" using b by simp
    then have "entry ?sb 3 (b - 10) = Some (0, 3)"
      using large_block_entries(1) [OF i]
      by (simp add: entry_def bread addr_result_def fs32_to_host_def del: upt_rec_numeral)
    moreover have "file_blocks ex_large ?sb ! b = leaves ?sb 1 (Some (0, 3)) ! (b - 10)"
      using i False by (simp add: file_blocks_def nth_append ex_large_def addr_result_def del: upt_rec_numeral leaves.simps)
    moreover have "\<dots> = entry ?sb 3 (b - 10)"
      using i concat_chunks(2) [of 128 "\<lambda>i. [entry ?sb 3 i]" 1 "b - 10"] by (simp del: upt_rec_numeral)
    ultimately show ?thesis by simp
  qed
  then show ?thesis using b by (simp add: block_data_def length_file_blocks bread)
qed

theorem large_directory_lookup_fails_witness:
  "namei_scan 2050 0 [] [65] ex_large (ex_open ex_large large_block) = Some (Inl EFBIG)"
proof -
  let ?sb = "ex_open ex_large large_block"
  have size: "st_size (I_stat ex_large) = 32800" by (simp add: ex_large_def)
  have r: "readable ex_large ?sb"
    using large_block_data by (auto simp: readable_def size)
  have "\<not> matches [65] (dir_entry ex_large ?sb k)" if k: "k < 2050" for k
  proof -
    have kn: "k < nat (st_size (I_stat ex_large)) div 16" using k by (simp add: size)
    obtain buf where "block_data ex_large ?sb (k div 32) = Some buf"
      and e: "dir_entry ex_large ?sb k = (dent_ino (s_endian ?sb) buf (16 * (k mod 32)), dent_name buf (16 * (k mod 32)))"
      using dir_entry_block [OF r kn] by blast
    moreover have "k div 32 < 138" using k by simp
    ultimately have buf: "buf = large_block" using large_block_data by simp
    have "dent_name large_block (16 * (k mod 32)) ! 0 = 0"
      by (rule large_block_entries(2)) simp
    then show ?thesis
      by (cases "dent_name large_block (16 * (k mod 32))")
        (simp_all add: matches_def e buf strncmp_eq_def)
  qed
  then have none: "find (matches [65]) (take 2048 (dir_entries ex_large ?sb)) = None"
    by (auto simp: find_None_iff dir_entries_def size take_map simp del: upt_rec_numeral dest: in_set_takeD)
  show ?thesis
    using large_directory_lookup_fails [OF r _ none] by (simp add: size del: namei_scan.simps)
qed



end
