(* ===== verification/Spec2Isabelle.thy ===== *)
theory Spec2Isabelle
  imports Fuse_Protocol Fuse_Nodehash Fuse_Internal Fuse_Internal_Props Fuse_Wire Fuse_Upcall
    Fuse_Threads Fuse_Node Fuse_Ops Fuse_Names Fuse_Attrs Fuse_Locked Fuse_Readdir Fuse_Open Fuse_Io Fuse_Example
    Fuse_Data Fuse_Locking Fuse_Vfs Fuse_Vfs_Props Fuse_Events Fuse_Events_Props Fuse_Module
    Fuse_Mountprog Fuse_Mountprog_Props Fuse_Calls Fuse_Dirents Unixfs_V7_Props
begin

text \<open>
  A model of MacFUSE: its kernel extension (\<open>core/10.5/fusefs\<close>) with the program that mounts a file system,
  and one of the file systems that come with it, the Unix seventh edition (\<open>filesystems/unixfs\<close>). Paths
  below are under \<open>src/\<close>; for the kernel extension, under \<open>src/core/10.5/fusefs\<close>.

  \<^bold>\<open>How the program works.\<close> The kernel calls the vnode and volume operations of the extension. An operation
  makes a request (a ticket with a message), puts it on the queue of the session of its mount, and sleeps. The
  daemon, a user process, reads requests from \<open>/dev/fuseN\<close> and writes answers there; the write finds the
  ticket, runs its handler, and wakes the operation, which decodes the answer, keeps the attributes, names
  and handles that are cached, and tells the kernel. Nodes are found by device and inode number in a hash
  table. A daemon such as \<open>unixfs\<close> answers the requests from the bytes of a disk image.

  \<^bold>\<open>Conventions.\<close> Machine integers that matter as such are words (\<open>u8\<close> to \<open>u64\<close>); an errno is an \<open>int\<close>; sizes are
  \<open>nat\<close>. \<^term>\<open>None\<close>, \<open>Crash\<close> and the like stand for a panic, a failing assertion, \<open>abort\<close>, or the use of memory
  that is free or was never allocated; everything else an operation returns is a value. The stores of tickets,
  nodes and inodes are maps from addresses, so that two references to one object are seen as such. A
  function that gives its mutex away is cut at these places, and other threads' steps come between.

  \<^bold>\<open>Theories of the kernel extension\<close>, in the order in which they build on each other:
  \<^item> \<open>Fuse_Prelude\<close>: words and bytes, flags, lists; the locales \<open>invariant_system\<close> and, extending it,
    \<open>crash_free_system\<close>, which lift invariants of steps to runs.
  \<^item> \<open>Fuse_Kernel\<close>, \<open>Fuse_Ipc\<close>, \<open>Fuse_Device\<close>: \<open>fuse_kernel.h\<close>; tickets, queues, I/O vectors and waiting
    (\<open>fuse_ipc.c\<close>, \<open>fuse_ipc.h\<close>; state \<open>fuse_data\<close>); read, write, open, close, kill and ioctl of the device
    (\<open>fuse_device.c\<close>; state \<open>fuse_device_table\<close>).
  \<^item> \<open>Fuse_Session\<close>, \<open>Fuse_Protocol\<close>: the session as a system of requesters, daemon and environment with its
    invariant \<open>ipc_inv\<close>; the interpretation \<open>ipc\<close> of \<open>crash_free_system\<close>; delivery in both directions,
    errors, kill, interrupts, and the two ways in which a ticket is left dangling.
  \<^item> \<open>Fuse_Nodehash\<close>: \<open>fuse_nodehash.c\<close> (state \<open>hash_state\<close>), one function per section under the mutex, with the
    interpretation \<open>nodehash\<close>. A lookup alone ends within four rounds, which is proved.
  \<^item> \<open>Fuse_Internal\<close>, \<open>Fuse_Internal_Props\<close>, \<open>Fuse_Wire\<close>: the helpers of \<open>fuse_internal.h\<close> that do not ask the
    daemon; message bodies and their layout.
  \<^item> \<open>Fuse_Upcall\<close>, \<open>Fuse_Threads\<close>: operations as trees of requests and services of the kernel (\<open>upcall\<close>), on
    the state a mount shares (\<open>fuse_world\<close>); what an operation may rely on while it waits and what it
    guarantees, and the locale \<open>upcall_environment\<close>, interpreted on an environment that keeps to that.
  \<^item> \<open>Fuse_Node\<close>, \<open>Fuse_Ops\<close>, \<open>Fuse_Names\<close>, \<open>Fuse_Attrs\<close>, \<open>Fuse_Locked\<close>, \<open>Fuse_Readdir\<close>, \<open>Fuse_Open\<close>, \<open>Fuse_Io\<close>:
    \<open>fuse_node.c\<close>, \<open>fuse_file.c\<close>, \<open>fuse_internal.c\<close> and \<open>fuse_vnops.c\<close>, each operation with the lemma that it
    keeps the state of its mount steady; \<open>Fuse_Locked\<close> has the locale \<open>kept_invariant\<close>, interpreted for operations
    with and without the lock of their node.
  \<^item> \<open>Fuse_Data\<close>, \<open>Fuse_Dirents\<close>: reading, writing and paging refine one read or write of an abstract file; the
    entries of a directory survive their way to the caller.
  \<^item> \<open>Fuse_Vfs\<close>, \<open>Fuse_Vfs_Props\<close>: \<open>fuse_vfsops.c\<close> and the handshake; all or nothing for mounts and unmounts.
  \<^item> \<open>Fuse_Calls\<close>: all operations as one type of calls, none of which crashes.
  \<^item> \<open>Fuse_Locking\<close>: \<open>fuse_locking.c\<close> and the locks of \<open>fuse_biglock_vnops.c\<close>; a step relation of threads, when
    they cannot wait for each other in a circle, and three that do.
  \<^item> \<open>Fuse_Events\<close>, \<open>Fuse_Events_Props\<close>, \<open>Fuse_Module\<close>: \<open>fuse_knote.c\<close>, the handlers of \<open>fuse_sysctl.c\<close>, and loading and
    unloading (\<open>fuse_main.c\<close>).
  \<^item> \<open>Fuse_Mountprog\<close>, \<open>Fuse_Mountprog_Props\<close>: \<open>mount/mount_fusefs.c\<close> and \<open>mount/getmntopts.c\<close>, and how its
    checks agree with those of \<open>fuse_vfsop_mount\<close>.
  \<^item> \<open>Fuse_Example\<close>: the mount the witnesses use.

  \<^bold>\<open>Theories of the Unix file system\<close>:
  \<^item> \<open>Unixfs_Inodes\<close>: \<open>common/unixfs/unixfs_internal.c\<close>, the table of inodes (state \<open>inode_layer\<close>) with the threads
    that fill, await and hold them; the interpretation \<open>inodes\<close> of \<open>crash_free_system\<close>, and the crash that
    lies outside its proviso.
  \<^item> \<open>Unixfs_V7\<close>: \<open>ancientfs/ancientfs_v7.c\<close> on the bytes of an image (state \<open>super_block\<close>), and the requests of
    \<open>common/unixfs/unixfs.c\<close> on it.
  \<^item> \<open>Unixfs_V7_Props\<close>: the block map finds the leaves of the trees of indirect blocks; reads give the bytes of
    the file they make up; lookup and listing agree with the entries in these bytes; and four ways in which
    the code goes astray.

  \<^bold>\<open>Fuel.\<close> \<open>read_direct\<close> and \<open>strategy_read\<close> are given one round more than there are bytes to move, and each round
  moves at least one or ends. \<open>write_direct\<close> and \<open>strategy_write\<close> may go on for ever, so the number of rounds
  is an argument: enough rounds are a premise of the refinement theorems, and that no number is enough for a
  daemon that takes nothing is a theorem. \<open>count_free\<close>, \<open>ll_read_loop\<close> and the rounding loop are partial
  functions, whose value is \<^term>\<open>None\<close> when they do not return; that they return, or do not, is stated.

  \<^bold>\<open>Provisos.\<close> Allocation in the kernel extension succeeds where the code would panic. The kernel keeps its side:
  no operation on a vnode that is reclaimed, a service returns what its interface says. What the cluster
  layer, \<open>fstat\<close>, \<open>statfs\<close>, \<open>realpath\<close> and \<open>libfuse\<close> answer is a parameter. The machine is little-endian.

  \<^bold>\<open>Not modelled.\<close> \<open>core/10.4\<close> is an older near-copy of the tree that is modelled. \<open>fuse_kludges.c\<close> reads and
  swaps fields of private structures of the kernel. The notification centre, the desktop agents, the
  installers and the frameworks in Objective-C are glue. Of the example file systems, \<open>procfs\<close>, \<open>grabfs\<close> and the
  others show state of the system through its interfaces; the further variants of \<open>unixfs\<close> repeat the seventh
  edition with other layouts, and \<open>ufs\<close>, \<open>minixfs\<close> and \<open>sysvfs\<close> are taken from other systems. Of \<open>unixfs.c\<close> the
  options of \<open>main\<close> and the search for the module of a file system are left out, and of the kernel
  extension the select entry point, which is compiled out, and the table of tunables, which the kernel
  reads and writes by itself.
\<close>

end
